(* ===== verification/Prelude.thy ===== *)
theory Prelude
  imports Complex_Main "HOL-Library.AList" "HOL-Library.Multiset"
begin

text \<open>What the components share: the types every theory names (identifiers, times, byte strings,
results), the few Python string operations the document pipeline needs, the stable descending sort
Python's \<open>sorted(key=..., reverse=True)\<close> performs, and generic lemmas on lists and lookups that the
component proofs use through the simplifier.\<close>

section \<open>Types\<close>

text \<open>A UUID is identified with its canonical text, so that \<open>str(document_id)\<close> is the identity.
\<open>uuid.uuid4()\<close> is a parameter of the operation that calls it. Times are seconds since some epoch.
A byte string is a list of 8-bit characters, which is what HOL's \<^typ>\<open>char\<close> is.\<close>

type_synonym uuid = string
type_synonym time = int
type_synonym bytes = string
type_synonym ('e, 'a) result = "'e + 'a"

text \<open>The JSON values that audit details carry.\<close>

datatype json = JNull | JBool bool | JInt int | JStr string | JList "json list"

definition json_opt :: "string option \<Rightarrow> json" where
  "json_opt s = (case s of None \<Rightarrow> JNull | Some x \<Rightarrow> JStr x)"

section \<open>Collections of facts\<close>

named_theorems wf_intros \<open>preservation of the well-formedness of a table\<close>
named_theorems frame_simps \<open>what an operation leaves untouched\<close>
named_theorems lookup_simps \<open>what a lookup returns after a write\<close>

section \<open>Strings\<close>

definition startswith :: "string \<Rightarrow> string \<Rightarrow> bool" where
  "startswith s p = (take (length p) s = p)"

definition endswith :: "string \<Rightarrow> string \<Rightarrow> bool" where
  "endswith s p = (length p \<le> length s \<and> drop (length s - length p) s = p)"

text \<open>\<open>sub in s\<close>\<close>

fun contains :: "string \<Rightarrow> string \<Rightarrow> bool" where
  "contains sub [] = (sub = [])"
| "contains sub (c # s) = (startswith (c # s) sub \<or> contains sub s)"

text \<open>\<open>s.split(c)\<close> for a one-character separator: never an empty list.\<close>

fun split_on :: "char \<Rightarrow> string \<Rightarrow> string list" where
  "split_on c [] = [[]]"
| "split_on c (x # s) =
     (if x = c then [] # split_on c s
      else (case split_on c s of [] \<Rightarrow> [[x]] | w # ws \<Rightarrow> (x # w) # ws))"

text \<open>\<open>s.rsplit(c, 1)[-1]\<close>: everything after the last separator.\<close>

definition after_last :: "char \<Rightarrow> string \<Rightarrow> string" where
  "after_last c s = rev (takeWhile (\<lambda>x. x \<noteq> c) (rev s))"

definition replace_char :: "char \<Rightarrow> char \<Rightarrow> string \<Rightarrow> string" where
  "replace_char a b s = map (\<lambda>x. if x = a then b else x) s"

text \<open>\<open>sep.join(xs)\<close>\<close>

fun join :: "string \<Rightarrow> string list \<Rightarrow> string" where
  "join sep [] = []"
| "join sep [x] = x"
| "join sep (x # y # xs) = x @ sep @ join sep (y # xs)"

text \<open>The two quote characters, for the f-strings that contain them.\<close>

abbreviation SQ :: string where "SQ \<equiv> [CHR 0x27]"

text \<open>\<open>str(n)\<close> for a natural number.\<close>

definition digit_char :: "nat \<Rightarrow> char" where
  "digit_char d = char_of (48 + d)"

fun nat_str :: "nat \<Rightarrow> string" where
  "nat_str n = (if n < 10 then [digit_char n] else nat_str (n div 10) @ [digit_char (n mod 10)])"

declare nat_str.simps [simp del]

definition int_str :: "int \<Rightarrow> string" where
  "int_str i = (if i < 0 then CHR ''-'' # nat_str (nat (- i)) else nat_str (nat i))"

text \<open>\<open>str.lower\<close> and \<open>str.casefold\<close> on the 256 characters of the model (Latin-1): the ASCII and accented
capitals move by 32, the multiplication sign stays, and \<open>casefold\<close> expands the sharp s.\<close>

definition lower_char :: "char \<Rightarrow> char" where
  "lower_char c = (let n = of_char c :: nat in
     if (65 \<le> n \<and> n \<le> 90) \<or> (192 \<le> n \<and> n \<le> 222 \<and> n \<noteq> 215) then char_of (n + 32) else c)"

definition lower :: "string \<Rightarrow> string" where
  "lower s = map lower_char s"

definition casefold :: "string \<Rightarrow> string" where
  "casefold s = concat (map (\<lambda>c. if (of_char c :: nat) = 223 then ''ss'' else [lower_char c]) s)"

text \<open>\<open>f"{num / den:.<k>f}"\<close> for a quotient the machine represents exactly: round half to even.\<close>

definition round_half_even :: "nat \<Rightarrow> nat \<Rightarrow> nat" where
  "round_half_even num den =
     (let q = num div den; r = num mod den in
      if 2 * r < den \<or> (2 * r = den \<and> even q) then q else q + 1)"

definition pad_left :: "nat \<Rightarrow> string \<Rightarrow> string" where
  "pad_left k s = replicate (k - length s) (CHR ''0'') @ s"

definition format_fixed :: "nat \<Rightarrow> nat \<Rightarrow> nat \<Rightarrow> string" where
  "format_fixed k num den =
     (let v = round_half_even (num * 10 ^ k) den in
      nat_str (v div 10 ^ k) @ (if k = 0 then [] else CHR ''.'' # pad_left k (nat_str (v mod 10 ^ k))))"

text \<open>\<open>repr(s)\<close> of a string of Latin-1 characters, and of a list of strings.\<close>

definition hex_digit :: "nat \<Rightarrow> char" where
  "hex_digit d = (if d < 10 then char_of (48 + d) else char_of (87 + d))"

definition repr_char :: "char \<Rightarrow> char \<Rightarrow> string" where
  "repr_char quote c = (let n = of_char c :: nat in
     if c = quote \<or> c = CHR 0x5C then [CHR 0x5C, c]
     else if n = 10 then [CHR 0x5C, CHR ''n'']
     else if n = 13 then [CHR 0x5C, CHR ''r'']
     else if n = 9 then [CHR 0x5C, CHR ''t'']
     else if n < 32 \<or> (127 \<le> n \<and> n \<le> 160) \<or> n = 173
       then [CHR 0x5C, CHR ''x'', hex_digit (n div 16), hex_digit (n mod 16)]
     else [c])"

definition py_repr :: "string \<Rightarrow> string" where
  "py_repr s = (let q = (if CHR 0x27 \<in> set s \<and> CHR 0x22 \<notin> set s then CHR 0x22 else CHR 0x27)
     in [q] @ concat (map (repr_char q) s) @ [q])"

definition py_repr_list :: "string list \<Rightarrow> string" where
  "py_repr_list xs = ''['' @ join '', '' (map py_repr xs) @ '']''"

lemma startswith_append [simp]: "startswith (p @ s) p"
  by (simp add: startswith_def)

lemma startswith_Nil [simp]: "startswith s []"
  by (simp add: startswith_def)

lemma startswith_iff: "startswith s p \<longleftrightarrow> (\<exists>t. s = p @ t)"
  by (metis append_eq_conv_conj startswith_def)

lemma endswith_iff: "endswith s p \<longleftrightarrow> (\<exists>t. s = t @ p)"
proof
  assume "endswith s p"
  then have "s = take (length s - length p) s @ p"
    by (simp add: endswith_def) (metis append_take_drop_id)
  then show "\<exists>t. s = t @ p" ..
qed (auto simp: endswith_def)

lemma contains_iff: "contains sub s \<longleftrightarrow> (\<exists>a b. s = a @ sub @ b)"
proof (induction s)
  case Nil
  then show ?case by auto
next
  case (Cons c s)
  have "(\<exists>a b. c # s = a @ sub @ b) \<longleftrightarrow> (\<exists>b. c # s = sub @ b) \<or> (\<exists>a b. s = a @ sub @ b)"
  proof
    assume "\<exists>a b. c # s = a @ sub @ b"
    then obtain a b where "c # s = a @ sub @ b" by blast
    then show "(\<exists>b. c # s = sub @ b) \<or> (\<exists>a b. s = a @ sub @ b)" by (cases a) auto
  next
    assume "(\<exists>b. c # s = sub @ b) \<or> (\<exists>a b. s = a @ sub @ b)"
    then show "\<exists>a b. c # s = a @ sub @ b"
      by (metis append_Cons append_Nil)
  qed
  then show ?case using Cons by (simp add: startswith_iff)
qed

lemma contains_refl [simp]: "contains t t"
  unfolding contains_iff by (intro exI [of _ "[]"]) simp

lemma contains_trans: "contains a b \<Longrightarrow> contains b c \<Longrightarrow> contains a c"
  unfolding contains_iff by (metis append.assoc)

lemma contains_join: "x \<in> set xs \<Longrightarrow> contains x (join sep xs)"
proof (induction sep xs rule: join.induct)
  case (3 sep a b xs)
  show ?case
  proof (cases "x = a")
    case True
    then show ?thesis unfolding contains_iff by (intro exI [of _ "[]"] exI [of _ "sep @ join sep (b # xs)"]) simp
  next
    case False
    then have "contains x (join sep (b # xs))" using 3 by simp
    moreover have "contains (join sep (b # xs)) (join sep (a # b # xs))"
      unfolding contains_iff by (intro exI [of _ "a @ sep"] exI [of _ "[]"]) simp
    ultimately show ?thesis by (rule contains_trans)
  qed
qed simp_all

lemma after_last_notin [simp]: "c \<notin> set (after_last c s)"
  by (auto simp: after_last_def dest: set_takeWhileD)

lemma after_last_append [simp]: "c \<notin> set t \<Longrightarrow> after_last c (s @ c # t) = t"
proof -
  assume "c \<notin> set t"
  then have "takeWhile (\<lambda>x. x \<noteq> c) (rev t @ c # rev s) = rev t"
    by (subst takeWhile_append2) auto
  then show ?thesis by (simp add: after_last_def)
qed

lemma after_last_id [simp]: "c \<notin> set t \<Longrightarrow> after_last c t = t"
proof -
  assume "c \<notin> set t"
  then have all: "takeWhile (\<lambda>x. x \<noteq> c) (rev t) = rev t"
    by (auto simp: takeWhile_eq_all_conv)
  show ?thesis unfolding after_last_def all by simp
qed

lemma split_on_nonempty [simp]: "split_on c s \<noteq> []"
  by (induction s) (auto split: list.split)

lemma join_split_on: "join [c] (split_on c s) = s"
proof (induction s)
  case (Cons x s)
  show ?case
  proof (cases "split_on c s")
    case (Cons w ws)
    with Cons.IH show ?thesis by (cases ws) auto
  qed simp
qed simp

lemma split_on_notin: "w \<in> set (split_on c s) \<Longrightarrow> c \<notin> set w"
proof (induction s arbitrary: w)
  case (Cons x s)
  then show ?case by (cases "split_on c s") (auto split: if_splits)
qed simp

lemma length_lower [simp]: "length (lower s) = length s"
  by (simp add: lower_def)

lemma lower_append [simp]: "lower (s @ t) = lower s @ lower t"
  by (simp add: lower_def)

section \<open>Lookups by key in a table\<close>

text \<open>A table is a list of rows; the lookup of a primary key returns the only row that carries it.\<close>

lemma find_Some_mem: "find P xs = Some x \<Longrightarrow> x \<in> set xs \<and> P x"
  by (induction xs) (auto split: if_splits)

lemma find_None: "find P xs = None \<longleftrightarrow> (\<forall>x\<in>set xs. \<not> P x)"
  by (induction xs) auto

lemma find_append: "find P (xs @ ys) = (case find P xs of None \<Rightarrow> find P ys | Some x \<Rightarrow> Some x)"
  by (induction xs) auto

definition replace_key :: "('a \<Rightarrow> 'k) \<Rightarrow> 'a \<Rightarrow> 'a list \<Rightarrow> 'a list" where
  "replace_key key r rows = map (\<lambda>x. if key x = key r then r else x) rows"

lemma map_key_replace [simp]: "map key (replace_key key r rows) = map key rows"
  by (auto simp: replace_key_def)

lemma find_replace_same [lookup_simps]:
  "key r \<in> key ` set rows \<Longrightarrow> find (\<lambda>x. key x = key r) (replace_key key r rows) = Some r"
  by (induction rows) (auto simp: replace_key_def)

lemma find_replace_other [lookup_simps]:
  "k \<noteq> key r \<Longrightarrow> find (\<lambda>x. key x = k) (replace_key key r rows) = find (\<lambda>x. key x = k) rows"
  by (induction rows) (auto simp: replace_key_def)

lemma length_replace_key [simp]: "length (replace_key key r rows) = length rows"
  by (simp add: replace_key_def)

lemma set_replace_key:
  "set (replace_key key r rows) =
     (if key r \<in> key ` set rows then insert r {x \<in> set rows. key x \<noteq> key r}
      else {x \<in> set rows. key x \<noteq> key r})"
  by (auto simp: replace_key_def image_iff)

lemma distinct_key_unique:
  "\<lbrakk> distinct (map key rows); x \<in> set rows; y \<in> set rows; key x = key y \<rbrakk> \<Longrightarrow> x = y"
  by (auto simp: distinct_map inj_on_def)

lemma find_key_iff:
  "distinct (map key rows) \<Longrightarrow>
     find (\<lambda>x. key x = k) rows = Some r \<longleftrightarrow> r \<in> set rows \<and> key r = k"
  by (induction rows) auto

text \<open>SQL's \<open>UPDATE ... WHERE\<close>: every row the predicate keeps is rewritten.\<close>

definition update_where :: "('a \<Rightarrow> bool) \<Rightarrow> ('a \<Rightarrow> 'a) \<Rightarrow> 'a list \<Rightarrow> 'a list" where
  "update_where P f rows = map (\<lambda>r. if P r then f r else r) rows"

lemma length_update_where [simp]: "length (update_where P f rows) = length rows"
  by (simp add: update_where_def)

lemma map_update_where:
  "(\<And>r. P r \<Longrightarrow> key (f r) = key r) \<Longrightarrow> map key (update_where P f rows) = map key rows"
  by (auto simp: update_where_def)

lemma set_update_where: "set (update_where P f rows) = f ` {r \<in> set rows. P r} \<union> {r \<in> set rows. \<not> P r}"
  by (auto simp: update_where_def)

lemma update_where_Nil [simp]: "update_where P f [] = []"
  by (simp add: update_where_def)

lemma update_where_Cons [simp]:
  "update_where P f (r # rows) = (if P r then f r else r) # update_where P f rows"
  by (simp add: update_where_def)

lemma find_update_where [lookup_simps]:
  "(\<And>r. P r \<Longrightarrow> key (f r) = key r) \<Longrightarrow>
   find (\<lambda>x. key x = k) (update_where P f rows) =
     map_option (\<lambda>r. if P r then f r else r) (find (\<lambda>x. key x = k) rows)"
  by (induction rows) auto

section \<open>The stable descending sort\<close>

text \<open>Python's \<open>sorted(xs, key=f, reverse=True)\<close> is stable: rows with equal keys keep their order.\<close>

definition sort_desc :: "('a \<Rightarrow> int) \<Rightarrow> 'a list \<Rightarrow> 'a list" where
  "sort_desc key xs = sort_key (\<lambda>x. - key x) xs"

lemma mset_sort_desc [simp]: "mset (sort_desc key xs) = mset xs"
  by (simp add: sort_desc_def)

lemma set_sort_desc [simp]: "set (sort_desc key xs) = set xs"
  by (simp add: sort_desc_def)

lemma length_sort_desc [simp]: "length (sort_desc key xs) = length xs"
  by (simp add: sort_desc_def)

lemma sorted_sort_desc: "sorted_wrt (\<lambda>x y. key y \<le> key x) (sort_desc key xs)"
proof -
  have "sorted_wrt (\<le>) (map (\<lambda>x. - key x) (sort_desc key xs))"
    by (simp add: sort_desc_def)
  then show ?thesis
    by (simp add: sorted_wrt_map)
qed

lemma sort_desc_stable: "filter (\<lambda>x. key x = k) (sort_desc key xs) = filter (\<lambda>x. key x = k) xs"
proof -
  have "filter (\<lambda>x. - key x = - k) (sort_key (\<lambda>x. - key x) xs) = filter (\<lambda>x. - key x = - k) xs"
    by (rule sort_key_stable)
  then show ?thesis by (simp add: sort_desc_def)
qed

lemma distinct_sort_desc [simp]: "distinct (sort_desc key xs) = distinct xs"
  by (simp add: sort_desc_def)

text \<open>Related lists stay related when they are filtered, sorted or cut in the same way.\<close>

lemma list_all2_filter:
  assumes "list_all2 R xs ys" and "\<And>x y. R x y \<Longrightarrow> P x = Q y"
  shows "list_all2 R (filter P xs) (filter Q ys)"
  using assms(1) by (induction rule: list_all2_induct) (auto simp: assms(2))

lemma list_all2_insort_key:
  assumes "list_all2 R xs ys" and "R x y" and "\<And>x y. R x y \<Longrightarrow> f x = g y"
  shows "list_all2 R (insort_key f x xs) (insort_key g y ys)"
  using assms(1) by (induction rule: list_all2_induct) (auto simp: assms(2) assms(3) [OF assms(2)] assms(3))

lemma list_all2_sort_desc:
  assumes "list_all2 R xs ys" and keys: "\<And>x y. R x y \<Longrightarrow> f x = g y"
  shows "list_all2 R (sort_desc f xs) (sort_desc g ys)"
  using assms(1)
proof (induction rule: list_all2_induct)
  case (Cons x xs y ys)
  have "list_all2 R (insort_key (\<lambda>x. - f x) x (sort_key (\<lambda>x. - f x) xs))
      (insort_key (\<lambda>x. - g x) y (sort_key (\<lambda>x. - g x) ys))"
    using Cons keys by (intro list_all2_insort_key) (auto simp: sort_desc_def)
  then show ?case by (simp add: sort_desc_def)
qed (simp add: sort_desc_def)

section \<open>Sub-lists\<close>

lemma sum_list_le_length: "(\<And>x. x \<in> set xs \<Longrightarrow> f x \<le> (c::nat)) \<Longrightarrow> sum_list (map f xs) \<le> c * length xs"
  by (induction xs) (auto simp: add.commute add_mono)

lemma distinct_map_filter: "distinct (map f xs) \<Longrightarrow> distinct (map f (filter P xs))"
  by (induction xs) auto

lemma set_map_filter_Some: "set (List.map_filter f xs) = {y. \<exists>x\<in>set xs. f x = Some y}"
  by (induction xs) (auto simp: List.map_filter_simps split: option.splits)

end
