(* ===== verification/DataModel.thy ===== *)
theory DataModel
  imports Prelude
begin

text \<open>The data of the pipeline: the enumerations of \<open>db/enums.py\<close>, the rows of \<open>db/models.py\<close> that the
modelled components read or write (documents, passages, jobs, the audit log), the transfer objects of
\<open>document_pipeline/models.py\<close>, and the world the components share: the four tables and the object
store. A database row of \<open>documents\<close> and its transfer object have the same fields, so one record stands
for both. Constructors keep the source's names; two enumerations that share one are told apart by the
type's name (\<open>DocumentStatus.REJECTED\<close>, \<open>JobStatus.FAILED\<close>).\<close>

section \<open>Enumerations\<close>

datatype DocumentStatus =
    UPLOADED | QUARANTINED | VALIDATED | VALIDATION_FAILED | REJECTED | EXTRACTED
  | EXTRACTION_FAILED | NORMALIZATION_FAILED | AWAITING_CLASSIFICATION | CHUNKED
  | CHUNKING_FAILED | EMBEDDING_FAILED | SKIPPED_UNSUPPORTED_LANGUAGE | DUPLICATE | LIVE
  | SUPERSEDED | ARCHIVED

datatype Classification = PUBLIC | RESTRICTED

datatype UserRole = ADMIN | USER

datatype JobStage = SCAN | EXTRACT | NORMALIZE | CHUNK | EMBED

datatype JobStatus = PENDING | RUNNING | COMPLETED | FAILED

datatype AuditEventType =
    DOCUMENT_UPLOADED | DOCUMENT_QUARANTINED | VALIDATION_PASSED | VALIDATION_FAILED
  | DOCUMENT_PROMOTED | DOCUMENT_REJECTED | DOCUMENT_SUPERSEDED | DOCUMENT_ARCHIVED
  | DOCUMENT_DELETED | EXTRACTION_COMPLETED | EXTRACTION_FAILED | NORMALIZATION_COMPLETED
  | NORMALIZATION_FAILED | DOCUMENT_RECLASSIFIED | CHUNKING_COMPLETED | CHUNKING_FAILED
  | EMBEDDING_COMPLETED | EMBEDDING_FAILED | EMBEDDING_SKIPPED | DOCUMENT_RESTORED

text \<open>The string value of an enumeration member is its name.\<close>

definition classification_value :: "Classification \<Rightarrow> string" where
  "classification_value c = (case c of PUBLIC \<Rightarrow> ''PUBLIC'' | RESTRICTED \<Rightarrow> ''RESTRICTED'')"

definition role_value :: "UserRole \<Rightarrow> string" where
  "role_value r = (case r of ADMIN \<Rightarrow> ''ADMIN'' | USER \<Rightarrow> ''USER'')"

lemma classification_value_inj [simp]:
  "classification_value a = classification_value b \<longleftrightarrow> a = b"
  by (cases a; cases b) (simp_all add: classification_value_def)

definition status_value :: "DocumentStatus \<Rightarrow> string" where
  "status_value s = (case s of
     UPLOADED \<Rightarrow> ''UPLOADED'' | QUARANTINED \<Rightarrow> ''QUARANTINED'' | VALIDATED \<Rightarrow> ''VALIDATED''
   | DocumentStatus.VALIDATION_FAILED \<Rightarrow> ''VALIDATION_FAILED'' | REJECTED \<Rightarrow> ''REJECTED''
   | EXTRACTED \<Rightarrow> ''EXTRACTED'' | DocumentStatus.EXTRACTION_FAILED \<Rightarrow> ''EXTRACTION_FAILED''
   | DocumentStatus.NORMALIZATION_FAILED \<Rightarrow> ''NORMALIZATION_FAILED''
   | AWAITING_CLASSIFICATION \<Rightarrow> ''AWAITING_CLASSIFICATION'' | CHUNKED \<Rightarrow> ''CHUNKED''
   | DocumentStatus.CHUNKING_FAILED \<Rightarrow> ''CHUNKING_FAILED''
   | DocumentStatus.EMBEDDING_FAILED \<Rightarrow> ''EMBEDDING_FAILED''
   | SKIPPED_UNSUPPORTED_LANGUAGE \<Rightarrow> ''SKIPPED_UNSUPPORTED_LANGUAGE'' | DUPLICATE \<Rightarrow> ''DUPLICATE''
   | LIVE \<Rightarrow> ''LIVE'' | SUPERSEDED \<Rightarrow> ''SUPERSEDED'' | ARCHIVED \<Rightarrow> ''ARCHIVED'')"

section \<open>Rows\<close>

record document =
  doc_id :: uuid
  filename :: string
  owner_id :: "uuid option"
  title :: "string option"
  description :: "string option"
  mime_type :: string
  page_count :: "nat option"
  extraction_method :: "string option"
  upload_batch_id :: "uuid option"
  size :: nat
  checksum :: "string option"
  status :: DocumentStatus
  classification :: "Classification option"
  document_date :: "time option"
  version :: nat
  supersedes_id :: "uuid option"
  quarantine_path :: "string option"
  raw_path :: "string option"
  rejection_reason :: "string option"
  created_at :: time
  updated_at :: time
  deleted_at :: "time option"
  purged_at :: "time option"

text \<open>A transfer object with the defaults of its class; id, name, size and creation time are given.\<close>

definition new_document :: "uuid \<Rightarrow> string \<Rightarrow> nat \<Rightarrow> time \<Rightarrow> document" where
  "new_document i name n now =
     \<lparr> doc_id = i, filename = name, owner_id = None, title = None, description = None,
       mime_type = ''application/pdf'', page_count = None, extraction_method = None,
       upload_batch_id = None, size = n, checksum = None, status = UPLOADED, classification = None,
       document_date = None, version = 1, supersedes_id = None, quarantine_path = None,
       raw_path = None, rejection_reason = None, created_at = now, updated_at = now,
       deleted_at = None, purged_at = None \<rparr>"

record chunk =
  chunk_document_id :: uuid
  chunk_scale :: string
  chunk_index :: nat
  chunk_text :: string
  page_number :: "nat option"
  section_heading :: "string option"
  is_table :: bool
  char_count :: nat
  document_title :: "string option"
  embedding :: "rat list option"

record job =
  job_id :: uuid
  job_document_id :: uuid
  job_stage :: JobStage
  job_status :: JobStatus
  priority :: int
  retry_count :: nat
  max_retries :: nat
  scheduled_at :: time
  started_at :: "time option"
  finished_at :: "time option"
  worker_id :: "string option"
  lease_expires_at :: "time option"
  error_message :: "string option"

text \<open>\<open>Job(job_id=..., document_id=..., stage=..., status=PENDING)\<close> with the column defaults.\<close>

definition new_job :: "uuid \<Rightarrow> uuid \<Rightarrow> JobStage \<Rightarrow> time \<Rightarrow> job" where
  "new_job j d st now =
     \<lparr> job_id = j, job_document_id = d, job_stage = st, job_status = PENDING, priority = 0,
       retry_count = 0, max_retries = 3, scheduled_at = now, started_at = None, finished_at = None,
       worker_id = None, lease_expires_at = None, error_message = None \<rparr>"

record audit_entry =
  audit_document_id :: uuid
  event_type :: AuditEventType
  details :: "(string \<times> json) list"
  audit_user_id :: "string option"
  correlation_id :: "uuid option"

section \<open>The shared world\<close>

text \<open>The object store maps a bucket and a key to bytes; an association list keeps it executable.\<close>

type_synonym object_store = "((string \<times> string) \<times> bytes) list"

record world =
  documents :: "document list"
  jobs :: "job list"
  audit_log :: "audit_entry list"
  chunks :: "chunk list"
  objects :: object_store

definition empty_world :: world where
  "empty_world = \<lparr> documents = [], jobs = [], audit_log = [], chunks = [], objects = [] \<rparr>"

section \<open>The audit log\<close>

text \<open>\<open>AuditService.log_event\<close> appends one row and commits. The log has no other operation.\<close>

definition log_event ::
  "uuid \<Rightarrow> AuditEventType \<Rightarrow> (string \<times> json) list \<Rightarrow> string option \<Rightarrow> uuid option \<Rightarrow> world \<Rightarrow> world" where
  "log_event d ev det usr corr w =
     w\<lparr> audit_log := audit_log w @
         [\<lparr> audit_document_id = d, event_type = ev, details = det, audit_user_id = usr,
            correlation_id = corr \<rparr>] \<rparr>"

lemma log_event_frame [simp, frame_simps]:
  "documents (log_event d ev det u c w) = documents w"
  "jobs (log_event d ev det u c w) = jobs w"
  "chunks (log_event d ev det u c w) = chunks w"
  "objects (log_event d ev det u c w) = objects w"
  by (simp_all add: log_event_def)

text \<open>Whether a document already has an event of a type: the query of the handlers' guard.\<close>

definition has_event :: "uuid \<Rightarrow> AuditEventType \<Rightarrow> world \<Rightarrow> bool" where
  "has_event d ev w = list_ex (\<lambda>e. audit_document_id e = d \<and> event_type e = ev) (audit_log w)"

definition events_of :: "uuid \<Rightarrow> world \<Rightarrow> AuditEventType list" where
  "events_of d w = map event_type (filter (\<lambda>e. audit_document_id e = d) (audit_log w))"

lemma events_of_log_event [simp]:
  "events_of d (log_event d' ev det u c w) = events_of d w @ (if d' = d then [ev] else [])"
  by (simp add: events_of_def log_event_def)

lemma has_event_iff: "has_event d ev w \<longleftrightarrow> ev \<in> set (events_of d w)"
  by (auto simp: has_event_def events_of_def list_ex_iff)

section \<open>What an endpoint can raise\<close>

text \<open>An \<open>HTTPException\<close> with its status and detail, or an exception no handler of the API catches.\<close>

datatype http_error = HttpError nat string | Unhandled string

end
