(* ===== verification/Access.thy ===== *)
theory Access
  imports DataModel
begin

text \<open>\<open>modules/auth/access.py\<close>: the visibility rule in its two forms, the Python predicate on a loaded
document and the SQL clause the queries filter with, and the ordering of the two tiers that
deduplication uses. The clause is modelled as the expression the code builds; its meaning on a row is
SQL's three-valued logic, where \<open>NULL\<close> is \<open>None\<close>.\<close>

section \<open>The Python predicate\<close>

definition is_admin :: "string option \<Rightarrow> bool" where
  "is_admin role = (role = Some (role_value ADMIN))"

definition can_view ::
  "Classification option \<Rightarrow> uuid option \<Rightarrow> uuid option \<Rightarrow> bool \<Rightarrow> bool" where
  "can_view cls owner viewer viewer_is_admin =
     (if cls \<noteq> Some RESTRICTED then True
      else if viewer_is_admin then True
      else owner \<noteq> None \<and> owner = viewer)"

definition tier_rank :: "Classification option \<Rightarrow> nat" where
  "tier_rank cls = (if cls = Some RESTRICTED then 1 else 0)"

definition is_stricter :: "Classification option \<Rightarrow> Classification option \<Rightarrow> bool" where
  "is_stricter candidate current = (tier_rank candidate > tier_rank current)"

section \<open>The SQL clause\<close>

text \<open>The column expressions the clause is made of, and a value of SQL's \<open>BOOLEAN\<close>.\<close>

datatype column = ClassificationCol | UploaderUserIdCol

datatype clause =
    STrue
  | SIsDistinctFrom column string
  | SEqUuid column "uuid option"
  | SOr clause clause

type_synonym sql_bool = "bool option"

fun column_value :: "column \<Rightarrow> document \<Rightarrow> string option" where
  "column_value ClassificationCol d = map_option classification_value (classification d)"
| "column_value UploaderUserIdCol d = owner_id d"

fun sql_or :: "sql_bool \<Rightarrow> sql_bool \<Rightarrow> sql_bool" where
  "sql_or (Some True) b = Some True"
| "sql_or a (Some True) = Some True"
| "sql_or (Some False) (Some False) = Some False"
| "sql_or a b = None"

definition sql_eq :: "string option \<Rightarrow> string option \<Rightarrow> sql_bool" where
  "sql_eq a b = (case (a, b) of (Some x, Some y) \<Rightarrow> Some (x = y) | _ \<Rightarrow> None)"

definition sql_neq :: "string option \<Rightarrow> string option \<Rightarrow> sql_bool" where
  "sql_neq a b = map_option Not (sql_eq a b)"

definition sql_is_distinct_from :: "string option \<Rightarrow> string option \<Rightarrow> sql_bool" where
  "sql_is_distinct_from a b = Some (a \<noteq> b)"

fun eval_clause :: "clause \<Rightarrow> document \<Rightarrow> sql_bool" where
  "eval_clause STrue d = Some True"
| "eval_clause (SIsDistinctFrom c v) d = sql_is_distinct_from (column_value c d) (Some v)"
| "eval_clause (SEqUuid c v) d = sql_eq (column_value c d) v"
| "eval_clause (SOr a b) d = sql_or (eval_clause a d) (eval_clause b d)"

text \<open>A \<open>WHERE\<close> clause keeps the rows on which it is true, neither false nor null.\<close>

definition where_keeps :: "clause \<Rightarrow> document \<Rightarrow> bool" where
  "where_keeps c d = (eval_clause c d = Some True)"

definition visible_documents_clause :: "uuid option \<Rightarrow> bool \<Rightarrow> clause" where
  "visible_documents_clause viewer viewer_is_admin =
     (if viewer_is_admin then STrue
      else (let not_restricted = SIsDistinctFrom ClassificationCol (classification_value RESTRICTED)
            in if viewer = None then not_restricted
               else SOr not_restricted (SEqUuid UploaderUserIdCol viewer)))"

text \<open>The rule as the queries of the model apply it to a row.\<close>

definition row_visible :: "uuid option \<Rightarrow> bool \<Rightarrow> document \<Rightarrow> bool" where
  "row_visible viewer adm d = where_keeps (visible_documents_clause viewer adm) d"

lemma sql_or_True: "sql_or a b = Some True \<longleftrightarrow> a = Some True \<or> b = Some True"
  by (cases "(a, b)" rule: sql_or.cases) auto

lemma sql_eq_True: "sql_eq a b = Some True \<longleftrightarrow> a \<noteq> None \<and> a = b"
  by (auto simp: sql_eq_def split: option.splits)

text \<open>Shared by the property below and by the queries of the repository and of retrieval.\<close>

lemma row_visible_iff [lookup_simps]:
  "row_visible viewer adm d = can_view (classification d) (owner_id d) viewer adm"
  by (cases viewer; cases "classification d")
     (auto simp: row_visible_def where_keeps_def visible_documents_clause_def can_view_def
        sql_is_distinct_from_def sql_or_True sql_eq_True Let_def)

lemma can_view_admin [simp]: "can_view c ow v True"
  by (simp add: can_view_def)

lemma can_view_owner [simp]: "can_view c (Some u) (Some u) adm"
  by (simp add: can_view_def)

text \<open>C1: The SQL clause the queries filter with and the Python predicate on a loaded document are the
same rule: on every row, for every viewer (anonymous included) and either role, the \<open>WHERE\<close> clause is
true exactly when \<open>can_view\<close> is, a \<open>NULL\<close> classification being visible to all; and the clause never
evaluates to \<open>NULL\<close> on a row of an unrestricted document.\<close>

theorem visible_clause_is_can_view:
  "where_keeps (visible_documents_clause viewer adm) d
     = can_view (classification d) (owner_id d) viewer adm
   \<and> (classification d = Some RESTRICTED \<or>
        eval_clause (visible_documents_clause viewer adm) d = Some True)"
  using row_visible_iff [of viewer adm d]
  by (auto simp: row_visible_def where_keeps_def can_view_def)

lemma is_stricter_iff:
  "is_stricter a b \<longleftrightarrow> a = Some RESTRICTED \<and> b \<noteq> Some RESTRICTED"
  by (auto simp: is_stricter_def tier_rank_def)

end
