(* ===== verification/Validation.thy ===== *)
theory Validation
  imports DataModel
begin

text \<open>\<open>document_pipeline/formats.py\<close> and \<open>validation.py\<close>: the registry of the four formats, the container
and structural checks of the two container families, content-based format detection, the threat
scanner and the fail-fast ladder of \<open>FileValidator.validate\<close>. The zip and PDF parsers and SHA-256 are
third-party code: they are the fields of \<open>toolkit\<close>, an argument of every definition that calls them.\<close>

section \<open>Third-party parsers as parameters\<close>

text \<open>What \<open>pypdf.PdfReader\<close> says of the bytes: encrypted, a number of pages, or an exception with its
text. \<open>zipfile\<close> yields the central directory (name and declared size) or an exception the code catches.\<close>

datatype pdf_outcome = PdfEncrypted | PdfPages nat | PdfError string

record toolkit =
  pdf_open :: "bytes \<Rightarrow> pdf_outcome"
  zip_infolist :: "bytes \<Rightarrow> (string \<times> nat) list option"
  sha256_hex :: "bytes \<Rightarrow> string"

section \<open>The registry of formats\<close>

definition PDF_MIME :: string where "PDF_MIME = ''application/pdf''"
definition DOCX_MIME :: string where
  "DOCX_MIME = ''application/vnd.openxmlformats-officedocument.wordprocessingml.document''"
definition XLSX_MIME :: string where
  "XLSX_MIME = ''application/vnd.openxmlformats-officedocument.spreadsheetml.sheet''"
definition PPTX_MIME :: string where
  "PPTX_MIME = ''application/vnd.openxmlformats-officedocument.presentationml.presentation''"

definition PDF_MAGIC :: bytes where "PDF_MAGIC = ''%PDF-''"
definition PDF_TRAILER :: bytes where "PDF_TRAILER = ''%%EOF''"
definition ZIP_MAGIC :: bytes where "ZIP_MAGIC = [CHR ''P'', CHR ''K'', CHR 0x03, CHR 0x04]"
definition OLE_MAGIC :: bytes where
  "OLE_MAGIC = [CHR 0xD0, CHR 0xCF, CHR 0x11, CHR 0xE0, CHR 0xA1, CHR 0xB1, CHR 0x1A, CHR 0xE1]"

definition MAX_PDF_PAGES :: nat where "MAX_PDF_PAGES = 5000"
definition CONTENT_TYPES_PART :: string where "CONTENT_TYPES_PART = ''[Content_Types].xml''"
definition MAX_OOXML_ENTRIES :: nat where "MAX_OOXML_ENTRIES = 10000"
definition MAX_OOXML_UNCOMPRESSED_BYTES :: nat where
  "MAX_OOXML_UNCOMPRESSED_BYTES = 500 * 1024 * 1024"

record structural_result =
  ok :: bool
  sr_rejection_reason :: "string option"
  unit_count :: "nat option"

definition sr_fail :: "string \<Rightarrow> structural_result" where
  "sr_fail r = \<lparr> ok = False, sr_rejection_reason = Some r, unit_count = None \<rparr>"

definition sr_ok :: "nat option \<Rightarrow> structural_result" where
  "sr_ok n = \<lparr> ok = True, sr_rejection_reason = None, unit_count = n \<rparr>"

lemma sr_simps [simp]:
  "ok (sr_fail r) = False" "ok (sr_ok n) = True"
  "sr_rejection_reason (sr_fail r) = Some r" "sr_rejection_reason (sr_ok n) = None"
  "unit_count (sr_ok n) = n"
  by (simp_all add: sr_fail_def sr_ok_def)

text \<open>The two pairs of check functions a \<open>FormatSpec\<close> holds.\<close>

datatype container_family = PdfFamily | OoxmlFamily

record format_spec =
  spec_mime :: string
  extension :: string
  label :: string
  zip_marker :: "string option"
  unit_prefix :: "string option"
  family :: container_family

definition PDF_SPEC :: format_spec where
  "PDF_SPEC = \<lparr> spec_mime = PDF_MIME, extension = ''.pdf'', label = ''PDF'', zip_marker = None,
     unit_prefix = None, family = PdfFamily \<rparr>"

definition DOCX_SPEC :: format_spec where
  "DOCX_SPEC = \<lparr> spec_mime = DOCX_MIME, extension = ''.docx'', label = ''Word document (.docx)'',
     zip_marker = Some ''word/document.xml'', unit_prefix = None, family = OoxmlFamily \<rparr>"

definition XLSX_SPEC :: format_spec where
  "XLSX_SPEC = \<lparr> spec_mime = XLSX_MIME, extension = ''.xlsx'', label = ''Excel workbook (.xlsx)'',
     zip_marker = Some ''xl/workbook.xml'', unit_prefix = Some ''xl/worksheets/sheet'',
     family = OoxmlFamily \<rparr>"

definition PPTX_SPEC :: format_spec where
  "PPTX_SPEC = \<lparr> spec_mime = PPTX_MIME, extension = ''.pptx'', label = ''PowerPoint deck (.pptx)'',
     zip_marker = Some ''ppt/presentation.xml'', unit_prefix = Some ''ppt/slides/slide'',
     family = OoxmlFamily \<rparr>"

definition FORMATS :: "(string \<times> format_spec) list" where
  "FORMATS = [(PDF_MIME, PDF_SPEC), (DOCX_MIME, DOCX_SPEC), (XLSX_MIME, XLSX_SPEC), (PPTX_MIME, PPTX_SPEC)]"

definition OOXML_SPECS :: "format_spec list" where
  "OOXML_SPECS = filter (\<lambda>s. zip_marker s \<noteq> None) (map snd FORMATS)"

definition SUPPORTED_LABELS :: string where
  "SUPPORTED_LABELS = join '', '' (map (label \<circ> snd) FORMATS)"

definition OOXML_EXTENSIONS :: string where
  "OOXML_EXTENSIONS = join '', '' (map extension OOXML_SPECS)"

definition spec_for :: "string \<Rightarrow> format_spec option" where
  "spec_for mime = map_of FORMATS mime"

section \<open>The checks of a PDF\<close>

definition pdf_container :: "bytes \<Rightarrow> structural_result" where
  "pdf_container data =
     (if \<not> startswith data PDF_MAGIC
      then sr_fail ''CORRUPTED_PDF_STRUCTURE: Missing '%PDF-' header marker.''
      else
        let trailer_window = (if length data \<ge> 1024 then drop (length data - 1024) data else data) in
        if \<not> contains PDF_TRAILER trailer_window
        then sr_fail ''CORRUPTED_PDF_STRUCTURE: Missing '%%EOF' end-of-file trailer marker.''
        else sr_ok None)"

definition ENCRYPTED_PDF_REASON :: string where
  "ENCRYPTED_PDF_REASON =
     ''ENCRYPTED_PDF: Password-protected or encrypted PDFs are not supported.''"

definition pdf_structure :: "toolkit \<Rightarrow> bytes \<Rightarrow> structural_result" where
  "pdf_structure tk data =
     (case pdf_open tk data of
        PdfEncrypted \<Rightarrow> sr_fail ENCRYPTED_PDF_REASON
      | PdfError e \<Rightarrow>
          (if contains ''encrypt'' (lower e) \<or> contains ''password'' (lower e)
           then sr_fail ENCRYPTED_PDF_REASON
           else sr_fail (''CORRUPTED_PDF_STRUCTURE: Malformed internal PDF structure ('' @ e @ '').''))
      | PdfPages n \<Rightarrow>
          (if n > MAX_PDF_PAGES
           then sr_fail (''PAGE_LIMIT_EXCEEDED: PDF has '' @ nat_str n @ '' pages (Max: ''
                         @ nat_str MAX_PDF_PAGES @ '').'')
           else sr_ok (Some n)))"

section \<open>The checks of an Office file\<close>

definition is_unsafe_entry :: "string \<Rightarrow> bool" where
  "is_unsafe_entry name =
     (let normalised = replace_char (CHR 0x5C) (CHR ''/'') name in
      startswith normalised ''/''
      \<or> ''..'' \<in> set (split_on (CHR ''/'') normalised)
      \<or> (length normalised > 1 \<and> normalised ! 1 = CHR '':''))"

definition ooxml_names :: "toolkit \<Rightarrow> bytes \<Rightarrow> string list option" where
  "ooxml_names tk data = map_option (map fst) (zip_infolist tk data)"

definition has_part :: "string list \<Rightarrow> string option \<Rightarrow> bool" where
  "has_part names part =
     (case part of None \<Rightarrow> False
      | Some p \<Rightarrow> list_ex (\<lambda>name. casefold name = casefold p) names)"

definition has_entry_named :: "string list \<Rightarrow> string \<Rightarrow> bool" where
  "has_entry_named names basename =
     list_ex (\<lambda>name. casefold (after_last (CHR ''/'') name) = casefold basename) names"

definition ooxml_container :: "toolkit \<Rightarrow> bytes \<Rightarrow> structural_result" where
  "ooxml_container tk data =
     (if startswith data OLE_MAGIC
      then sr_fail (''ENCRYPTED_OOXML: This is a password-protected or legacy Office file. Remove the ''
             @ ''password or re-save it as .docx/.xlsx/.pptx and upload again.'')
      else case ooxml_names tk data of
        None \<Rightarrow> sr_fail ''CORRUPTED_OOXML_STRUCTURE: Not a readable Office file (unreadable archive).''
      | Some names \<Rightarrow>
          (if \<not> has_part names (Some CONTENT_TYPES_PART)
           then sr_fail (''CORRUPTED_OOXML_STRUCTURE: Missing '' @ SQ @ CONTENT_TYPES_PART @ SQ
                  @ '' - not a valid Office file.'')
           else sr_ok None))"

definition ooxml_structure :: "toolkit \<Rightarrow> format_spec \<Rightarrow> bytes \<Rightarrow> structural_result" where
  "ooxml_structure tk spec data =
     (case zip_infolist tk data of
        None \<Rightarrow> sr_fail ''CORRUPTED_OOXML_STRUCTURE: Not a readable Office file (unreadable archive).''
      | Some infolist \<Rightarrow>
          let names = map fst infolist; total_uncompressed = sum_list (map snd infolist) in
          if length infolist > MAX_OOXML_ENTRIES
          then sr_fail (''TOO_MANY_ARCHIVE_ENTRIES: Office file contains '' @ nat_str (length infolist)
                 @ '' archive entries (Max: '' @ nat_str MAX_OOXML_ENTRIES @ '').'')
          else if total_uncompressed > MAX_OOXML_UNCOMPRESSED_BYTES
          then sr_fail (''ARCHIVE_TOO_LARGE: Office file declares ''
                 @ format_fixed 0 total_uncompressed (1024 * 1024)
                 @ ''MB of uncompressed content (Max: ''
                 @ nat_str (MAX_OOXML_UNCOMPRESSED_BYTES div (1024 * 1024)) @ ''MB).'')
          else if has_entry_named names ''vbaProject.bin''
          then sr_fail (''MACRO_ENABLED_DOCUMENT: This file contains macros. Re-save it without macros ''
                 @ ''(.docx/.xlsx/.pptx) and upload again.'')
          else case find is_unsafe_entry names of
            Some unsafe \<Rightarrow>
              sr_fail (''UNSAFE_ARCHIVE_ENTRY: Office file contains an illegal entry path (''
                 @ py_repr unsafe @ '').'')
          | None \<Rightarrow>
              if \<not> has_part names (zip_marker spec)
              then
                let detail =
                      (case find (\<lambda>other. has_part names (zip_marker other)) OOXML_SPECS of
                         Some other \<Rightarrow> ''file is actually '' @ label other
                       | None \<Rightarrow> ''content does not match any known type'')
                in sr_fail (''CORRUPTED_OOXML_STRUCTURE: Expected '' @ label spec @ '' (missing '' @ SQ
                      @ (case zip_marker spec of None \<Rightarrow> ''None'' | Some m \<Rightarrow> m) @ SQ @ '') - ''
                      @ detail @ ''.'')
              else sr_ok (case unit_prefix spec of
                     None \<Rightarrow> None
                   | Some pre \<Rightarrow> Some (length (filter (\<lambda>name. startswith name pre) names))))"

text \<open>The two indirect calls \<open>spec.container_check(data, spec)\<close> and \<open>spec.structural_check(data, spec)\<close>.\<close>

definition container_check :: "toolkit \<Rightarrow> format_spec \<Rightarrow> bytes \<Rightarrow> structural_result" where
  "container_check tk spec data =
     (case family spec of PdfFamily \<Rightarrow> pdf_container data | OoxmlFamily \<Rightarrow> ooxml_container tk data)"

definition structural_check :: "toolkit \<Rightarrow> format_spec \<Rightarrow> bytes \<Rightarrow> structural_result" where
  "structural_check tk spec data =
     (case family spec of
        PdfFamily \<Rightarrow> pdf_structure tk data | OoxmlFamily \<Rightarrow> ooxml_structure tk spec data)"

definition detect_format :: "toolkit \<Rightarrow> bytes \<Rightarrow> format_spec option" where
  "detect_format tk data =
     (if startswith data PDF_MAGIC then map_of FORMATS PDF_MIME
      else if startswith data ZIP_MAGIC
      then (case ooxml_names tk data of
              None \<Rightarrow> None
            | Some names \<Rightarrow> find (\<lambda>spec. has_part names (zip_marker spec)) OOXML_SPECS)
      else None)"

definition describe_unsupported :: "bytes \<Rightarrow> string option \<Rightarrow> string" where
  "describe_unsupported data declared_mime =
     (if startswith data OLE_MAGIC
      then ''This is a password-protected or legacy Office file (.doc/.xls/.ppt). Re-save it as ''
           @ OOXML_EXTENSIONS @ '' and upload again.''
      else
        let declared = (case declared_mime of None \<Rightarrow> ''''
               | Some m \<Rightarrow> if m = [] then '''' else '' (declared '' @ SQ @ m @ SQ @ '')'')
        in ''Unsupported file type'' @ declared @ ''. Accepted formats: '' @ SUPPORTED_LABELS @ ''.'')"

section \<open>The threat scanner\<close>

record scan_result =
  passed :: bool
  threats_detected :: "string list"

definition MALICIOUS_SIGNATURES :: "bytes list" where
  "MALICIOUS_SIGNATURES = [''/Launch'', ''/JavaScript'', ''powershell.exe'', ''cmd.exe'',
     ''EICAR-STANDARD-ANTIVIRUS-TEST-FILE!'']"

definition clamav_scan :: "bytes \<Rightarrow> scan_result" where
  "clamav_scan data =
     (let detected = filter (\<lambda>sig. contains sig data) MALICIOUS_SIGNATURES in
      if detected \<noteq> [] then \<lparr> passed = False, threats_detected = detected \<rparr>
      else \<lparr> passed = True, threats_detected = [] \<rparr>)"

section \<open>The ladder of \<open>FileValidator.validate\<close>\<close>

definition MAX_FILE_SIZE_BYTES :: nat where
  "MAX_FILE_SIZE_BYTES = 100 * 1024 * 1024"

record validation_result =
  is_valid :: bool
  vr_sha256 :: string
  vr_page_count :: "nat option"
  file_size_bytes :: nat
  vr_mime_type :: string
  vr_rejection_reason :: "string option"
  vr_scan_result :: "scan_result option"

definition vr_invalid :: "nat \<Rightarrow> string \<Rightarrow> string option \<Rightarrow> scan_result option \<Rightarrow> validation_result" where
  "vr_invalid n mime r sr =
     \<lparr> is_valid = False, vr_sha256 = [], vr_page_count = None, file_size_bytes = n,
       vr_mime_type = mime, vr_rejection_reason = r, vr_scan_result = sr \<rparr>"

definition validate_document :: "toolkit \<Rightarrow> bytes \<Rightarrow> string \<Rightarrow> validation_result" where
  "validate_document tk data declared_mime =
     (let n = length data in
      if n = 0
      then vr_invalid 0 declared_mime (Some ''EMPTY_FILE: Document contains 0 bytes.'') None
      else if n > MAX_FILE_SIZE_BYTES
      then vr_invalid n declared_mime
             (Some (''FILE_TOO_LARGE: Exceeds 100MB limit (Actual: ''
                    @ format_fixed 2 n (1024 * 1024) @ '' MB).'')) None
      else case spec_for declared_mime of
        None \<Rightarrow> vr_invalid n declared_mime
                  (Some (''INVALID_MIME_TYPE: '' @ describe_unsupported data (Some declared_mime))) None
      | Some spec \<Rightarrow>
          let container = container_check tk spec data in
          if \<not> ok container
          then vr_invalid n declared_mime (sr_rejection_reason container) None
          else
            let scan_res = clamav_scan data in
            if \<not> passed scan_res
            then vr_invalid n declared_mime
                   (Some (''MALICIOUS_THREAT_DETECTED: Scanner found ''
                          @ py_repr_list (threats_detected scan_res))) (Some scan_res)
            else
              let structural = structural_check tk spec data in
              if \<not> ok structural
              then vr_invalid n declared_mime (sr_rejection_reason structural) (Some scan_res)
              else \<lparr> is_valid = True, vr_sha256 = sha256_hex tk data,
                     vr_page_count = unit_count structural, file_size_bytes = n,
                     vr_mime_type = spec_mime spec, vr_rejection_reason = None,
                     vr_scan_result = Some scan_res \<rparr>)"

section \<open>Lemmas on the checks\<close>

lemma vr_invalid_simps [simp]:
  "is_valid (vr_invalid n m r sr) = False"
  "vr_rejection_reason (vr_invalid n m r sr) = r"
  by (simp_all add: vr_invalid_def)

lemma clamav_passed: "passed (clamav_scan data) \<longleftrightarrow> (\<forall>sig\<in>set MALICIOUS_SIGNATURES. \<not> contains sig data)"
  by (auto simp: clamav_scan_def Let_def filter_empty_conv)

lemma has_part_None [simp]: "has_part names None = False"
  by (simp add: has_part_def)

lemma ok_ooxml_container:
  "ok (ooxml_container tk data) \<longleftrightarrow>
     \<not> startswith data OLE_MAGIC \<and>
     (\<exists>infolist. zip_infolist tk data = Some infolist \<and>
        has_part (map fst infolist) (Some CONTENT_TYPES_PART))"
  by (auto simp: ooxml_container_def ooxml_names_def split: option.split)

text \<open>What an accepted central directory satisfies.\<close>

definition office_parts_ok :: "format_spec \<Rightarrow> (string \<times> nat) list \<Rightarrow> bool" where
  "office_parts_ok spec infolist \<longleftrightarrow>
     length infolist \<le> MAX_OOXML_ENTRIES
     \<and> sum_list (map snd infolist) \<le> MAX_OOXML_UNCOMPRESSED_BYTES
     \<and> \<not> has_entry_named (map fst infolist) ''vbaProject.bin''
     \<and> (\<forall>name\<in>fst ` set infolist. \<not> is_unsafe_entry name)
     \<and> has_part (map fst infolist) (zip_marker spec)"

lemma ok_ooxml_structure:
  "ok (ooxml_structure tk spec data) \<longleftrightarrow>
     (\<exists>infolist. zip_infolist tk data = Some infolist \<and> office_parts_ok spec infolist)"
proof (cases "zip_infolist tk data")
  case (Some infolist)
  have unsafe: "find is_unsafe_entry (map fst infolist) = None \<longleftrightarrow>
      (\<forall>name\<in>fst ` set infolist. \<not> is_unsafe_entry name)"
    by (simp add: find_None)
  show ?thesis
    unfolding ooxml_structure_def office_parts_ok_def Let_def unsafe [symmetric]
    using unsafe by (cases "find is_unsafe_entry (map fst infolist)") (auto simp: Some not_less)
qed (simp add: ooxml_structure_def)

lemma ok_pdf_container:
  "ok (pdf_container data) \<longleftrightarrow>
     startswith data PDF_MAGIC \<and> contains PDF_TRAILER (drop (length data - 1024) data)"
  by (auto simp: pdf_container_def Let_def)

lemma ok_pdf_structure:
  "ok (pdf_structure tk data) \<longleftrightarrow> (\<exists>n\<le>MAX_PDF_PAGES. pdf_open tk data = PdfPages n)"
  by (auto simp: pdf_structure_def split: pdf_outcome.splits)

lemma spec_mime_simps [simp]:
  "spec_mime PDF_SPEC = PDF_MIME" "spec_mime DOCX_SPEC = DOCX_MIME"
  "spec_mime XLSX_SPEC = XLSX_MIME" "spec_mime PPTX_SPEC = PPTX_MIME"
  by (simp_all add: PDF_SPEC_def DOCX_SPEC_def XLSX_SPEC_def PPTX_SPEC_def)

lemma family_simps [simp]:
  "family PDF_SPEC = PdfFamily" "family DOCX_SPEC = OoxmlFamily"
  "family XLSX_SPEC = OoxmlFamily" "family PPTX_SPEC = OoxmlFamily" "zip_marker PDF_SPEC = None"
  by (simp_all add: PDF_SPEC_def DOCX_SPEC_def XLSX_SPEC_def PPTX_SPEC_def)

lemma mime_distinct [simp]:
  "PDF_MIME \<noteq> DOCX_MIME" "PDF_MIME \<noteq> XLSX_MIME" "PDF_MIME \<noteq> PPTX_MIME"
  "DOCX_MIME \<noteq> PDF_MIME" "DOCX_MIME \<noteq> XLSX_MIME" "DOCX_MIME \<noteq> PPTX_MIME"
  "XLSX_MIME \<noteq> PDF_MIME" "XLSX_MIME \<noteq> DOCX_MIME" "XLSX_MIME \<noteq> PPTX_MIME"
  "PPTX_MIME \<noteq> PDF_MIME" "PPTX_MIME \<noteq> DOCX_MIME" "PPTX_MIME \<noteq> XLSX_MIME"
  by (simp_all add: PDF_MIME_def DOCX_MIME_def XLSX_MIME_def PPTX_MIME_def)

lemma spec_for_cases:
  "spec_for mime = Some spec \<longleftrightarrow>
     mime = spec_mime spec \<and> spec \<in> {PDF_SPEC, DOCX_SPEC, XLSX_SPEC, PPTX_SPEC}"
  by (auto simp: spec_for_def FORMATS_def split: if_splits)

lemma spec_for_simps [simp]:
  "spec_for PDF_MIME = Some PDF_SPEC" "spec_for DOCX_MIME = Some DOCX_SPEC"
  "spec_for XLSX_MIME = Some XLSX_SPEC" "spec_for PPTX_MIME = Some PPTX_SPEC"
  by (simp_all add: spec_for_cases)

lemma validate_valid_iff:
  "is_valid (validate_document tk data mime) \<longleftrightarrow>
     0 < length data \<and> length data \<le> MAX_FILE_SIZE_BYTES \<and>
     (\<exists>spec. spec_for mime = Some spec \<and> ok (container_check tk spec data)
        \<and> passed (clamav_scan data) \<and> ok (structural_check tk spec data))"
  by (auto simp: validate_document_def Let_def split: option.split)

lemma spec_for_mime: "spec_for mime = Some spec \<Longrightarrow> spec_mime spec = mime"
  by (simp add: spec_for_cases)

lemma validate_fields:
  assumes "is_valid (validate_document tk data mime)"
  shows "\<exists>spec. spec_for mime = Some spec \<and>
     validate_document tk data mime =
       \<lparr> is_valid = True, vr_sha256 = sha256_hex tk data,
         vr_page_count = unit_count (structural_check tk spec data), file_size_bytes = length data,
         vr_mime_type = mime, vr_rejection_reason = None, vr_scan_result = Some (clamav_scan data) \<rparr>"
proof -
  from assms obtain spec where "0 < length data" "length data \<le> MAX_FILE_SIZE_BYTES"
      "spec_for mime = Some spec" "ok (container_check tk spec data)"
      "passed (clamav_scan data)" "ok (structural_check tk spec data)"
    unfolding validate_valid_iff by blast
  then show ?thesis
    by (simp add: validate_document_def Let_def not_less spec_for_mime)
qed

text \<open>A failed check always says why.\<close>

lemma container_check_reason:
  "\<not> ok (container_check tk spec data) \<Longrightarrow> sr_rejection_reason (container_check tk spec data) \<noteq> None"
  by (cases "family spec"; cases "ooxml_names tk data")
     (simp_all add: container_check_def pdf_container_def ooxml_container_def Let_def split: if_splits)

lemma structural_check_reason:
  "\<not> ok (structural_check tk spec data) \<Longrightarrow> sr_rejection_reason (structural_check tk spec data) \<noteq> None"
proof (cases "family spec")
  case PdfFamily
  then show "\<not> ok (structural_check tk spec data) \<Longrightarrow> ?thesis"
    by (cases "pdf_open tk data") (simp_all add: structural_check_def pdf_structure_def split: if_splits)
next
  case OoxmlFamily
  then show "\<not> ok (structural_check tk spec data) \<Longrightarrow> ?thesis"
    by (cases "zip_infolist tk data"; cases "find is_unsafe_entry (map fst (the (zip_infolist tk data)))")
       (simp_all add: structural_check_def ooxml_structure_def Let_def split: if_splits)
qed

lemma validate_invalid_reason:
  "\<not> is_valid (validate_document tk data mime) \<Longrightarrow>
     vr_rejection_reason (validate_document tk data mime) \<noteq> None"
  by (auto simp: validate_document_def Let_def split: option.splits if_splits
      dest: container_check_reason structural_check_reason)


section \<open>Accepted archives stay inside their extraction root\<close>

text \<open>An abstract account of unpacking: the components of a path are walked from the root, and the walk
escapes when \<open>..\<close> is taken at depth 0. Absolute paths and drive letters leave the root at once.\<close>

fun walk_escapes :: "nat \<Rightarrow> string list \<Rightarrow> bool" where
  "walk_escapes d [] = False"
| "walk_escapes d (p # ps) =
     (if p = ''..'' then d = 0 \<or> walk_escapes (d - 1) ps
      else if p = [] \<or> p = ''.'' then walk_escapes d ps
      else walk_escapes (d + 1) ps)"

definition path_escapes :: "string \<Rightarrow> bool" where
  "path_escapes name =
     (let path = replace_char (CHR 0x5C) (CHR ''/'') name in
      startswith path ''/'' \<or> (length path > 1 \<and> path ! 1 = CHR '':'')
      \<or> walk_escapes 0 (split_on (CHR ''/'') path))"

lemma walk_escapes_no_dotdot: "''..'' \<notin> set ps \<Longrightarrow> \<not> walk_escapes d ps"
  by (induction d ps rule: walk_escapes.induct) auto

lemma safe_entry_stays_inside: "\<not> is_unsafe_entry name \<Longrightarrow> \<not> path_escapes name"
  by (auto simp: is_unsafe_entry_def path_escapes_def Let_def walk_escapes_no_dotdot)

text \<open>C3: Whatever an accepted Office archive contains, no entry of it leaves the directory it is
unpacked into (walking the path never goes above the root, nor is it absolute or drive-qualified),
with either kind of slash, and no entry is a macro project, in any directory and any letter case.\<close>

theorem accepted_archive_is_contained:
  assumes "is_valid (validate_document tk data mime)" and "mime \<noteq> PDF_MIME"
    and "zip_infolist tk data = Some infolist" and "(name, declared) \<in> set infolist"
  shows "\<not> path_escapes name \<and> casefold (after_last (CHR ''/'') name) \<noteq> casefold ''vbaProject.bin''"
proof -
  from assms(1) obtain spec where known: "spec_for mime = Some spec"
      and inner: "ok (structural_check tk spec data)"
    by (auto simp: validate_valid_iff)
  from known assms(2) have "family spec = OoxmlFamily"
    by (auto simp: spec_for_cases)
  with inner assms(3) have parts: "office_parts_ok spec infolist"
    by (simp add: structural_check_def ok_ooxml_structure)
  from assms(4) have "name \<in> fst ` set infolist" by force
  with parts have "\<not> is_unsafe_entry name"
      and "casefold (after_last (CHR ''/'') name) \<noteq> casefold ''vbaProject.bin''"
    unfolding office_parts_ok_def has_entry_named_def list_ex_iff set_map by blast+
  then show ?thesis by (simp add: safe_entry_stays_inside)
qed

definition sample_toolkit :: toolkit where
  "sample_toolkit =
     \<lparr> pdf_open = (\<lambda>_. PdfPages 3),
       zip_infolist = (\<lambda>_. Some [(''[Content_Types].xml'', 10), (''word/document.xml'', 20)]),
       sha256_hex = (\<lambda>data. ''h'' @ nat_str (length data)) \<rparr>"

theorem accepted_archive_is_contained_witness:
  "\<not> path_escapes ''word/document.xml''
   \<and> casefold (after_last (CHR ''/'') ''word/document.xml'') \<noteq> casefold ''vbaProject.bin''"
proof (rule accepted_archive_is_contained
    [of sample_toolkit "''PK...''" DOCX_MIME "[(''[Content_Types].xml'', 10), (''word/document.xml'', 20)]" _ 20])
  have "office_parts_ok DOCX_SPEC [(''[Content_Types].xml'', 10), (''word/document.xml'', 20)]"
    by (simp add: office_parts_ok_def MAX_OOXML_ENTRIES_def MAX_OOXML_UNCOMPRESSED_BYTES_def
        has_entry_named_def has_part_def is_unsafe_entry_def after_last_def casefold_def lower_char_def
        replace_char_def startswith_def DOCX_SPEC_def Let_def)
  then show "is_valid (validate_document sample_toolkit ''PK...'' DOCX_MIME)"
    by (simp add: validate_valid_iff container_check_def structural_check_def ok_ooxml_container
        ok_ooxml_structure sample_toolkit_def MAX_FILE_SIZE_BYTES_def clamav_passed
        MALICIOUS_SIGNATURES_def startswith_def OLE_MAGIC_def has_part_def CONTENT_TYPES_PART_def)
qed (simp_all add: sample_toolkit_def)

section \<open>Detection and validation agree\<close>

text \<open>The format an upload is filed under by its bytes is one the ladder knows, and the ladder's
later checks cannot contradict it: the declared type found by \<open>detect_format\<close> is registered with the
same specification, the bytes start with that family's magic, and for an Office file the part that
identifies the detected format is present, so a detected file is never refused as a renamed one.\<close>

theorem detected_format_is_registered:
  assumes "detect_format tk data = Some spec"
  shows "spec_for (spec_mime spec) = Some spec
    \<and> (family spec = PdfFamily \<longrightarrow> startswith data PDF_MAGIC)
    \<and> (family spec = OoxmlFamily \<longrightarrow> startswith data ZIP_MAGIC
         \<and> (\<exists>infolist. zip_infolist tk data = Some infolist
              \<and> has_part (map fst infolist) (zip_marker spec)))"
proof (cases "startswith data PDF_MAGIC")
  case True
  with assms show ?thesis
    by (auto simp: detect_format_def FORMATS_def)
next
  case False
  with assms obtain infolist where zip: "startswith data ZIP_MAGIC"
      "zip_infolist tk data = Some infolist"
      "find (\<lambda>spec. has_part (map fst infolist) (zip_marker spec)) OOXML_SPECS = Some spec"
    by (auto simp: detect_format_def ooxml_names_def split: if_splits option.splits)
  then have "spec \<in> set OOXML_SPECS" and part: "has_part (map fst infolist) (zip_marker spec)"
    by (auto dest: find_Some_mem)
  then have "spec \<in> {DOCX_SPEC, XLSX_SPEC, PPTX_SPEC}"
    by (auto simp: OOXML_SPECS_def FORMATS_def split: if_splits)
  then have "spec_for (spec_mime spec) = Some spec" and "family spec = OoxmlFamily"
    by auto
  with zip part show ?thesis by auto
qed

theorem detected_format_is_registered_witness:
  "spec_for (spec_mime DOCX_SPEC) = Some DOCX_SPEC"
  using detected_format_is_registered
      [of sample_toolkit "[CHR ''P'', CHR ''K'', CHR 0x03, CHR 0x04]" DOCX_SPEC]
  by (simp add: detect_format_def PDF_MAGIC_def ZIP_MAGIC_def startswith_def ooxml_names_def
      sample_toolkit_def OOXML_SPECS_def FORMATS_def PDF_SPEC_def DOCX_SPEC_def XLSX_SPEC_def
      PPTX_SPEC_def has_part_def casefold_def lower_char_def Let_def)

lemma sample_pdf:
  "is_valid (validate_document sample_toolkit ''%PDF-1.7 %%EOF'' PDF_MIME)"
  "vr_sha256 (validate_document sample_toolkit ''%PDF-1.7 %%EOF'' PDF_MIME) = ''h14''"
proof -
  have "contains PDF_TRAILER ''%PDF-1.7 %%EOF''" "startswith ''%PDF-1.7 %%EOF'' PDF_MAGIC"
      "\<forall>sig\<in>set MALICIOUS_SIGNATURES. \<not> contains sig ''%PDF-1.7 %%EOF''"
    by code_simp+
  then show valid: "is_valid (validate_document sample_toolkit ''%PDF-1.7 %%EOF'' PDF_MIME)"
    by (simp add: validate_valid_iff container_check_def structural_check_def ok_pdf_container
        ok_pdf_structure clamav_passed sample_toolkit_def MAX_FILE_SIZE_BYTES_def MAX_PDF_PAGES_def)
  show "vr_sha256 (validate_document sample_toolkit ''%PDF-1.7 %%EOF'' PDF_MIME) = ''h14''"
  proof -
    have "sha256_hex sample_toolkit ''%PDF-1.7 %%EOF'' = ''h14''" by code_simp
    then show ?thesis using validate_fields [OF valid] by auto
  qed
qed


end
