(* ===== verification/Storage.thy ===== *)
theory Storage
  imports Validation
begin

text \<open>\<open>storage/object_storage.py\<close>, \<open>storage/bucket_manager.py\<close> and \<open>document_pipeline/storage_keys.py\<close>: the
object store contract as a locale, its local-filesystem implementation, the four buckets, and the keys
the upload and the pipeline stages derive independently of each other. The MinIO client is third-party
code: a fault oracle stands for the calls of it that raise.\<close>

section \<open>Keys\<close>

definition FALLBACK_EXTENSION :: string where
  "FALLBACK_EXTENSION = extension PDF_SPEC"

definition extension_for :: "string \<Rightarrow> string" where
  "extension_for mime = (case spec_for mime of Some spec \<Rightarrow> extension spec | None \<Rightarrow> FALLBACK_EXTENSION)"

definition build_quarantine_key :: "uuid \<Rightarrow> string \<Rightarrow> string" where
  "build_quarantine_key i mime = i @ extension_for mime"

text \<open>An empty path is false in Python, so it falls through like \<open>None\<close>.\<close>

definition quarantine_key_for :: "document \<Rightarrow> string" where
  "quarantine_key_for d =
     (case quarantine_path d of
        Some p \<Rightarrow> if p \<noteq> [] then after_last (CHR ''/'') p
                  else build_quarantine_key (doc_id d) (mime_type d)
      | None \<Rightarrow> build_quarantine_key (doc_id d) (mime_type d))"

definition build_raw_key :: "string \<Rightarrow> string \<Rightarrow> string" where
  "build_raw_key sha mime = sha @ extension_for mime"

definition extraction_key_for :: "uuid \<Rightarrow> string" where
  "extraction_key_for i = i @ ''.json''"

definition normalized_key_for :: "uuid \<Rightarrow> string" where
  "normalized_key_for i = i @ ''.json''"

section \<open>Buckets\<close>

definition QUARANTINE_BUCKET :: string where "QUARANTINE_BUCKET = ''apag-quarantine''"
definition RAW_BUCKET :: string where "RAW_BUCKET = ''apag-raw''"
definition EXTRACTED_BUCKET :: string where "EXTRACTED_BUCKET = ''apag-extracted''"
definition NORMALIZED_BUCKET :: string where "NORMALIZED_BUCKET = ''apag-normalized''"

lemmas bucket_defs =
  QUARANTINE_BUCKET_def RAW_BUCKET_def EXTRACTED_BUCKET_def NORMALIZED_BUCKET_def

lemma buckets_distinct [simp]:
  "QUARANTINE_BUCKET \<noteq> RAW_BUCKET" "RAW_BUCKET \<noteq> QUARANTINE_BUCKET"
  "QUARANTINE_BUCKET \<noteq> EXTRACTED_BUCKET" "EXTRACTED_BUCKET \<noteq> QUARANTINE_BUCKET"
  "QUARANTINE_BUCKET \<noteq> NORMALIZED_BUCKET" "NORMALIZED_BUCKET \<noteq> QUARANTINE_BUCKET"
  "RAW_BUCKET \<noteq> EXTRACTED_BUCKET" "EXTRACTED_BUCKET \<noteq> RAW_BUCKET"
  "RAW_BUCKET \<noteq> NORMALIZED_BUCKET" "NORMALIZED_BUCKET \<noteq> RAW_BUCKET"
  "EXTRACTED_BUCKET \<noteq> NORMALIZED_BUCKET" "NORMALIZED_BUCKET \<noteq> EXTRACTED_BUCKET"
  by (simp_all add: bucket_defs)

section \<open>The contract of an object store\<close>

text \<open>The operations the pipeline calls and the laws its proofs use. Getting or copying a missing object
raises (\<open>None\<close>); deleting one says \<open>False\<close>.\<close>

locale object_storage =
  fixes put_obj :: "string \<Rightarrow> string \<Rightarrow> bytes \<Rightarrow> 's \<Rightarrow> 's"
    and get_obj :: "string \<Rightarrow> string \<Rightarrow> 's \<Rightarrow> bytes option"
    and delete_obj :: "string \<Rightarrow> string \<Rightarrow> 's \<Rightarrow> bool \<times> 's"
    and exists_obj :: "string \<Rightarrow> string \<Rightarrow> 's \<Rightarrow> bool"
    and copy_obj :: "string \<Rightarrow> string \<Rightarrow> string \<Rightarrow> string \<Rightarrow> 's \<Rightarrow> 's option"
  assumes get_put: "get_obj b k (put_obj b' k' v s) = (if b = b' \<and> k = k' then Some v else get_obj b k s)"
    and exists_get: "exists_obj b k s \<longleftrightarrow> get_obj b k s \<noteq> None"
    and delete_result: "fst (delete_obj b k s) = exists_obj b k s"
    and get_delete:
      "get_obj b k (snd (delete_obj b' k' s)) = (if b = b' \<and> k = k' then None else get_obj b k s)"
    and copy_get: "copy_obj sb sk db dk s =
      (case get_obj sb sk s of None \<Rightarrow> None | Some v \<Rightarrow> Some (put_obj db dk v s))"
begin

lemma get_put_same [simp]: "get_obj b k (put_obj b k v s) = Some v"
  by (simp add: get_put)

lemma deleted_is_gone [simp]: "\<not> exists_obj b k (snd (delete_obj b k s))"
  by (simp add: exists_get get_delete)

lemma delete_twice: "fst (delete_obj b k (snd (delete_obj b k s))) = False"
  by (simp add: delete_result)

text \<open>Promotion: copy unless the destination exists, then delete the source. The bytes end up at the
destination (the earlier ones, if it existed), the source is gone, nothing else moves.\<close>

definition promote :: "string \<Rightarrow> string \<Rightarrow> string \<Rightarrow> string \<Rightarrow> 's \<Rightarrow> 's option" where
  "promote sb sk db dk s =
     (if exists_obj db dk s then Some (snd (delete_obj sb sk s))
      else map_option (\<lambda>s'. snd (delete_obj sb sk s')) (copy_obj sb sk db dk s))"

lemma promote_moves:
  assumes "get_obj sb sk s = Some v" "(sb, sk) \<noteq> (db, dk)"
  shows "\<exists>s'. promote sb sk db dk s = Some s' \<and> get_obj sb sk s' = None
    \<and> get_obj db dk s' = Some (case get_obj db dk s of None \<Rightarrow> v | Some old \<Rightarrow> old)
    \<and> (\<forall>b k. (b, k) \<notin> {(sb, sk), (db, dk)} \<longrightarrow> get_obj b k s' = get_obj b k s)"
  using assms by (auto simp: promote_def exists_get copy_get get_put get_delete)

end

section \<open>The local filesystem\<close>

text \<open>\<open>LocalFileSystemStorage\<close>: a bucket is a directory and a key a file in it. Directories are created
on demand, so only the files are state; writing replaces, deleting removes.\<close>

definition fs_put :: "string \<Rightarrow> string \<Rightarrow> bytes \<Rightarrow> object_store \<Rightarrow> object_store" where
  "fs_put b k v s = AList.update (b, k) v s"

definition fs_get :: "string \<Rightarrow> string \<Rightarrow> object_store \<Rightarrow> bytes option" where
  "fs_get b k s = map_of s (b, k)"

definition fs_exists :: "string \<Rightarrow> string \<Rightarrow> object_store \<Rightarrow> bool" where
  "fs_exists b k s = (map_of s (b, k) \<noteq> None)"

definition fs_delete :: "string \<Rightarrow> string \<Rightarrow> object_store \<Rightarrow> bool \<times> object_store" where
  "fs_delete b k s = (if fs_exists b k s then (True, AList.delete (b, k) s) else (False, s))"

definition fs_copy :: "string \<Rightarrow> string \<Rightarrow> string \<Rightarrow> string \<Rightarrow> object_store \<Rightarrow> object_store option" where
  "fs_copy sb sk db dk s =
     (case map_of s (sb, sk) of None \<Rightarrow> None | Some v \<Rightarrow> Some (fs_put db dk v s))"

interpretation fs: object_storage fs_put fs_get fs_delete fs_exists fs_copy
  by unfold_locales
     (auto simp: fs_put_def fs_get_def fs_delete_def fs_exists_def fs_copy_def update_conv'
        delete_conv' split: option.split)

lemma fs_get_put [simp, lookup_simps]:
  "fs_get b k (fs_put b' k' v s) = (if b = b' \<and> k = k' then Some v else fs_get b k s)"
  by (rule fs.get_put)

lemma fs_get_delete [simp, lookup_simps]:
  "fs_get b k (snd (fs_delete b' k' s)) = (if b = b' \<and> k = k' then None else fs_get b k s)"
  by (rule fs.get_delete)

section \<open>The two sides derive the same key\<close>

text \<open>What the upload persists: \<open>quarantine_path = f"{bucket}/{key}"\<close>.\<close>

definition quarantine_path_of :: "uuid \<Rightarrow> string \<Rightarrow> string" where
  "quarantine_path_of i mime = QUARANTINE_BUCKET @ ''/'' @ build_quarantine_key i mime"

lemma extension_no_slash [simp]: "CHR ''/'' \<notin> set (extension_for mime)"
  by (auto simp: extension_for_def spec_for_cases FALLBACK_EXTENSION_def PDF_SPEC_def DOCX_SPEC_def
      XLSX_SPEC_def PPTX_SPEC_def split: option.splits)

text \<open>The key under which the worker looks for an upload is the key the API wrote it under, whether
the persisted path is still there or has been cleared: both routes give \<open>build_quarantine_key\<close> of the
document's id and type (ids contain no slash). Keys of different documents differ, so one document's
artifacts cannot overwrite another's.\<close>

theorem quarantine_key_agrees:
  assumes "CHR ''/'' \<notin> set (doc_id d)"
    and "quarantine_path d \<in> {None, Some (quarantine_path_of (doc_id d) (mime_type d))}"
  shows "quarantine_key_for d = build_quarantine_key (doc_id d) (mime_type d)
    \<and> (\<forall>j. build_quarantine_key (doc_id d) (mime_type d) = build_quarantine_key j (mime_type d)
            \<longleftrightarrow> j = doc_id d)
    \<and> (\<forall>j. extraction_key_for (doc_id d) = extraction_key_for j \<longleftrightarrow> j = doc_id d)
    \<and> (\<forall>j. normalized_key_for (doc_id d) = normalized_key_for j \<longleftrightarrow> j = doc_id d)"
proof -
  have "CHR ''/'' \<notin> set (build_quarantine_key (doc_id d) (mime_type d))"
    using assms(1) by (simp add: build_quarantine_key_def)
  then have "after_last (CHR ''/'') (quarantine_path_of (doc_id d) (mime_type d))
      = build_quarantine_key (doc_id d) (mime_type d)"
    by (simp add: quarantine_path_of_def)
  with assms(2) show ?thesis
    by (auto simp: quarantine_key_for_def build_quarantine_key_def extraction_key_for_def
        normalized_key_for_def quarantine_path_of_def)
qed

theorem quarantine_key_agrees_witness:
  "quarantine_key_for (new_document ''d1'' ''a.pdf'' 9 0
       \<lparr> quarantine_path := Some (quarantine_path_of ''d1'' PDF_MIME) \<rparr>) = ''d1.pdf''"
  using quarantine_key_agrees [of "new_document ''d1'' ''a.pdf'' 9 0
      \<lparr> quarantine_path := Some (quarantine_path_of ''d1'' PDF_MIME) \<rparr>"]
  by (simp add: new_document_def PDF_MIME_def build_quarantine_key_def extension_for_def
      spec_for_simps(1) [unfolded PDF_MIME_def] PDF_SPEC_def)

end
