(* ===== verification/Repository.thy ===== *)
theory Repository
  imports Access Storage
begin

text \<open>\<open>document_pipeline/repository.py\<close>: the two implementations of \<open>DocumentRepository\<close>. The PostgreSQL
one works on the rows of \<open>documents\<close> under the table's constraints (primary key, the check on the
classification, the partial unique index \<open>uq_documents_active_sha256\<close>); the in-memory one on a dict in
insertion order. The contract the pipeline relies on is a locale, interpreted on both, and the in-memory
double is proved to simulate the rows operation by operation.\<close>

datatype repo_error = IntegrityError

section \<open>The table and its constraints\<close>

definition active_status :: "DocumentStatus \<Rightarrow> bool" where
  "active_status s = (s \<notin> {SUPERSEDED, ARCHIVED, REJECTED, DUPLICATE})"

definition active_checksum :: "document \<Rightarrow> string option" where
  "active_checksum d = (if active_status (status d) then checksum d else None)"

definition active_checksums :: "document list \<Rightarrow> string list" where
  "active_checksums rows = List.map_filter active_checksum rows"

definition wf_docs :: "document list \<Rightarrow> bool" where
  "wf_docs rows = (distinct (map doc_id rows) \<and> distinct (active_checksums rows))"

definition find_doc :: "uuid \<Rightarrow> document list \<Rightarrow> document option" where
  "find_doc i rows = find (\<lambda>d. doc_id d = i) rows"

text \<open>An \<open>UPDATE\<close> or \<open>INSERT\<close> is refused when the resulting rows would break the unique index.\<close>

definition commit_rows :: "'a \<Rightarrow> document list \<Rightarrow> (repo_error, 'a \<times> document list) result" where
  "commit_rows r rows = (if distinct (active_checksums rows) then Inr (r, rows) else Inl IntegrityError)"

section \<open>PostgreSQL\<close>

text \<open>\<open>create\<close> writes \<open>str(None)\<close> for a missing classification, which the check constraint refuses. The
timestamps are the database's; deletion marks are not copied.\<close>

definition pg_create :: "time \<Rightarrow> document \<Rightarrow> document list \<Rightarrow> (repo_error, document \<times> document list) result" where
  "pg_create now d rows =
     (if classification d = None \<or> find_doc (doc_id d) rows \<noteq> None then Inl IntegrityError
      else let row = d\<lparr> created_at := now, updated_at := now, deleted_at := None, purged_at := None \<rparr>
           in commit_rows row (rows @ [row]))"

definition pg_get_by_id :: "uuid \<Rightarrow> document list \<Rightarrow> document option" where
  "pg_get_by_id i rows = find_doc i rows"

definition pg_get_by_checksum :: "string \<Rightarrow> document list \<Rightarrow> document option" where
  "pg_get_by_checksum c rows = find (\<lambda>d. checksum d = Some c \<and> active_status (status d)) rows"

text \<open>The columns \<open>update_document\<close> writes: not the classification, nor the identity columns.\<close>

definition written_back :: "document \<Rightarrow> document \<Rightarrow> document" where
  "written_back d row =
     row\<lparr> status := status d, document_date := document_date d, checksum := checksum d,
          mime_type := mime_type d, raw_path := raw_path d, quarantine_path := quarantine_path d,
          rejection_reason := rejection_reason d, version := version d,
          supersedes_id := supersedes_id d, title := title d, description := description d,
          page_count := page_count d, extraction_method := extraction_method d,
          upload_batch_id := upload_batch_id d \<rparr>"

text \<open>The ORM emits no \<open>UPDATE\<close> (and so no \<open>onupdate\<close> timestamp) when no column changes.\<close>

definition touch :: "time \<Rightarrow> document \<Rightarrow> document \<Rightarrow> document" where
  "touch now old new = (if new = old then old else new\<lparr> updated_at := now \<rparr>)"

definition pg_update_document ::
  "time \<Rightarrow> document \<Rightarrow> document list \<Rightarrow> (repo_error, document \<times> document list) result" where
  "pg_update_document now d rows =
     (case find_doc (doc_id d) rows of
        None \<Rightarrow> pg_create now d rows
      | Some row \<Rightarrow>
          let row' = touch now row (written_back d row)
          in commit_rows row' (replace_key doc_id row' rows))"

definition pg_set_classification ::
  "time \<Rightarrow> uuid \<Rightarrow> Classification \<Rightarrow> document list \<Rightarrow> document option \<times> document list" where
  "pg_set_classification now i c rows =
     (let rows' = update_where (\<lambda>r. doc_id r = i)
                    (\<lambda>r. r\<lparr> classification := Some c, updated_at := now \<rparr>) rows
      in (pg_get_by_id i rows', rows'))"

definition page :: "nat \<Rightarrow> nat \<Rightarrow> 'a list \<Rightarrow> 'a list" where
  "page limit offset xs = take limit (drop offset xs)"

definition pg_list_paginated ::
  "nat \<Rightarrow> nat \<Rightarrow> uuid option \<Rightarrow> bool \<Rightarrow> document list \<Rightarrow> document list \<times> nat" where
  "pg_list_paginated limit offset viewer adm rows =
     (let base = filter (\<lambda>d. deleted_at d = None \<and> row_visible viewer adm d) rows
      in (page limit offset (sort_desc created_at base), length base))"

text \<open>\<open>search_vector @@ plainto_tsquery\<close> and \<open>ts_rank\<close> are PostgreSQL's: two parameters.\<close>

definition pg_search ::
  "(string \<Rightarrow> document \<Rightarrow> bool) \<Rightarrow> (string \<Rightarrow> document \<Rightarrow> int) \<Rightarrow> string \<Rightarrow> nat \<Rightarrow> nat
     \<Rightarrow> uuid option \<Rightarrow> bool \<Rightarrow> document list \<Rightarrow> document list \<times> nat" where
  "pg_search ts_match ts_rank q limit offset viewer adm rows =
     (let base = filter (\<lambda>d. deleted_at d = None \<and> ts_match q d \<and> row_visible viewer adm d) rows
      in (page limit offset (sort_desc (ts_rank q) base), length base))"

definition pg_soft_delete :: "time \<Rightarrow> uuid \<Rightarrow> document list \<Rightarrow> bool \<times> document list" where
  "pg_soft_delete now i rows =
     (case find (\<lambda>d. doc_id d = i \<and> deleted_at d = None \<and> purged_at d = None) rows of
        None \<Rightarrow> (False, rows)
      | Some d \<Rightarrow> (True, replace_key doc_id (d\<lparr> deleted_at := Some now, updated_at := now \<rparr>) rows))"

definition pg_restore :: "time \<Rightarrow> uuid \<Rightarrow> document list \<Rightarrow> bool \<times> document list" where
  "pg_restore now i rows =
     (case find (\<lambda>d. doc_id d = i \<and> deleted_at d \<noteq> None \<and> purged_at d = None) rows of
        None \<Rightarrow> (False, rows)
      | Some d \<Rightarrow> (True, replace_key doc_id (d\<lparr> deleted_at := None, updated_at := now \<rparr>) rows))"

definition deleted_key :: "document \<Rightarrow> int" where
  "deleted_key d = (case deleted_at d of None \<Rightarrow> 0 | Some t \<Rightarrow> t)"

definition deleted_limit :: "int \<Rightarrow> nat" where
  "deleted_limit limit = nat (max 1 (min limit 500))"

definition restorable :: "document \<Rightarrow> bool" where
  "restorable d = (deleted_at d \<noteq> None \<and> purged_at d = None \<and> status d \<notin> {SUPERSEDED, DUPLICATE})"

definition pg_list_deleted :: "uuid option \<Rightarrow> bool \<Rightarrow> int \<Rightarrow> document list \<Rightarrow> document list" where
  "pg_list_deleted viewer adm limit rows =
     (if adm then take (deleted_limit limit) (sort_desc deleted_key (filter restorable rows))
      else case viewer of
        None \<Rightarrow> []
      | Some v \<Rightarrow>
          take (deleted_limit limit)
            (sort_desc deleted_key (filter (\<lambda>d. restorable d \<and> owner_id d = Some v) rows)))"

definition tombstone :: "time \<Rightarrow> document \<Rightarrow> document" where
  "tombstone now d =
     d\<lparr> purged_at := Some now,
        deleted_at := (if deleted_at d = None then Some now else deleted_at d),
        checksum := None, raw_path := None, quarantine_path := None \<rparr>"

definition pg_purge :: "time \<Rightarrow> uuid \<Rightarrow> document list \<Rightarrow> bool \<times> document list" where
  "pg_purge now i rows =
     (case find (\<lambda>d. doc_id d = i \<and> purged_at d = None) rows of
        None \<Rightarrow> (False, rows)
      | Some d \<Rightarrow> (True, replace_key doc_id ((tombstone now d)\<lparr> updated_at := now \<rparr>) rows))"

definition tombstone_duplicate :: "time \<Rightarrow> document \<Rightarrow> document" where
  "tombstone_duplicate now d =
     d\<lparr> checksum := None, quarantine_path := None, purged_at := Some now,
        deleted_at := (if deleted_at d = None then Some now else deleted_at d) \<rparr>"

definition is_duplicate_of :: "string \<Rightarrow> document \<Rightarrow> bool" where
  "is_duplicate_of c d = (checksum d = Some c \<and> status d = DUPLICATE)"

definition pg_purge_duplicates_of :: "time \<Rightarrow> string \<Rightarrow> document list \<Rightarrow> nat \<times> document list" where
  "pg_purge_duplicates_of now c rows =
     (length (filter (is_duplicate_of c) rows),
      update_where (is_duplicate_of c) (\<lambda>d. (tombstone_duplicate now d)\<lparr> updated_at := now \<rparr>) rows)"

section \<open>In memory\<close>

type_synonym memory = "(uuid \<times> document) list"

definition mem_create :: "document \<Rightarrow> memory \<Rightarrow> document \<times> memory" where
  "mem_create d m = (d, AList.update (doc_id d) d m)"

definition mem_get_by_id :: "uuid \<Rightarrow> memory \<Rightarrow> document option" where
  "mem_get_by_id i m = map_of m i"

definition mem_get_by_checksum :: "string \<Rightarrow> memory \<Rightarrow> document option" where
  "mem_get_by_checksum c m =
     find (\<lambda>d. checksum d = Some c \<and> status d \<notin> {SUPERSEDED, ARCHIVED, REJECTED, DUPLICATE}) (map snd m)"

definition mem_update_document :: "time \<Rightarrow> document \<Rightarrow> memory \<Rightarrow> document \<times> memory" where
  "mem_update_document now d m =
     (let saved = d\<lparr> updated_at := now \<rparr>;
          saved = (case map_of m (doc_id d) of
                     None \<Rightarrow> saved
                   | Some stored \<Rightarrow> saved\<lparr> classification := classification stored \<rparr>)
      in (saved, AList.update (doc_id d) saved m))"

definition mem_set_classification ::
  "time \<Rightarrow> uuid \<Rightarrow> Classification \<Rightarrow> memory \<Rightarrow> document option \<times> memory" where
  "mem_set_classification now i c m =
     (case map_of m i of
        None \<Rightarrow> (None, m)
      | Some stored \<Rightarrow>
          let d = stored\<lparr> classification := Some c, updated_at := now \<rparr>
          in (Some d, AList.update i d m))"

definition mem_list_paginated ::
  "nat \<Rightarrow> nat \<Rightarrow> uuid option \<Rightarrow> bool \<Rightarrow> memory \<Rightarrow> document list \<times> nat" where
  "mem_list_paginated limit offset viewer adm m =
     (let docs = sort_desc created_at
            (filter (\<lambda>d. deleted_at d = None \<and> can_view (classification d) (owner_id d) viewer adm)
               (map snd m))
      in (page limit offset docs, length docs))"

definition mem_search ::
  "string \<Rightarrow> nat \<Rightarrow> nat \<Rightarrow> uuid option \<Rightarrow> bool \<Rightarrow> memory \<Rightarrow> document list \<times> nat" where
  "mem_search query limit offset viewer adm m =
     (let q = lower query; opt = (\<lambda>s. case s of None \<Rightarrow> [] | Some x \<Rightarrow> x);
          docs = sort_desc created_at
            (filter (\<lambda>d. deleted_at d = None \<and> can_view (classification d) (owner_id d) viewer adm
                      \<and> (contains q (lower (opt (title d))) \<or> contains q (lower (filename d))
                          \<or> contains q (lower (opt (description d))))) (map snd m))
      in (page limit offset docs, length docs))"

definition mem_soft_delete :: "time \<Rightarrow> uuid \<Rightarrow> memory \<Rightarrow> bool \<times> memory" where
  "mem_soft_delete now i m =
     (case map_of m i of
        None \<Rightarrow> (False, m)
      | Some d \<Rightarrow>
          if deleted_at d \<noteq> None \<or> purged_at d \<noteq> None then (False, m)
          else (True, AList.update i (d\<lparr> deleted_at := Some now \<rparr>) m))"

definition mem_restore :: "uuid \<Rightarrow> memory \<Rightarrow> bool \<times> memory" where
  "mem_restore i m =
     (case map_of m i of
        None \<Rightarrow> (False, m)
      | Some d \<Rightarrow>
          if deleted_at d = None \<or> purged_at d \<noteq> None then (False, m)
          else (True, AList.update i (d\<lparr> deleted_at := None \<rparr>) m))"

definition mem_list_deleted :: "uuid option \<Rightarrow> bool \<Rightarrow> int \<Rightarrow> memory \<Rightarrow> document list" where
  "mem_list_deleted viewer adm limit m =
     take (deleted_limit limit) (sort_desc deleted_key
       (filter (\<lambda>d. restorable d \<and> (adm \<or> viewer \<noteq> None \<and> owner_id d = viewer)) (map snd m)))"

definition mem_purge :: "time \<Rightarrow> uuid \<Rightarrow> memory \<Rightarrow> bool \<times> memory" where
  "mem_purge now i m =
     (case map_of m i of
        None \<Rightarrow> (False, m)
      | Some d \<Rightarrow> if purged_at d \<noteq> None then (False, m) else (True, AList.update i (tombstone now d) m))"

definition mem_purge_duplicates_of :: "time \<Rightarrow> string \<Rightarrow> memory \<Rightarrow> nat \<times> memory" where
  "mem_purge_duplicates_of now c m =
     (length (filter (\<lambda>p. is_duplicate_of c (snd p)) m),
      map (\<lambda>(k, d). (k, if is_duplicate_of c d then tombstone_duplicate now d else d)) m)"

section \<open>The constraints are an invariant of every operation\<close>

lemma active_checksums_simps [simp]:
  "active_checksums [] = []"
  "active_checksums (d # rows) =
     (case active_checksum d of None \<Rightarrow> active_checksums rows | Some c \<Rightarrow> c # active_checksums rows)"
  by (simp_all add: active_checksums_def List.map_filter_simps split: option.split)

lemma active_checksums_append [simp]:
  "active_checksums (xs @ ys) = active_checksums xs @ active_checksums ys"
  by (induction xs) (auto split: option.split)

lemma set_active_checksums: "set (active_checksums rows) = {c. \<exists>d\<in>set rows. active_checksum d = Some c}"
  by (simp add: active_checksums_def set_map_filter_Some)

text \<open>Rewriting rows so that no active hash appears keeps the index.\<close>

lemma distinct_active_map:
  assumes "\<And>d. d \<in> set rows \<Longrightarrow> active_checksum (g d) = active_checksum d \<or> active_checksum (g d) = None"
    and "distinct (active_checksums rows)"
  shows "distinct (active_checksums (map g rows)) \<and> set (active_checksums (map g rows)) \<subseteq> set (active_checksums rows)"
  using assms by (induction rows) (fastforce split: option.splits)+

lemma wf_update_where [wf_intros]:
  assumes "wf_docs rows" "\<And>d. P d \<Longrightarrow> doc_id (f d) = doc_id d"
    and "\<And>d. P d \<Longrightarrow> active_checksum (f d) = active_checksum d \<or> active_checksum (f d) = None"
  shows "wf_docs (update_where P f rows)"
proof -
  have "distinct (active_checksums (update_where P f rows))"
    unfolding update_where_def using assms
    by (intro distinct_active_map [THEN conjunct1]) (auto simp: wf_docs_def)
  moreover have "map doc_id (update_where P f rows) = map doc_id rows"
    by (rule map_update_where) (rule assms(2))
  ultimately show ?thesis using assms(1) by (simp add: wf_docs_def)
qed

lemma wf_replace_key [wf_intros]:
  assumes "wf_docs rows" "d \<in> set rows" "doc_id d' = doc_id d"
    and "active_checksum d' = active_checksum d \<or> active_checksum d' = None"
  shows "wf_docs (replace_key doc_id d' rows)"
proof -
  have only: "\<And>r. r \<in> set rows \<Longrightarrow> doc_id r = doc_id d' \<Longrightarrow> r = d"
    using assms distinct_key_unique by (metis wf_docs_def)
  have "distinct (active_checksums (replace_key doc_id d' rows))"
    unfolding replace_key_def
  proof (rule distinct_active_map [THEN conjunct1])
    fix r assume "r \<in> set rows"
    then show "active_checksum (if doc_id r = doc_id d' then d' else r) = active_checksum r \<or>
        active_checksum (if doc_id r = doc_id d' then d' else r) = None"
      using only [of r] assms(4) by (cases "doc_id r = doc_id d'") auto
  qed (use assms(1) in \<open>simp add: wf_docs_def\<close>)
  then show ?thesis using assms(1) by (simp add: wf_docs_def)
qed

lemma active_checksum_simps [simp]:
  "active_checksum (d\<lparr> classification := c \<rparr>) = active_checksum d"
  "active_checksum (d\<lparr> updated_at := t \<rparr>) = active_checksum d"
  "active_checksum (d\<lparr> deleted_at := o1 \<rparr>) = active_checksum d"
  "active_checksum (tombstone now d) = None"
  "active_checksum (tombstone_duplicate now d) = None"
  by (simp_all add: active_checksum_def tombstone_def tombstone_duplicate_def)

lemma doc_id_simps [simp]:
  "doc_id (tombstone now d) = doc_id d" "doc_id (tombstone_duplicate now d) = doc_id d"
  "doc_id (written_back d row) = doc_id row" "doc_id (touch now old new) = (if new = old then doc_id old else doc_id new)"
  by (simp_all add: tombstone_def tombstone_duplicate_def written_back_def touch_def)

lemma touch_fields [simp]:
  "classification (touch now old new) = classification new"
  "status (touch now old new) = status new"
  "checksum (touch now old new) = checksum new"
  "raw_path (touch now old new) = raw_path new"
  "deleted_at (touch now old new) = deleted_at new"
  "purged_at (touch now old new) = purged_at new"
  by (simp_all add: touch_def)

lemma written_back_fields [simp]:
  "classification (written_back d row) = classification row"
  "status (written_back d row) = status d"
  "checksum (written_back d row) = checksum d"
  "raw_path (written_back d row) = raw_path d"
  "owner_id (written_back d row) = owner_id row"
  "deleted_at (written_back d row) = deleted_at row"
  "purged_at (written_back d row) = purged_at row"
  by (simp_all add: written_back_def)

lemma commit_rows_Inr: "commit_rows r rows = Inr x \<longleftrightarrow> x = (r, rows) \<and> distinct (active_checksums rows)"
  by (auto simp: commit_rows_def)

lemma commit_rows_Inl: "commit_rows r rows = Inl e \<longleftrightarrow> \<not> distinct (active_checksums rows)"
  by (cases e) (auto simp: commit_rows_def)

lemma find_doc_Some: "find_doc i rows = Some d \<Longrightarrow> d \<in> set rows \<and> doc_id d = i"
  by (auto simp: find_doc_def dest: find_Some_mem)

lemma find_doc_None: "find_doc i rows = None \<longleftrightarrow> i \<notin> doc_id ` set rows"
  by (auto simp: find_doc_def find_None)

lemma find_doc_replace [lookup_simps]:
  "find_doc i (replace_key doc_id d rows) =
     (if i = doc_id d \<and> i \<in> doc_id ` set rows then Some d else if i = doc_id d then None else find_doc i rows)"
  using find_replace_same [of doc_id d rows] find_replace_other [of i doc_id d rows]
  by (auto simp: find_doc_def find_None replace_key_def image_iff)

lemma postgres_create_keeps:
  "wf_docs rows \<Longrightarrow> case pg_create now d rows of Inl e \<Rightarrow> True | Inr (r, rows') \<Rightarrow> wf_docs rows' \<and> r \<in> set rows'"
  by (auto simp: pg_create_def commit_rows_def wf_docs_def find_doc_None Let_def)

lemma postgres_update_keeps:
  assumes "wf_docs rows"
  shows "case pg_update_document now d rows of Inl e \<Rightarrow> True | Inr (r, rows') \<Rightarrow> wf_docs rows' \<and> r \<in> set rows'"
proof (cases "find_doc (doc_id d) rows")
  case None
  then show ?thesis using postgres_create_keeps [OF assms] by (simp add: pg_update_document_def)
next
  case (Some row)
  then show ?thesis using assms find_doc_Some [OF Some]
    by (auto simp: pg_update_document_def commit_rows_def Let_def wf_docs_def set_replace_key image_iff)
qed

lemma postgres_set_tier_keeps: "wf_docs rows \<Longrightarrow> wf_docs (snd (pg_set_classification now i c rows))"
  by (simp add: pg_set_classification_def Let_def wf_update_where)

lemma postgres_soft_delete_keeps: "wf_docs rows \<Longrightarrow> wf_docs (snd (pg_soft_delete now i rows))"
  by (auto simp: pg_soft_delete_def split: option.split dest!: find_Some_mem intro!: wf_replace_key)

lemma postgres_restore_keeps: "wf_docs rows \<Longrightarrow> wf_docs (snd (pg_restore now i rows))"
  by (auto simp: pg_restore_def split: option.split dest!: find_Some_mem intro!: wf_replace_key)

lemma postgres_purge_keeps: "wf_docs rows \<Longrightarrow> wf_docs (snd (pg_purge now i rows))"
  by (auto simp: pg_purge_def split: option.split dest!: find_Some_mem intro!: wf_replace_key)

lemma postgres_purge_duplicates_keeps: "wf_docs rows \<Longrightarrow> wf_docs (snd (pg_purge_duplicates_of now h rows))"
  by (simp add: pg_purge_duplicates_of_def wf_update_where)

lemmas postgres_writes_keep =
  postgres_set_tier_keeps postgres_soft_delete_keeps postgres_restore_keeps postgres_purge_keeps
  postgres_purge_duplicates_keeps


section \<open>When a write-back is refused\<close>

lemma replace_key_split:
  "\<lbrakk> distinct (map key (xs @ r # ys)); key r' = key r \<rbrakk> \<Longrightarrow> replace_key key r' (xs @ r # ys) = xs @ r' # ys"
  by (auto simp: replace_key_def image_iff intro!: map_idI)

lemma replaced_active_distinct:
  assumes "wf_docs rows" "row \<in> set rows" "doc_id row' = doc_id row"
  shows "distinct (active_checksums (replace_key doc_id row' rows)) \<longleftrightarrow>
     (\<forall>other\<in>set rows. doc_id other \<noteq> doc_id row \<longrightarrow> active_checksum other = None
         \<or> active_checksum other \<noteq> active_checksum row')"
proof -
  obtain xs ys where rows: "rows = xs @ row # ys" using assms(2) by (meson split_list)
  have ids: "distinct (map doc_id (xs @ row # ys))" using assms(1) rows by (simp add: wf_docs_def)
  then have others: "\<And>other. other \<in> set xs \<union> set ys \<Longrightarrow> doc_id other \<noteq> doc_id row"
    by (auto intro: rev_image_eqI)
  have "distinct (active_checksums (xs @ ys))"
    using assms(1) rows by (auto simp: wf_docs_def split: option.splits)
  then show ?thesis
    using others unfolding rows replace_key_split [OF ids assms(3)]
    by (cases "active_checksum row'") (auto simp: set_active_checksums, (metis UnI1 UnI2 option.distinct(1))+)
qed

text \<open>Shared with the scan: the write-back fails exactly when another active document holds the hash.\<close>

lemma pg_update_refused_iff:
  assumes "wf_docs rows" "find_doc (doc_id d) rows = Some row"
  shows "pg_update_document now d rows = Inl e \<longleftrightarrow>
     active_status (status d) \<and> checksum d \<noteq> None \<and>
     (\<exists>other\<in>set rows. doc_id other \<noteq> doc_id d \<and> active_checksum other = checksum d)"
proof -
  have row: "row \<in> set rows" "doc_id row = doc_id d" using find_doc_Some [OF assms(2)] by auto
  let ?row' = "touch now row (written_back d row)"
  have ids: "doc_id ?row' = doc_id row" by simp
  have act: "active_checksum ?row' = (if active_status (status d) then checksum d else None)"
    by (simp add: active_checksum_def)
  show ?thesis
    using replaced_active_distinct [OF assms(1) row(1) ids] row(2) assms(2)
    by (cases "checksum d") (auto simp: pg_update_document_def commit_rows_Inl Let_def act split: if_splits)
qed

lemma pg_update_Inr:
  assumes "find_doc (doc_id d) rows = Some row" "pg_update_document now d rows = Inr (r, rows')"
  shows "r = touch now row (written_back d row) \<and> rows' = replace_key doc_id r rows"
  using assms by (auto simp: pg_update_document_def commit_rows_Inr Let_def)

lemma pg_update_find:
  assumes "find_doc (doc_id d) rows = Some row" "pg_update_document now d rows = Inr (r, rows')"
  shows "find_doc i rows' = (if i = doc_id d then Some r else find_doc i rows)"
proof -
  have "doc_id d \<in> doc_id ` set rows" using find_doc_Some [OF assms(1)] by (metis imageI)
  then show ?thesis
    using find_doc_Some [OF assms(1)] pg_update_Inr [OF assms] by (auto simp: find_doc_replace)
qed

lemma pg_create_find:
  assumes "pg_create now d rows = Inr (r, rows')" "i \<noteq> doc_id d"
  shows "find_doc i rows' = find_doc i rows"
  using assms by (auto simp: pg_create_def commit_rows_Inr find_doc_def Let_def find_append split: if_splits option.split)

section \<open>The contract the pipeline relies on\<close>

locale document_repository =
  fixes get :: "uuid \<Rightarrow> 's \<Rightarrow> document option"
    and upd :: "time \<Rightarrow> document \<Rightarrow> 's \<Rightarrow> (repo_error, document \<times> 's) result"
    and set_tier :: "time \<Rightarrow> uuid \<Rightarrow> Classification \<Rightarrow> 's \<Rightarrow> document option \<times> 's"
  assumes upd_result: "\<lbrakk> get (doc_id d) s = Some old; upd now d s = Inr (r, s') \<rbrakk> \<Longrightarrow>
      classification r = classification old \<and> status r = status d \<and> checksum r = checksum d
      \<and> get (doc_id d) s' = Some r"
    and upd_others: "\<lbrakk> upd now d s = Inr (r, s'); i \<noteq> doc_id d \<rbrakk> \<Longrightarrow> get i s' = get i s"
    and tier_get: "get i (snd (set_tier now j c s)) =
      (if i = j then map_option (\<lambda>d. d\<lparr> classification := Some c, updated_at := now \<rparr>) (get i s)
       else get i s)"
    and tier_result: "fst (set_tier now i c s) = get i (snd (set_tier now i c s))"

text \<open>The writes that reach one document from several processes, in the order they commit: stages
writing back the copy they loaded earlier, and changes of tier. A refused write-back changes nothing.\<close>

datatype repo_write = WriteBack time document | SetTier time uuid Classification

fun apply_write ::
  "(time \<Rightarrow> document \<Rightarrow> 's \<Rightarrow> (repo_error, document \<times> 's) result)
     \<Rightarrow> (time \<Rightarrow> uuid \<Rightarrow> Classification \<Rightarrow> 's \<Rightarrow> document option \<times> 's) \<Rightarrow> 's \<Rightarrow> repo_write \<Rightarrow> 's" where
  "apply_write upd tier s (WriteBack now d) = (case upd now d s of Inl _ \<Rightarrow> s | Inr (_, s') \<Rightarrow> s')"
| "apply_write upd tier s (SetTier now i c) = snd (tier now i c s)"

fun last_tier :: "uuid \<Rightarrow> Classification option \<Rightarrow> repo_write list \<Rightarrow> Classification option" where
  "last_tier i c [] = c"
| "last_tier i c (SetTier _ j c' # ws) = last_tier i (if j = i then Some c' else c) ws"
| "last_tier i c (WriteBack _ _ # ws) = last_tier i c ws"

context document_repository
begin

lemma tier_after_write:
  assumes "get i s = Some old"
  shows "\<exists>d. get i (apply_write upd set_tier s w) = Some d \<and>
     classification d = last_tier i (classification old) [w]"
proof (cases w)
  case (WriteBack now d)
  show ?thesis
  proof (cases "upd now d s")
    case (Inl e)
    then show ?thesis using WriteBack assms by simp
  next
    case (Inr x)
    then obtain r s' where "upd now d s = Inr (r, s')" by (cases x) auto
    then show ?thesis using WriteBack assms upd_result [of d s old now r s'] upd_others [of now d s r s' i]
      by (cases "i = doc_id d") auto
  qed
next
  case (SetTier now j c)
  then show ?thesis using assms by (auto simp: tier_get)
qed

lemma last_tier_Cons: "last_tier i c (w # ws) = last_tier i (last_tier i c [w]) ws"
  by (cases w) auto

lemma tier_is_the_last_set:
  assumes "get i s = Some old"
  shows "\<exists>d. get i (foldl (apply_write upd set_tier) s ws) = Some d \<and>
     classification d = last_tier i (classification old) ws"
  using assms
proof (induction ws arbitrary: s old)
  case (Cons w ws)
  from tier_after_write [OF Cons.prems, of w] obtain d where
    d: "get i (apply_write upd set_tier s w) = Some d"
       "classification d = last_tier i (classification old) [w]" by blast
  show ?case using Cons.IH [OF d(1)] d(2) last_tier_Cons [of i "classification old" w ws] by simp
qed simp

end

definition mem_update_result ::
  "time \<Rightarrow> document \<Rightarrow> memory \<Rightarrow> (repo_error, document \<times> memory) result" where
  "mem_update_result now d m = Inr (mem_update_document now d m)"

interpretation pg: document_repository pg_get_by_id pg_update_document pg_set_classification
proof unfold_locales
  fix d s old now r s'
  assume "pg_get_by_id (doc_id d) s = Some old" "pg_update_document now d s = Inr (r, s')"
  then show "classification r = classification old \<and> status r = status d \<and> checksum r = checksum d
      \<and> pg_get_by_id (doc_id d) s' = Some r"
    using pg_update_Inr [of d s old now r s'] pg_update_find [of d s old now r s' "doc_id d"]
    by (simp add: pg_get_by_id_def)
next
  fix now d s r s' i
  assume "pg_update_document now d s = Inr (r, s')" "i \<noteq> doc_id d"
  then show "pg_get_by_id i s' = pg_get_by_id i s"
    using pg_update_find [of d s _ now r s' i] pg_create_find [of now d s r s' i]
    by (cases "find_doc (doc_id d) s") (auto simp: pg_get_by_id_def pg_update_document_def [of _ _ s])
qed (auto simp: pg_get_by_id_def pg_set_classification_def Let_def find_doc_def find_update_where
      find_None dest!: find_Some_mem intro!: option.map_cong option.map_ident_strong)

interpretation mem: document_repository mem_get_by_id mem_update_result mem_set_classification
  by unfold_locales
     (auto simp: mem_get_by_id_def mem_update_result_def mem_update_document_def
        mem_set_classification_def Let_def update_conv' split: option.splits)

text \<open>C5: Whatever order stage write-backs (of arbitrarily stale copies, in any state) and changes of
tier commit in, and whichever of them the unique index refuses, a document's classification is the one
last set explicitly, or its original one if none was: no stage can undo a reclassification. Both the
PostgreSQL repository and the in-memory one behave so.\<close>

theorem write_backs_never_change_a_tier:
  "(\<forall>old. pg_get_by_id i rows = Some old \<longrightarrow>
      (\<exists>d. pg_get_by_id i (foldl (apply_write pg_update_document pg_set_classification) rows ws) = Some d
           \<and> classification d = last_tier i (classification old) ws))
   \<and> (\<forall>old. mem_get_by_id i m = Some old \<longrightarrow>
      (\<exists>d. mem_get_by_id i (foldl (apply_write mem_update_result mem_set_classification) m ws) = Some d
           \<and> classification d = last_tier i (classification old) ws))"
  using pg.tier_is_the_last_set [of i rows _ ws] mem.tier_is_the_last_set [of i m _ ws] by blast

section \<open>The in-memory double simulates PostgreSQL\<close>

text \<open>Equal up to \<open>updated_at\<close>, which the database maintains by itself.\<close>

definition same_row :: "document \<Rightarrow> document \<Rightarrow> bool" where
  "same_row d r = (\<exists>u. d = r\<lparr> updated_at := u \<rparr>)"

definition sim :: "memory \<Rightarrow> document list \<Rightarrow> bool" where
  "sim m rows = (distinct (map doc_id rows)
     \<and> list_all2 (\<lambda>p r. fst p = doc_id r \<and> same_row (snd p) r) m rows)"

lemma same_rowE:
  assumes "same_row d r"
  obtains u where "d = r\<lparr> updated_at := u \<rparr>"
  using assms by (auto simp: same_row_def)

lemma sim_values: "sim m rows \<Longrightarrow> list_all2 same_row (map snd m) rows"
  by (auto simp: sim_def list_all2_conv_all_nth)

lemma rel_find:
  assumes "list_all2 R xs ys" "\<And>x y. R x y \<Longrightarrow> P x = Q y"
  shows "rel_option R (find P xs) (find Q ys)"
  using assms(1) by (induction rule: list_all2_induct) (auto simp: assms(2))

lemma sim_get: "sim m rows \<Longrightarrow> rel_option same_row (map_of m i) (find_doc i rows)"
proof -
  assume "sim m rows"
  then have "list_all2 (\<lambda>p r. fst p = doc_id r \<and> same_row (snd p) r) m rows" by (simp add: sim_def)
  then show ?thesis
    by (induction rule: list_all2_induct) (auto simp: find_doc_def)
qed

lemma sim_get_cases:
  assumes "sim m rows"
  obtains (missing) "map_of m i = None" "find_doc i rows = None"
  | (found) d r where "map_of m i = Some d" "find_doc i rows = Some r" "same_row d r" "doc_id r = i"
      "r \<in> set rows"
  using sim_get [OF assms, of i] find_doc_Some [of i rows]
  by (cases "map_of m i"; cases "find_doc i rows") auto

lemma sim_put:
  assumes "sim m rows" "same_row d r" "doc_id r = i" "find_doc i rows \<noteq> None"
  shows "sim (AList.update i d m) (replace_key doc_id r rows)"
proof -
  have all: "list_all2 (\<lambda>p r. fst p = doc_id r \<and> same_row (snd p) r) m rows"
    and dist: "distinct (map doc_id rows)" using assms(1) by (auto simp: sim_def)
  have "i \<in> doc_id ` set rows" using assms(4) by (simp add: find_doc_None)
  with all dist have "list_all2 (\<lambda>p r. fst p = doc_id r \<and> same_row (snd p) r)
      (AList.update i d m) (replace_key doc_id r rows)"
  proof (induction rule: list_all2_induct)
    case (Cons p m row rows)
    show ?case
    proof (cases "doc_id row = i")
      case True
      then have "replace_key doc_id r rows = rows"
        using Cons.prems(1) assms(3) by (auto simp: replace_key_def image_iff intro!: map_idI)
      then show ?thesis using Cons.hyps True assms(2,3) by (cases p) (auto simp: replace_key_def)
    next
      case False
      then show ?thesis using Cons assms(2,3) by (cases p) (auto simp: replace_key_def)
    qed
  qed simp
  then show ?thesis using dist by (simp add: sim_def)
qed

lemma find_where:
  "distinct (map doc_id rows) \<Longrightarrow>
     find (\<lambda>d. doc_id d = i \<and> P d) rows =
       (case find_doc i rows of None \<Rightarrow> None | Some d \<Rightarrow> if P d then Some d else None)"
proof (induction rows)
  case (Cons a rows)
  show ?case
  proof (cases "doc_id a = i")
    case True
    then have "find (\<lambda>d. doc_id d = i \<and> P d) rows = None"
      using Cons.prems by (auto simp: find_None image_iff)
    with True show ?thesis by (simp add: find_doc_def)
  next
    case False
    then show ?thesis using Cons by (simp add: find_doc_def)
  qed
qed (simp add: find_doc_def)

lemma sim_update_where:
  assumes "sim m rows" "\<And>d r. same_row d r \<Longrightarrow> P d = Q r \<and> (Q r \<longrightarrow> same_row (f d) (g r) \<and> doc_id (g r) = doc_id r)"
  shows "sim (map (\<lambda>(k, d). (k, if P d then f d else d)) m) (update_where Q g rows)"
proof -
  have all: "list_all2 (\<lambda>p r. fst p = doc_id r \<and> same_row (snd p) r) m rows"
    and dist: "distinct (map doc_id rows)" using assms(1) by (auto simp: sim_def)
  from all have "list_all2 (\<lambda>p r. fst p = doc_id r \<and> same_row (snd p) r)
      (map (\<lambda>(k, d). (k, if P d then f d else d)) m) (update_where Q g rows)"
  proof (induction rule: list_all2_induct)
    case (Cons p m r rows)
    then show ?case using assms(2) [of "snd p" r] by (cases p) auto
  qed simp
  moreover have "map doc_id (update_where Q g rows) = map doc_id rows"
    using all
  proof (induction rule: list_all2_induct)
    case (Cons p m r rows)
    then show ?case using assms(2) [of "snd p" r] by auto
  qed simp
  ultimately show ?thesis using dist by (simp add: sim_def)
qed

lemma list_all2_page: "list_all2 R xs ys \<Longrightarrow> list_all2 R (page l k xs) (page l k ys)"
  by (simp add: page_def list_all2_dropI list_all2_takeI)

lemma sim_set_classification:
  assumes "sim m rows"
  shows "rel_option same_row (fst (mem_set_classification now i c m)) (fst (pg_set_classification now i c rows))
    \<and> sim (snd (mem_set_classification now i c m)) (snd (pg_set_classification now i c rows))"
proof -
  let ?g = "\<lambda>r. r\<lparr> classification := Some c, updated_at := now \<rparr>"
  have upd: "update_where (\<lambda>r. doc_id r = i) ?g rows = rows" if "i \<notin> doc_id ` set rows"
    using that by (auto simp: update_where_def intro!: map_idI)
  have rep: "update_where (\<lambda>r. doc_id r = i) ?g rows = replace_key doc_id (?g r) rows"
    if "r \<in> set rows" "doc_id r = i" for r
    unfolding update_where_def replace_key_def
  proof (rule map_cong [OF refl])
    fix x assume x: "x \<in> set rows"
    have "doc_id x = i \<Longrightarrow> x = r"
      using x that distinct_key_unique [of doc_id rows x r] assms by (simp add: sim_def)
    then show "(if doc_id x = i then ?g x else x) = (if doc_id x = doc_id (?g r) then ?g r else x)"
      using that(2) by (cases "doc_id x = i") simp_all
  qed
  from assms show ?thesis
  proof (cases rule: sim_get_cases [where i = i])
    case missing
    then show ?thesis using assms upd find_doc_None [of i rows]
      by (simp add: mem_set_classification_def pg_set_classification_def Let_def pg_get_by_id_def)
  next
    case (found d r)
    then have same: "same_row (?g d) (?g r)" by (auto simp: same_row_def)
    have "i \<in> doc_id ` set rows" using found by (metis imageI)
    then show ?thesis using found rep [OF found(5,4)] same sim_put [OF assms same, of i]
      by (simp add: mem_set_classification_def pg_set_classification_def Let_def pg_get_by_id_def find_doc_replace)
  qed
qed

lemma touch_stamp: "(touch now old new)\<lparr> updated_at := t \<rparr> = new\<lparr> updated_at := t \<rparr>"
  by (simp add: touch_def)

lemma sim_update_document:
  assumes "sim m rows" "find_doc (doc_id d) rows = Some row"
    and "filename d = filename row" "owner_id d = owner_id row" "size d = size row"
    and "created_at d = created_at row" "deleted_at d = deleted_at row" "purged_at d = purged_at row"
    and "pg_update_document now d rows = Inr (r, rows')"
  shows "same_row (fst (mem_update_document now d m)) r \<and> sim (snd (mem_update_document now d m)) rows'"
  using assms(1)
proof (cases rule: sim_get_cases [where i = "doc_id d"])
  case missing
  then show ?thesis using assms(2) by simp
next
  case (found d0 r0)
  have r: "r = touch now row (written_back d row)" "rows' = replace_key doc_id r rows"
    using pg_update_Inr [OF assms(2,9)] by auto
  have cls: "classification d0 = classification row" and id: "doc_id row = doc_id d"
    using found assms(2) by (auto elim!: same_rowE)
  have same: "same_row (d\<lparr> updated_at := now, classification := classification d0 \<rparr>) r"
    unfolding same_row_def r cls
    by (rule exI [of _ now])
       (simp add: touch_stamp written_back_def, rule document.equality, simp_all add: assms(3-8) id)
  have "doc_id r = doc_id d" using r id by simp
  then show ?thesis
    using found(1) same sim_put [OF assms(1) same, of "doc_id d"] assms(2) r
    by (simp add: mem_update_document_def Let_def)
qed

lemma same_rowI: "d\<lparr> updated_at := 0 \<rparr> = r\<lparr> updated_at := 0 \<rparr> \<Longrightarrow> same_row d r"
proof -
  assume "d\<lparr> updated_at := 0 \<rparr> = r\<lparr> updated_at := 0 \<rparr>"
  then have "(d\<lparr> updated_at := 0 \<rparr>)\<lparr> updated_at := updated_at d \<rparr>
      = (r\<lparr> updated_at := 0 \<rparr>)\<lparr> updated_at := updated_at d \<rparr>" by (rule arg_cong)
  then have "d = r\<lparr> updated_at := updated_at d \<rparr>" by simp
  then show ?thesis unfolding same_row_def ..
qed

lemma same_row_writes:
  assumes "same_row d r"
  shows "same_row (d\<lparr> deleted_at := x \<rparr>) (r\<lparr> deleted_at := x, updated_at := t \<rparr>)"
    and "same_row (tombstone now d) ((tombstone now r)\<lparr> updated_at := t \<rparr>)"
    and "same_row (tombstone_duplicate now d) ((tombstone_duplicate now r)\<lparr> updated_at := t \<rparr>)"
proof -
  obtain u where d: "d = r\<lparr> updated_at := u \<rparr>" using assms by (rule same_rowE)
  show "same_row (d\<lparr> deleted_at := x \<rparr>) (r\<lparr> deleted_at := x, updated_at := t \<rparr>)"
    by (rule same_rowI) (simp add: d)
  show "same_row (tombstone now d) ((tombstone now r)\<lparr> updated_at := t \<rparr>)"
    by (rule same_rowI) (simp add: d tombstone_def)
  show "same_row (tombstone_duplicate now d) ((tombstone_duplicate now r)\<lparr> updated_at := t \<rparr>)"
    by (rule same_rowI) (simp add: d tombstone_duplicate_def)
qed

lemma sim_replace_found:
  assumes "sim m rows" "find_doc i rows = Some r" "same_row d' r'" "doc_id r' = i"
  shows "sim (AList.update i d' m) (replace_key doc_id r' rows)"
  using sim_put [OF assms(1,3,4)] assms(2) by simp

lemma sim_soft_delete:
  assumes "sim m rows"
  shows "fst (mem_soft_delete now i m) = fst (pg_soft_delete now i rows)
    \<and> sim (snd (mem_soft_delete now i m)) (snd (pg_soft_delete now i rows))"
proof -
  have dist: "distinct (map doc_id rows)" using assms by (simp add: sim_def)
  from assms show ?thesis
  proof (cases rule: sim_get_cases [where i = i])
    case missing
    then show ?thesis using assms
      by (simp add: mem_soft_delete_def pg_soft_delete_def find_where [OF dist])
  next
    case (found d r)
    have "same_row (d\<lparr> deleted_at := Some now \<rparr>) (r\<lparr> deleted_at := Some now, updated_at := now \<rparr>)"
      using found(3) by (rule same_row_writes)
    from sim_replace_found [OF assms found(2) this] found assms show ?thesis
      by (auto simp: mem_soft_delete_def pg_soft_delete_def find_where [OF dist] elim!: same_rowE)
  qed
qed

lemma sim_restore:
  assumes "sim m rows"
  shows "fst (mem_restore i m) = fst (pg_restore now i rows)
    \<and> sim (snd (mem_restore i m)) (snd (pg_restore now i rows))"
proof -
  have dist: "distinct (map doc_id rows)" using assms by (simp add: sim_def)
  from assms show ?thesis
  proof (cases rule: sim_get_cases [where i = i])
    case missing
    then show ?thesis using assms
      by (simp add: mem_restore_def pg_restore_def find_where [OF dist])
  next
    case (found d r)
    have "same_row (d\<lparr> deleted_at := None \<rparr>) (r\<lparr> deleted_at := None, updated_at := now \<rparr>)"
      using found(3) by (rule same_row_writes)
    from sim_replace_found [OF assms found(2) this] found assms show ?thesis
      by (auto simp: mem_restore_def pg_restore_def find_where [OF dist] elim!: same_rowE)
  qed
qed

lemma sim_purge:
  assumes "sim m rows"
  shows "fst (mem_purge now i m) = fst (pg_purge now i rows)
    \<and> sim (snd (mem_purge now i m)) (snd (pg_purge now i rows))"
proof -
  have dist: "distinct (map doc_id rows)" using assms by (simp add: sim_def)
  from assms show ?thesis
  proof (cases rule: sim_get_cases [where i = i])
    case missing
    then show ?thesis using assms
      by (simp add: mem_purge_def pg_purge_def find_where [OF dist])
  next
    case (found d r)
    have "same_row (tombstone now d) ((tombstone now r)\<lparr> updated_at := now \<rparr>)"
      using found(3) by (rule same_row_writes)
    from sim_replace_found [OF assms found(2) this] found assms show ?thesis
      by (auto simp: mem_purge_def pg_purge_def find_where [OF dist] elim!: same_rowE)
  qed
qed

lemma sim_purge_duplicates:
  assumes "sim m rows"
  shows "fst (mem_purge_duplicates_of now c m) = fst (pg_purge_duplicates_of now c rows)
    \<and> sim (snd (mem_purge_duplicates_of now c m)) (snd (pg_purge_duplicates_of now c rows))"
proof
  have "list_all2 same_row (filter (is_duplicate_of c) (map snd m)) (filter (is_duplicate_of c) rows)"
    using sim_values [OF assms] by (rule list_all2_filter) (auto simp: is_duplicate_of_def elim: same_rowE)
  then have "length (filter (is_duplicate_of c) (map snd m)) = length (filter (is_duplicate_of c) rows)"
    by (rule list_all2_lengthD)
  then show "fst (mem_purge_duplicates_of now c m) = fst (pg_purge_duplicates_of now c rows)"
    by (simp add: mem_purge_duplicates_of_def pg_purge_duplicates_of_def filter_map comp_def)
  show "sim (snd (mem_purge_duplicates_of now c m)) (snd (pg_purge_duplicates_of now c rows))"
    unfolding mem_purge_duplicates_of_def pg_purge_duplicates_of_def snd_conv using assms
    by (rule sim_update_where) (auto simp: is_duplicate_of_def same_row_writes elim: same_rowE)
qed

lemma sim_list_deleted:
  assumes "sim m rows"
  shows "list_all2 same_row (mem_list_deleted v adm limit m) (pg_list_deleted v adm limit rows)"
proof -
  have sorted: "list_all2 same_row (take k (sort_desc deleted_key (filter P (map snd m))))
      (take k (sort_desc deleted_key (filter Q rows)))"
    if "\<And>d r. same_row d r \<Longrightarrow> P d = Q r" for P Q k
    using sim_values [OF assms] that
    by (intro list_all2_takeI list_all2_sort_desc list_all2_filter) (auto simp: same_row_def deleted_key_def)
  show ?thesis
  proof (cases "\<not> adm \<and> v = None")
    case True
    then show ?thesis by (simp add: mem_list_deleted_def pg_list_deleted_def sort_desc_def)
  next
    case False
    then show ?thesis unfolding mem_list_deleted_def pg_list_deleted_def
      by (cases adm; cases v) (auto simp: restorable_def same_row_def intro!: sorted)
  qed
qed

lemma sim_list_paginated:
  assumes "sim m rows"
  shows "list_all2 same_row (fst (mem_list_paginated l k v adm m)) (fst (pg_list_paginated l k v adm rows))
    \<and> snd (mem_list_paginated l k v adm m) = snd (pg_list_paginated l k v adm rows)"
proof -
  have "list_all2 same_row
      (filter (\<lambda>d. deleted_at d = None \<and> can_view (classification d) (owner_id d) v adm) (map snd m))
      (filter (\<lambda>d. deleted_at d = None \<and> row_visible v adm d) rows)" (is "list_all2 _ ?a ?b")
    using sim_values [OF assms] by (rule list_all2_filter) (auto simp: same_row_def row_visible_iff)
  moreover from this have "list_all2 same_row (sort_desc created_at ?a) (sort_desc created_at ?b)"
    by (rule list_all2_sort_desc) (auto simp: same_row_def)
  ultimately show ?thesis
    by (auto simp: mem_list_paginated_def pg_list_paginated_def Let_def dest: list_all2_lengthD
        intro: list_all2_page)
qed



section \<open>Deleting, restoring, erasing\<close>

lemma pg_soft_delete_found:
  assumes "distinct (map doc_id rows)" "find_doc i rows = Some d"
  shows "pg_soft_delete now i rows =
    (if deleted_at d = None \<and> purged_at d = None
     then (True, replace_key doc_id (d\<lparr> deleted_at := Some now, updated_at := now \<rparr>) rows)
     else (False, rows))"
  using assms by (simp add: pg_soft_delete_def find_where)

lemma pg_restore_found:
  assumes "distinct (map doc_id rows)" "find_doc i rows = Some d"
  shows "pg_restore now i rows =
    (if deleted_at d \<noteq> None \<and> purged_at d = None
     then (True, replace_key doc_id (d\<lparr> deleted_at := None, updated_at := now \<rparr>) rows)
     else (False, rows))"
  using assms by (auto simp: pg_restore_def find_where)

lemma pg_purge_found:
  assumes "distinct (map doc_id rows)" "find_doc i rows = Some d"
  shows "pg_purge now i rows =
    (if purged_at d = None
     then (True, replace_key doc_id ((tombstone now d)\<lparr> updated_at := now \<rparr>) rows)
     else (False, rows))"
  using assms by (simp add: pg_purge_def find_where)

lemma find_doc_replaced [simp]:
  assumes "find_doc i rows = Some d" "doc_id d' = i"
  shows "find_doc i (replace_key doc_id d' rows) = Some d'"
proof -
  have "i \<in> doc_id ` set rows" using find_doc_Some [OF assms(1)] by (metis imageI)
  then show ?thesis using assms(2) by (simp add: find_doc_replace)
qed

lemma delete_then_restore:
  assumes "distinct (map doc_id rows)" "find_doc i rows = Some d" "deleted_at d = None" "purged_at d = None"
  shows "fst (pg_soft_delete t1 i rows) \<and> fst (pg_restore t2 i (snd (pg_soft_delete t1 i rows)))
    \<and> find_doc i (snd (pg_restore t2 i (snd (pg_soft_delete t1 i rows)))) = Some (d\<lparr> updated_at := t2 \<rparr>)
    \<and> \<not> fst (pg_soft_delete t2 i (snd (pg_soft_delete t1 i rows)))"
proof -
  have id: "doc_id d = i" using find_doc_Some [OF assms(2)] by simp
  let ?d1 = "d\<lparr> deleted_at := Some t1, updated_at := t1 \<rparr>"
  let ?rows1 = "replace_key doc_id ?d1 rows"
  have one: "pg_soft_delete t1 i rows = (True, ?rows1)"
    using assms by (simp add: pg_soft_delete_found)
  have found1: "find_doc i ?rows1 = Some ?d1" and dist1: "distinct (map doc_id ?rows1)"
    using assms(1,2) id by simp_all
  have d2: "d\<lparr> deleted_at := None, updated_at := t2 \<rparr> = d\<lparr> updated_at := t2 \<rparr>"
    using assms(3) by (intro document.equality) simp_all
  show ?thesis
    using pg_restore_found [OF dist1 found1, of t2] pg_soft_delete_found [OF dist1 found1, of t2]
      find_doc_replaced [OF found1, of "?d1\<lparr> deleted_at := None, updated_at := t2 \<rparr>"] assms(4) id
    by (simp add: one d2)
qed

lemma purged_is_final:
  assumes "distinct (map doc_id rows)" "find_doc i rows = Some d" "purged_at d \<noteq> None"
  shows "\<not> fst (pg_purge t i rows) \<and> \<not> fst (pg_restore t i rows) \<and> \<not> fst (pg_soft_delete t i rows)
    \<and> i \<notin> doc_id ` set (pg_list_deleted v adm n rows)"
proof -
  have only: "\<And>e. e \<in> set rows \<Longrightarrow> doc_id e = i \<Longrightarrow> e = d"
    using find_doc_Some [OF assms(2)] distinct_key_unique [OF assms(1)] by blast
  have "i \<notin> doc_id ` set (pg_list_deleted v adm n rows)"
  proof
    assume "i \<in> doc_id ` set (pg_list_deleted v adm n rows)"
    then obtain e where "e \<in> set rows" "doc_id e = i" "restorable e"
      by (auto simp: pg_list_deleted_def split: if_splits option.splits dest!: in_set_takeD)
    with only assms(3) show False by (auto simp: restorable_def)
  qed
  then show ?thesis
    using assms by (simp add: pg_purge_found pg_restore_found pg_soft_delete_found)
qed

text \<open>Deleting is reversible until the bytes are erased, and erasing is final. A soft delete of a
visible document followed by a restore gives the row back unchanged but for its timestamp, answering
\<open>True\<close> both times, and cannot be repeated in between; after a purge the document can be neither
restored nor deleted nor purged again, is in nobody's bin, keeps neither hash nor path, and its hash
finds no document, so that the same file can be uploaded anew.\<close>

theorem delete_restore_purge:
  assumes "wf_docs rows" "find_doc i rows = Some d" "deleted_at d = None" "purged_at d = None"
  shows "(let (ok1, rows1) = pg_soft_delete t1 i rows; (ok2, rows2) = pg_restore t2 i rows1 in
           ok1 \<and> ok2 \<and> find_doc i rows2 = Some (d\<lparr> updated_at := t2 \<rparr>)
           \<and> \<not> fst (pg_soft_delete t2 i rows1))
    \<and> (let (ok1, rows1) = pg_purge t1 i rows in
         ok1 \<and> \<not> fst (pg_purge t i rows1) \<and> \<not> fst (pg_restore t i rows1)
         \<and> \<not> fst (pg_soft_delete t i rows1) \<and> i \<notin> doc_id ` set (pg_list_deleted v adm n rows1)
         \<and> (\<exists>d1. find_doc i rows1 = Some d1 \<and> checksum d1 = None \<and> raw_path d1 = None
               \<and> quarantine_path d1 = None)
         \<and> (\<forall>h. active_checksum d = Some h \<longrightarrow> pg_get_by_checksum h rows1 = None))"
proof -
  have dist: "distinct (map doc_id rows)" using assms(1) by (simp add: wf_docs_def)
  have d: "d \<in> set rows" "doc_id d = i" using find_doc_Some [OF assms(2)] by auto
  let ?d1 = "(tombstone t1 d)\<lparr> updated_at := t1 \<rparr>"
  let ?rows1 = "replace_key doc_id ?d1 rows"
  have purge: "pg_purge t1 i rows = (True, ?rows1)"
    using assms dist by (simp add: pg_purge_found)
  have found1: "find_doc i ?rows1 = Some ?d1" and dist1: "distinct (map doc_id ?rows1)"
    using assms(2) dist d(2) by simp_all
  have final: "\<not> fst (pg_purge t i ?rows1) \<and> \<not> fst (pg_restore t i ?rows1)
      \<and> \<not> fst (pg_soft_delete t i ?rows1) \<and> i \<notin> doc_id ` set (pg_list_deleted v adm n ?rows1)"
    by (rule purged_is_final [OF dist1 found1]) (simp add: tombstone_def)
  have "pg_get_by_checksum h ?rows1 = None" if "active_checksum d = Some h" for h
  proof -
    obtain xs ys where rows: "rows = xs @ d # ys" using d(1) by (meson split_list)
    have "h \<notin> set (active_checksums xs) \<union> set (active_checksums ys)"
      using assms(1) that by (auto simp: wf_docs_def rows)
    moreover have "?rows1 = xs @ ?d1 # ys"
      unfolding rows by (rule replace_key_split) (use dist rows in \<open>simp_all\<close>)
    ultimately show ?thesis
      by (auto simp: pg_get_by_checksum_def find_None set_active_checksums active_checksum_def tombstone_def)
  qed
  then show ?thesis
    using delete_then_restore [OF dist assms(2-4), of t1 t2] final found1
    by (simp add: purge split_beta Let_def tombstone_def)
qed

definition sample_row :: document where
  "sample_row = (new_document ''a'' ''f'' 1 0)\<lparr> checksum := Some ''h'', classification := Some PUBLIC, status := LIVE \<rparr>"

theorem delete_restore_purge_witness:
  "fst (pg_soft_delete 1 ''a'' [sample_row]) \<and> fst (pg_purge 1 ''a'' [sample_row])"
  using delete_restore_purge [of "[sample_row]" "''a''" sample_row 1 2 3 None False 0]
  by (simp add: wf_docs_def find_doc_def sample_row_def new_document_def active_checksum_def
      active_status_def split_beta Let_def)


theorem write_backs_never_change_a_tier_witness:
  "\<exists>d. pg_get_by_id ''a'' (foldl (apply_write pg_update_document pg_set_classification) [sample_row]
         [SetTier 1 ''a'' RESTRICTED, WriteBack 2 (sample_row\<lparr> status := ARCHIVED \<rparr>)]) = Some d
       \<and> classification d = Some RESTRICTED"
  using write_backs_never_change_a_tier [of "''a''" "[sample_row]"
      "[SetTier 1 ''a'' RESTRICTED, WriteBack 2 (sample_row\<lparr> status := ARCHIVED \<rparr>)]" "[]"]
  by (simp add: pg_get_by_id_def find_doc_def sample_row_def new_document_def)

end
