(* ===== verification/JobQueue.thy ===== *)
theory JobQueue
  imports DataModel
begin

text \<open>\<open>workers/base_worker.py\<close>: the job table as the workers use it. One definition per statement they
issue (claim, lease renewal, reaper, completion, failure, retry), \<open>execute_job\<close> over the outcome of the
stage's own processing, and the polling step. Several workers, the reaper and the clock interleave in a
step relation, on which the invariants are proved by rule induction.\<close>

section \<open>Configuration and claimed jobs\<close>

record worker_config =
  lease_seconds :: int
  max_job_retries :: nat
  backoff_base_seconds :: int
  backoff_max_seconds :: int
  reaper_interval_seconds :: int

definition default_config :: worker_config where
  "default_config = \<lparr> lease_seconds = 60, max_job_retries = 3, backoff_base_seconds = 5,
     backoff_max_seconds = 60, reaper_interval_seconds = 30 \<rparr>"

record job_item =
  item_job_id :: uuid
  item_document_id :: uuid
  item_stage :: JobStage
  item_status :: JobStatus
  item_worker_id :: string
  item_retry_count :: nat
  item_lease_expires_at :: "time option"

definition find_job :: "uuid \<Rightarrow> job list \<Rightarrow> job option" where
  "find_job j q = find (\<lambda>x. job_id x = j) q"

section \<open>The statements\<close>

definition claimable :: "JobStage \<Rightarrow> uuid list \<Rightarrow> time \<Rightarrow> job \<Rightarrow> bool" where
  "claimable st locked now j =
     (job_stage j = st \<and> job_status j = PENDING \<and> scheduled_at j \<le> now \<and> job_id j \<notin> set locked)"

text \<open>\<open>ORDER BY priority DESC, scheduled_at ASC\<close>; \<open>locked\<close> are the rows another transaction has locked,
which \<open>SKIP LOCKED\<close> passes over.\<close>

definition claim_order :: "JobStage \<Rightarrow> uuid list \<Rightarrow> time \<Rightarrow> job list \<Rightarrow> job list" where
  "claim_order st locked now q =
     sort_desc priority (sort_key scheduled_at (filter (claimable st locked now) q))"

definition claimed :: "worker_config \<Rightarrow> string \<Rightarrow> time \<Rightarrow> job \<Rightarrow> job" where
  "claimed cfg w now j =
     j\<lparr> job_status := RUNNING, started_at := Some now, worker_id := Some w,
        lease_expires_at := Some (now + lease_seconds cfg) \<rparr>"

definition job_item_of :: "string \<Rightarrow> job \<Rightarrow> job_item" where
  "job_item_of w j =
     \<lparr> item_job_id = job_id j, item_document_id = job_document_id j, item_stage = job_stage j,
       item_status = job_status j, item_worker_id = w, item_retry_count = retry_count j,
       item_lease_expires_at = lease_expires_at j \<rparr>"

definition pick_job ::
  "worker_config \<Rightarrow> string \<Rightarrow> JobStage \<Rightarrow> uuid list \<Rightarrow> time \<Rightarrow> job list \<Rightarrow> job_item option \<times> job list" where
  "pick_job cfg w st locked now q =
     (case claim_order st locked now q of
        [] \<Rightarrow> (None, q)
      | j # _ \<Rightarrow> (Some (job_item_of w (claimed cfg w now j)), replace_key job_id (claimed cfg w now j) q))"

definition lease_expired :: "time \<Rightarrow> job \<Rightarrow> bool" where
  "lease_expired now j =
     (job_status j = RUNNING \<and> (case lease_expires_at j of None \<Rightarrow> False | Some t \<Rightarrow> t < now))"

definition reap_fail :: "time \<Rightarrow> job \<Rightarrow> job" where
  "reap_fail now j =
     j\<lparr> job_status := FAILED, worker_id := None, lease_expires_at := None, finished_at := Some now,
        error_message := Some ''Job failed: exceeded maximum retries via lease expiry recovery.'' \<rparr>"

definition reap_requeue :: "time \<Rightarrow> job \<Rightarrow> job" where
  "reap_requeue now j =
     j\<lparr> job_status := PENDING, retry_count := retry_count j + 1, worker_id := None,
        lease_expires_at := None, scheduled_at := now + 5 \<rparr>"

definition reap_stuck_jobs :: "worker_config \<Rightarrow> time \<Rightarrow> job list \<Rightarrow> nat \<times> job list" where
  "reap_stuck_jobs cfg now q =
     (let q1 = update_where (\<lambda>j. lease_expired now j \<and> retry_count j \<ge> max_job_retries cfg) (reap_fail now) q;
          reap = (\<lambda>j. lease_expired now j \<and> retry_count j < max_job_retries cfg)
      in (length (filter reap q1), update_where reap (reap_requeue now) q1))"

definition renew_once :: "worker_config \<Rightarrow> string \<Rightarrow> time \<Rightarrow> uuid \<Rightarrow> job list \<Rightarrow> bool \<times> job list" where
  "renew_once cfg w now i q =
     (let mine = (\<lambda>j. job_id j = i \<and> job_status j = RUNNING \<and> worker_id j = Some w)
      in (list_ex mine q, update_where mine (\<lambda>j. j\<lparr> lease_expires_at := Some (now + lease_seconds cfg) \<rparr>) q))"

definition mark_job_completed :: "time \<Rightarrow> uuid \<Rightarrow> job list \<Rightarrow> job list" where
  "mark_job_completed now i q =
     update_where (\<lambda>j. job_id j = i)
       (\<lambda>j. j\<lparr> job_status := COMPLETED, finished_at := Some now, lease_expires_at := None \<rparr>) q"

definition mark_job_failed :: "time \<Rightarrow> uuid \<Rightarrow> string \<Rightarrow> job list \<Rightarrow> job list" where
  "mark_job_failed now i msg q =
     update_where (\<lambda>j. job_id j = i)
       (\<lambda>j. j\<lparr> job_status := FAILED, finished_at := Some now, lease_expires_at := None,
              error_message := Some (take 500 msg) \<rparr>) q"

definition backoff_seconds :: "worker_config \<Rightarrow> nat \<Rightarrow> int" where
  "backoff_seconds cfg r = min (backoff_max_seconds cfg) (backoff_base_seconds cfg * 2 ^ r)"

text \<open>The decision reads the retry count of the claimed item; the statement increments the row's.\<close>

definition handle_job_retry_or_fail ::
  "worker_config \<Rightarrow> time \<Rightarrow> job_item \<Rightarrow> string \<Rightarrow> job list \<Rightarrow> job list" where
  "handle_job_retry_or_fail cfg now item msg q =
     (let err = take 500 msg in
      if item_retry_count item < max_job_retries cfg
      then update_where (\<lambda>j. job_id j = item_job_id item)
             (\<lambda>j. j\<lparr> job_status := PENDING, retry_count := retry_count j + 1,
                    scheduled_at := now + backoff_seconds cfg (item_retry_count item),
                    worker_id := None, lease_expires_at := None, error_message := Some err \<rparr>) q
      else mark_job_failed now (item_job_id item)
             (''Max retries ('' @ nat_str (max_job_retries cfg) @ '') exceeded: '' @ err) q)"

text \<open>What the stage's \<open>process_job\<close> did: returned, or raised one of the error classes.\<close>

datatype outcome = Processed | TransientError string | PermanentError string | UnexpectedError string

definition execute_job :: "worker_config \<Rightarrow> time \<Rightarrow> job_item \<Rightarrow> outcome \<Rightarrow> job list \<Rightarrow> job list" where
  "execute_job cfg now item out q =
     (case out of
        Processed \<Rightarrow> mark_job_completed now (item_job_id item) q
      | TransientError e \<Rightarrow> handle_job_retry_or_fail cfg now item e q
      | PermanentError e \<Rightarrow> mark_job_failed now (item_job_id item) e q
      | UnexpectedError e \<Rightarrow> handle_job_retry_or_fail cfg now item (''Unexpected error: '' @ e) q)"

text \<open>One poll of one worker when nothing else runs: reap if the interval has passed, claim, execute.\<close>

definition run_once ::
  "worker_config \<Rightarrow> string \<Rightarrow> JobStage \<Rightarrow> time \<Rightarrow> time \<Rightarrow> (job_item \<Rightarrow> outcome) \<Rightarrow> job list
     \<Rightarrow> job_item option \<times> time \<times> job list" where
  "run_once cfg w st now last_reap process q =
     (let due = now - last_reap \<ge> reaper_interval_seconds cfg;
          q1 = (if due then snd (reap_stuck_jobs cfg now q) else q);
          last' = (if due then now else last_reap)
      in case pick_job cfg w st [] now q1 of
           (None, q2) \<Rightarrow> (None, last', q2)
         | (Some item, q2) \<Rightarrow> (Some item, last', execute_job cfg now item (process item) q2))"

section \<open>What a claim picks\<close>

definition claim_before :: "job \<Rightarrow> job \<Rightarrow> bool" where
  "claim_before a b = (priority b < priority a \<or> (priority a = priority b \<and> scheduled_at a \<le> scheduled_at b))"

lemma set_claim_order [simp]: "set (claim_order st locked now q) = {j \<in> set q. claimable st locked now j}"
  by (auto simp: claim_order_def)

lemma sorted_wrt_insort_desc:
  assumes "sorted_wrt claim_before xs" "\<forall>y\<in>set xs. scheduled_at x \<le> scheduled_at y"
  shows "sorted_wrt claim_before (insort_key (\<lambda>j. - priority j) x xs)"
  using assms by (induction xs) (auto simp: claim_before_def set_insort_key)

lemma claim_order_sorted: "sorted_wrt claim_before (claim_order st locked now q)"
proof -
  have "sorted (map scheduled_at xs) \<Longrightarrow> sorted_wrt claim_before (sort_key (\<lambda>j. - priority j) xs)" for xs
    by (induction xs) (auto intro: sorted_wrt_insort_desc)
  then show ?thesis by (simp add: claim_order_def sort_desc_def)
qed

lemma pick_job_None: "fst (pick_job cfg w st locked now q) = None \<longleftrightarrow> (\<forall>j\<in>set q. \<not> claimable st locked now j)"
proof -
  have "claim_order st locked now q = [] \<longleftrightarrow> {j \<in> set q. claimable st locked now j} = {}"
    by (metis set_claim_order set_empty)
  then show ?thesis
    by (auto simp: pick_job_def split: list.split)
qed

lemma pick_job_Some:
  assumes "pick_job cfg w st locked now q = (Some item, q')"
  shows "\<exists>j. j \<in> set q \<and> claimable st locked now j \<and> item = job_item_of w (claimed cfg w now j)
    \<and> q' = replace_key job_id (claimed cfg w now j) q
    \<and> (\<forall>k\<in>set q. claimable st locked now k \<longrightarrow> claim_before j k)"
proof -
  obtain j rest where order: "claim_order st locked now q = j # rest"
    using assms by (auto simp: pick_job_def split: list.splits)
  have "j \<in> set q \<and> claimable st locked now j"
    using set_claim_order [of st locked now q] order by (metis (mono_tags, lifting) list.set_intros(1) mem_Collect_eq)
  moreover have "claim_before j k" if "k \<in> set q" "claimable st locked now k" for k
  proof -
    have "k \<in> set (claim_order st locked now q)" using that by simp
    then show ?thesis using claim_order_sorted [of st locked now q] order
      by (auto simp: claim_before_def)
  qed
  ultimately show ?thesis using assms order by (auto simp: pick_job_def)
qed

lemma claimed_simps [simp]:
  "job_id (claimed cfg w now j) = job_id j" "job_stage (claimed cfg w now j) = job_stage j"
  "job_status (claimed cfg w now j) = RUNNING" "retry_count (claimed cfg w now j) = retry_count j"
  "worker_id (claimed cfg w now j) = Some w"
  "lease_expires_at (claimed cfg w now j) = Some (now + lease_seconds cfg)"
  by (simp_all add: claimed_def)

lemma job_item_of_simps [simp]:
  "item_job_id (job_item_of w j) = job_id j" "item_retry_count (job_item_of w j) = retry_count j"
  "item_worker_id (job_item_of w j) = w" "item_stage (job_item_of w j) = job_stage j"
  by (simp_all add: job_item_of_def)

lemma find_job_replace:
  "find_job i (replace_key job_id j q) =
     (if i = job_id j then (if i \<in> job_id ` set q then Some j else None) else find_job i q)"
  using find_replace_same [of job_id j q] find_replace_other [of i job_id j q]
  by (auto simp: find_job_def find_None replace_key_def image_iff)

lemma find_job_update_where:
  "(\<And>r. P r \<Longrightarrow> job_id (f r) = job_id r) \<Longrightarrow>
   find_job i (update_where P f q) = map_option (\<lambda>r. if P r then f r else r) (find_job i q)"
  unfolding find_job_def by (rule find_update_where)

lemma find_job_Some: "find_job i q = Some j \<Longrightarrow> j \<in> set q \<and> job_id j = i"
  by (auto simp: find_job_def dest: find_Some_mem)

text \<open>C7: A claim takes the right job and only it: it returns nothing exactly when no pending, due,
unlocked job of the stage exists; otherwise it picks one that no other claimable job precedes (higher
priority first, then the earliest schedule), marks that row \<open>RUNNING\<close> for this worker with a fresh lease
and the same retry count, leaves every other row as it was, and no second claim can return it.\<close>

theorem claim_takes_first_due_job:
  assumes "distinct (map job_id q)"
  shows "case pick_job cfg w st locked now q of
      (None, q') \<Rightarrow> q' = q \<and> (\<forall>j\<in>set q. \<not> claimable st locked now j)
    | (Some item, q') \<Rightarrow>
        (\<exists>j\<in>set q. claimable st locked now j \<and> item_job_id item = job_id j
           \<and> (\<forall>k\<in>set q. claimable st locked now k \<longrightarrow> claim_before j k)
           \<and> find_job (job_id j) q' = Some (claimed cfg w now j))
        \<and> (\<forall>i. i \<noteq> item_job_id item \<longrightarrow> find_job i q' = find_job i q)
        \<and> (\<forall>w' st' locked' t item'. fst (pick_job cfg w' st' locked' t q') = Some item'
              \<longrightarrow> item_job_id item' \<noteq> item_job_id item)"
proof (cases "pick_job cfg w st locked now q")
  case (Pair res q')
  show ?thesis
  proof (cases res)
    case None
    then have "q' = q" using Pair by (auto simp: pick_job_def split: list.splits)
    then show ?thesis using Pair None pick_job_None [of cfg w st locked now q] by simp
  next
    case (Some item)
    from pick_job_Some [OF Pair [unfolded Some]] obtain j where j: "j \<in> set q" "claimable st locked now j"
      "item = job_item_of w (claimed cfg w now j)" "q' = replace_key job_id (claimed cfg w now j) q"
      "\<forall>k\<in>set q. claimable st locked now k \<longrightarrow> claim_before j k" by blast
    have mem: "job_id j \<in> job_id ` set q" using j(1) by blast
    have again: "item_job_id item' \<noteq> job_id j"
      if picked: "fst (pick_job cfg w' st' locked' t q') = Some item'" for w' st' locked' t item'
    proof -
      obtain q'' where "pick_job cfg w' st' locked' t q' = (Some item', q'')"
        using picked by (metis prod.collapse)
      from pick_job_Some [OF this] obtain k where k: "k \<in> set q'" "claimable st' locked' t k"
        "item_job_id item' = job_id k" by auto
      have "k = claimed cfg w now j" if same: "job_id k = job_id j"
        using k(1) mem same unfolding j(4) by (auto simp: set_replace_key)
      with k(2,3) show ?thesis by (auto simp: claimable_def)
    qed
    show ?thesis using Pair Some j mem again by (auto simp: find_job_replace)
  qed
qed

definition sample_queue :: "job list" where
  "sample_queue = [new_job ''j1'' ''d1'' SCAN 5, (new_job ''j2'' ''d2'' SCAN 9)\<lparr> priority := 1 \<rparr>]"

theorem claim_takes_first_due_job_witness:
  "\<exists>j\<in>set sample_queue. claimable SCAN [] 10 j \<and> job_id j = ''j2''"
  using claim_takes_first_due_job 
      [where q = sample_queue and cfg = default_config and w = "''w''" and st = SCAN and locked = "[]" and now = 10]
  by (simp add: sample_queue_def new_job_def pick_job_def claim_order_def claimable_def sort_desc_def
      job_item_of_def claimed_def)

section \<open>Workers, reaper and clock, interleaved\<close>

text \<open>The database clock, the table, and what each live worker process believes it is working on.\<close>

record queue_state =
  clock :: time
  queue :: "job list"
  held :: "(string \<times> job_item) list"

text \<open>\<open>holds_lease w item q\<close>: the row is still \<open>RUNNING\<close> for this worker, the condition lease renewal
checks. The code's completion, failure and retry statements do not check it; with \<open>strict\<close> true the
relation has only the executions in which it holds when a worker settles a job.\<close>

definition holds_lease :: "string \<Rightarrow> uuid \<Rightarrow> job list \<Rightarrow> bool" where
  "holds_lease w i q =
     (case find_job i q of None \<Rightarrow> False | Some j \<Rightarrow> job_status j = RUNNING \<and> worker_id j = Some w)"

inductive queue_step :: "bool \<Rightarrow> worker_config \<Rightarrow> queue_state \<Rightarrow> queue_state \<Rightarrow> bool"
  for strict cfg where
  tick: "0 \<le> dt \<Longrightarrow> queue_step strict cfg s (s\<lparr> clock := clock s + dt \<rparr>)"
| enqueue: "i \<notin> job_id ` set (queue s) \<Longrightarrow>
    queue_step strict cfg s (s\<lparr> queue := queue s @ [new_job i d st (clock s)] \<rparr>)"
| claim: "\<lbrakk> w \<notin> fst ` set (held s); pick_job cfg w st locked (clock s) (queue s) = (Some item, q') \<rbrakk> \<Longrightarrow>
    queue_step strict cfg s (s\<lparr> queue := q', held := (w, item) # held s \<rparr>)"
| renew: "(w, item) \<in> set (held s) \<Longrightarrow>
    queue_step strict cfg s (s\<lparr> queue := snd (renew_once cfg w (clock s) (item_job_id item) (queue s)) \<rparr>)"
| settle: "\<lbrakk> (w, item) \<in> set (held s); strict \<longrightarrow> holds_lease w (item_job_id item) (queue s) \<rbrakk> \<Longrightarrow>
    queue_step strict cfg s (s\<lparr> queue := execute_job cfg (clock s) item out (queue s),
                              held := filter (\<lambda>p. fst p \<noteq> w) (held s) \<rparr>)"
| reap: "queue_step strict cfg s (s\<lparr> queue := snd (reap_stuck_jobs cfg (clock s) (queue s)) \<rparr>)"
| crash: "queue_step strict cfg s (s\<lparr> held := filter (\<lambda>p. fst p \<noteq> w) (held s) \<rparr>)"

inductive queue_reachable :: "bool \<Rightarrow> worker_config \<Rightarrow> queue_state \<Rightarrow> bool"
  for strict cfg where
  start: "queue_reachable strict cfg \<lparr> clock = t, queue = [], held = [] \<rparr>"
| step: "queue_reachable strict cfg s \<Longrightarrow> queue_step strict cfg s s' \<Longrightarrow> queue_reachable strict cfg s'"

inductive_cases queue_stepE: "queue_step strict cfg s s'"

text \<open>The shape of a row: only a running job has a lease and, pending, it has no worker.\<close>

definition job_shape :: "job \<Rightarrow> bool" where
  "job_shape j =
     ((job_status j = PENDING \<longrightarrow> worker_id j = None \<and> lease_expires_at j = None)
      \<and> (job_status j = RUNNING \<longrightarrow> worker_id j \<noteq> None \<and> lease_expires_at j \<noteq> None)
      \<and> (job_status j \<in> {COMPLETED, FAILED} \<longrightarrow> lease_expires_at j = None))"

definition queue_shape :: "job list \<Rightarrow> bool" where
  "queue_shape q = (distinct (map job_id q) \<and> (\<forall>j\<in>set q. job_shape j))"

lemma queue_shape_update_where:
  assumes "queue_shape q" "\<And>j. P j \<Longrightarrow> job_id (f j) = job_id j" "\<And>j. P j \<Longrightarrow> job_shape j \<Longrightarrow> job_shape (f j)"
  shows "queue_shape (update_where P f q)"
  using assms map_update_where [of P job_id f q] by (auto simp: queue_shape_def set_update_where)

lemma queue_shape_execute [wf_intros]: "queue_shape q \<Longrightarrow> queue_shape (execute_job cfg now item out q)"
  by (cases out)
     (auto simp: execute_job_def handle_job_retry_or_fail_def mark_job_completed_def mark_job_failed_def
        Let_def job_shape_def intro!: queue_shape_update_where)

lemma queue_shape_reap [wf_intros]: "queue_shape q \<Longrightarrow> queue_shape (snd (reap_stuck_jobs cfg now q))"
  by (auto simp: reap_stuck_jobs_def reap_fail_def reap_requeue_def Let_def job_shape_def
      intro!: queue_shape_update_where)

lemma queue_shape_renew [wf_intros]: "queue_shape q \<Longrightarrow> queue_shape (snd (renew_once cfg w now i q))"
  by (auto simp: renew_once_def Let_def job_shape_def intro!: queue_shape_update_where)

lemma queue_shape_pick [wf_intros]:
  assumes "queue_shape q" "pick_job cfg w st locked now q = (Some item, q')"
  shows "queue_shape q'"
proof -
  obtain j where "q' = replace_key job_id (claimed cfg w now j) q"
    using pick_job_Some [OF assms(2)] by blast
  then show ?thesis using assms(1)
    by (auto simp: queue_shape_def set_replace_key job_shape_def)
qed

lemma job_shape_new [simp]: "job_shape (new_job i d st t)" "job_id (new_job i d st t) = i"
  by (simp_all add: job_shape_def new_job_def)

lemma queue_shape_enqueue:
  "queue_shape q \<Longrightarrow> i \<notin> job_id ` set q \<Longrightarrow> queue_shape (q @ [new_job i d st t])"
  by (auto simp: queue_shape_def)

lemma reachable_queue_shape: "queue_reachable strict cfg s \<Longrightarrow> queue_shape (queue s)"
proof (induction rule: queue_reachable.induct)
  case (step s s')
  from step(2,3) show ?case
    by (elim queue_stepE) (auto intro: wf_intros queue_shape_enqueue)
qed (simp add: queue_shape_def)

section \<open>When workers settle only what they hold\<close>

definition held_agrees :: "(string \<times> job_item) list \<Rightarrow> job list \<Rightarrow> bool" where
  "held_agrees h q = (\<forall>(w, item)\<in>set h. \<forall>j\<in>set q.
     job_id j = item_job_id item \<and> job_status j = RUNNING \<and> worker_id j = Some w
       \<longrightarrow> retry_count j = item_retry_count item)"

lemma held_agrees_mono:
  assumes "held_agrees h q" "set h' \<subseteq> set h"
    and "\<And>j. j \<in> set q' \<Longrightarrow> job_status j = RUNNING \<Longrightarrow>
           \<exists>j0\<in>set q. job_id j0 = job_id j \<and> job_status j0 = RUNNING \<and> worker_id j0 = worker_id j
             \<and> retry_count j0 = retry_count j"
  shows "held_agrees h' q'"
proof -
  have "retry_count j = item_retry_count item"
    if p: "(w, item) \<in> set h'" "j \<in> set q'" "job_id j = item_job_id item" "job_status j = RUNNING"
       "worker_id j = Some w" for w item j
  proof -
    obtain j0 where "j0 \<in> set q" "job_id j0 = job_id j" "job_status j0 = RUNNING"
      "worker_id j0 = worker_id j" "retry_count j0 = retry_count j" using assms(3) p(2,4) by blast
    with assms(1,2) p show ?thesis unfolding held_agrees_def by fastforce
  qed
  then show ?thesis by (auto simp: held_agrees_def)
qed

lemma running_after_execute:
  "\<lbrakk> j \<in> set (execute_job cfg now item out q); job_status j = RUNNING \<rbrakk> \<Longrightarrow> j \<in> set q"
  by (auto simp: execute_job_def handle_job_retry_or_fail_def mark_job_completed_def mark_job_failed_def
      Let_def set_update_where split: outcome.splits if_splits)

lemma running_after_reap:
  "\<lbrakk> j \<in> set (snd (reap_stuck_jobs cfg now q)); job_status j = RUNNING \<rbrakk> \<Longrightarrow> j \<in> set q"
  by (auto simp: reap_stuck_jobs_def reap_fail_def reap_requeue_def Let_def set_update_where)

lemma running_after_renew:
  "\<lbrakk> j \<in> set (snd (renew_once cfg w now i q)); job_status j = RUNNING \<rbrakk> \<Longrightarrow>
     \<exists>j0\<in>set q. job_id j0 = job_id j \<and> job_status j0 = RUNNING \<and> worker_id j0 = worker_id j
       \<and> retry_count j0 = retry_count j"
  by (auto simp: renew_once_def Let_def set_update_where)

lemma held_agrees_claim:
  assumes "held_agrees h q" "w \<notin> fst ` set h" "distinct (map job_id q)"
    and "pick_job cfg w st locked now q = (Some item, q')"
  shows "held_agrees ((w, item) # h) q'"
proof -
  obtain j where j: "j \<in> set q" "item = job_item_of w (claimed cfg w now j)"
    "q' = replace_key job_id (claimed cfg w now j) q" using pick_job_Some [OF assms(4)] by blast
  have "k = claimed cfg w now j \<or> k \<in> set q \<and> job_id k \<noteq> job_id j" if "k \<in> set q'" for k
    using that by (auto simp: j(3) set_replace_key split: if_splits)
  then show ?thesis using assms(1,2) unfolding held_agrees_def j(2)
    by (fastforce simp: image_iff)
qed

definition retries_bounded :: "worker_config \<Rightarrow> job list \<Rightarrow> bool" where
  "retries_bounded cfg q = (\<forall>j\<in>set q. retry_count j \<le> max_job_retries cfg)"

lemma retries_bounded_execute:
  assumes "retries_bounded cfg q" "distinct (map job_id q)" "held_agrees h q" "(w, item) \<in> set h"
    and "holds_lease w (item_job_id item) q"
  shows "retries_bounded cfg (execute_job cfg now item out q)"
proof -
  obtain j where j: "j \<in> set q" "job_id j = item_job_id item" "job_status j = RUNNING" "worker_id j = Some w"
    using assms(5) by (auto simp: holds_lease_def dest!: find_job_Some split: option.splits)
  have "retry_count j = item_retry_count item" using assms(3,4) j unfolding held_agrees_def by blast
  moreover have "k = j" if "k \<in> set q" "job_id k = item_job_id item" for k
    using that j distinct_key_unique [OF assms(2)] by metis
  ultimately have "k \<in> set q \<Longrightarrow> job_id k = item_job_id item \<Longrightarrow> retry_count k = item_retry_count item" for k
    by blast
  then show ?thesis using assms(1)
    by (auto simp: retries_bounded_def execute_job_def handle_job_retry_or_fail_def mark_job_completed_def
        mark_job_failed_def Let_def set_update_where split: outcome.splits if_splits)
qed

definition strict_inv :: "worker_config \<Rightarrow> queue_state \<Rightarrow> bool" where
  "strict_inv cfg s = (queue_shape (queue s) \<and> held_agrees (held s) (queue s)
     \<and> retries_bounded cfg (queue s))"

lemma strict_inv_step:
  assumes "queue_step True cfg s s'" "strict_inv cfg s"
  shows "strict_inv cfg s'"
proof -
  have shape: "queue_shape (queue s)" and dist: "distinct (map job_id (queue s))"
    and agree: "held_agrees (held s) (queue s)" and bounded: "retries_bounded cfg (queue s)"
    using assms(2) by (auto simp: strict_inv_def queue_shape_def)
  from assms(1) show ?thesis
  proof (cases rule: queue_step.cases)
    case (tick dt)
    then show ?thesis using assms(2) by (simp add: strict_inv_def)
  next
    case (enqueue i d st)
    then show ?thesis using shape agree bounded
      by (auto simp: strict_inv_def retries_bounded_def new_job_def intro!: queue_shape_enqueue [unfolded new_job_def]
          elim!: held_agrees_mono)
  next
    case (claim w st locked item q')
    obtain j where "j \<in> set (queue s)" "q' = replace_key job_id (claimed cfg w (clock s) j) (queue s)"
      using pick_job_Some [OF claim(3)] by blast
    then have "retries_bounded cfg q'"
      using bounded by (auto simp: retries_bounded_def set_replace_key)
    then show ?thesis using claim shape held_agrees_claim [OF agree claim(2) dist claim(3)]
      by (auto simp: strict_inv_def intro: wf_intros)
  next
    case (renew w item)
    have "retries_bounded cfg (snd (renew_once cfg w (clock s) (item_job_id item) (queue s)))"
      using bounded by (auto simp: retries_bounded_def renew_once_def Let_def set_update_where)
    then show ?thesis using renew shape held_agrees_mono [OF agree subset_refl running_after_renew]
      by (auto simp: strict_inv_def intro: wf_intros)
  next
    case (settle w item out)
    have "held_agrees (filter (\<lambda>p. fst p \<noteq> w) (held s)) (execute_job cfg (clock s) item out (queue s))"
      by (rule held_agrees_mono [OF agree]) (auto dest: running_after_execute)
    then show ?thesis using settle shape retries_bounded_execute [OF bounded dist agree settle(2)]
      by (auto simp: strict_inv_def intro: wf_intros)
  next
    case reap
    have "held_agrees (held s) (snd (reap_stuck_jobs cfg (clock s) (queue s)))"
      by (rule held_agrees_mono [OF agree]) (auto dest: running_after_reap)
    moreover have "retries_bounded cfg (snd (reap_stuck_jobs cfg (clock s) (queue s)))"
      using bounded by (auto simp: retries_bounded_def reap_stuck_jobs_def reap_fail_def reap_requeue_def Let_def
          set_update_where)
    ultimately show ?thesis using reap shape by (auto simp: strict_inv_def intro: wf_intros)
  next
    case (crash w)
    then show ?thesis using assms(2) held_agrees_mono [OF agree, of "filter (\<lambda>p. fst p \<noteq> w) (held s)" "queue s"]
      by (auto simp: strict_inv_def)
  qed
qed

text \<open>How often a job may still be claimed, and the runs that count the claims of one job.\<close>

definition claims_left :: "worker_config \<Rightarrow> job \<Rightarrow> nat" where
  "claims_left cfg j =
     (case job_status j of
        PENDING \<Rightarrow> max_job_retries cfg - retry_count j + 1
      | RUNNING \<Rightarrow> max_job_retries cfg - retry_count j
      | _ \<Rightarrow> 0)"

definition job_credit :: "worker_config \<Rightarrow> uuid \<Rightarrow> job list \<Rightarrow> nat" where
  "job_credit cfg i q =
     (case find_job i q of None \<Rightarrow> max_job_retries cfg + 1 | Some j \<Rightarrow> claims_left cfg j)"

definition is_claim_of :: "uuid \<Rightarrow> queue_state \<Rightarrow> queue_state \<Rightarrow> bool" where
  "is_claim_of i s s' = (\<exists>p. held s' = p # held s \<and> item_job_id (snd p) = i)"

inductive attempts_run :: "worker_config \<Rightarrow> uuid \<Rightarrow> nat \<Rightarrow> queue_state \<Rightarrow> bool"
  for cfg i where
  start: "attempts_run cfg i 0 \<lparr> clock = t, queue = [], held = [] \<rparr>"
| step: "\<lbrakk> attempts_run cfg i n s; queue_step True cfg s s' \<rbrakk> \<Longrightarrow>
    attempts_run cfg i (if is_claim_of i s s' then n + 1 else n) s'"

lemma filter_not_Cons: "filter P xs \<noteq> p # xs"
  using length_filter_le [of P xs] by (metis Suc_n_not_le_n length_Cons)

lemma job_credit_update_where:
  assumes "\<And>j. P j \<Longrightarrow> job_id (f j) = job_id j"
    and "\<And>j. j \<in> set q \<Longrightarrow> job_id j = i \<Longrightarrow> P j \<Longrightarrow> claims_left cfg (f j) \<le> claims_left cfg j"
  shows "job_credit cfg i (update_where P f q) \<le> job_credit cfg i q"
  using assms(2) find_job_Some [of i q]
  by (cases "find_job i q") (auto simp: job_credit_def find_job_update_where [OF assms(1)])

lemma job_credit_reap: "job_credit cfg i (snd (reap_stuck_jobs cfg now q)) \<le> job_credit cfg i q"
proof -
  have "job_credit cfg i (snd (reap_stuck_jobs cfg now q))
      \<le> job_credit cfg i (update_where (\<lambda>j. lease_expired now j \<and> retry_count j \<ge> max_job_retries cfg) (reap_fail now) q)"
    unfolding reap_stuck_jobs_def Let_def snd_conv
    by (rule job_credit_update_where) (auto simp: reap_requeue_def claims_left_def lease_expired_def)
  also have "\<dots> \<le> job_credit cfg i q"
    by (rule job_credit_update_where) (auto simp: reap_fail_def claims_left_def)
  finally show ?thesis .
qed

lemma job_credit_renew: "job_credit cfg i (snd (renew_once cfg w now k q)) \<le> job_credit cfg i q"
  unfolding renew_once_def Let_def snd_conv
  by (rule job_credit_update_where) (auto simp: claims_left_def split: JobStatus.split)

lemma job_credit_execute:
  assumes "distinct (map job_id q)" "held_agrees h q" "(w, item) \<in> set h"
    and "holds_lease w (item_job_id item) q"
  shows "job_credit cfg i (execute_job cfg now item out q) \<le> job_credit cfg i q"
proof -
  obtain j where j: "j \<in> set q" "job_id j = item_job_id item" "job_status j = RUNNING" "worker_id j = Some w"
    using assms(4) by (auto simp: holds_lease_def dest!: find_job_Some split: option.splits)
  have only: "k = j" if "k \<in> set q" "job_id k = item_job_id item" for k
    using that j distinct_key_unique [OF assms(1)] by metis
  have "retry_count j = item_retry_count item" using assms(2,3) j unfolding held_agrees_def by blast
  with only j(3) have row: "job_status k = RUNNING \<and> retry_count k = item_retry_count item"
    if "k \<in> set q" "job_id k = item_job_id item" for k using that by blast
  have failed: "job_credit cfg i (mark_job_failed now (item_job_id item) e q) \<le> job_credit cfg i q" for e
    unfolding mark_job_failed_def by (rule job_credit_update_where) (auto simp: claims_left_def)
  have completed: "job_credit cfg i (mark_job_completed now (item_job_id item) q) \<le> job_credit cfg i q"
    unfolding mark_job_completed_def by (rule job_credit_update_where) (auto simp: claims_left_def)
  have retry: "job_credit cfg i (handle_job_retry_or_fail cfg now item e q) \<le> job_credit cfg i q" for e
    unfolding handle_job_retry_or_fail_def Let_def
    by (cases "item_retry_count item < max_job_retries cfg")
       (auto simp: failed claims_left_def dest!: row intro!: job_credit_update_where)
  show ?thesis by (cases out) (simp_all add: execute_job_def failed completed retry)
qed

lemma job_credit_claim:
  assumes "distinct (map job_id q)" "pick_job cfg w st locked now q = (Some item, q')"
  shows "job_credit cfg i q' + (if item_job_id item = i then 1 else 0) = job_credit cfg i q"
proof -
  obtain j where j: "j \<in> set q" "claimable st locked now j" "item = job_item_of w (claimed cfg w now j)"
    "q' = replace_key job_id (claimed cfg w now j) q" using pick_job_Some [OF assms(2)] by blast
  have "find_job (job_id j) q = Some j"
    using j(1) find_key_iff [OF assms(1)] by (simp add: find_job_def)
  moreover have "job_id j \<in> job_id ` set q" using j(1) by blast
  ultimately show ?thesis using j(2)
    by (auto simp: j(3,4) job_credit_def find_job_replace claims_left_def claimable_def)
qed

lemma job_credit_step:
  assumes "queue_step True cfg s s'" "strict_inv cfg s"
  shows "job_credit cfg i (queue s') + (if is_claim_of i s s' then 1 else 0) \<le> job_credit cfg i (queue s)"
proof -
  have dist: "distinct (map job_id (queue s))" and agree: "held_agrees (held s) (queue s)"
    using assms(2) by (auto simp: strict_inv_def queue_shape_def)
  from assms(1) show ?thesis
  proof (cases rule: queue_step.cases)
    case (enqueue k d st)
    have "find_job i (queue s @ [new_job k d st (clock s)]) =
        (case find_job i (queue s) of Some j \<Rightarrow> Some j | None \<Rightarrow> if k = i then Some (new_job k d st (clock s)) else None)"
      by (simp add: find_job_def find_append split: option.split)
    then show ?thesis using enqueue
      by (auto simp: is_claim_of_def job_credit_def claims_left_def new_job_def split: option.splits)
  next
    case (claim w st locked item q')
    then show ?thesis using job_credit_claim [OF dist claim(3), of i]
      by (auto simp: is_claim_of_def)
  next
    case (settle w item out)
    then show ?thesis using job_credit_execute [OF dist agree settle(2), of cfg i "clock s" out]
      by (auto simp: is_claim_of_def filter_not_Cons)
  qed (auto simp: is_claim_of_def filter_not_Cons job_credit_renew job_credit_reap)
qed

lemma attempts_invariant:
  "attempts_run cfg i n s \<Longrightarrow> strict_inv cfg s \<and> n + job_credit cfg i (queue s) \<le> max_job_retries cfg + 1"
proof (induction rule: attempts_run.induct)
  case (start t)
  then show ?case
    by (simp add: strict_inv_def queue_shape_def held_agrees_def retries_bounded_def job_credit_def find_job_def)
next
  case (step n s s')
  then show ?case using strict_inv_step [of cfg s s'] job_credit_step [of cfg s s' i] by auto
qed

text \<open>C8: As long as workers settle only jobs whose lease they still hold, a job is attempted at most
\<open>max_retries + 1\<close> times, whatever the interleaving of workers, crashes, renewals, reaper runs and clock:
the number of claims of any job in any such run is bounded, no row's retry count passes the maximum,
and a job that has used up its claims is finished or being run for the last time.\<close>

theorem attempts_are_bounded:
  assumes "attempts_run cfg i n s"
  shows "n \<le> max_job_retries cfg + 1
    \<and> (\<forall>j\<in>set (queue s). retry_count j \<le> max_job_retries cfg \<and> job_shape j)
    \<and> (\<forall>j. find_job i (queue s) = Some j \<and> n = max_job_retries cfg + 1 \<longrightarrow>
         job_status j \<in> {COMPLETED, FAILED}
         \<or> job_status j = RUNNING \<and> retry_count j = max_job_retries cfg)"
proof -
  have inv: "strict_inv cfg s" "n + job_credit cfg i (queue s) \<le> max_job_retries cfg + 1"
    using attempts_invariant [OF assms] by auto
  have "job_status j \<in> {COMPLETED, FAILED} \<or> job_status j = RUNNING \<and> retry_count j = max_job_retries cfg"
    if "find_job i (queue s) = Some j" "n = max_job_retries cfg + 1" for j
  proof -
    have "retry_count j \<le> max_job_retries cfg" "claims_left cfg j = 0"
      using inv that find_job_Some [OF that(1)]
      by (auto simp: strict_inv_def retries_bounded_def job_credit_def)
    then show ?thesis by (cases "job_status j") (auto simp: claims_left_def)
  qed
  then show ?thesis using inv by (auto simp: strict_inv_def retries_bounded_def queue_shape_def)
qed

section \<open>Leases and the reaper\<close>

lemma list_ex_holds:
  assumes "distinct (map job_id q)"
  shows "list_ex (\<lambda>j. job_id j = i \<and> job_status j = RUNNING \<and> worker_id j = Some w) q = holds_lease w i q"
proof (cases "find_job i q")
  case None
  then have "\<forall>j\<in>set q. job_id j \<noteq> i" by (simp add: find_job_def find_None)
  with None show ?thesis by (auto simp: holds_lease_def list_ex_iff)
next
  case (Some j)
  then have "j \<in> set q" "job_id j = i" by (auto dest: find_job_Some)
  moreover from this have "k \<in> set q \<Longrightarrow> job_id k = i \<Longrightarrow> k = j" for k
    using distinct_key_unique [OF assms] by metis
  ultimately have "list_ex (\<lambda>j. job_id j = i \<and> job_status j = RUNNING \<and> worker_id j = Some w) q
      \<longleftrightarrow> job_status j = RUNNING \<and> worker_id j = Some w"
    unfolding list_ex_iff by blast
  then show ?thesis by (simp add: holds_lease_def Some)
qed

text \<open>A lease belongs to its holder. Renewal succeeds exactly when the row is still running for this
worker, moves only that row's expiry, and touches nothing when the lease was lost. The reaper changes
exactly the rows whose lease has expired: it fails those out of retries, requeues the others with one
more retry five seconds later, leaves no expired lease behind, and never touches a job whose holder
renewed in time. A retry is delayed by at least the smaller of base and maximum and at most the maximum,
and the delay never shrinks from one retry to the next.\<close>

theorem leases_and_reaper:
  assumes "distinct (map job_id q)" "0 < lease_seconds cfg" "0 < backoff_base_seconds cfg"
  shows "fst (renew_once cfg w now i q) = holds_lease w i q
    \<and> (\<not> holds_lease w i q \<longrightarrow> snd (renew_once cfg w now i q) = q)
    \<and> (\<forall>k. find_job k (snd (renew_once cfg w now i q)) =
         (if k = i \<and> holds_lease w i q
          then map_option (\<lambda>j. j\<lparr> lease_expires_at := Some (now + lease_seconds cfg) \<rparr>) (find_job k q)
          else find_job k q))
    \<and> (\<forall>k. find_job k (snd (reap_stuck_jobs cfg now q)) =
         map_option (\<lambda>j. if \<not> lease_expired now j then j
                         else if retry_count j \<ge> max_job_retries cfg then reap_fail now j
                         else reap_requeue now j) (find_job k q))
    \<and> (\<forall>j\<in>set (snd (reap_stuck_jobs cfg now q)). \<not> lease_expired now j)
    \<and> (\<forall>r. min (backoff_base_seconds cfg) (backoff_max_seconds cfg) \<le> backoff_seconds cfg r
         \<and> backoff_seconds cfg r \<le> backoff_max_seconds cfg
         \<and> backoff_seconds cfg r \<le> backoff_seconds cfg (r + 1))"
proof -
  have ex: "fst (renew_once cfg w now i q) = holds_lease w i q"
    using list_ex_holds [OF assms(1)] by (simp add: renew_once_def Let_def)
  have found: "find_job k (snd (renew_once cfg w now i q)) =
         (if k = i \<and> holds_lease w i q
          then map_option (\<lambda>j. j\<lparr> lease_expires_at := Some (now + lease_seconds cfg) \<rparr>) (find_job k q)
          else find_job k q)" for k
  proof -
    have "find_job k (snd (renew_once cfg w now i q)) =
        map_option (\<lambda>j. if job_id j = i \<and> job_status j = RUNNING \<and> worker_id j = Some w
                        then j\<lparr> lease_expires_at := Some (now + lease_seconds cfg) \<rparr> else j) (find_job k q)"
      unfolding renew_once_def Let_def snd_conv by (rule find_job_update_where) simp
    then show ?thesis
      by (cases "find_job k q") (auto simp: holds_lease_def dest: find_job_Some)
  qed
  have unheld: "snd (renew_once cfg w now i q) = q" if "\<not> holds_lease w i q"
    using that list_ex_holds [OF assms(1), of i w]
    by (auto simp: renew_once_def Let_def update_where_def list_ex_iff intro!: map_idI)
  have reap: "find_job k (snd (reap_stuck_jobs cfg now q)) =
         map_option (\<lambda>j. if \<not> lease_expired now j then j
                         else if retry_count j \<ge> max_job_retries cfg then reap_fail now j
                         else reap_requeue now j) (find_job k q)" for k
    unfolding reap_stuck_jobs_def Let_def snd_conv
    by (cases "find_job k q")
       (auto simp: find_job_update_where reap_fail_def reap_requeue_def lease_expired_def)
  have clean: "\<forall>j\<in>set (snd (reap_stuck_jobs cfg now q)). \<not> lease_expired now j"
    by (auto simp: reap_stuck_jobs_def Let_def set_update_where reap_fail_def reap_requeue_def lease_expired_def)
  have delay: "min (backoff_base_seconds cfg) (backoff_max_seconds cfg) \<le> backoff_seconds cfg r
         \<and> backoff_seconds cfg r \<le> backoff_max_seconds cfg
         \<and> backoff_seconds cfg r \<le> backoff_seconds cfg (r + 1)" for r
  proof -
    have "1 \<le> (2::int) ^ r" by simp
    then have "backoff_base_seconds cfg \<le> backoff_base_seconds cfg * 2 ^ r"
      using assms(3) by (simp add: mult_le_cancel_left1)
    moreover have "backoff_base_seconds cfg * 2 ^ r \<le> backoff_base_seconds cfg * 2 ^ (r + 1)"
      using assms(3) by simp
    ultimately show ?thesis unfolding backoff_seconds_def by linarith
  qed
  show ?thesis using ex found unheld reap clean delay by blast
qed

theorem leases_and_reaper_witness:
  "fst (renew_once default_config ''w'' 9 ''j1'' sample_queue) = holds_lease ''w'' ''j1'' sample_queue"
  using leases_and_reaper [where q = sample_queue and cfg = default_config and w = "''w''" and now = 9 and i = "''j1''"]
  by (simp add: sample_queue_def new_job_def default_config_def)

section \<open>Running the relation\<close>

text \<open>The steps as labels and a function that performs them, to exhibit executions.\<close>

datatype queue_label =
    Tick time | Enqueue uuid uuid JobStage | Claim string JobStage | Settle string outcome | Reap

fun queue_exec :: "worker_config \<Rightarrow> queue_state option \<Rightarrow> queue_label \<Rightarrow> queue_state option" where
  "queue_exec cfg None l = None"
| "queue_exec cfg (Some s) (Tick dt) = (if 0 \<le> dt then Some (s\<lparr> clock := clock s + dt \<rparr>) else None)"
| "queue_exec cfg (Some s) (Enqueue i d st) =
     (if list_ex (\<lambda>j. job_id j = i) (queue s) then None
      else Some (s\<lparr> queue := queue s @ [new_job i d st (clock s)] \<rparr>))"
| "queue_exec cfg (Some s) (Claim w st) =
     (if list_ex (\<lambda>p. fst p = w) (held s) then None
      else case pick_job cfg w st [] (clock s) (queue s) of
        (None, q') \<Rightarrow> None
      | (Some item, q') \<Rightarrow> Some (s\<lparr> queue := q', held := (w, item) # held s \<rparr>))"
| "queue_exec cfg (Some s) (Settle w out) =
     (case map_of (held s) w of
        None \<Rightarrow> None
      | Some item \<Rightarrow> Some (s\<lparr> queue := execute_job cfg (clock s) item out (queue s),
                            held := filter (\<lambda>p. fst p \<noteq> w) (held s) \<rparr>))"
| "queue_exec cfg (Some s) Reap = Some (s\<lparr> queue := snd (reap_stuck_jobs cfg (clock s) (queue s)) \<rparr>)"

lemma queue_exec_sound:
  "queue_exec cfg (Some s) l = Some s' \<Longrightarrow> queue_step False cfg s s'"
proof (cases l)
  case (Claim w st)
  assume "queue_exec cfg (Some s) l = Some s'"
  then show ?thesis using Claim
    by (auto simp: list_ex_iff image_iff split: if_splits prod.splits option.splits intro: queue_step.claim)
qed (auto simp: list_ex_iff image_iff split: if_splits option.splits dest: map_of_SomeD intro: queue_step.intros)

lemma queue_exec_None [simp]: "foldl (queue_exec cfg) None ls = None"
  by (induction ls) auto

lemma queue_exec_reachable:
  "\<lbrakk> foldl (queue_exec cfg) (Some s) ls = Some s'; queue_reachable False cfg s \<rbrakk> \<Longrightarrow> queue_reachable False cfg s'"
proof (induction ls arbitrary: s)
  case (Cons l ls)
  then show ?case
    by (cases "queue_exec cfg (Some s) l") (auto dest: queue_exec_sound queue_reachable.step)
qed simp

definition idle_queue :: queue_state where
  "idle_queue = \<lparr> clock = 0, queue = [], held = [] \<rparr>"

lemma idle_reachable: "queue_reachable strict cfg idle_queue"
  unfolding idle_queue_def by (rule queue_reachable.start)

text \<open>Worker A's lease lapses while it is still working; the reaper requeues the job, B claims and
completes it; then A's own processing fails transiently.\<close>

definition stale_retry_run :: "queue_label list" where
  "stale_retry_run = [Enqueue ''j'' ''d'' SCAN, Claim ''A'' SCAN, Tick 61, Reap, Tick 5, Claim ''B'' SCAN,
     Settle ''B'' Processed]"

definition stale_count_run :: "queue_label list" where
  "stale_count_run =
     [Enqueue ''j'' ''d'' SCAN, Claim ''A'' SCAN, Tick 61, Reap, Tick 5, Claim ''B'' SCAN, Tick 61, Reap, Tick 5,
      Claim ''C'' SCAN, Tick 61, Reap, Tick 5, Claim ''D'' SCAN, Settle ''A'' (TransientError ''x'')]"

lemma run_facts:
  "map_option (\<lambda>s. map_option job_status (find_job ''j'' (queue s)))
     (foldl (queue_exec default_config) (Some idle_queue) stale_retry_run) = Some (Some COMPLETED)"
  "map_option (\<lambda>s. map_option job_status (find_job ''j'' (queue s)))
     (queue_exec default_config (foldl (queue_exec default_config) (Some idle_queue) stale_retry_run)
        (Settle ''A'' (TransientError ''x''))) = Some (Some PENDING)"
  "map_option (\<lambda>s. (map_option (\<lambda>j. (job_status j, retry_count j)) (find_job ''j'' (queue s)),
                   map_option item_job_id (map_of (held s) ''D'')))
     (foldl (queue_exec default_config) (Some idle_queue) stale_count_run)
     = Some (Some (PENDING, 4), Some ''j'')"
  by code_simp+

text \<open>Settling is not conditional on the lease, unlike renewing it, and so the bound of C11 does not
hold for the code as it is. With the default configuration a run exists in which a job another worker
has \<open>COMPLETED\<close> is put back to \<open>PENDING\<close> by the late failure of the worker that lost it, and a run in
which a late failure takes a running job away from its holder and its retry count past the maximum.\<close>

theorem late_worker_overrides:
  "(\<exists>s s' j j'. queue_reachable False default_config s \<and> queue_step False default_config s s'
      \<and> find_job ''j'' (queue s) = Some j \<and> job_status j = COMPLETED
      \<and> find_job ''j'' (queue s') = Some j' \<and> job_status j' = PENDING)
   \<and> (\<exists>s j. queue_reachable False default_config s \<and> find_job ''j'' (queue s) = Some j
      \<and> job_status j = PENDING \<and> (\<exists>item. (''D'', item) \<in> set (held s) \<and> item_job_id item = ''j'')
      \<and> retry_count j > max_job_retries default_config)"
proof
  obtain s s' j j' where run: "foldl (queue_exec default_config) (Some idle_queue) stale_retry_run = Some s"
      "queue_exec default_config (Some s) (Settle ''A'' (TransientError ''x'')) = Some s'"
      "find_job ''j'' (queue s) = Some j" "job_status j = COMPLETED"
      "find_job ''j'' (queue s') = Some j'" "job_status j' = PENDING"
    using run_facts(1,2) by (auto simp: map_option_case split: option.splits)
  show "\<exists>s s' j j'. queue_reachable False default_config s \<and> queue_step False default_config s s'
      \<and> find_job ''j'' (queue s) = Some j \<and> job_status j = COMPLETED
      \<and> find_job ''j'' (queue s') = Some j' \<and> job_status j' = PENDING"
    using run queue_exec_reachable [OF run(1) idle_reachable] queue_exec_sound [OF run(2)] by blast
next
  obtain s j item where run: "foldl (queue_exec default_config) (Some idle_queue) stale_count_run = Some s"
      "find_job ''j'' (queue s) = Some j" "job_status j = PENDING" "retry_count j = 4"
      "map_of (held s) ''D'' = Some item" "item_job_id item = ''j''"
    using run_facts(3) by (auto simp: map_option_case split: option.splits)
  show "\<exists>s j. queue_reachable False default_config s \<and> find_job ''j'' (queue s) = Some j
      \<and> job_status j = PENDING \<and> (\<exists>item. (''D'', item) \<in> set (held s) \<and> item_job_id item = ''j'')
      \<and> retry_count j > max_job_retries default_config"
  proof (intro exI conjI)
    show "queue_reachable False default_config s" by (rule queue_exec_reachable [OF run(1) idle_reachable])
    show "(''D'', item) \<in> set (held s)" using run(5) by (rule map_of_SomeD)
    show "max_job_retries default_config < retry_count j" using run(4) by (simp add: default_config_def)
  qed (use run in simp_all)
qed

theorem attempts_are_bounded_witness:
  "\<exists>s. attempts_run default_config ''j'' 1 s \<and> 1 \<le> max_job_retries default_config + 1"
proof -
  let ?s0 = "\<lparr> clock = 0, queue = [], held = [] \<rparr>"
  let ?s1 = "?s0\<lparr> queue := [new_job ''j'' ''d'' SCAN 0] \<rparr>"
  let ?j = "claimed default_config ''w'' 0 (new_job ''j'' ''d'' SCAN 0)"
  let ?s2 = "?s1\<lparr> queue := [?j], held := [(''w'', job_item_of ''w'' ?j)] \<rparr>"
  have one: "queue_step True default_config ?s0 ?s1"
    using queue_step.enqueue [of "''j''" ?s0 True default_config "''d''" SCAN] by simp
  have "pick_job default_config ''w'' SCAN [] 0 [new_job ''j'' ''d'' SCAN 0] = (Some (job_item_of ''w'' ?j), [?j])"
    by (simp add: pick_job_def claim_order_def claimable_def new_job_def sort_desc_def replace_key_def claimed_def)
  then have two: "queue_step True default_config ?s1 ?s2"
    using queue_step.claim [of "''w''" ?s1 default_config SCAN "[]" "job_item_of ''w'' ?j" "[?j]" True] by simp
  have "attempts_run default_config ''j'' 0 ?s1"
    using attempts_run.step [OF attempts_run.start one] by (simp add: is_claim_of_def)
  from attempts_run.step [OF this two] have run: "attempts_run default_config ''j'' 1 ?s2"
    by (simp add: is_claim_of_def)
  from attempts_are_bounded [OF run] run show ?thesis by blast
qed

end
