(* ===== verification/ScanHandler.thy ===== *)
theory ScanHandler
  imports Repository JobQueue
begin

text \<open>\<open>document_pipeline/scan_job_handler.py\<close> and \<open>workers/scan_worker.py\<close>: the SCAN stage on the shared
world. The handler is split where another process can run in between: \<open>scan_prepare\<close> goes from the guard
to the promotion of the bytes, \<open>scan_commit\<close> writes the row (and loses or wins the race on the hash) and
queues the next stage; \<open>scan_process\<close> is their composition. Exceptions that leave \<open>process\<close> are \<open>Inl\<close>.\<close>

section \<open>What the handler is given\<close>

text \<open>Faults of the storage backend, by call: \<open>get\<close>, \<open>copy\<close> and \<open>delete\<close> may raise although the object is
there. \<open>audit_down\<close>: audit writes raise, which \<open>_audit\<close> swallows.\<close>

record scan_env =
  scan_toolkit :: toolkit
  now :: time
  corr_id :: uuid
  next_job_id :: uuid
  get_raises :: bool
  copy_raises :: bool
  delete_raises :: bool
  audit_down :: bool

record upload_response =
  resp_document_id :: uuid
  resp_filename :: string
  resp_status :: DocumentStatus
  resp_quarantine_key :: string
  resp_checksum :: "string option"
  resp_rejection_reason :: "string option"
  was_duplicate :: bool
  canonical_tier_escalated :: bool
  message :: string

definition response :: "uuid \<Rightarrow> string \<Rightarrow> DocumentStatus \<Rightarrow> string \<Rightarrow> string \<Rightarrow> upload_response" where
  "response i name st key msg =
     \<lparr> resp_document_id = i, resp_filename = name, resp_status = st, resp_quarantine_key = key,
       resp_checksum = None, resp_rejection_reason = None, was_duplicate = False,
       canonical_tier_escalated = False, message = msg \<rparr>"

text \<open>The two fields of \<open>UploadRequest\<close> the handler reads; the worker passes none.\<close>

record request_meta =
  supersedes_doc_id :: "uuid option"
  keep_previous_version :: bool

section \<open>Steps on the world\<close>

text \<open>A best-effort audit write, once per document and event unless repeats are allowed.\<close>

definition scan_audit ::
  "scan_env \<Rightarrow> uuid \<Rightarrow> AuditEventType \<Rightarrow> (string \<times> json) list \<Rightarrow> bool \<Rightarrow> world \<Rightarrow> world" where
  "scan_audit env d ev det allow_repeat w =
     (if audit_down env then w
      else if \<not> allow_repeat \<and> has_event d ev w then w
      else log_event d ev det None (Some (corr_id env)) w)"

text \<open>\<open>repo.update_document\<close> on the world; a refused write leaves it as it was.\<close>

definition update_doc :: "time \<Rightarrow> document \<Rightarrow> world \<Rightarrow> (repo_error, world) result" where
  "update_doc t d w =
     (case pg_update_document t d (documents w) of
        Inl e \<Rightarrow> Inl e
      | Inr (r, rows) \<Rightarrow> Inr (w\<lparr> documents := rows \<rparr>))"

definition set_tier :: "time \<Rightarrow> uuid \<Rightarrow> Classification \<Rightarrow> world \<Rightarrow> world" where
  "set_tier t i c w = w\<lparr> documents := snd (pg_set_classification t i c (documents w)) \<rparr>"

definition enqueue_job :: "uuid \<Rightarrow> uuid \<Rightarrow> JobStage \<Rightarrow> time \<Rightarrow> world \<Rightarrow> world" where
  "enqueue_job j d st t w = w\<lparr> jobs := jobs w @ [new_job j d st t] \<rparr>"

text \<open>\<open>storage.delete_object\<close>: \<open>None\<close> when the call raises.\<close>

definition remove_object :: "bool \<Rightarrow> string \<Rightarrow> string \<Rightarrow> world \<Rightarrow> world option" where
  "remove_object raises b k w =
     (if raises then None else Some (w\<lparr> objects := snd (fs_delete b k (objects w)) \<rparr>))"

definition escalate_tier_if_stricter ::
  "scan_env \<Rightarrow> document \<Rightarrow> Classification option \<Rightarrow> uuid \<Rightarrow> string \<Rightarrow> world \<Rightarrow> bool \<times> world" where
  "escalate_tier_if_stricter env canonical incoming duplicate_id sha w =
     (if \<not> is_stricter incoming (classification canonical) then (False, w)
      else case incoming of
        None \<Rightarrow> (False, w)
      | Some new_tier \<Rightarrow>
          (True, scan_audit env (doc_id canonical) DOCUMENT_RECLASSIFIED
             [(''old_tier'', json_opt (map_option classification_value (classification canonical))),
              (''new_tier'', JStr (classification_value new_tier)),
              (''reason'', JStr ''dedup-escalation''),
              (''duplicate_document_id'', JStr duplicate_id), (''sha256'', JStr sha)]
             True (set_tier (now env) (doc_id canonical) new_tier w)))"

section \<open>Up to the promotion of the bytes\<close>

text \<open>Either the handler is done (with a response or an exception), or the bytes are promoted and the
document is ready to be written.\<close>

datatype prepared =
    Finished "(string, upload_response) result"
  | ReadyToCommit document string validation_result

definition already_past_scan :: "DocumentStatus \<Rightarrow> bool" where
  "already_past_scan st = (st \<in> {VALIDATED, EXTRACTED, DocumentStatus.EXTRACTION_FAILED,
     DocumentStatus.NORMALIZATION_FAILED, AWAITING_CLASSIFICATION, LIVE})"

definition fail_storage :: "scan_env \<Rightarrow> document \<Rightarrow> string \<Rightarrow> upload_response \<Rightarrow> world \<Rightarrow> prepared \<times> world" where
  "fail_storage env d reason resp w =
     (case update_doc (now env)
             (d\<lparr> status := DocumentStatus.VALIDATION_FAILED, rejection_reason := Some reason \<rparr>) w of
        Inl e \<Rightarrow> (Finished (Inl ''IntegrityError''), w)
      | Inr w' \<Rightarrow> (Finished (Inr (resp\<lparr> resp_rejection_reason := Some reason \<rparr>)), w'))"

definition scan_reject ::
  "scan_env \<Rightarrow> document \<Rightarrow> string \<Rightarrow> bytes \<Rightarrow> validation_result \<Rightarrow> world \<Rightarrow> prepared \<times> world" where
  "scan_reject env d key data v w =
     (case update_doc (now env)
             (d\<lparr> status := REJECTED, rejection_reason := vr_rejection_reason v, quarantine_path := None \<rparr>) w of
        Inl e \<Rightarrow> (Finished (Inl ''IntegrityError''), w)
      | Inr w1 \<Rightarrow>
          let w2 = scan_audit env (doc_id d) DOCUMENT_REJECTED
                [(''filename'', JStr (filename d)), (''rejection_reason'', json_opt (vr_rejection_reason v)),
                 (''file_size_bytes'', JInt (int (length data)))] False w1
          in case remove_object (delete_raises env) QUARANTINE_BUCKET key w2 of
               None \<Rightarrow> (Finished (Inl ''storage delete failed''), w2)
             | Some w3 \<Rightarrow>
                 (Finished (Inr ((response (doc_id d) (filename d) REJECTED key
                     (''Upload rejected: '' @ (case vr_rejection_reason v of None \<Rightarrow> ''None'' | Some r \<Rightarrow> r)))
                     \<lparr> resp_rejection_reason := vr_rejection_reason v \<rparr>)), w3))"

definition scan_duplicate ::
  "scan_env \<Rightarrow> document \<Rightarrow> string \<Rightarrow> document \<Rightarrow> string \<Rightarrow> world \<Rightarrow> prepared \<times> world" where
  "scan_duplicate env d key existing sha w =
     (let (escalated, w1) = escalate_tier_if_stricter env existing (classification d) (doc_id d) sha w in
      case update_doc (now env) (d\<lparr> status := DUPLICATE, quarantine_path := None \<rparr>) w1 of
        Inl e \<Rightarrow> (Finished (Inl ''IntegrityError''), w1)
      | Inr w2 \<Rightarrow>
          case remove_object (delete_raises env) QUARANTINE_BUCKET key w2 of
            None \<Rightarrow> (Finished (Inl ''storage delete failed''), w2)
          | Some w3 \<Rightarrow>
              let w4 = scan_audit env (doc_id d) DOCUMENT_REJECTED
                    [(''filename'', JStr (filename d)), (''reason'', JStr ''DUPLICATE''),
                     (''canonical_document_id'', JStr (doc_id existing)), (''sha256'', JStr sha),
                     (''canonical_tier_escalated'', JBool escalated)] False w3
              in (Finished (Inr ((response (doc_id existing) (filename d) DUPLICATE key
                    (''Duplicate document detected (matches canonical document ID: '' @ doc_id existing @ '').''
                     @ (if escalated
                        then '' The canonical document was raised to ''
                             @ (case classification d of None \<Rightarrow> '''' | Some c \<Rightarrow> classification_value c)
                             @ '' because this copy was filed more restricted.''
                        else '''')))
                    \<lparr> resp_checksum := Some sha, was_duplicate := True,
                      canonical_tier_escalated := escalated \<rparr>)), w4))"

text \<open>Versioning: the older document leaves the active set before the new one is written.\<close>

definition scan_supersede ::
  "scan_env \<Rightarrow> request_meta option \<Rightarrow> document \<Rightarrow> world \<Rightarrow> (string, document \<times> world) result" where
  "scan_supersede env meta d w =
     (case (case meta of None \<Rightarrow> None | Some m \<Rightarrow> supersedes_doc_id m) of
        None \<Rightarrow> Inr (d, w)
      | Some s \<Rightarrow>
          case pg_get_by_id s (documents w) of
            None \<Rightarrow> Inr (d, w)
          | Some prior \<Rightarrow>
              let d1 = d\<lparr> version := version prior + 1, supersedes_id := Some (doc_id prior) \<rparr>;
                  keep = (case meta of None \<Rightarrow> True | Some m \<Rightarrow> keep_previous_version m);
                  prior1 = prior\<lparr> status := (if keep then SUPERSEDED else ARCHIVED) \<rparr>
              in case update_doc (now env) prior1 w of
                   Inl e \<Rightarrow> Inl ''IntegrityError''
                 | Inr w1 \<Rightarrow>
                     Inr (d1, scan_audit env (doc_id prior) DOCUMENT_SUPERSEDED
                       [(''superseded_by'', JStr (doc_id d)), (''new_version'', JInt (int (version d1))),
                        (''prior_status'', JStr (status_value (status prior1)))] False w1))"

text \<open>Copy to \<open>raw/\<close> unless the object is there, then delete from quarantine; \<open>Inl w\<close> when a call raised,
with whatever had already happened.\<close>

definition promote_object :: "scan_env \<Rightarrow> string \<Rightarrow> string \<Rightarrow> world \<Rightarrow> (world, world) result" where
  "promote_object env key raw_key w =
     (let copied =
            (if fs_exists RAW_BUCKET raw_key (objects w) then Some w
             else if copy_raises env then None
             else map_option (\<lambda>s. w\<lparr> objects := s \<rparr>)
                    (fs_copy QUARANTINE_BUCKET key RAW_BUCKET raw_key (objects w)))
      in case copied of
           None \<Rightarrow> Inl w
         | Some w1 \<Rightarrow>
             case remove_object (delete_raises env) QUARANTINE_BUCKET key w1 of
               None \<Rightarrow> Inl w1
             | Some w2 \<Rightarrow> Inr w2)"

definition scan_promote ::
  "scan_env \<Rightarrow> request_meta option \<Rightarrow> document \<Rightarrow> string \<Rightarrow> validation_result \<Rightarrow> world \<Rightarrow> prepared \<times> world" where
  "scan_promote env meta d key v w =
     (case scan_supersede env meta d w of
        Inl e \<Rightarrow> (Finished (Inl e), w)
      | Inr (d1, w1) \<Rightarrow>
          let raw_key = build_raw_key (vr_sha256 v) (mime_type d1) in
          case promote_object env key raw_key w1 of
            Inl w2 \<Rightarrow>
              fail_storage env d1 ''STORAGE_ERROR: Failed to promote file from quarantine to raw storage.''
                ((response (doc_id d) (filename d) DocumentStatus.VALIDATION_FAILED key
                   ''Storage error during promotion. File preserved in quarantine for retry.'')
                 \<lparr> resp_checksum := Some (vr_sha256 v) \<rparr>) w2
          | Inr w2 \<Rightarrow>
              (ReadyToCommit
                 (d1\<lparr> status := VALIDATED, raw_path := Some (RAW_BUCKET @ ''/'' @ raw_key),
                      quarantine_path := None, page_count := vr_page_count v \<rparr>) key v, w2))"

definition scan_prepare ::
  "scan_env \<Rightarrow> request_meta option \<Rightarrow> uuid \<Rightarrow> world \<Rightarrow> prepared \<times> world" where
  "scan_prepare env meta i w =
     (case pg_get_by_id i (documents w) of
        None \<Rightarrow>
          (Finished (Inr ((response i ''unknown'' DocumentStatus.VALIDATION_FAILED
              (build_quarantine_key i ''application/pdf'') ''Document record not found.'')
              \<lparr> resp_rejection_reason := Some ''DOCUMENT_NOT_FOUND: Document ID not registered in database.'' \<rparr>)), w)
      | Some d \<Rightarrow>
          let key = quarantine_key_for d in
          if already_past_scan (status d)
          then (Finished (Inr ((response i (filename d) (status d) key
                  ''Document already processed and promoted.'')\<lparr> resp_checksum := checksum d \<rparr>)), w)
          else if status d \<in> {REJECTED, DUPLICATE}
          then (Finished (Inr ((response i (filename d) (status d) key
                  (''Document already finalized: ''
                    @ (case rejection_reason d of None \<Rightarrow> ''None'' | Some r \<Rightarrow> r)))
                  \<lparr> resp_checksum := checksum d, resp_rejection_reason := rejection_reason d,
                    was_duplicate := (status d = DUPLICATE) \<rparr>)), w)
          else case (if get_raises env then None else fs_get QUARANTINE_BUCKET key (objects w)) of
            None \<Rightarrow>
              fail_storage env d ''STORAGE_ERROR: Failed to retrieve quarantined file.''
                (response i (filename d) DocumentStatus.VALIDATION_FAILED key
                   ''Could not read file from quarantine storage.'') w
          | Some data \<Rightarrow>
              let v = validate_document (scan_toolkit env) data (mime_type d) in
              if \<not> is_valid v then scan_reject env d key data v w
              else
                let d1 = d\<lparr> checksum := Some (vr_sha256 v) \<rparr> in
                case pg_get_by_checksum (vr_sha256 v) (documents w) of
                  Some existing \<Rightarrow>
                    if doc_id existing \<noteq> i then scan_duplicate env d1 key existing (vr_sha256 v) w
                    else scan_promote env meta d1 key v w
                | None \<Rightarrow> scan_promote env meta d1 key v w)"

section \<open>Writing the row\<close>

definition scan_lost_race ::
  "scan_env \<Rightarrow> document \<Rightarrow> string \<Rightarrow> string \<Rightarrow> world \<Rightarrow> (string, upload_response) result \<times> world" where
  "scan_lost_race env d key sha w =
     (case update_doc (now env) (d\<lparr> status := DUPLICATE, raw_path := None \<rparr>) w of
        Inl e \<Rightarrow> (Inl ''IntegrityError'', w)
      | Inr w1 \<Rightarrow>
          let canonical = pg_get_by_checksum sha (documents w1);
              (escalated, w2) =
                (case canonical of
                   None \<Rightarrow> (False, w1)
                 | Some c \<Rightarrow>
                     if doc_id c \<noteq> doc_id d
                     then escalate_tier_if_stricter env c (classification d) (doc_id d) sha w1
                     else (False, w1));
              w3 = scan_audit env (doc_id d) DOCUMENT_REJECTED
                     [(''filename'', JStr (filename d)), (''reason'', JStr ''DUPLICATE_RACE''),
                      (''canonical_document_id'', json_opt (map_option doc_id canonical)),
                      (''sha256'', JStr sha), (''canonical_tier_escalated'', JBool escalated)] False w2
          in (Inr ((response (case canonical of None \<Rightarrow> doc_id d | Some c \<Rightarrow> doc_id c) (filename d) DUPLICATE key
                 ''Duplicate document detected (concurrent upload of identical content).'')
                 \<lparr> resp_checksum := Some sha, was_duplicate := True, canonical_tier_escalated := escalated \<rparr>), w3))"

definition scan_commit ::
  "scan_env \<Rightarrow> document \<Rightarrow> string \<Rightarrow> validation_result \<Rightarrow> world \<Rightarrow> (string, upload_response) result \<times> world" where
  "scan_commit env d key v w =
     (case update_doc (now env) d w of
        Inl e \<Rightarrow> scan_lost_race env d key (vr_sha256 v) w
      | Inr w1 \<Rightarrow>
          let w2 = scan_audit env (doc_id d) VALIDATION_PASSED
                [(''sha256'', JStr (vr_sha256 v)),
                 (''page_count'', (case vr_page_count v of None \<Rightarrow> JNull | Some n \<Rightarrow> JInt (int n))),
                 (''file_size_bytes'', JInt (int (file_size_bytes v)))] False w1;
              w3 = scan_audit env (doc_id d) DOCUMENT_PROMOTED
                [(''raw_path'', json_opt (raw_path d)), (''sha256'', JStr (vr_sha256 v)),
                 (''version'', JInt (int (version d)))] False w2;
              w4 = enqueue_job (next_job_id env) (doc_id d) EXTRACT (now env) w3
          in (Inr ((response (doc_id d) (filename d) VALIDATED key
                ''Document passed all checks and was promoted to raw storage.'')
                \<lparr> resp_checksum := Some (vr_sha256 v) \<rparr>), w4))"

definition scan_process ::
  "scan_env \<Rightarrow> request_meta option \<Rightarrow> uuid \<Rightarrow> world \<Rightarrow> (string, upload_response) result \<times> world" where
  "scan_process env meta i w =
     (case scan_prepare env meta i w of
        (Finished r, w1) \<Rightarrow> (r, w1)
      | (ReadyToCommit d key v, w1) \<Rightarrow> scan_commit env d key v w1)"

section \<open>The worker\<close>

text \<open>\<open>ScanWorker.process_job\<close>: how the response becomes the outcome the queue sees.\<close>

definition scan_worker_outcome :: "(string, upload_response) result \<Rightarrow> outcome" where
  "scan_worker_outcome r =
     (case r of
        Inl e \<Rightarrow> UnexpectedError e
      | Inr resp \<Rightarrow>
          if resp_status resp = DocumentStatus.VALIDATION_FAILED
          then (case resp_rejection_reason resp of
                  None \<Rightarrow> PermanentError ''Validation failed''
                | Some reason \<Rightarrow>
                    if reason = [] then PermanentError ''Validation failed''
                    else if contains ''DOCUMENT_NOT_FOUND'' reason then PermanentError reason
                    else if contains ''STORAGE_ERROR'' reason then TransientError reason
                    else PermanentError reason)
          else Processed)"

definition scan_worker :: "scan_env \<Rightarrow> uuid \<Rightarrow> world \<Rightarrow> outcome \<times> world" where
  "scan_worker env i w =
     (let (r, w1) = scan_process env None i w in (scan_worker_outcome r, w1))"

section \<open>What every step keeps\<close>

lemma scan_audit_frame [simp, frame_simps]:
  "documents (scan_audit env d ev det rep w) = documents w"
  "jobs (scan_audit env d ev det rep w) = jobs w"
  "objects (scan_audit env d ev det rep w) = objects w"
  "chunks (scan_audit env d ev det rep w) = chunks w"
  by (simp_all add: scan_audit_def)

lemma enqueue_job_frame [simp, frame_simps]:
  "documents (enqueue_job j d st t w) = documents w" "objects (enqueue_job j d st t w) = objects w"
  "chunks (enqueue_job j d st t w) = chunks w" "audit_log (enqueue_job j d st t w) = audit_log w"
  "jobs (enqueue_job j d st t w) = jobs w @ [new_job j d st t]"
  by (simp_all add: enqueue_job_def)

lemma set_tier_frame [simp, frame_simps]:
  "jobs (set_tier t i c w) = jobs w" "objects (set_tier t i c w) = objects w"
  "chunks (set_tier t i c w) = chunks w" "audit_log (set_tier t i c w) = audit_log w"
  "documents (set_tier t i c w) = snd (pg_set_classification t i c (documents w))"
  by (simp_all add: set_tier_def)

lemma update_doc_Inr:
  "update_doc t d w = Inr w' \<longleftrightarrow>
     (\<exists>r rows. pg_update_document t d (documents w) = Inr (r, rows) \<and> w' = w\<lparr> documents := rows \<rparr>)"
  by (auto simp: update_doc_def split: sum.splits)

lemma update_doc_Inl: "update_doc t d w = Inl e \<longleftrightarrow> pg_update_document t d (documents w) = Inl e"
  by (auto simp: update_doc_def split: sum.splits)

lemma update_doc_frame:
  "update_doc t d w = Inr w' \<Longrightarrow>
     jobs w' = jobs w \<and> objects w' = objects w \<and> chunks w' = chunks w \<and> audit_log w' = audit_log w"
  by (auto simp: update_doc_Inr)

lemma remove_object_Some:
  "remove_object raises b k w = Some w' \<longleftrightarrow>
     \<not> raises \<and> w' = w\<lparr> objects := snd (fs_delete b k (objects w)) \<rparr>"
  by (auto simp: remove_object_def)

text \<open>The constraints survive, no document disappears, and no tier is lowered.\<close>

definition tier_safe :: "document list \<Rightarrow> document list \<Rightarrow> bool" where
  "tier_safe rows rows' = (\<forall>j d. find_doc j rows = Some d \<longrightarrow>
     (\<exists>d'. find_doc j rows' = Some d' \<and>
       (classification d' = classification d \<or> classification d' = Some RESTRICTED)))"

definition step_ok :: "world \<Rightarrow> world \<Rightarrow> bool" where
  "step_ok w w' = ((wf_docs (documents w) \<longrightarrow> wf_docs (documents w'))
     \<and> tier_safe (documents w) (documents w'))"

lemma tier_safe_refl [simp]: "tier_safe rows rows"
  by (auto simp: tier_safe_def)

lemma tier_safe_trans: "tier_safe a b \<Longrightarrow> tier_safe b c \<Longrightarrow> tier_safe a c"
  unfolding tier_safe_def by metis

lemma step_ok_refl: "documents w' = documents w \<Longrightarrow> step_ok w w'"
  by (simp add: step_ok_def)

lemma step_ok_trans: "step_ok a b \<Longrightarrow> step_ok b c \<Longrightarrow> step_ok a c"
  by (auto simp: step_ok_def intro: tier_safe_trans)

lemma step_ok_update:
  assumes "update_doc t d w = Inr w'"
  shows "step_ok w w'"
proof -
  from assms obtain r rows where upd: "pg_update_document t d (documents w) = Inr (r, rows)"
    and w': "w' = w\<lparr> documents := rows \<rparr>" by (auto simp: update_doc_Inr)
  have "tier_safe (documents w) rows"
    unfolding tier_safe_def
  proof (intro allI impI)
    fix j old assume old: "find_doc j (documents w) = Some old"
    show "\<exists>d'. find_doc j rows = Some d' \<and> (classification d' = classification old \<or> classification d' = Some RESTRICTED)"
    proof (cases "j = doc_id d")
      case True
      then show ?thesis
        using pg.upd_result [of d "documents w" old t r rows] old upd by (simp add: pg_get_by_id_def)
    next
      case False
      then show ?thesis using pg.upd_others [OF upd False] old by (simp add: pg_get_by_id_def)
    qed
  qed
  moreover have "wf_docs (documents w) \<Longrightarrow> wf_docs rows"
    using postgres_update_keeps [of "documents w" t d] upd by simp
  ultimately show ?thesis by (simp add: step_ok_def w')
qed

lemma step_ok_restrict: "step_ok w (set_tier t i RESTRICTED w)"
proof -
  have "wf_docs (documents w) \<Longrightarrow> wf_docs (snd (pg_set_classification t i RESTRICTED (documents w)))"
    by (rule postgres_set_tier_keeps)
  moreover have "tier_safe (documents w) (snd (pg_set_classification t i RESTRICTED (documents w)))"
    using pg.tier_get [of _ t i RESTRICTED "documents w"] by (auto simp: tier_safe_def pg_get_by_id_def)
  ultimately show ?thesis by (simp add: step_ok_def)
qed

lemma step_ok_escalate:
  "escalate_tier_if_stricter env c incoming dup sha w = (b, w') \<Longrightarrow> step_ok w w'"
  using step_ok_trans [OF step_ok_restrict [of w "now env" "doc_id c"] step_ok_refl]
  by (auto simp: escalate_tier_if_stricter_def is_stricter_iff step_ok_refl split: if_splits option.splits)

lemma escalate_frame:
  "escalate_tier_if_stricter env c incoming dup sha w = (b, w') \<Longrightarrow>
     jobs w' = jobs w \<and> objects w' = objects w \<and> chunks w' = chunks w"
  by (auto simp: escalate_tier_if_stricter_def split: if_splits option.splits)

lemma promote_object_documents:
  "promote_object env key rk w = Inr w' \<Longrightarrow> documents w' = documents w"
  "promote_object env key rk w = Inl w' \<Longrightarrow> documents w' = documents w"
  by (auto simp: promote_object_def remove_object_def Let_def split: if_splits option.splits)

lemma step_ok_fail_storage: "fail_storage env d r resp w = (x, w') \<Longrightarrow> step_ok w w'"
  by (auto simp: fail_storage_def step_ok_refl dest: step_ok_update split: sum.splits)

lemma step_ok_reject: "scan_reject env d key data v w = (x, w') \<Longrightarrow> step_ok w w'"
  by (auto simp: scan_reject_def Let_def remove_object_def step_ok_refl split: sum.splits option.splits if_splits
      dest!: step_ok_update elim!: step_ok_trans)

lemma step_ok_duplicate: "scan_duplicate env d key c sha w = (x, w') \<Longrightarrow> step_ok w w'"
  by (auto simp: scan_duplicate_def Let_def remove_object_def step_ok_refl
      split: sum.splits option.splits if_splits prod.splits
      dest!: step_ok_update step_ok_escalate elim!: step_ok_trans)

lemma step_ok_supersede: "scan_supersede env meta d w = Inr (d', w') \<Longrightarrow> step_ok w w'"
  by (auto simp: scan_supersede_def Let_def step_ok_refl split: sum.splits option.splits
      dest!: step_ok_update elim!: step_ok_trans)

lemma step_ok_promote:
  assumes "scan_promote env meta d key v w = (x, w')"
  shows "step_ok w w'"
proof (cases "scan_supersede env meta d w")
  case (Inl e)
  then show ?thesis using assms by (simp add: scan_promote_def step_ok_refl)
next
  case (Inr p)
  then obtain d1 w1 where s: "scan_supersede env meta d w = Inr (d1, w1)" by (cases p) auto
  show ?thesis
  proof (cases "promote_object env key (build_raw_key (vr_sha256 v) (mime_type d1)) w1")
    case (Inl w2)
    then have "step_ok w1 w2" using promote_object_documents(2) by (simp add: step_ok_refl)
    then show ?thesis using assms s Inl
      by (auto simp: scan_promote_def Let_def dest!: step_ok_fail_storage step_ok_supersede elim!: step_ok_trans)
  next
    case (Inr w2)
    then have "step_ok w1 w2" using promote_object_documents(1) by (simp add: step_ok_refl)
    then show ?thesis using assms s Inr
      by (auto simp: scan_promote_def Let_def dest!: step_ok_supersede elim!: step_ok_trans)
  qed
qed

lemma step_ok_prepare: "scan_prepare env meta i w = (x, w') \<Longrightarrow> step_ok w w'"
  unfolding scan_prepare_def Let_def
  by (auto simp: step_ok_refl split: option.splits if_splits
      dest: step_ok_fail_storage step_ok_reject step_ok_duplicate step_ok_promote)

lemma step_ok_lost_race:
  assumes "scan_lost_race env d key sha w = (x, w')"
  shows "step_ok w w'"
proof (cases "update_doc (now env) (d\<lparr> status := DUPLICATE, raw_path := None \<rparr>) w")
  case (Inl e)
  then show ?thesis using assms by (simp add: scan_lost_race_def step_ok_refl)
next
  case (Inr w1)
  then show ?thesis using assms step_ok_update [OF Inr]
    by (auto simp: scan_lost_race_def Let_def split: prod.splits option.splits if_splits
        dest!: step_ok_escalate elim!: step_ok_trans intro: step_ok_refl)
qed

lemma step_ok_commit: "scan_commit env d key v w = (x, w') \<Longrightarrow> step_ok w w'"
  by (auto simp: scan_commit_def Let_def split: sum.splits dest!: step_ok_update step_ok_lost_race
      elim!: step_ok_trans intro: step_ok_refl)

text \<open>However the SCAN of a document interleaves with other processes, it keeps the table's constraints,
deletes no row and lowers no tier: from the world the scan starts in, through its preparation, through
anything other processes commit meanwhile that has the same virtue, to its own commit, the ids stay
distinct, no two active documents share a hash, and every document is still there with the tier it had
or with \<open>RESTRICTED\<close>.\<close>

theorem scan_keeps_constraints_and_tiers:
  assumes "scan_prepare env meta i w = (x, w1)"
    and "wf_docs (documents w1) \<longrightarrow> wf_docs (documents w2)" and "tier_safe (documents w1) (documents w2)"
    and "wf_docs (documents w)"
  shows "wf_docs (documents w1) \<and> tier_safe (documents w) (documents w1)
    \<and> (\<forall>d key v r w3. x = ReadyToCommit d key v \<and> scan_commit env d key v w2 = (r, w3) \<longrightarrow>
         wf_docs (documents w3) \<and> tier_safe (documents w) (documents w3))"
proof -
  have 1: "step_ok w w1" using step_ok_prepare [OF assms(1)] .
  have 2: "step_ok w1 w2" using assms(2,3) by (simp add: step_ok_def)
  have "step_ok w w3" if "scan_commit env d key v w2 = (r, w3)" for d key v r w3
    using step_ok_trans [OF step_ok_trans [OF 1 2] step_ok_commit [OF that]] .
  with 1 assms(4) show ?thesis by (auto simp: step_ok_def)
qed

section \<open>Duplicates\<close>

lemma get_by_checksum_unique:
  assumes "wf_docs rows" "c \<in> set rows" "active_checksum c = Some h"
  shows "pg_get_by_checksum h rows = Some c"
proof -
  obtain xs ys where rows: "rows = xs @ c # ys" using assms(2) by (meson split_list)
  have "h \<notin> set (active_checksums xs)" using assms(1,3) by (auto simp: wf_docs_def rows)
  then have "find (\<lambda>d. checksum d = Some h \<and> active_status (status d)) xs = None"
    by (auto simp: find_None set_active_checksums active_checksum_def)
  then show ?thesis using assms(3)
    by (simp add: pg_get_by_checksum_def rows find_append active_checksum_def split: if_splits)
qed

lemma active_unique:
  assumes "wf_docs rows" "c \<in> set rows" "d \<in> set rows" "active_checksum c = Some h" "active_checksum d = Some h"
  shows "c = d"
  using get_by_checksum_unique [OF assms(1,2,4)] get_by_checksum_unique [OF assms(1,3,5)] by simp

lemma get_by_checksum_None:
  "pg_get_by_checksum h rows = None \<longleftrightarrow> (\<forall>c\<in>set rows. active_checksum c \<noteq> Some h)"
  by (auto simp: pg_get_by_checksum_def find_None active_checksum_def)

text \<open>Writing a row that is not active is never refused.\<close>

lemma update_inactive:
  assumes "wf_docs (documents w)" "find_doc (doc_id d) (documents w) = Some row" "\<not> active_status (status d)"
  shows "\<exists>w'. update_doc t d w = Inr w' \<and> wf_docs (documents w')
    \<and> find_doc (doc_id d) (documents w') = Some (touch t row (written_back d row))
    \<and> (\<forall>j. j \<noteq> doc_id d \<longrightarrow> find_doc j (documents w') = find_doc j (documents w))
    \<and> jobs w' = jobs w \<and> objects w' = objects w"
proof (cases "pg_update_document t d (documents w)")
  case (Inl e)
  then show ?thesis using pg_update_refused_iff [OF assms(1,2), of t e] assms(3) by simp
next
  case (Inr p)
  then obtain r rows where p: "pg_update_document t d (documents w) = Inr (r, rows)" by (cases p) auto
  then show ?thesis
    using pg_update_find [OF assms(2) p] pg_update_Inr [OF assms(2) p] postgres_update_keeps [OF assms(1), of t d]
    by (auto simp: update_doc_def)
qed

definition stricter_tier :: "Classification option \<Rightarrow> Classification option \<Rightarrow> Classification option" where
  "stricter_tier incoming current = (if is_stricter incoming current then incoming else current)"

lemma escalate_effect:
  assumes "escalate_tier_if_stricter env c incoming dup sha w = (b, w1)"
    and "find_doc (doc_id c) (documents w) = Some c" "wf_docs (documents w)"
  shows "b = is_stricter incoming (classification c) \<and> wf_docs (documents w1)
    \<and> (\<exists>c'. find_doc (doc_id c) (documents w1) = Some c'
         \<and> classification c' = stricter_tier incoming (classification c) \<and> status c' = status c
         \<and> checksum c' = checksum c)
    \<and> (\<forall>j. j \<noteq> doc_id c \<longrightarrow> find_doc j (documents w1) = find_doc j (documents w))
    \<and> jobs w1 = jobs w \<and> objects w1 = objects w"
proof (cases "is_stricter incoming (classification c)")
  case False
  then show ?thesis using assms by (auto simp: escalate_tier_if_stricter_def stricter_tier_def)
next
  case True
  then have inc: "incoming = Some RESTRICTED" by (simp add: is_stricter_iff)
  show ?thesis using assms True inc pg.tier_get [of _ "now env" "doc_id c" RESTRICTED "documents w"]
    by (auto simp: escalate_tier_if_stricter_def stricter_tier_def pg_get_by_id_def postgres_set_tier_keeps)
qed

text \<open>What both ways of finding out that a copy is a duplicate end in.\<close>

definition duplicate_outcome ::
  "document \<Rightarrow> document \<Rightarrow> world \<Rightarrow> (string, upload_response) result \<Rightarrow> world \<Rightarrow> bool" where
  "duplicate_outcome d c w r w' =
     ((\<exists>resp. r = Inr resp \<and> resp_status resp = DUPLICATE \<and> was_duplicate resp
          \<and> resp_document_id resp = doc_id c
          \<and> canonical_tier_escalated resp = is_stricter (classification d) (classification c))
      \<and> scan_worker_outcome r = Processed
      \<and> (\<exists>d'. find_doc (doc_id d) (documents w') = Some d' \<and> status d' = DUPLICATE)
      \<and> (\<exists>c'. find_doc (doc_id c) (documents w') = Some c' \<and> status c' = status c \<and> checksum c' = checksum c
            \<and> classification c' = stricter_tier (classification d) (classification c))
      \<and> (\<forall>j. j \<noteq> doc_id c \<and> j \<noteq> doc_id d \<longrightarrow> find_doc j (documents w') = find_doc j (documents w))
      \<and> jobs w' = jobs w)"

lemma stricter_tier_cases: "stricter_tier a b = a \<or> stricter_tier a b = b"
  by (simp add: stricter_tier_def)

lemma duplicate_found_early:
  assumes wf: "wf_docs (documents w)" and d: "find_doc (doc_id d) (documents w) = Some row"
    and c: "find_doc (doc_id c) (documents w) = Some c" "doc_id c \<noteq> doc_id d"
    and cls: "classification d = classification row" and nofault: "\<not> delete_raises env"
  shows "\<exists>r w'. scan_duplicate env d key c sha w = (Finished r, w') \<and> duplicate_outcome d c w r w'
     \<and> fs_get QUARANTINE_BUCKET key (objects w') = None"
proof -
  obtain b w1 where esc: "escalate_tier_if_stricter env c (classification d) (doc_id d) sha w = (b, w1)"
    by (cases "escalate_tier_if_stricter env c (classification d) (doc_id d) sha w") auto
  note e = escalate_effect [OF esc c(1) wf]
  let ?d' = "d\<lparr> status := DUPLICATE, quarantine_path := None \<rparr>"
  have row1: "find_doc (doc_id ?d') (documents w1) = Some row" using e c(2) d by simp
  have inactive: "\<not> active_status (status ?d')" by (simp add: active_status_def)
  from e have "wf_docs (documents w1)" by blast
  from update_inactive [OF this row1 inactive, of "now env"] obtain w2 where
    w2: "update_doc (now env) ?d' w1 = Inr w2"
      "find_doc (doc_id d) (documents w2) = Some (touch (now env) row (written_back ?d' row))"
      "\<And>j. j \<noteq> doc_id d \<Longrightarrow> find_doc j (documents w2) = find_doc j (documents w1)"
      "jobs w2 = jobs w1" "objects w2 = objects w1" by auto
  show ?thesis
    using esc e w2 c(2) nofault
    by (auto simp: scan_duplicate_def Let_def remove_object_def duplicate_outcome_def response_def
        scan_worker_outcome_def)
qed

lemma duplicate_lost_race:
  assumes wf: "wf_docs (documents w)" and d: "find_doc (doc_id d) (documents w) = Some row"
    and c: "find_doc (doc_id c) (documents w) = Some c" "doc_id c \<noteq> doc_id d" "active_checksum c = Some sha"
    and hash: "checksum d = Some sha" "active_status (status d)" and v: "vr_sha256 v = sha"
  shows "\<exists>r w'. scan_commit env d key v w = (r, w') \<and> duplicate_outcome d c w r w'
     \<and> objects w' = objects w"
proof -
  have "c \<in> set (documents w)" using find_doc_Some [OF c(1)] by simp
  then have "pg_update_document (now env) d (documents w) = Inl IntegrityError"
    using pg_update_refused_iff [OF wf d, of "now env" IntegrityError] c hash by auto
  then have refused: "update_doc (now env) d w = Inl IntegrityError" by (simp add: update_doc_def)
  let ?d' = "d\<lparr> status := DUPLICATE, raw_path := None \<rparr>"
  have row1: "find_doc (doc_id ?d') (documents w) = Some row" using d by simp
  have inactive: "\<not> active_status (status ?d')" by (simp add: active_status_def)
  from update_inactive [OF wf row1 inactive, of "now env"] obtain w2 where
    w2: "update_doc (now env) ?d' w = Inr w2" "wf_docs (documents w2)"
      "find_doc (doc_id d) (documents w2) = Some (touch (now env) row (written_back ?d' row))"
      "\<And>j. j \<noteq> doc_id d \<Longrightarrow> find_doc j (documents w2) = find_doc j (documents w)"
      "jobs w2 = jobs w" "objects w2 = objects w" by auto
  have c2: "find_doc (doc_id c) (documents w2) = Some c" using w2(4) c by simp
  then have canonical: "pg_get_by_checksum sha (documents w2) = Some c"
    using get_by_checksum_unique [OF w2(2)] c(3) find_doc_Some [OF c2] by blast
  obtain b w3 where esc: "escalate_tier_if_stricter env c (classification d) (doc_id d) sha w2 = (b, w3)"
    by (cases "escalate_tier_if_stricter env c (classification d) (doc_id d) sha w2") auto
  note e = escalate_effect [OF esc c2 w2(2)]
  show ?thesis
    using refused w2 canonical esc e c(2) v
    by (auto simp: scan_commit_def scan_lost_race_def Let_def duplicate_outcome_def response_def
        scan_worker_outcome_def)
qed

text \<open>A document the guard lets through.\<close>

definition scannable :: "document \<Rightarrow> bool" where
  "scannable d = (\<not> already_past_scan (status d) \<and> status d \<notin> {REJECTED, DUPLICATE})"

lemma prepare_valid:
  assumes "find_doc i (documents w) = Some d" "scannable d" "\<not> get_raises env"
    and "fs_get QUARANTINE_BUCKET (quarantine_key_for d) (objects w) = Some data"
    and "is_valid (validate_document (scan_toolkit env) data (mime_type d))"
    and "vr_sha256 (validate_document (scan_toolkit env) data (mime_type d)) = sha"
  shows "scan_prepare env meta i w =
    (case pg_get_by_checksum sha (documents w) of
       Some existing \<Rightarrow>
         if doc_id existing \<noteq> i
         then scan_duplicate env (d\<lparr> checksum := Some sha \<rparr>) (quarantine_key_for d) existing sha w
         else scan_promote env meta (d\<lparr> checksum := Some sha \<rparr>) (quarantine_key_for d)
                (validate_document (scan_toolkit env) data (mime_type d)) w
     | None \<Rightarrow> scan_promote env meta (d\<lparr> checksum := Some sha \<rparr>) (quarantine_key_for d)
                (validate_document (scan_toolkit env) data (mime_type d)) w)"
  unfolding assms(6) [symmetric]
  using assms(1-5) by (simp add: scan_prepare_def scannable_def Let_def pg_get_by_id_def)

text \<open>C9: A valid file whose SHA-256 an active document already holds is refused as its duplicate: the
response names that document, the copy's row ends \<open>DUPLICATE\<close> and its quarantined bytes are removed, no
job is queued, every third document is untouched, and the document kept takes the stricter of the two
tiers, never the laxer, and keeps everything else. The queue counts the job as done.\<close>

theorem duplicate_refused_stricter_tier_wins:
  assumes "wf_docs (documents w)" "find_doc i (documents w) = Some d" "scannable d"
    and "\<not> get_raises env" "\<not> delete_raises env"
    and "fs_get QUARANTINE_BUCKET (quarantine_key_for d) (objects w) = Some data"
    and "is_valid (validate_document (scan_toolkit env) data (mime_type d))"
    and "find_doc (doc_id c) (documents w) = Some c" "doc_id c \<noteq> i"
    and "active_checksum c = Some (vr_sha256 (validate_document (scan_toolkit env) data (mime_type d)))"
  shows "\<exists>r w'. scan_process env meta i w = (r, w') \<and> duplicate_outcome d c w r w'
    \<and> fs_get QUARANTINE_BUCKET (quarantine_key_for d) (objects w') = None"
proof -
  let ?sha = "vr_sha256 (validate_document (scan_toolkit env) data (mime_type d))"
  let ?d1 = "d\<lparr> checksum := Some ?sha \<rparr>"
  have id: "doc_id d = i" using find_doc_Some [OF assms(2)] by simp
  have "c \<in> set (documents w)" using find_doc_Some [OF assms(8)] by simp
  then have "pg_get_by_checksum ?sha (documents w) = Some c"
    using get_by_checksum_unique [OF assms(1) _ assms(10)] by blast
  then have prep: "scan_prepare env meta i w = scan_duplicate env ?d1 (quarantine_key_for d) c ?sha w"
    using prepare_valid [OF assms(2-4,6,7) refl, of meta] assms(9) by simp
  have row: "find_doc (doc_id ?d1) (documents w) = Some d" and ne: "doc_id c \<noteq> doc_id ?d1"
    using assms(2,9) id by simp_all
  from duplicate_found_early [OF assms(1) row assms(8) ne _ assms(5), of "quarantine_key_for d" ?sha]
  obtain r w' where "scan_duplicate env ?d1 (quarantine_key_for d) c ?sha w = (Finished r, w')"
      "duplicate_outcome ?d1 c w r w'" "fs_get QUARANTINE_BUCKET (quarantine_key_for d) (objects w') = None"
    by auto
  then show ?thesis using prep by (auto simp: scan_process_def duplicate_outcome_def)
qed

lemma supersede_keeps:
  "scan_supersede env meta d w = Inr (d1, w1) \<Longrightarrow>
     doc_id d1 = doc_id d \<and> checksum d1 = checksum d \<and> mime_type d1 = mime_type d \<and> objects w1 = objects w
     \<and> classification d1 = classification d"
  by (auto simp: scan_supersede_def Let_def split: option.splits sum.splits dest!: update_doc_frame)

lemma promote_object_moves:
  assumes "promote_object env key rk w = Inr w'"
  shows "fs_get QUARANTINE_BUCKET key (objects w') = None
    \<and> fs_get RAW_BUCKET rk (objects w') =
        (case fs_get RAW_BUCKET rk (objects w) of
           Some old \<Rightarrow> Some old | None \<Rightarrow> fs_get QUARANTINE_BUCKET key (objects w))
    \<and> fs_get RAW_BUCKET rk (objects w') \<noteq> None"
  using assms fs.copy_get [of QUARANTINE_BUCKET key RAW_BUCKET rk "objects w"] fs.exists_get
  by (auto simp: promote_object_def Let_def remove_object_Some split: if_splits option.splits)

lemma finished_is_not_ready [simp]:
  "fail_storage env d r resp w \<noteq> (ReadyToCommit a k v, w')"
  "scan_reject env d key data v0 w \<noteq> (ReadyToCommit a k v, w')"
  "scan_duplicate env d key c sha w \<noteq> (ReadyToCommit a k v, w')"
  by (auto simp: fail_storage_def scan_reject_def scan_duplicate_def Let_def split: sum.splits option.splits prod.splits)

lemma promote_names_its_validation:
  "scan_promote env meta d0 k0 v0 w = (ReadyToCommit d k v, w') \<Longrightarrow> v0 = v \<and> k0 = k"
  by (auto simp: scan_promote_def Let_def split: sum.splits prod.splits)

lemma ready_to_commit:
  assumes "scan_prepare env meta i w = (ReadyToCommit d key v, w1)"
  shows "doc_id d = i \<and> checksum d = Some (vr_sha256 v) \<and> status d = VALIDATED
    \<and> raw_path d = Some (RAW_BUCKET @ ''/'' @ build_raw_key (vr_sha256 v) (mime_type d))
    \<and> fs_get RAW_BUCKET (build_raw_key (vr_sha256 v) (mime_type d)) (objects w1) \<noteq> None"
proof -
  from assms obtain d0 where d0: "pg_get_by_id i (documents w) = Some d0"
    by (auto simp: scan_prepare_def split: option.splits)
  from assms have prom: "scan_promote env meta (d0\<lparr> checksum := Some (vr_sha256 v) \<rparr>) key v w = (ReadyToCommit d key v, w1)"
    unfolding scan_prepare_def d0 Let_def
    by (auto split: option.splits if_splits dest: promote_names_its_validation)
  have "doc_id d0 = i" using d0 find_doc_Some by (auto simp: pg_get_by_id_def)
  then show ?thesis using prom
    by (auto simp: scan_promote_def Let_def fail_storage_def split: sum.splits prod.splits
        dest!: supersede_keeps promote_object_moves)
qed

text \<open>The race is lost safely. When a scan has promoted its bytes and, before it writes its row, another
process commits an active document with the same SHA-256, the unique index refuses the write and the
scan ends exactly as if it had seen the duplicate at once: its row is \<open>DUPLICATE\<close>, no \<open>EXTRACT\<close> job is
queued, the response names the winner, the winner takes the stricter tier, and the shared object in
\<open>raw/\<close>, which is now the winner's, stays.\<close>

theorem lost_race_is_a_duplicate:
  assumes "scan_prepare env meta i w = (ReadyToCommit d key v, w1)"
    and "wf_docs (documents w2)" "find_doc i (documents w2) = Some row"
    and "find_doc (doc_id c) (documents w2) = Some c" "doc_id c \<noteq> i"
    and "active_checksum c = Some (vr_sha256 v)"
  shows "\<exists>r w3. scan_commit env d key v w2 = (r, w3) \<and> duplicate_outcome d c w2 r w3 \<and> objects w3 = objects w2"
proof -
  note ready = ready_to_commit [OF assms(1)]
  then have "active_status (status d)" by (simp add: active_status_def)
  then show ?thesis
    using duplicate_lost_race [OF assms(2), of d row c "vr_sha256 v" v env key] assms(3-6) ready by simp
qed

section \<open>Promotion\<close>

lemma pg_update_accepted:
  assumes "wf_docs rows" "find_doc (doc_id d) rows = Some row"
    and "\<forall>c\<in>set rows. doc_id c \<noteq> doc_id d \<longrightarrow> active_checksum c = None \<or> active_checksum c \<noteq> checksum d"
  shows "\<exists>r rows'. pg_update_document t d rows = Inr (r, rows')"
proof (cases "pg_update_document t d rows")
  case (Inl e)
  then show ?thesis using pg_update_refused_iff [OF assms(1,2), of t e] assms(3) by fastforce
next
  case (Inr p)
  then show ?thesis by (cases p) auto
qed

lemma has_event_audit [simp]:
  "events_of d (scan_audit env d' ev det rep w) =
     (if audit_down env \<or> (\<not> rep \<and> has_event d' ev w) then events_of d w
      else events_of d w @ (if d' = d then [ev] else []))"
  by (auto simp: scan_audit_def)

lemma events_of_frame [simp]:
  "events_of i (w\<lparr> documents := rows \<rparr>) = events_of i w"
  "events_of i (enqueue_job j d st t w) = events_of i w"
  by (simp_all add: events_of_def enqueue_job_def)

text \<open>A valid file nobody holds is promoted completely. With no storage fault, the row becomes
\<open>VALIDATED\<close> with its hash, page count and \<open>raw_path\<close>, and its own tier; the bytes are in \<open>raw/\<close> under the
content-addressed key (the upload's bytes, unless that object was already there) and gone from quarantine;
exactly one \<open>EXTRACT\<close> job is queued for it; the first promotion records its two audit events; and no other
document changes.\<close>

theorem valid_upload_is_promoted:
  assumes "wf_docs (documents w)" "find_doc i (documents w) = Some d" "scannable d"
    and "\<not> get_raises env" "\<not> copy_raises env" "\<not> delete_raises env" "\<not> audit_down env"
    and "fs_get QUARANTINE_BUCKET (quarantine_key_for d) (objects w) = Some data"
    and "v = validate_document (scan_toolkit env) data (mime_type d)" "is_valid v"
    and "\<forall>c\<in>set (documents w). doc_id c \<noteq> i \<longrightarrow> active_checksum c \<noteq> Some (vr_sha256 v)"
    and "events_of i w = []" and "raw_key = build_raw_key (vr_sha256 v) (mime_type d)"
  shows "\<exists>resp w' d'. scan_process env None i w = (Inr resp, w') \<and> resp_status resp = VALIDATED
    \<and> find_doc i (documents w') = Some d' \<and> status d' = VALIDATED \<and> checksum d' = Some (vr_sha256 v)
    \<and> raw_path d' = Some (RAW_BUCKET @ ''/'' @ raw_key) \<and> classification d' = classification d
    \<and> fs_get RAW_BUCKET raw_key (objects w') =
        (case fs_get RAW_BUCKET raw_key (objects w) of Some old \<Rightarrow> Some old | None \<Rightarrow> Some data)
    \<and> fs_get QUARANTINE_BUCKET (quarantine_key_for d) (objects w') = None
    \<and> jobs w' = jobs w @ [new_job (next_job_id env) i EXTRACT (now env)]
    \<and> events_of i w' = [VALIDATION_PASSED, DOCUMENT_PROMOTED]
    \<and> (\<forall>j. j \<noteq> i \<longrightarrow> find_doc j (documents w') = find_doc j (documents w))"
proof -
  have id: "doc_id d = i" using find_doc_Some [OF assms(2)] by simp
  let ?key = "quarantine_key_for d"
  let ?d1 = "d\<lparr> checksum := Some (vr_sha256 v) \<rparr>"
  let ?d2 = "?d1\<lparr> status := VALIDATED, raw_path := Some (RAW_BUCKET @ ''/'' @ raw_key),
                quarantine_path := None, page_count := vr_page_count v \<rparr>"
  obtain w1 where prom: "promote_object env ?key raw_key w = Inr w1"
    using assms(5,6,8) fs.exists_get [of RAW_BUCKET raw_key "objects w"]
    by (auto simp: promote_object_def remove_object_def fs_copy_def fs_get_def Let_def split: option.split)
  note moved = promote_object_moves [OF prom]
  have frame: "documents w1 = documents w" "jobs w1 = jobs w" "audit_log w1 = audit_log w"
    using prom by (auto simp: promote_object_def remove_object_def Let_def split: if_splits option.splits)
  have "scan_promote env None ?d1 ?key v w = (ReadyToCommit ?d2 ?key v, w1)"
    using prom assms(13) by (simp add: scan_promote_def scan_supersede_def)
  moreover have "scan_prepare env None i w = scan_promote env None ?d1 ?key v w"
    using prepare_valid [OF assms(2,3,4,8), of "vr_sha256 v" None] assms(9,10,11)
      get_by_checksum_None [of "vr_sha256 v" "documents w"]
    by (auto simp: pg_get_by_checksum_def active_checksum_def split: option.split dest!: find_Some_mem)
  ultimately have prep: "scan_prepare env None i w = (ReadyToCommit ?d2 ?key v, w1)" by simp
  have row: "find_doc (doc_id ?d2) (documents w1) = Some d" using assms(2) id frame by simp
  have wf1: "wf_docs (documents w1)" using assms(1) frame by simp
  have free: "\<forall>c\<in>set (documents w1). doc_id c \<noteq> doc_id ?d2 \<longrightarrow> active_checksum c = None \<or> active_checksum c \<noteq> checksum ?d2"
    using assms(11) frame id by simp
  obtain r rows where upd: "pg_update_document (now env) ?d2 (documents w1) = Inr (r, rows)"
    using pg_update_accepted [OF wf1 row free] by blast
  have r: "r = touch (now env) d (written_back ?d2 d)" and found: "\<And>j. find_doc j rows = (if j = i then Some r else find_doc j (documents w))"
    using pg_update_Inr [OF row upd] pg_update_find [OF row upd] id frame by auto
  have none: "events_of i w1 = []" using assms(12) frame by (simp add: events_of_def)
  have moved': "fs_get RAW_BUCKET raw_key (objects w1) =
        (case fs_get RAW_BUCKET raw_key (objects w) of Some old \<Rightarrow> Some old | None \<Rightarrow> Some data)"
    using moved assms(8) by (simp split: option.split)
  show ?thesis
    using prep upd moved assms(7) id frame found none
    by (simp add: scan_process_def scan_commit_def update_doc_def response_def r Let_def has_event_iff moved')
qed

section \<open>Re-running a scan\<close>

text \<open>A re-run is harmless for the stages the guard lists and destructive for those it forgets. On a
document already promoted, extracted, normalized, live or refused, processing the job again changes
nothing at all; but a document that has reached \<open>CHUNKED\<close> or a later state the guard omits
(\<open>CHUNKING_FAILED\<close>, \<open>EMBEDDING_FAILED\<close>, \<open>SKIPPED_UNSUPPORTED_LANGUAGE\<close>), whose quarantine object
promotion removed, is set to \<open>VALIDATION_FAILED\<close> and its job retried as a transient failure.\<close>

theorem rescan_guard:
  assumes "wf_docs (documents w)" "find_doc i (documents w) = Some d"
  shows "(already_past_scan (status d) \<or> status d \<in> {REJECTED, DUPLICATE} \<longrightarrow>
      scan_worker env i w = (Processed, w))
    \<and> (status d \<in> {CHUNKED, DocumentStatus.CHUNKING_FAILED, DocumentStatus.EMBEDDING_FAILED,
                     SKIPPED_UNSUPPORTED_LANGUAGE}
        \<and> fs_get QUARANTINE_BUCKET (quarantine_key_for d) (objects w) = None \<longrightarrow>
        (\<exists>w' d' e. scan_worker env i w = (TransientError e, w') \<and> find_doc i (documents w') = Some d'
           \<and> status d' = DocumentStatus.VALIDATION_FAILED))"
proof (intro conjI impI)
  have id: "doc_id d = i" and mem: "d \<in> set (documents w)" using find_doc_Some [OF assms(2)] by auto
  {
    assume "already_past_scan (status d) \<or> status d \<in> {REJECTED, DUPLICATE}"
    then have "status d \<noteq> DocumentStatus.VALIDATION_FAILED" by (auto simp: already_past_scan_def)
    then show "scan_worker env i w = (Processed, w)"
      using \<open>already_past_scan (status d) \<or> status d \<in> {REJECTED, DUPLICATE}\<close> assms(2)
      by (auto simp: scan_worker_def scan_process_def scan_prepare_def pg_get_by_id_def Let_def
          scan_worker_outcome_def response_def)
  }
  assume late: "status d \<in> {CHUNKED, DocumentStatus.CHUNKING_FAILED, DocumentStatus.EMBEDDING_FAILED,
                     SKIPPED_UNSUPPORTED_LANGUAGE}
        \<and> fs_get QUARANTINE_BUCKET (quarantine_key_for d) (objects w) = None"
  let ?reason = "''STORAGE_ERROR: Failed to retrieve quarantined file.''"
  let ?d' = "d\<lparr> status := DocumentStatus.VALIDATION_FAILED, rejection_reason := Some ?reason \<rparr>"
  have row: "find_doc (doc_id ?d') (documents w) = Some d" using assms(2) id by simp
  have act: "active_checksum d = checksum d" using late by (auto simp: active_checksum_def active_status_def)
  have "\<forall>c\<in>set (documents w). doc_id c \<noteq> doc_id ?d' \<longrightarrow> active_checksum c = None \<or> active_checksum c \<noteq> checksum ?d'"
  proof (intro ballI impI)
    fix c assume c: "c \<in> set (documents w)" "doc_id c \<noteq> doc_id ?d'"
    show "active_checksum c = None \<or> active_checksum c \<noteq> checksum ?d'"
    proof (cases "active_checksum c")
      case (Some h)
      have "c = d" if "checksum d = Some h"
        using get_by_checksum_unique [OF assms(1) c(1) Some] get_by_checksum_unique [OF assms(1) mem] act that by simp
      then show ?thesis using c(2) id Some by auto
    qed simp
  qed
  from pg_update_accepted [OF assms(1) row this] obtain r rows where
    upd: "pg_update_document (now env) ?d' (documents w) = Inr (r, rows)" by blast
  note r = pg_update_Inr [OF row upd] pg_update_find [OF row upd, of i]
  have "scan_prepare env None i w = (Finished (Inr ((response i (filename d) DocumentStatus.VALIDATION_FAILED
      (quarantine_key_for d) ''Could not read file from quarantine storage.'')
      \<lparr> resp_rejection_reason := Some ?reason \<rparr>)), w\<lparr> documents := rows \<rparr>)"
    using late assms(2) upd by (auto simp: scan_prepare_def already_past_scan_def fail_storage_def update_doc_def
        pg_get_by_id_def Let_def)
  moreover have "contains ''STORAGE_ERROR'' ?reason" "\<not> contains ''DOCUMENT_NOT_FOUND'' ?reason"
    by code_simp+
  ultimately show "\<exists>w' d' e. scan_worker env i w = (TransientError e, w') \<and> find_doc i (documents w') = Some d'
           \<and> status d' = DocumentStatus.VALIDATION_FAILED"
    using r id by (simp add: scan_worker_def scan_process_def scan_worker_outcome_def response_def)
qed

section \<open>Witnesses\<close>

definition sample_env :: scan_env where
  "sample_env = \<lparr> scan_toolkit = sample_toolkit, now = 9, corr_id = ''k'', next_job_id = ''j'',
     get_raises = False, copy_raises = False, delete_raises = False, audit_down = False \<rparr>"

definition sample_upload :: document where
  "sample_upload = (new_document ''a'' ''a.pdf'' 14 0)
     \<lparr> mime_type := PDF_MIME, status := QUARANTINED, classification := Some RESTRICTED \<rparr>"

definition sample_holder :: document where
  "sample_holder = (new_document ''c'' ''c.pdf'' 14 0)
     \<lparr> mime_type := PDF_MIME, status := LIVE, checksum := Some ''h14'', classification := Some PUBLIC \<rparr>"

definition sample_world :: "document list \<Rightarrow> world" where
  "sample_world rows = empty_world\<lparr> documents := rows,
     objects := [((QUARANTINE_BUCKET, ''a.pdf''), ''%PDF-1.7 %%EOF'')] \<rparr>"

lemma sample_facts [simp]:
  "doc_id sample_upload = ''a''" "doc_id sample_holder = ''c''" "mime_type sample_upload = PDF_MIME"
  "status sample_upload = QUARANTINED" "status sample_holder = LIVE"
  "checksum sample_upload = None" "checksum sample_holder = Some ''h14''"
  "classification sample_upload = Some RESTRICTED" "classification sample_holder = Some PUBLIC"
  "scannable sample_upload" "quarantine_key_for sample_upload = ''a.pdf''"
  "active_checksum sample_upload = None" "active_checksum sample_holder = Some ''h14''"
  by (simp_all add: sample_upload_def sample_holder_def new_document_def scannable_def already_past_scan_def
      quarantine_key_for_def build_quarantine_key_def extension_for_def active_checksum_def active_status_def)
     (simp_all add: PDF_SPEC_def)

lemma sample_env_simps [simp]:
  "scan_toolkit sample_env = sample_toolkit" "\<not> get_raises sample_env" "\<not> copy_raises sample_env"
  "\<not> delete_raises sample_env" "\<not> audit_down sample_env"
  by (simp_all add: sample_env_def)

lemma sample_world_simps [simp]:
  "documents (sample_world rows) = rows" "jobs (sample_world rows) = []" "audit_log (sample_world rows) = []"
  "fs_get QUARANTINE_BUCKET ''a.pdf'' (objects (sample_world rows)) = Some ''%PDF-1.7 %%EOF''"
  by (simp_all add: sample_world_def empty_world_def fs_get_def)

lemma sample_rows [simp]:
  "wf_docs [sample_upload]" "wf_docs [sample_upload, sample_holder]" "wf_docs [sample_holder]"
  "find_doc ''a'' (sample_upload # rows) = Some sample_upload"
  "find_doc ''c'' [sample_upload, sample_holder] = Some sample_holder"
  by (simp_all add: wf_docs_def find_doc_def)

theorem duplicate_refused_stricter_tier_wins_witness:
  "\<exists>r w'. scan_process sample_env None ''a'' (sample_world [sample_upload, sample_holder]) = (r, w')
     \<and> duplicate_outcome sample_upload sample_holder (sample_world [sample_upload, sample_holder]) r w'"
  using duplicate_refused_stricter_tier_wins
      [of "sample_world [sample_upload, sample_holder]" "''a''" sample_upload sample_env "''%PDF-1.7 %%EOF''"
         sample_holder None]
  by (simp add: sample_pdf) blast

theorem valid_upload_is_promoted_witness:
  "\<exists>(w' :: world) (d' :: document). find_doc ''a'' (documents w') = Some d' \<and> status d' = VALIDATED
     \<and> jobs w' = [new_job (next_job_id sample_env) ''a'' EXTRACT (now sample_env)]"
proof -
  let ?w = "sample_world [sample_upload]" and ?data = "''%PDF-1.7 %%EOF''"
  let ?v = "validate_document (scan_toolkit sample_env) ?data (mime_type sample_upload)"
  have given: "wf_docs (documents ?w)" "find_doc ''a'' (documents ?w) = Some sample_upload"
      "scannable sample_upload" "\<not> get_raises sample_env" "\<not> copy_raises sample_env"
      "\<not> delete_raises sample_env" "\<not> audit_down sample_env"
      "fs_get QUARANTINE_BUCKET (quarantine_key_for sample_upload) (objects ?w) = Some ?data"
      "?v = ?v" "is_valid ?v"
      "\<forall>c\<in>set (documents ?w). doc_id c \<noteq> ''a'' \<longrightarrow> active_checksum c \<noteq> Some (vr_sha256 ?v)"
      "events_of ''a'' ?w = []"
    by (simp_all add: sample_pdf events_of_def)
  from valid_upload_is_promoted [OF given refl] obtain w' :: world and d' :: document where
    "find_doc ''a'' (documents w') = Some d'" "status d' = VALIDATED"
    "jobs w' = jobs ?w @ [new_job (next_job_id sample_env) ''a'' EXTRACT (now sample_env)]"
    by (elim exE conjE) (rule that)
  then show ?thesis by auto
qed

lemma sample_ready:
  "\<exists>d key v w1. scan_prepare sample_env None ''a'' (sample_world [sample_upload]) = (ReadyToCommit d key v, w1)
     \<and> vr_sha256 v = ''h14''"
proof -
  have "scan_prepare sample_env None ''a'' (sample_world [sample_upload]) =
      scan_promote sample_env None (sample_upload\<lparr> checksum := Some ''h14'' \<rparr>) ''a.pdf''
        (validate_document sample_toolkit ''%PDF-1.7 %%EOF'' PDF_MIME) (sample_world [sample_upload])"
    using prepare_valid [of "''a''" "sample_world [sample_upload]" sample_upload sample_env "''%PDF-1.7 %%EOF''" "''h14''" None]
    by (simp add: sample_pdf pg_get_by_checksum_def)
  moreover have "fs_copy QUARANTINE_BUCKET ''a.pdf'' RAW_BUCKET rk (objects (sample_world [sample_upload])) =
      Some (fs_put RAW_BUCKET rk ''%PDF-1.7 %%EOF'' (objects (sample_world [sample_upload])))" for rk
    by (simp add: fs_copy_def sample_world_def)
  ultimately show ?thesis
    by (auto simp: scan_promote_def scan_supersede_def promote_object_def remove_object_def Let_def sample_pdf)
qed

theorem lost_race_is_a_duplicate_witness:
  "\<exists>d key v r w3. vr_sha256 v = ''h14''
     \<and> scan_commit sample_env d key v (sample_world [sample_upload, sample_holder]) = (r, w3)
     \<and> duplicate_outcome d sample_holder (sample_world [sample_upload, sample_holder]) r w3"
proof -
  obtain d key v w1 where p: "scan_prepare sample_env None ''a'' (sample_world [sample_upload]) = (ReadyToCommit d key v, w1)"
      "vr_sha256 v = ''h14''" using sample_ready by blast
  from lost_race_is_a_duplicate [OF p(1), of "sample_world [sample_upload, sample_holder]" sample_upload sample_holder] p(2)
  have "\<exists>r w3. scan_commit sample_env d key v (sample_world [sample_upload, sample_holder]) = (r, w3)
     \<and> duplicate_outcome d sample_holder (sample_world [sample_upload, sample_holder]) r w3" by simp blast
  with p(2) show ?thesis by blast
qed

theorem scan_keeps_constraints_and_tiers_witness:
  "\<exists>d key v w1. wf_docs (documents w1) \<and> tier_safe [sample_upload] (documents w1)
     \<and> wf_docs (documents (snd (scan_commit sample_env d key v w1)))"
proof -
  obtain d key v w1 where p: "scan_prepare sample_env None ''a'' (sample_world [sample_upload]) = (ReadyToCommit d key v, w1)"
    using sample_ready by blast
  obtain r w3 where c: "scan_commit sample_env d key v w1 = (r, w3)"
    by (cases "scan_commit sample_env d key v w1") auto
  from scan_keeps_constraints_and_tiers [OF p, of w1] c
  have "wf_docs (documents w1) \<and> tier_safe [sample_upload] (documents w1)
     \<and> wf_docs (documents (snd (scan_commit sample_env d key v w1)))" by simp
  then show ?thesis by blast
qed

theorem rescan_guard_witness:
  "scan_worker sample_env ''c'' (sample_world [sample_holder]) = (Processed, sample_world [sample_holder])"
  using rescan_guard [of "sample_world [sample_holder]" "''c''" sample_holder sample_env]
  by (simp add: find_doc_def already_past_scan_def)

end
