(* ===== verification/PyText.thy ===== *)
theory PyText
  imports Prelude
begin

text \<open>Python's string methods on the 256 characters of the model (Latin-1): the character classes
\<open>str.isspace\<close>, \<open>str.isdigit\<close>, \<open>\w\<close> and \<open>\d\<close> of the \<open>re\<close> module, \<open>strip\<close>, \<open>split()\<close>, \<open>splitlines\<close>,
\<open>find\<close> and \<open>replace\<close>, with the lemmas on lengths and contents their callers rest on.\<close>

section \<open>Character classes\<close>

definition code :: "char \<Rightarrow> nat" where "code c = of_char c"

definition is_space :: "char \<Rightarrow> bool" where
  "is_space c = (let n = code c in (9 \<le> n \<and> n \<le> 13) \<or> (28 \<le> n \<and> n \<le> 32) \<or> n = 133 \<or> n = 160)"

text \<open>\<open>\d\<close>: decimal digits; \<open>str.isdigit\<close> also takes the superscripts.\<close>

definition is_decimal :: "char \<Rightarrow> bool" where
  "is_decimal c = (let n = code c in 48 \<le> n \<and> n \<le> 57)"

definition is_digit :: "char \<Rightarrow> bool" where
  "is_digit c = (is_decimal c \<or> code c \<in> {178, 179, 185})"

definition is_upper_ascii :: "char \<Rightarrow> bool" where
  "is_upper_ascii c = (let n = code c in 65 \<le> n \<and> n \<le> 90)"

definition is_lower_ascii :: "char \<Rightarrow> bool" where
  "is_lower_ascii c = (let n = code c in 97 \<le> n \<and> n \<le> 122)"

definition is_alpha :: "char \<Rightarrow> bool" where
  "is_alpha c = (is_upper_ascii c \<or> is_lower_ascii c
     \<or> (let n = code c in n = 170 \<or> n = 181 \<or> n = 186 \<or> (192 \<le> n \<and> n \<noteq> 215 \<and> n \<noteq> 247)))"

text \<open>\<open>\w\<close>: letters, digits of any kind (the fractions included) and the underscore.\<close>

definition is_word :: "char \<Rightarrow> bool" where
  "is_word c = (is_alpha c \<or> is_digit c \<or> code c = 95 \<or> (let n = code c in 188 \<le> n \<and> n \<le> 190))"

definition NL :: char where "NL = CHR 0x0A"
definition CR :: char where "CR = CHR 0x0D"
definition TAB :: char where "TAB = CHR 0x09"

text \<open>The same classes read off the bits, for evaluation.\<close>

lemma is_space_code [code]:
  "is_space c = List.member [CHR 0x20, CHR 0x0A, CHR 0x0D, CHR 0x09, CHR 0x0B, CHR 0x0C, CHR 0x1C, CHR 0x1D,
     CHR 0x1E, CHR 0x1F, CHR 0x85, CHR 0xA0] c"
  by (cases c) (simp add: is_space_def code_def Let_def)

lemma is_decimal_code [code]:
  "is_decimal (Char b0 b1 b2 b3 b4 b5 b6 b7) = (\<not> b7 \<and> \<not> b6 \<and> b5 \<and> b4 \<and> (\<not> b3 \<or> \<not> b2 \<and> \<not> b1))"
  by (cases b0; cases b1; cases b2; cases b3; cases b4; cases b5; cases b6; cases b7)
    (simp_all add: is_decimal_def code_def Let_def)

lemma is_upper_ascii_code [code]:
  "is_upper_ascii (Char b0 b1 b2 b3 b4 b5 b6 b7) =
     (\<not> b7 \<and> b6 \<and> \<not> b5 \<and> (b0 \<or> b1 \<or> b2 \<or> b3 \<or> b4) \<and> (\<not> b4 \<or> \<not> b3 \<or> \<not> b2 \<and> (\<not> b1 \<or> \<not> b0)))"
  by (cases b0; cases b1; cases b2; cases b3; cases b4; cases b5; cases b6; cases b7)
    (simp_all add: is_upper_ascii_def code_def Let_def)

lemma is_lower_ascii_code [code]:
  "is_lower_ascii (Char b0 b1 b2 b3 b4 b5 b6 b7) =
     (\<not> b7 \<and> b6 \<and> b5 \<and> (b0 \<or> b1 \<or> b2 \<or> b3 \<or> b4) \<and> (\<not> b4 \<or> \<not> b3 \<or> \<not> b2 \<and> (\<not> b1 \<or> \<not> b0)))"
  by (cases b0; cases b1; cases b2; cases b3; cases b4; cases b5; cases b6; cases b7)
    (simp_all add: is_lower_ascii_def code_def Let_def)

lemma is_word_code [code]:
  "is_word (Char b0 b1 b2 b3 b4 b5 b6 b7) =
     (let c = Char b0 b1 b2 b3 b4 b5 b6 b7 in
      if b7 then (if b6 then c \<noteq> CHR 0xD7 \<and> c \<noteq> CHR 0xF7
                  else List.member [CHR 0xAA, CHR 0xB2, CHR 0xB3, CHR 0xB5, CHR 0xB9, CHR 0xBA, CHR 0xBC,
                         CHR 0xBD, CHR 0xBE] c)
      else is_lower_ascii c \<or> is_decimal c \<or> is_upper_ascii c \<or> c = CHR ''_'')"
  by (cases b0; cases b1; cases b2; cases b3; cases b4; cases b5; cases b6; cases b7)
    (simp_all add: is_word_def is_alpha_def is_digit_def is_lower_ascii_def is_upper_ascii_def is_decimal_def
      code_def Let_def)

section \<open>Stripping and splitting\<close>

definition lstrip :: "string \<Rightarrow> string" where "lstrip s = dropWhile is_space s"
definition rstrip :: "string \<Rightarrow> string" where "rstrip s = rev (dropWhile is_space (rev s))"
definition strip :: "string \<Rightarrow> string" where "strip s = rstrip (lstrip s)"

text \<open>\<open>s.split()\<close>: the maximal runs of non-space characters.\<close>

function split_ws :: "string \<Rightarrow> string list" where
  "split_ws s =
     (case dropWhile is_space s of
        [] \<Rightarrow> []
      | c # cs \<Rightarrow> takeWhile (\<lambda>x. \<not> is_space x) (c # cs)
                  # split_ws (dropWhile (\<lambda>x. \<not> is_space x) (c # cs)))"
  by pat_completeness auto
termination
proof (relation "measure length")
  fix s c cs
  assume d: "dropWhile is_space s = c # cs"
  then have "\<not> is_space c" by (metis hd_dropWhile list.discI list.sel(1))
  then have "length (dropWhile (\<lambda>x. \<not> is_space x) (c # cs)) \<le> length cs"
    by (simp add: length_dropWhile_le)
  moreover have "length (c # cs) \<le> length s" using d by (metis length_dropWhile_le)
  ultimately show "(dropWhile (\<lambda>x. \<not> is_space x) (c # cs), s) \<in> measure length" by simp
qed simp

declare split_ws.simps [simp del]

text \<open>\<open>" ".join(s.split())\<close>\<close>

definition squeeze :: "string \<Rightarrow> string" where "squeeze s = join '' '' (split_ws s)"

text \<open>\<open>s.splitlines()\<close>: LF, CR, CR LF, the vertical tab, the form feed, the separators 28 to 30 and NEL
end a line; a final terminator opens no empty line.\<close>

definition is_line_end :: "char \<Rightarrow> bool" where
  "is_line_end c = (let n = code c in (10 \<le> n \<and> n \<le> 13) \<or> (28 \<le> n \<and> n \<le> 30) \<or> n = 133)"

fun lines_from :: "string \<Rightarrow> string \<Rightarrow> string list" where
  "lines_from acc [] = (if acc = [] then [] else [rev acc])"
| "lines_from acc [c] = (if is_line_end c then [rev acc] else [rev (c # acc)])"
| "lines_from acc (c # d # s) =
     (if code c = 13 \<and> code d = 10 then rev acc # lines_from [] s
      else if is_line_end c then rev acc # lines_from [] (d # s)
      else lines_from (c # acc) (d # s))"

definition splitlines :: "string \<Rightarrow> string list" where "splitlines s = lines_from [] s"

section \<open>Searching and replacing\<close>

text \<open>\<open>s.find(sub)\<close>; \<open>find_from k\<close> is \<open>s.find(sub, k)\<close>, \<open>None\<close> standing for -1.\<close>

fun find_sub :: "string \<Rightarrow> string \<Rightarrow> nat option" where
  "find_sub sub [] = (if sub = [] then Some 0 else None)"
| "find_sub sub (c # s) = (if startswith (c # s) sub then Some 0 else map_option Suc (find_sub sub s))"

definition find_from :: "string \<Rightarrow> nat \<Rightarrow> string \<Rightarrow> nat option" where
  "find_from sub k s = (if k > length s then None else map_option (\<lambda>i. i + k) (find_sub sub (drop k s)))"

text \<open>\<open>s.replace(a, b)\<close> for a non-empty \<open>a\<close>: left to right, without overlaps.\<close>

function replace_all :: "string \<Rightarrow> string \<Rightarrow> string \<Rightarrow> string" where
  "replace_all a b [] = []"
| "replace_all a b (c # s) =
     (if a \<noteq> [] \<and> startswith (c # s) a then b @ replace_all a b (drop (length a) (c # s))
      else c # replace_all a b s)"
  by pat_completeness auto
termination by (relation "measure (\<lambda>(a, b, s). length s)") (auto simp: neq_Nil_conv)

section \<open>Lemmas\<close>

lemma length_lstrip [simp]: "length (lstrip s) \<le> length s"
  by (simp add: lstrip_def length_dropWhile_le)

lemma length_rstrip [simp]: "length (rstrip s) \<le> length s"
  using length_dropWhile_le [of is_space "rev s"] by (simp add: rstrip_def)

lemma length_strip [simp]: "length (strip s) \<le> length s"
  unfolding strip_def by (rule order_trans [OF length_rstrip length_lstrip])

lemma rstrip_split: "\<exists>b. s = rstrip s @ b \<and> (\<forall>c\<in>set b. is_space c)"
proof (intro exI conjI)
  show "s = rstrip s @ rev (takeWhile is_space (rev s))"
    unfolding rstrip_def rev_append [symmetric] takeWhile_dropWhile_id rev_rev_ident by (rule refl)
  show "\<forall>c\<in>set (rev (takeWhile is_space (rev s))). is_space c" by (auto dest: set_takeWhileD)
qed

lemma strip_split: "\<exists>a b. s = a @ strip s @ b \<and> (\<forall>c\<in>set a \<union> set b. is_space c)"
proof -
  obtain b where b: "lstrip s = rstrip (lstrip s) @ b" "\<forall>c\<in>set b. is_space c"
    using rstrip_split by blast
  have "s = takeWhile is_space s @ lstrip s" by (simp add: lstrip_def)
  with b(1) have "s = takeWhile is_space s @ strip s @ b" by (simp add: strip_def)
  moreover have "\<forall>c\<in>set (takeWhile is_space s) \<union> set b. is_space c"
    using b(2) by (auto dest: set_takeWhileD)
  ultimately show ?thesis by blast
qed

lemma strip_Nil_iff: "strip s = [] \<longleftrightarrow> (\<forall>c\<in>set s. is_space c)"
proof
  assume "strip s = []"
  then show "\<forall>c\<in>set s. is_space c" using strip_split [of s] by auto
next
  assume all: "\<forall>c\<in>set s. is_space c"
  then have "lstrip s = []" by (simp add: lstrip_def dropWhile_eq_Nil_conv)
  then show "strip s = []" by (simp add: strip_def rstrip_def)
qed

lemma rstrip_last: "rstrip s \<noteq> [] \<Longrightarrow> \<not> is_space (last (rstrip s))"
  by (simp add: rstrip_def last_rev hd_dropWhile)

lemma lstrip_hd: "lstrip s \<noteq> [] \<Longrightarrow> \<not> is_space (hd (lstrip s))"
  by (simp add: lstrip_def hd_dropWhile)

lemma strip_ends:
  assumes "strip s \<noteq> []"
  shows "\<not> is_space (hd (strip s)) \<and> \<not> is_space (last (strip s))"
proof -
  obtain b where b: "lstrip s = strip s @ b" using rstrip_split [of "lstrip s"] by (auto simp: strip_def)
  then have "hd (lstrip s) = hd (strip s)" "lstrip s \<noteq> []" using assms by auto
  then show ?thesis using lstrip_hd [of s] rstrip_last [of "lstrip s"] assms by (simp add: strip_def)
qed

lemma strip_id: "\<lbrakk> s \<noteq> []; \<not> is_space (hd s); \<not> is_space (last s) \<rbrakk> \<Longrightarrow> strip s = s"
proof -
  assume a: "s \<noteq> []" "\<not> is_space (hd s)" "\<not> is_space (last s)"
  have l: "lstrip s = s" using a(1,2) by (cases s) (simp_all add: lstrip_def)
  have "dropWhile is_space (rev s) = rev s" using a(1,3) by (cases s rule: rev_cases) simp_all
  then show ?thesis by (simp add: strip_def l rstrip_def)
qed

lemma strip_strip [simp]: "strip (strip s) = strip s"
proof (cases "strip s = []")
  case True
  have "strip [] = []" by (simp add: strip_def lstrip_def rstrip_def)
  with True show ?thesis by simp
next
  case False
  then show ?thesis using strip_ends strip_id by blast
qed

lemma split_ws_word: "w \<in> set (split_ws s) \<Longrightarrow> w \<noteq> [] \<and> (\<forall>c\<in>set w. \<not> is_space c) \<and> set w \<subseteq> set s"
proof (induction s rule: split_ws.induct)
  case (1 s)
  show ?case
  proof (cases "dropWhile is_space s")
    case Nil
    then have "split_ws s = []" unfolding split_ws.simps [of s] Nil by simp
    then show ?thesis using "1.prems" by simp
  next
    case (Cons c cs)
    then have c: "\<not> is_space c" by (metis hd_dropWhile list.discI list.sel(1))
    have sub: "set (c # cs) \<subseteq> set s" using Cons set_dropWhileD by (metis subsetI)
    from "1.prems" Cons consider "w = takeWhile (\<lambda>x. \<not> is_space x) (c # cs)"
      | "w \<in> set (split_ws (dropWhile (\<lambda>x. \<not> is_space x) (c # cs)))"
      unfolding split_ws.simps [of s] Cons list.case set_simps by blast
    then show ?thesis
    proof cases
      case 1
      then show ?thesis using c sub set_takeWhileD by fastforce
    next
      case 2
      from "1.IH" [OF Cons 2] show ?thesis using sub set_dropWhileD by fastforce
    qed
  qed
qed

lemma find_sub_Some: "find_sub sub s = Some i \<Longrightarrow> i + length sub \<le> length s \<and> take (length sub) (drop i s) = sub"
proof (induction s arbitrary: i)
  case (Cons c s)
  show ?case
  proof (cases "startswith (c # s) sub")
    case True
    then obtain t where "c # s = sub @ t" using startswith_iff by blast
    moreover have "i = 0" using True Cons.prems by simp
    ultimately show ?thesis by simp
  next
    case False
    then obtain j where "find_sub sub s = Some j" "i = Suc j" using Cons.prems by auto
    then show ?thesis using Cons.IH by simp
  qed
qed (simp split: if_splits)

lemma find_from_Some:
  assumes "find_from sub k s = Some i"
  shows "k \<le> i \<and> i + length sub \<le> length s \<and> take (length sub) (drop i s) = sub"
  using assms find_sub_Some [of sub "drop k s"]
  by (auto simp: find_from_def add.commute split: if_splits)

lemma lines_from_no_end:
  "\<lbrakk> l \<in> set (lines_from acc s); \<forall>c\<in>set acc. \<not> is_line_end c \<rbrakk> \<Longrightarrow> \<forall>c\<in>set l. \<not> is_line_end c"
proof (induction acc s arbitrary: l rule: lines_from.induct)
  case (3 acc c d s)
  consider "code c = 13 \<and> code d = 10" | "\<not> (code c = 13 \<and> code d = 10)" "is_line_end c"
    | "\<not> (code c = 13 \<and> code d = 10)" "\<not> is_line_end c" by blast
  then show ?case
  proof cases
    case 1
    then have "l = rev acc \<or> l \<in> set (lines_from [] s)" using "3.prems"(1) by simp
    then show ?thesis using "3.IH"(1) [OF 1] "3.prems"(2) by auto
  next
    case 2
    then have "l = rev acc \<or> l \<in> set (lines_from [] (d # s))"
      using "3.prems"(1) by (simp only: lines_from.simps(3) 2 if_False if_True list.set insert_iff)
    then show ?thesis using "3.IH"(2) [OF 2] "3.prems"(2) by auto
  next
    case 3
    then have "l \<in> set (lines_from (c # acc) (d # s))"
      using "3.prems"(1) by (simp only: lines_from.simps(3) 3 if_False)
    then show ?thesis using "3.IH"(3) [OF 3] "3.prems"(2) 3(2) by auto
  qed
qed (auto split: if_splits)

lemma splitlines_no_newline: "l \<in> set (splitlines s) \<Longrightarrow> NL \<notin> set l"
  using lines_from_no_end [of l "[]" s] by (auto simp: splitlines_def is_line_end_def code_def NL_def Let_def)

end
