(* ===== verification/Artifacts.thy ===== *)
theory Artifacts
  imports PyText Validation
begin

text \<open>The artifacts the stages hand to each other: \<open>extraction/models.py\<close>, \<open>extraction/service.py\<close>,
\<open>extraction/grid.py\<close>, \<open>normalization/models.py\<close> and \<open>chunking/models.py\<close>. The format extractors and the picture
reader are parameters of the extraction service here; \<open>PdfPages\<close> supplies the modelled ones.\<close>

section \<open>Extraction\<close>

definition METHOD_NATIVE :: string where "METHOD_NATIVE = ''NATIVE''"
definition METHOD_OCR :: string where "METHOD_OCR = ''OCR''"
definition METHOD_MIXED :: string where "METHOD_MIXED = ''MIXED''"

record extracted_unit =
  eu_index :: nat
  eu_label :: string
  eu_text :: string
  eu_method :: string
  eu_text_is_table :: bool

record extracted_table =
  et_unit_index :: nat
  et_rows :: "string list list"
  et_heading :: "string option"

record extracted_figure =
  ef_unit_index :: nat
  ef_text :: string
  ef_caption :: "string option"
  ef_heading :: "string option"

record heading =
  h_text :: string
  h_level :: nat
  h_unit_index :: nat

record extracted_content =
  ec_units :: "extracted_unit list"
  ec_headings :: "heading list"
  ec_tables :: "extracted_table list"
  ec_ocr_pages :: "nat list"
  ec_ocr_skipped_pages :: "nat list"
  ec_ocr_unreadable_lines :: "(nat \<times> nat) list"
  ec_figures :: "extracted_figure list"

record extraction_result =
  er_document_id :: uuid
  er_mime_type :: string
  er_extraction_method :: string
  er_units :: "extracted_unit list"
  er_headings :: "heading list"
  er_tables :: "extracted_table list"
  er_ocr_pages :: "nat list"
  er_ocr_skipped_pages :: "nat list"
  er_ocr_unreadable_lines :: "(nat \<times> nat) list"
  er_figures :: "extracted_figure list"

text \<open>\<open>"\n\n".join(unit.text for unit in units if unit.text)\<close>\<close>

definition join_texts :: "string list \<Rightarrow> string" where
  "join_texts ts = join [NL, NL] (filter (\<lambda>t. t \<noteq> []) ts)"

definition er_full_text :: "extraction_result \<Rightarrow> string" where
  "er_full_text r = join_texts (map eu_text (er_units r))"

definition er_char_count :: "extraction_result \<Rightarrow> nat" where
  "er_char_count r = length (er_full_text r)"

definition resolve_method :: "extraction_result \<Rightarrow> string" where
  "resolve_method r =
     (if er_ocr_pages r = [] then METHOD_NATIVE
      else let readable = filter (\<lambda>u. strip (eu_text u) \<noteq> []) (er_units r) in
        if readable \<noteq> [] \<and> length readable \<le> length (er_ocr_pages r) then METHOD_OCR
        else METHOD_MIXED)"

text \<open>\<open>extractors\<close> is the registry, an extractor raising \<open>ExtractionError\<close> or another exception;
\<open>read_pictures\<close> is \<open>None\<close> when no reader is configured, and otherwise what reading and merging the
pictures makes of the content, \<open>None\<close> when reading raises.\<close>

datatype extraction_failure = ExtractionError string | OtherError string

record extraction_service =
  extractors :: "(string \<times> (bytes \<Rightarrow> (extraction_failure, extracted_content) result)) list"
  picture_formats :: "string list"
  read_pictures :: "(bytes \<Rightarrow> string \<Rightarrow> extracted_content \<Rightarrow> extracted_content option) option"

definition add_pictures :: "extraction_service \<Rightarrow> bytes \<Rightarrow> string \<Rightarrow> extracted_content \<Rightarrow> extracted_content" where
  "add_pictures svc data mime content =
     (if mime \<notin> set (picture_formats svc) then content
      else case read_pictures svc of
          None \<Rightarrow> content
        | Some reader \<Rightarrow> (case reader data mime content of None \<Rightarrow> content | Some c \<Rightarrow> c))"

definition extract_content ::
  "extraction_service \<Rightarrow> uuid \<Rightarrow> bytes \<Rightarrow> string \<Rightarrow> (extraction_failure, extraction_result) result" where
  "extract_content svc i data mime =
     (case map_of (extractors svc) mime of
        None \<Rightarrow> Inl (ExtractionError (''No extractor registered for '' @ SQ @ mime @ SQ @ ''.''))
      | Some extractor \<Rightarrow>
          (case extractor data of
             Inl e \<Rightarrow> Inl e
           | Inr raw \<Rightarrow>
               let content = add_pictures svc data mime raw;
                   r = \<lparr> er_document_id = i, er_mime_type = mime, er_extraction_method = METHOD_NATIVE,
                         er_units = ec_units content, er_headings = ec_headings content,
                         er_tables = ec_tables content, er_ocr_pages = ec_ocr_pages content,
                         er_ocr_skipped_pages = ec_ocr_skipped_pages content,
                         er_ocr_unreadable_lines = ec_ocr_unreadable_lines content,
                         er_figures = ec_figures content \<rparr>
               in Inr (r\<lparr> er_extraction_method := resolve_method r \<rparr>)))"

section \<open>Normalization\<close>

definition EMPTY_TEXT :: string where "EMPTY_TEXT = ''EMPTY_TEXT''"
definition LOW_TEXT_DENSITY :: string where "LOW_TEXT_DENSITY = ''LOW_TEXT_DENSITY''"

record normalized_unit =
  nu_index :: nat
  nu_label :: string
  nu_text :: string
  nu_text_is_table :: bool

text \<open>\<open>chars_per_page\<close> is rounded to one decimal place: it is kept in tenths.\<close>

record quality_check =
  qc_passed :: bool
  qc_failures :: "string list"
  qc_char_count :: nat
  qc_unit_count :: nat
  qc_chars_per_page_tenths :: "nat option"

record normalization_result =
  nr_document_id :: uuid
  nr_mime_type :: string
  nr_language :: "string option"
  nr_units :: "normalized_unit list"
  nr_headings :: "heading list"
  nr_tables :: "extracted_table list"
  nr_figures :: "extracted_figure list"
  nr_quality :: quality_check

definition nr_full_text :: "normalization_result \<Rightarrow> string" where
  "nr_full_text r = join_texts (map nu_text (nr_units r))"

definition nr_char_count :: "normalization_result \<Rightarrow> nat" where
  "nr_char_count r = length (nr_full_text r)"

section \<open>Chunks\<close>

definition SECTION_SCALE :: string where "SECTION_SCALE = ''section''"

record passage =
  p_index :: nat
  p_text :: string
  p_page_number :: "nat option"
  p_section_heading :: "string option"
  p_is_table :: bool
  p_scale :: string

definition p_char_count :: "passage \<Rightarrow> nat" where "p_char_count p = length (p_text p)"

record chunking_result =
  cr_document_id :: uuid
  cr_chunks :: "passage list"

definition cr_table_chunk_count :: "chunking_result \<Rightarrow> nat" where
  "cr_table_chunk_count r = length (filter p_is_table (cr_chunks r))"

definition cr_total_chars :: "chunking_result \<Rightarrow> nat" where
  "cr_total_chars r = sum_list (map p_char_count (cr_chunks r))"

section \<open>Merged cells\<close>

text \<open>A span is (row, column, height, width) of the merged block a cell belongs to. Rows shorter than the
first raise an index error in the code; \<open>cell\<close> reads such a position as empty, and the claims about
\<open>flatten_header\<close> are about full grids.\<close>

type_synonym span = "nat \<times> nat \<times> nat \<times> nat"

definition cell :: "'a \<Rightarrow> 'a list list \<Rightarrow> nat \<Rightarrow> nat \<Rightarrow> 'a" where
  "cell dflt rows r c = (if r < length rows \<and> c < length (rows ! r) then rows ! r ! c else dflt)"

definition block_at :: "span option list list \<Rightarrow> nat \<Rightarrow> nat \<Rightarrow> span option" where
  "block_at spans r c = cell None spans r c"

text \<open>\<open>while start < n_rows and n_cols > 1 and (b := spans[start][0]) and b[3] == n_cols: start = b[0] + b[2]\<close>.
The loop moves on because a block covers the row it is read at; \<open>fuel\<close> bounds it otherwise.\<close>

fun skip_titles :: "nat \<Rightarrow> nat \<Rightarrow> nat \<Rightarrow> span option list list \<Rightarrow> nat \<Rightarrow> nat option" where
  "skip_titles fuel n_rows n_cols spans start =
     (if start < n_rows \<and> 1 < n_cols
      then case block_at spans start 0 of
          None \<Rightarrow> Some start
        | Some (r, c, h, w) \<Rightarrow>
            if w = n_cols
            then (case fuel of 0 \<Rightarrow> None | Suc k \<Rightarrow> skip_titles k n_rows n_cols spans (r + h))
            else Some start
      else Some start)"

definition header_depth :: "nat \<Rightarrow> nat \<Rightarrow> span option list list \<Rightarrow> nat \<Rightarrow> nat" where
  "header_depth n_rows n_cols spans start =
     foldl (\<lambda>depth c.
         case (if start < n_rows then block_at spans start c else None) of
           None \<Rightarrow> depth
         | Some (r, col, h, w) \<Rightarrow>
             if r = start
             then (let d1 = max depth h in if 1 < w \<and> w < n_cols then max d1 2 else d1)
             else depth)
       1 [0..<n_cols]"

definition column_name :: "string list list \<Rightarrow> nat \<Rightarrow> nat \<Rightarrow> nat \<Rightarrow> string" where
  "column_name rows start depth c =
     join '' ''
       (foldl (\<lambda>parts r. let t = cell '''' rows r c in
           if t \<noteq> [] \<and> (parts = [] \<or> last parts \<noteq> t) then parts @ [t] else parts)
         [] [start..<start + depth])"

definition flatten_header :: "nat \<Rightarrow> string list list \<Rightarrow> span option list list \<Rightarrow> string list list option" where
  "flatten_header fuel rows spans =
     (let n_rows = length rows; n_cols = (case rows of [] \<Rightarrow> 0 | r # _ \<Rightarrow> length r) in
      case skip_titles fuel n_rows n_cols spans 0 of
        None \<Rightarrow> None
      | Some start \<Rightarrow>
          let depth = header_depth n_rows n_cols spans start in
          if \<not> (1 < depth \<and> depth \<le> 3 \<and> start + depth < n_rows) then Some rows
          else Some (take start rows @ [map (column_name rows start depth) [0..<n_cols]]
                     @ drop (start + depth) rows))"

end
