(* ===== verification/PyRegex.thy ===== *)
theory PyRegex
  imports PyText
begin

text \<open>The part of Python's \<open>re\<close> module the program uses, as a backtracking matcher. A configuration is the
text already passed (reversed) and the text still to come, so that anchors and word boundaries see what
precedes the match. \<open>ends\<close> lists the configurations in which a match may stop in the order the engine
tries them, so the first one is the match. No pattern of the program can match the empty string, and no
body of a repetition can, so an empty match counts as none. \<open>Behind\<close> and \<open>Ahead\<close> are lookarounds given as
predicates of the (reversed) text before and the text after. Capturing groups are not modelled: the one
pattern that substitutes its groups captures the first and the last character of the match.\<close>

section \<open>Expressions and matching\<close>

type_synonym config = "string \<times> string"

datatype re =
    Cls "char \<Rightarrow> bool"
  | Eps
  | Cat re re
  | Or re re
  | Rep nat "nat option" re
  | WordBoundary
  | LineStart
  | LineEnd
  | TextEnd
  | After "char \<Rightarrow> bool"
  | Behind "string \<Rightarrow> bool"
  | Ahead "string \<Rightarrow> bool"

text \<open>Greedy repetition: another iteration is tried before stopping; an iteration must consume.\<close>

function iterate :: "nat \<Rightarrow> nat option \<Rightarrow> (config \<Rightarrow> config list) \<Rightarrow> config \<Rightarrow> config list" where
  "iterate lo hi f (p, s) =
     (if hi = Some 0 then []
      else concat (map (\<lambda>(q, t). if length t < length s
                          then iterate (lo - 1) (map_option (\<lambda>h. h - 1) hi) f (q, t) else [])
             (f (p, s))))
     @ (if lo = 0 then [(p, s)] else [])"
  by pat_completeness auto
termination by (relation "measure (\<lambda>(lo, hi, f, p, s). length s)") auto

declare iterate.simps [simp del]

definition prev_is :: "(char \<Rightarrow> bool) \<Rightarrow> string \<Rightarrow> bool" where
  "prev_is P p = (case p of [] \<Rightarrow> False | c # _ \<Rightarrow> P c)"

primrec ends :: "re \<Rightarrow> config \<Rightarrow> config list" where
  "ends (Cls P) = (\<lambda>(p, s). case s of [] \<Rightarrow> [] | c # t \<Rightarrow> if P c then [(c # p, t)] else [])"
| "ends Eps = (\<lambda>c. [c])"
| "ends (Cat r1 r2) = (\<lambda>c. concat (map (ends r2) (ends r1 c)))"
| "ends (Or r1 r2) = (\<lambda>c. ends r1 c @ ends r2 c)"
| "ends (Rep lo hi r) = iterate lo hi (ends r)"
| "ends WordBoundary = (\<lambda>(p, s). if prev_is is_word p \<noteq> prev_is is_word s then [(p, s)] else [])"
| "ends LineStart = (\<lambda>(p, s). if p = [] \<or> prev_is (\<lambda>c. c = NL) p then [(p, s)] else [])"
| "ends LineEnd = (\<lambda>(p, s). if s = [] \<or> prev_is (\<lambda>c. c = NL) s then [(p, s)] else [])"
| "ends TextEnd = (\<lambda>(p, s). if s = [] then [(p, s)] else [])"
| "ends (After P) = (\<lambda>(p, s). if prev_is P p then [(p, s)] else [])"
| "ends (Behind Q) = (\<lambda>(p, s). if Q p then [(p, s)] else [])"
| "ends (Ahead Q) = (\<lambda>(p, s). if Q s then [(p, s)] else [])"

definition match_at :: "re \<Rightarrow> config \<Rightarrow> config option" where
  "match_at r c = (case ends r c of [] \<Rightarrow> None
     | (q, t) # _ \<Rightarrow> if length t < length (snd c) then Some (q, t) else None)"

section \<open>Scanning a text\<close>

text \<open>\<open>finditer\<close>: the text as unmatched characters and matches, left to right.\<close>

datatype segment = Lit char | Hit string

function scan :: "re \<Rightarrow> config \<Rightarrow> segment list" where
  "scan r (p, s) =
     (case s of [] \<Rightarrow> []
      | c # s' \<Rightarrow>
          case match_at r (p, s) of
            Some (q, t) \<Rightarrow>
              if length t < length s then Hit (take (length s - length t) s) # scan r (q, t)
              else Lit c # scan r (c # p, s')
          | None \<Rightarrow> Lit c # scan r (c # p, s'))"
  by pat_completeness auto
termination by (relation "measure (\<lambda>(r, p, s). length s)") auto

declare scan.simps [simp del]

definition seg_text :: "segment \<Rightarrow> string" where
  "seg_text g = (case g of Lit c \<Rightarrow> [c] | Hit m \<Rightarrow> m)"

text \<open>\<open>pattern.sub(f, text)\<close>, \<open>pattern.split(text)\<close> and the spans of \<open>pattern.finditer(text)\<close>.\<close>

definition sub :: "re \<Rightarrow> (string \<Rightarrow> string) \<Rightarrow> string \<Rightarrow> string" where
  "sub r f s = concat (map (\<lambda>g. case g of Lit c \<Rightarrow> [c] | Hit m \<Rightarrow> f m) (scan r ([], s)))"

fun split_segs :: "segment list \<Rightarrow> string list" where
  "split_segs [] = [[]]"
| "split_segs (Lit c # gs) = (case split_segs gs of w # ws \<Rightarrow> (c # w) # ws | [] \<Rightarrow> [[c]])"
| "split_segs (Hit m # gs) = [] # split_segs gs"

definition split_re :: "re \<Rightarrow> string \<Rightarrow> string list" where
  "split_re r s = split_segs (scan r ([], s))"

fun spans_from :: "nat \<Rightarrow> segment list \<Rightarrow> (nat \<times> string) list" where
  "spans_from n [] = []"
| "spans_from n (Lit c # gs) = spans_from (Suc n) gs"
| "spans_from n (Hit m # gs) = (n, m) # spans_from (n + length m) gs"

definition finditer :: "re \<Rightarrow> string \<Rightarrow> (nat \<times> string) list" where
  "finditer r s = spans_from 0 (scan r ([], s))"

section \<open>Patterns in use everywhere\<close>

abbreviation lit :: "char \<Rightarrow> re" where "lit c \<equiv> Cls (\<lambda>x. x = c)"
abbreviation opt :: "re \<Rightarrow> re" where "opt r \<equiv> Rep 0 (Some 1) r"
abbreviation star :: "re \<Rightarrow> re" where "star r \<equiv> Rep 0 None r"
abbreviation plus :: "re \<Rightarrow> re" where "plus r \<equiv> Rep 1 None r"
abbreviation exactly :: "nat \<Rightarrow> re \<Rightarrow> re" where "exactly n r \<equiv> Rep n (Some n) r"
abbreviation between :: "nat \<Rightarrow> nat \<Rightarrow> re \<Rightarrow> re" where "between m n r \<equiv> Rep m (Some n) r"

fun cat :: "re list \<Rightarrow> re" where
  "cat [] = Eps"
| "cat [r] = r"
| "cat (r # r' # rs) = Cat r (cat (r' # rs))"

text \<open>A literal word, read without regard to case.\<close>

definition word_nocase :: "string \<Rightarrow> re" where
  "word_nocase w = cat (map (\<lambda>c. Cls (\<lambda>x. lower_char x = c)) w)"

definition blank :: "char \<Rightarrow> bool" where "blank c = (c = CHR 0x20 \<or> c = TAB)"

section \<open>Lemmas\<close>

text \<open>\<open>moves P c d\<close>: configuration \<open>d\<close> is reached from \<open>c\<close> by moving over characters that satisfy \<open>P\<close>;
\<open>only P r\<close>: every class in \<open>r\<close> is inside \<open>P\<close>.\<close>

definition moves :: "(char \<Rightarrow> bool) \<Rightarrow> config \<Rightarrow> config \<Rightarrow> bool" where
  "moves P c d = (\<exists>m. snd c = m @ snd d \<and> fst d = rev m @ fst c \<and> (\<forall>x\<in>set m. P x))"

primrec only :: "(char \<Rightarrow> bool) \<Rightarrow> re \<Rightarrow> bool" where
  "only P (Cls Q) = (\<forall>c. Q c \<longrightarrow> P c)"
| "only P Eps = True"
| "only P (Cat r1 r2) = (only P r1 \<and> only P r2)"
| "only P (Or r1 r2) = (only P r1 \<and> only P r2)"
| "only P (Rep lo hi r) = only P r"
| "only P WordBoundary = True"
| "only P LineStart = True"
| "only P LineEnd = True"
| "only P TextEnd = True"
| "only P (After Q) = True"
| "only P (Behind B) = True"
| "only P (Ahead B) = True"

lemma only_True [simp]: "only (\<lambda>_. True) r"
  by (induction r) simp_all

lemma moves_refl [simp]: "moves P c c"
  by (simp add: moves_def)

lemma moves_trans: "\<lbrakk> moves P a b; moves P b c \<rbrakk> \<Longrightarrow> moves P a c"
  unfolding moves_def by (elim exE conjE, rule_tac x = "m @ ma" in exI) auto

lemma iterate_moves:
  assumes "\<And>c d. d \<in> set (f c) \<Longrightarrow> moves P c d"
  shows "d \<in> set (iterate lo hi f c) \<Longrightarrow> moves P c d"
proof (induction "length (snd c)" arbitrary: c lo hi rule: less_induct)
  case less
  obtain p s where c: "c = (p, s)" by (cases c)
  from less.prems consider "d = c"
    | q t where "(q, t) \<in> set (f c)" "length t < length s" "d \<in> set (iterate (lo - 1) (map_option (\<lambda>h. h - 1) hi) f (q, t))"
    unfolding c iterate.simps [of lo hi f p s] by (auto split: if_splits)
  then show ?case
  proof cases
    case 2
    then have "moves P (q, t) d" using less.hyps [of "(q, t)"] c by simp
    then show ?thesis using assms [OF 2(1)] moves_trans by blast
  qed simp
qed

lemma ends_moves: "\<lbrakk> only P r; d \<in> set (ends r c) \<rbrakk> \<Longrightarrow> moves P c d"
proof (induction r arbitrary: c d)
  case (Cls Q)
  then show ?case by (auto simp: moves_def split: list.splits if_splits prod.splits)
next
  case (Cat r1 r2)
  from Cat.prems obtain e where "e \<in> set (ends r1 c)" "d \<in> set (ends r2 e)" by auto
  then show ?case using Cat.IH Cat.prems(1) moves_trans by (metis only.simps(3))
next
  case (Rep lo hi r)
  then show ?case using iterate_moves [of "ends r" P] by (simp del: iterate.simps)
qed (auto split: if_splits prod.splits)

lemma match_at_only:
  assumes "only P r" "match_at r (p, s) = Some (q, t)"
  shows "\<exists>m. m \<noteq> [] \<and> s = m @ t \<and> q = rev m @ p \<and> (\<forall>x\<in>set m. P x)"
proof -
  have "(q, t) \<in> set (ends r (p, s))" "length t < length s"
    using assms(2) by (auto simp: match_at_def split: list.splits if_splits)
  then show ?thesis using ends_moves [OF assms(1), of "(q, t)" "(p, s)"] by (auto simp: moves_def)
qed

lemma match_at_moves:
  assumes "match_at r (p, s) = Some (q, t)"
  shows "\<exists>m. m \<noteq> [] \<and> s = m @ t \<and> q = rev m @ p"
  using match_at_only [OF only_True assms] by blast

lemma scan_Nil [simp]: "scan r (p, []) = []"
  by (simp add: scan.simps [of r p "[]"])

lemma scan_Cons_None: "match_at r (p, c # s) = None \<Longrightarrow> scan r (p, c # s) = Lit c # scan r (c # p, s)"
  by (simp add: scan.simps [of r p "c # s"])

lemma scan_match:
  assumes "match_at r (p, s) = Some (q, t)"
  shows "\<exists>m. m \<noteq> [] \<and> s = m @ t \<and> q = rev m @ p \<and> scan r (p, s) = Hit m # scan r (rev m @ p, t)"
proof -
  obtain m where m: "m \<noteq> []" "s = m @ t" "q = rev m @ p" using match_at_moves [OF assms] by blast
  from m obtain c s' where "s = c # s'" by (cases m) auto
  moreover have "length t < length s" "take (length s - length t) s = m" using m by simp_all
  ultimately have "scan r (p, s) = Hit m # scan r (q, t)"
    using assms unfolding scan.simps [of r p s] by simp
  with m show ?thesis by blast
qed

text \<open>Induction over the scan of a text.\<close>

lemma scan_induct [case_names Nil Lit Hit]:
  assumes "\<And>p. Q p []"
    and "\<And>p c s. \<lbrakk> match_at r (p, c # s) = None; scan r (p, c # s) = Lit c # scan r (c # p, s); Q (c # p) s \<rbrakk> \<Longrightarrow> Q p (c # s)"
    and "\<And>p m t. \<lbrakk> match_at r (p, m @ t) = Some (rev m @ p, t); m \<noteq> [];
            scan r (p, m @ t) = Hit m # scan r (rev m @ p, t); Q (rev m @ p) t \<rbrakk> \<Longrightarrow> Q p (m @ t)"
  shows "Q p s"
proof (induction "length s" arbitrary: p s rule: less_induct)
  case less
  show ?case
  proof (cases "match_at r (p, s)")
    case None
    show ?thesis
    proof (cases s)
      case (Cons c s')
      then show ?thesis using None assms(2) less.hyps scan_Cons_None by simp
    qed (simp add: assms(1))
  next
    case (Some d)
    obtain q t where d: "d = (q, t)" by (cases d)
    obtain m where "m \<noteq> []" "s = m @ t" "q = rev m @ p" "scan r (p, s) = Hit m # scan r (rev m @ p, t)"
      using scan_match Some unfolding d by blast
    then show ?thesis using assms(3) [of p m t] less.hyps [of t "rev m @ p"] Some d by simp
  qed
qed

lemma seg_text_simps [simp]: "seg_text (Lit c) = [c]" "seg_text (Hit m) = m"
  by (simp_all add: seg_text_def)

lemma scan_text: "concat (map seg_text (scan r (p, s))) = s"
  by (induction p s rule: scan_induct [of _ r]) simp_all

lemma scan_hit: "Hit m \<in> set (scan r (p, s)) \<Longrightarrow>
    m \<noteq> [] \<and> (\<exists>a t. s = a @ m @ t \<and> match_at r (rev a @ p, m @ t) = Some (rev (a @ m) @ p, t))"
proof (induction p s rule: scan_induct [of _ r])
  case (Lit p c s)
  then obtain a t where "m \<noteq> []" "s = a @ m @ t" "match_at r (rev a @ c # p, m @ t) = Some (rev (a @ m) @ c # p, t)"
    by auto
  then show ?case by (intro conjI exI [of _ "c # a"] exI [of _ t]) auto
next
  case (Hit p m' t')
  show ?case
  proof (cases "m = m' \<and> \<not> (Hit m \<in> set (scan r (rev m' @ p, t')))")
    case True
    then show ?thesis using Hit by (intro conjI exI [of _ "[]"] exI [of _ t']) auto
  next
    case False
    then obtain a t where "m \<noteq> []" "t' = a @ m @ t"
        "match_at r (rev a @ rev m' @ p, m @ t) = Some (rev (a @ m) @ rev m' @ p, t)"
      using Hit by auto
    then show ?thesis by (intro conjI exI [of _ "m' @ a"] exI [of _ t]) auto
  qed
qed simp

lemma scan_only:
  assumes "only P r" "Hit m \<in> set (scan r (p, s))"
  shows "\<forall>x\<in>set m. P x"
proof -
  obtain a t where "match_at r (rev a @ p, m @ t) = Some (rev (a @ m) @ p, t)" using scan_hit [OF assms(2)] by blast
  then show ?thesis using match_at_only [OF assms(1)] by fastforce
qed

text \<open>The spans of a scan: in order, disjoint, inside the text, and each carries what stands there.\<close>

lemma spans_from_text:
  "(n, m) \<in> set (spans_from k gs) \<Longrightarrow>
     k \<le> n \<and> n - k + length m \<le> length (concat (map seg_text gs))
     \<and> take (length m) (drop (n - k) (concat (map seg_text gs))) = m \<and> Hit m \<in> set gs"
proof (induction k gs rule: spans_from.induct)
  case (2 k c gs)
  then have "Suc k \<le> n" "n - Suc k + length m \<le> length (concat (map seg_text gs))"
    "take (length m) (drop (n - Suc k) (concat (map seg_text gs))) = m" "Hit m \<in> set gs" by auto
  moreover from this(1) have "n - k = Suc (n - Suc k)" by simp
  ultimately show ?case by simp
next
  case (3 k m' gs)
  show ?case
  proof (cases "(n, m) \<in> set (spans_from (k + length m') gs)")
    case True
    with 3 have "k + length m' \<le> n" "n - (k + length m') + length m \<le> length (concat (map seg_text gs))"
      "take (length m) (drop (n - (k + length m')) (concat (map seg_text gs))) = m" "Hit m \<in> set gs" by auto
    moreover from this(1) have "n - k = length m' + (n - (k + length m'))" by simp
    ultimately show ?thesis by simp
  next
    case False
    then show ?thesis using "3.prems" by simp
  qed
qed simp

lemma spans_from_sorted: "sorted_wrt (\<lambda>a b. fst a + length (snd a) \<le> fst b) (spans_from k gs)"
proof (induction k gs rule: spans_from.induct)
  case (3 k m gs)
  then show ?case using spans_from_text by fastforce
qed simp_all

lemma finditer_span:
  assumes "(n, m) \<in> set (finditer r s)"
  shows "n + length m \<le> length s" "take (length m) (drop n s) = m" "m \<noteq> []"
  using spans_from_text [of n m 0 "scan r ([], s)"] assms scan_hit [of m r "[]" s]
  by (auto simp: finditer_def scan_text)

lemma finditer_disjoint: "sorted_wrt (\<lambda>a b. fst a + length (snd a) \<le> fst b) (finditer r s)"
  by (simp add: finditer_def spans_from_sorted)

text \<open>Pieces of a split are at most as long together as the text, and shorter when there are several.\<close>

lemma split_segs_nonempty [simp]: "split_segs gs \<noteq> []"
  by (induction gs rule: split_segs.induct) (auto split: list.split)

lemma split_segs_length:
  "(\<And>m. Hit m \<in> set gs \<Longrightarrow> m \<noteq> []) \<Longrightarrow>
     sum_list (map length (split_segs gs)) + length (split_segs gs) \<le> length (concat (map seg_text gs)) + 1"
proof (induction gs rule: split_segs.induct)
  case (2 c gs)
  then show ?case by (cases "split_segs gs") auto
next
  case (3 m gs)
  then have "0 < length m" by auto
  moreover have "sum_list (map length (split_segs gs)) + length (split_segs gs) \<le> length (concat (map seg_text gs)) + 1"
    using 3 by auto
  ultimately show ?case using \<open>0 < length m\<close> by (simp del: length_greater_0_conv)
qed simp

lemma split_re_length: "sum_list (map length (split_re r s)) + length (split_re r s) \<le> length s + 1"
  using split_segs_length [of "scan r ([], s)"] scan_hit [of _ r "[]" s]
  by (auto simp: split_re_def scan_text)

lemma split_segs_chars: "set (concat (split_segs gs)) \<subseteq> set (concat (map seg_text gs))"
proof (induction gs rule: split_segs.induct)
  case (2 c gs)
  then show ?case by (cases "split_segs gs") auto
qed auto

section \<open>Maximal runs of a class\<close>

lemma iterate_run:
  "ends (Rep lo None (Cls P)) (p, s) \<noteq> [] \<longleftrightarrow> lo \<le> length (takeWhile P s)"
  "ends (Rep lo None (Cls P)) (p, s) \<noteq> [] \<Longrightarrow>
     hd (ends (Rep lo None (Cls P)) (p, s)) = (rev (takeWhile P s) @ p, dropWhile P s)"
proof (induction s arbitrary: lo p)
  case Nil
  { case 1 show ?case by (simp add: iterate.simps) }
  { case 2 then show ?case by (simp add: iterate.simps split: if_splits) }
next
  case (Cons c s)
  have step: "\<And>lo p. ends (Rep lo None (Cls P)) (p, c # s) =
      (if P c then ends (Rep (lo - 1) None (Cls P)) (c # p, s) else []) @ (if lo = 0 then [(p, c # s)] else [])"
    by (subst ends.simps, subst iterate.simps) simp
  { case 1 show ?case unfolding step using Cons.IH(1) [of "lo - 1" "c # p"] by (cases lo) (auto simp del: ends.simps) }
  { case 2 then show ?case unfolding step using Cons.IH [of "lo - 1" "c # p"] by (cases "P c"; cases lo) (auto simp: hd_append simp del: ends.simps) }
qed

lemma match_run:
  "0 < lo \<Longrightarrow> match_at (Rep lo None (Cls P)) (p, s) =
     (if lo \<le> length (takeWhile P s) then Some (rev (takeWhile P s) @ p, dropWhile P s) else None)"
proof -
  assume lo: "0 < lo"
  let ?e = "ends (Rep lo None (Cls P)) (p, s)"
  have len: "length (takeWhile P s) + length (dropWhile P s) = length s"
    by (metis length_append takeWhile_dropWhile_id)
  show ?thesis
  proof (cases "lo \<le> length (takeWhile P s)")
    case True
    then have "?e \<noteq> []" "hd ?e = (rev (takeWhile P s) @ p, dropWhile P s)" using iterate_run [of lo P p s] by auto
    then obtain es where "?e = (rev (takeWhile P s) @ p, dropWhile P s) # es" by (cases ?e) auto
    then show ?thesis using True lo len by (simp add: match_at_def)
  next
    case False
    then have "?e = []" using iterate_run(1) [of lo P p s] by blast
    then show ?thesis using False by (simp add: match_at_def)
  qed
qed

end
