(* ===== verification/Normalize.thy ===== *)
theory Normalize
  imports Artifacts PyRegex
begin

text \<open>\<open>normalization/text_cleaner.py\<close>, \<open>quality_checker.py\<close> and \<open>service.py\<close>. NFKC and the language detector are
parameters (Unicode tables and a third-party package); the detector returns \<open>None\<close> when it raises. On
Latin-1 text the soft hyphen is the only invisible character and the hyphen the only dash.\<close>

section \<open>The cleaner\<close>

definition invisible :: "char \<Rightarrow> bool" where "invisible c = (c = CHR 0xAD)"

definition line_break_control :: "char \<Rightarrow> char" where
  "line_break_control c = (if c = CHR 0x0B \<or> c = CHR 0x0C then NL else c)"

definition control :: "char \<Rightarrow> bool" where
  "control c = ((code c < 32 \<and> c \<noteq> TAB \<and> c \<noteq> NL \<and> c \<noteq> CR) \<or> code c = 127)"

text \<open>\<open>[ \t.]\<close>, \<open>[-]\<close> and the three kinds of line the furniture pattern names.\<close>

definition blanks :: re where "blanks = star (Cls blank)"
definition up_to_digits :: "nat \<Rightarrow> nat \<Rightarrow> re" where "up_to_digits m n = between m n (Cls is_decimal)"

definition continuation_line :: re where
  "continuation_line = cat [word_nocase ''cont'', opt (Or (word_nocase ''d'') (word_nocase ''inued'')),
     star (lit (CHR ''.'')), star (Cls (\<lambda>c. blank c \<or> c = CHR ''.'')),
     opt (cat [word_nocase ''p'', opt (Or (word_nocase ''age'') (lit (CHR ''.''))),
               star (Cls (\<lambda>c. blank c \<or> c = CHR ''.''))]),
     up_to_digits 0 3, blanks, opt (lit (CHR ''/'')), opt (lit (CHR ''-''))]"

definition dashed_number_line :: re where
  "dashed_number_line = cat [lit (CHR ''-''), blanks, up_to_digits 1 3, blanks, lit (CHR ''-'')]"

definition page_number_line :: re where
  "page_number_line = cat [word_nocase ''page'', plus (Cls blank), up_to_digits 1 4,
     opt (cat [plus (Cls blank), word_nocase ''of'', plus (Cls blank), up_to_digits 1 4])]"

definition PAGE_FURNITURE :: re where
  "PAGE_FURNITURE = cat [LineStart, blanks,
     Or continuation_line (Or dashed_number_line page_number_line), blanks, Or (lit NL) TextEnd]"

definition LINE_BREAK_HYPHEN :: re where
  "LINE_BREAK_HYPHEN = cat [Cls is_word, lit (CHR ''-''), lit NL, Cls is_lower_ascii]"

definition TRAILING_SPACE :: re where "TRAILING_SPACE = Cat (plus (Cls blank)) LineEnd"
definition REPEATED_SPACE :: re where "REPEATED_SPACE = Rep 2 None (Cls blank)"
definition EXCESS_BLANK_LINES :: re where "EXCESS_BLANK_LINES = Rep 3 None (Cls (\<lambda>c. c = NL))"

definition clean :: "(string \<Rightarrow> string) \<Rightarrow> string \<Rightarrow> string" where
  "clean nfkc s =
     (if s = [] then ''''
      else
        let t1 = filter (\<lambda>c. \<not> invisible c) (nfkc s);
            t2 = map line_break_control t1;
            t3 = filter (\<lambda>c. \<not> control c) t2;
            t4 = replace_all [CR] [NL] (replace_all [CR, NL] [NL] t3);
            t5 = sub PAGE_FURNITURE (\<lambda>_. '''') t4;
            t6 = sub LINE_BREAK_HYPHEN (\<lambda>m. [hd m, last m]) t5;
            t7 = sub REPEATED_SPACE (\<lambda>_. '' '') t6;
            t8 = sub TRAILING_SPACE (\<lambda>_. '''') t7;
            t9 = sub EXCESS_BLANK_LINES (\<lambda>_. [NL, NL]) t8
        in strip t9)"

section \<open>The quality gate\<close>

text \<open>\<open>char_count / unit_count < minimum\<close> is compared exactly.\<close>

definition quality_check_units :: "nat \<Rightarrow> normalized_unit list \<Rightarrow> string \<Rightarrow> quality_check" where
  "quality_check_units min_chars units mime =
     (let char_count = sum_list (map (\<lambda>u. length (nu_text u)) units);
          unit_count = length units;
          dense = (mime = PDF_MIME \<and> 0 < unit_count);
          failures = (if char_count = 0 then [EMPTY_TEXT]
                      else if dense \<and> char_count < min_chars * unit_count then [LOW_TEXT_DENSITY]
                      else [])
      in \<lparr> qc_passed = (failures = []), qc_failures = failures, qc_char_count = char_count,
           qc_unit_count = unit_count,
           qc_chars_per_page_tenths =
             (if char_count \<noteq> 0 \<and> dense then Some (round_half_even (char_count * 10) unit_count) else None) \<rparr>)"

section \<open>The service\<close>

definition MIN_CHARS_FOR_LANGUAGE :: nat where "MIN_CHARS_FOR_LANGUAGE = 40"

record text_toolkit =
  nfkc :: "string \<Rightarrow> string"
  detect_language :: "string \<Rightarrow> string option"
  min_pdf_chars_per_page :: nat

definition detect :: "text_toolkit \<Rightarrow> string \<Rightarrow> string option" where
  "detect tk s = (let sample = strip s in
     if length sample < MIN_CHARS_FOR_LANGUAGE then None else detect_language tk sample)"

definition none_if_empty :: "string \<Rightarrow> string option" where
  "none_if_empty s = (if s = [] then None else Some s)"

text \<open>\<open>(clean(h) or None) if h else h\<close>\<close>

definition clean_heading :: "text_toolkit \<Rightarrow> string option \<Rightarrow> string option" where
  "clean_heading tk h =
     (case h of None \<Rightarrow> None | Some t \<Rightarrow> if t = [] then None else none_if_empty (clean (nfkc tk) t))"

definition clean_figure :: "text_toolkit \<Rightarrow> extracted_figure \<Rightarrow> extracted_figure option" where
  "clean_figure tk f =
     (let text = clean (nfkc tk) (ef_text f);
          caption = (case ef_caption f of None \<Rightarrow> '''' | Some c \<Rightarrow> clean (nfkc tk) c)
      in if text = [] \<and> caption = [] then None
         else Some (f\<lparr> ef_text := text, ef_caption := none_if_empty caption,
                       ef_heading := clean_heading tk (ef_heading f) \<rparr>))"

definition clean_table :: "text_toolkit \<Rightarrow> extracted_table \<Rightarrow> extracted_table" where
  "clean_table tk t =
     (case et_heading t of
        None \<Rightarrow> t
      | Some h \<Rightarrow> if h = [] then t else t\<lparr> et_heading := none_if_empty (clean (nfkc tk) h) \<rparr>)"

definition clean_unit :: "text_toolkit \<Rightarrow> extracted_unit \<Rightarrow> normalized_unit" where
  "clean_unit tk u =
     \<lparr> nu_index = eu_index u, nu_label = eu_label u, nu_text = clean (nfkc tk) (eu_text u),
       nu_text_is_table = eu_text_is_table u \<rparr>"

definition normalize :: "text_toolkit \<Rightarrow> extraction_result \<Rightarrow> normalization_result" where
  "normalize tk ex =
     (let units = map (clean_unit tk) (er_units ex);
          headings = filter (\<lambda>h. h_text h \<noteq> [])
                       (map (\<lambda>h. h\<lparr> h_text := clean (nfkc tk) (h_text h) \<rparr>) (er_headings ex))
      in \<lparr> nr_document_id = er_document_id ex,
           nr_mime_type = er_mime_type ex,
           nr_language = detect tk (join_texts (map nu_text units)),
           nr_units = units,
           nr_headings = headings,
           nr_tables = map (clean_table tk) (er_tables ex),
           nr_figures = List.map_filter (clean_figure tk) (er_figures ex),
           nr_quality = quality_check_units (min_pdf_chars_per_page tk) units (er_mime_type ex) \<rparr>)"

section \<open>What the cleaner guarantees\<close>

text \<open>Two neighbouring characters, and three newlines in a row.\<close>

fun adjacent :: "(char \<Rightarrow> bool) \<Rightarrow> (char \<Rightarrow> bool) \<Rightarrow> string \<Rightarrow> bool" where
  "adjacent P Q (c # d # s) = (P c \<and> Q d \<or> adjacent P Q (d # s))"
| "adjacent P Q _ = False"

definition lead :: "string \<Rightarrow> nat" where
  "lead s = length (takeWhile (\<lambda>c. c = NL) s)"

fun triple_newline :: "string \<Rightarrow> bool" where
  "triple_newline [] = False"
| "triple_newline (c # s) = (3 \<le> lead (c # s) \<or> triple_newline s)"

lemma adjacent_Cons: "adjacent P Q (c # s) \<longleftrightarrow> s \<noteq> [] \<and> P c \<and> Q (hd s) \<or> adjacent P Q s"
  by (cases s) auto

lemma adjacent_append: "adjacent P Q s \<or> adjacent P Q t \<Longrightarrow> adjacent P Q (s @ t)"
  by (induction s) (auto simp: adjacent_Cons hd_append)

lemma triple_append1: "triple_newline t \<Longrightarrow> triple_newline (s @ t)"
  by (induction s) auto

lemma lead_append: "lead s \<le> lead (s @ t)"
  by (induction s) (auto simp: lead_def)

lemma triple_append2: "triple_newline s \<Longrightarrow> triple_newline (s @ t)"
proof (induction s)
  case (Cons c s)
  then show ?case using lead_append [of "c # s" t] by auto
qed simp

text \<open>Substitution, one segment at a time.\<close>

definition subst :: "(string \<Rightarrow> string) \<Rightarrow> segment list \<Rightarrow> string" where
  "subst f gs = concat (map (\<lambda>g. case g of Lit c \<Rightarrow> [c] | Hit m \<Rightarrow> f m) gs)"

lemma subst_simps [simp]:
  "subst f [] = []" "subst f (Lit c # gs) = c # subst f gs" "subst f (Hit m # gs) = f m @ subst f gs"
  by (simp_all add: subst_def)

lemma sub_subst: "sub r f s = subst f (scan r ([], s))"
  by (simp add: sub_def subst_def)

lemma match_run_takeWhile:
  assumes "match_at (Rep lo None (Cls P)) (p, m @ t) = Some (rev m @ p, t)" "0 < lo"
  shows "m = takeWhile P (m @ t) \<and> (t = [] \<or> \<not> P (hd t)) \<and> lo \<le> length m"
proof -
  have t: "dropWhile P (m @ t) = t" and l: "lo \<le> length (takeWhile P (m @ t))"
    using assms by (auto simp: match_run split: if_splits)
  have "takeWhile P (m @ t) @ t = m @ t" by (metis t takeWhile_dropWhile_id)
  then have m: "m = takeWhile P (m @ t)" by simp
  have "t = [] \<or> \<not> P (hd t)" using hd_dropWhile [of P "m @ t"] t by metis
  then show ?thesis using m l by simp
qed

lemma squeeze_blanks:
  "\<not> adjacent blank blank (subst (\<lambda>_. '' '') (scan REPEATED_SPACE (p, s)))
   \<and> (s \<noteq> [] \<and> \<not> blank (hd s) \<longrightarrow> subst (\<lambda>_. '' '') (scan REPEATED_SPACE (p, s)) \<noteq> []
        \<and> hd (subst (\<lambda>_. '' '') (scan REPEATED_SPACE (p, s))) = hd s)
   \<and> (s = [] \<longrightarrow> subst (\<lambda>_. '' '') (scan REPEATED_SPACE (p, s)) = [])"
proof (induction p s rule: scan_induct [of _ REPEATED_SPACE])
  case (Lit p c s)
  have "\<not> 2 \<le> length (takeWhile blank (c # s))" using Lit(1) by (simp add: REPEATED_SPACE_def match_run split: if_splits)
  then have "blank c \<Longrightarrow> s = [] \<or> \<not> blank (hd s)" by (cases s) auto
  then show ?case using Lit(2,3) by (auto simp: adjacent_Cons)
next
  case (Hit p m t)
  note run = match_run_takeWhile [OF Hit(1) [unfolded REPEATED_SPACE_def]]
  then have "m \<noteq> []" "blank (hd m)" by (metis Hit(2)) (metis Hit(2) hd_in_set pos2 run set_takeWhileD)
  then show ?case using Hit(3,4) run by (auto simp: adjacent_Cons)
qed simp

lemma trailing_ends:
  assumes "(q, t) \<in> set (ends (Rep lo None (Cls blank)) (p, s))"
  shows "(q, t) = (rev (takeWhile blank s) @ p, dropWhile blank s) \<or> (t \<noteq> [] \<and> blank (hd t))"
  using assms
proof (induction s arbitrary: lo p)
  case Nil
  then show ?case by (auto simp: iterate.simps split: if_splits)
next
  case (Cons c s)
  have "ends (Rep lo None (Cls blank)) (p, c # s) =
      (if blank c then ends (Rep (lo - 1) None (Cls blank)) (c # p, s) else []) @ (if lo = 0 then [(p, c # s)] else [])"
    by (subst ends.simps, subst iterate.simps) simp
  then have "(blank c \<and> (q, t) \<in> set (ends (Rep (lo - 1) None (Cls blank)) (c # p, s))) \<or> (q, t) = (p, c # s)"
    using Cons.prems by (auto simp del: ends.simps split: if_splits)
  then show ?case using Cons.IH [of "lo - 1" "c # p"] by (cases "blank c") auto
qed

lemma match_trailing:
  assumes "match_at TRAILING_SPACE (p, s) = Some (q, t)"
  shows "t = dropWhile blank s \<and> (t = [] \<or> hd t = NL)"
proof -
  have "(q, t) \<in> set (ends TRAILING_SPACE (p, s))"
    using assms by (auto simp: match_at_def split: list.splits if_splits)
  then obtain e where e: "e \<in> set (ends (Rep 1 None (Cls blank)) (p, s))" "(q, t) \<in> set (ends LineEnd e)"
    unfolding TRAILING_SPACE_def by (auto simp del: ends.simps(1,5))
  obtain a b where ab: "e = (a, b)" by (cases e)
  have le: "e = (q, t)" "t = [] \<or> hd t = NL"
    using e(2) unfolding ab by (auto simp: prev_is_def split: if_splits list.splits)
  then have "\<not> (t \<noteq> [] \<and> blank (hd t))" by (auto simp: blank_def NL_def TAB_def)
  then show ?thesis using trailing_ends [of q t 1 p s] e(1) le by auto
qed

lemma no_match_trailing:
  assumes "match_at TRAILING_SPACE (p, c # s) = None" "blank c" "\<not> adjacent blank blank (c # s)"
  shows "s \<noteq> [] \<and> hd s \<noteq> NL \<and> \<not> blank (hd s)"
proof (rule ccontr)
  assume a: "\<not> (s \<noteq> [] \<and> hd s \<noteq> NL \<and> \<not> blank (hd s))"
  have nb: "s = [] \<or> \<not> blank (hd s)" using assms(2,3) by (auto simp: adjacent_Cons)
  then have s: "takeWhile blank s = []" "dropWhile blank s = s" by (cases s, simp_all)+
  have "ends (Rep 1 None (Cls blank)) (p, c # s) \<noteq> []" using iterate_run(1) [of 1 blank p "c # s"] assms(2) by simp
  moreover have "hd (ends (Rep 1 None (Cls blank)) (p, c # s)) = (c # p, s)"
    using iterate_run(2) [of 1 blank p "c # s"] calculation assms(2) s by simp
  ultimately obtain es where es: "ends (Rep 1 None (Cls blank)) (p, c # s) = (c # p, s) # es"
    by (cases "ends (Rep 1 None (Cls blank)) (p, c # s)") auto
  have "ends LineEnd (c # p, s) = [(c # p, s)]" using a nb by (cases s) (auto simp: prev_is_def)
  then have "ends TRAILING_SPACE (p, c # s) = (c # p, s) # concat (map (ends LineEnd) es)"
    unfolding TRAILING_SPACE_def ends.simps(3) es by (simp del: ends.simps)
  then show False using assms(1) by (simp add: match_at_def)
qed

lemma trim_lines:
  assumes "\<not> adjacent blank blank s"
  shows "\<not> adjacent blank blank (subst (\<lambda>_. '''') (scan TRAILING_SPACE (p, s)))
   \<and> \<not> adjacent blank (\<lambda>c. c = NL) (subst (\<lambda>_. '''') (scan TRAILING_SPACE (p, s)))
   \<and> (s \<noteq> [] \<and> \<not> blank (hd s) \<longrightarrow> subst (\<lambda>_. '''') (scan TRAILING_SPACE (p, s)) \<noteq> []
        \<and> hd (subst (\<lambda>_. '''') (scan TRAILING_SPACE (p, s))) = hd s)"
  using assms
proof (induction p s rule: scan_induct [of _ TRAILING_SPACE])
  case (Lit p c s)
  have "\<not> adjacent blank blank s" using Lit(4) by (auto simp: adjacent_Cons)
  note ih = Lit(3) [OF this]
  have "blank c \<Longrightarrow> s \<noteq> [] \<and> hd s \<noteq> NL \<and> \<not> blank (hd s)" using no_match_trailing [OF Lit(1) _ Lit(4)] by blast
  then show ?case using ih Lit(2) by (auto simp: adjacent_Cons)
next
  case (Hit p m t)
  note tr = match_trailing [OF Hit(1)]
  have "\<not> adjacent blank blank t" using Hit(5) adjacent_append by blast
  note ih = Hit(4) [OF this]
  have "blank (hd m)"
  proof -
    obtain c m' where "m = c # m'" using Hit(2) by (cases m) auto
    moreover have "dropWhile blank (m @ t) = t" using tr by simp
    ultimately show ?thesis using arg_cong [of _ _ length] by (auto split: if_splits)
  qed
  then show ?case using ih Hit(2,3) tr by auto
qed simp

lemma collapse_newlines:
  defines "X p s \<equiv> subst (\<lambda>_. [NL, NL]) (scan EXCESS_BLANK_LINES (p, s))"
  shows "\<not> triple_newline (X p s) \<and> lead (X p s) = min 2 (lead s)
    \<and> (s \<noteq> [] \<longrightarrow> X p s \<noteq> [] \<and> hd (X p s) = hd s) \<and> (s = [] \<longrightarrow> X p s = [])
    \<and> (\<not> P NL \<and> \<not> adjacent P Q s \<longrightarrow> \<not> adjacent P Q (X p s))"
  unfolding X_def
proof (induction p s rule: scan_induct [of _ EXCESS_BLANK_LINES])
  case (Nil p)
  then show ?case by (simp add: lead_def)
next
  case (Lit p c s)
  have l: "lead (c # s) < 3" using Lit(1) by (auto simp: EXCESS_BLANK_LINES_def match_run lead_def split: if_splits)
  then show ?case using Lit(2,3) by (auto simp: adjacent_Cons lead_def)
next
  case (Hit p m t)
  note run = match_run_takeWhile [OF Hit(1) [unfolded EXCESS_BLANK_LINES_def]]
  have m: "\<forall>c\<in>set m. c = NL" using run by (metis (full_types) set_takeWhileD zero_less_numeral)
  have hd: "hd m = NL" using m Hit(2) by (cases m) auto
  have t0: "lead t = 0" using run by (cases t) (auto simp: lead_def)
  have len: "lead (m @ t) \<ge> 3" using run by (simp add: lead_def)
  have "\<not> adjacent P Q (m @ t) \<Longrightarrow> \<not> adjacent P Q t" using adjacent_append by blast
  then show ?case using Hit(2-4) t0 len hd by (auto simp: adjacent_Cons lead_def)
qed


lemma subst_chars:
  assumes "set s \<subseteq> A" "\<And>m. \<lbrakk> m \<noteq> []; set m \<subseteq> A \<rbrakk> \<Longrightarrow> set (f m) \<subseteq> A"
  shows "set (subst f (scan r (p, s))) \<subseteq> A"
  using assms(1) by (induction p s rule: scan_induct [of _ r]) (use assms(2) in auto)

lemma sub_chars: "\<lbrakk> set s \<subseteq> A; \<And>m. \<lbrakk> m \<noteq> []; set m \<subseteq> A \<rbrakk> \<Longrightarrow> set (f m) \<subseteq> A \<rbrakk> \<Longrightarrow> set (sub r f s) \<subseteq> A"
  using subst_chars [of s A f r "[]"] by (simp add: sub_subst)

lemma replace_all_chars: "set (replace_all a b s) \<subseteq> set s \<union> set b"
proof (induction a b s rule: replace_all.induct)
  case (2 a b c s)
  show ?case
  proof (cases "a \<noteq> [] \<and> startswith (c # s) a")
    case True
    then have "set (replace_all a b (drop (length a) (c # s))) \<subseteq> set (drop (length a) (c # s)) \<union> set b"
      using "2.IH"(1) by blast
    then show ?thesis using True set_drop_subset [of "length a" "c # s"] by auto
  next
    case False
    then show ?thesis using "2.IH"(2) by auto
  qed
qed simp

lemma replace_char_gone: "c \<noteq> d \<Longrightarrow> c \<notin> set (replace_all [c] [d] s)"
proof (induction s)
  case (Cons x s)
  then show ?case by (simp add: startswith_def)
qed simp

text \<open>The characters a cleaned text may have: no control character but tab and newline, no soft hyphen.\<close>

definition clean_char :: "char \<Rightarrow> bool" where
  "clean_char c = (\<not> control c \<and> \<not> invisible c \<and> c \<noteq> CR)"

lemma newline_clean [simp]: "clean_char NL" "clean_char (CHR '' '')"
  by code_simp+

lemma line_break_visible: "invisible (line_break_control c) \<longleftrightarrow> invisible c"
  by (auto simp: invisible_def line_break_control_def NL_def)

text \<open>The last three substitutions.\<close>

definition tidy_blanks :: "string \<Rightarrow> string" where
  "tidy_blanks t = sub EXCESS_BLANK_LINES (\<lambda>_. [NL, NL])
     (sub TRAILING_SPACE (\<lambda>_. []) (sub REPEATED_SPACE (\<lambda>_. '' '') t))"

lemma tidy_blanks_chars: "set t \<subseteq> Collect clean_char \<Longrightarrow> set (tidy_blanks t) \<subseteq> Collect clean_char"
  unfolding tidy_blanks_def by (intro sub_chars) simp_all

lemma tidy_blanks_shape:
  "\<not> adjacent blank blank (tidy_blanks t) \<and> \<not> adjacent blank (\<lambda>c. c = NL) (tidy_blanks t) \<and> \<not> triple_newline (tidy_blanks t)"
proof -
  let ?t7 = "sub REPEATED_SPACE (\<lambda>_. '' '') t"
  let ?t8 = "sub TRAILING_SPACE (\<lambda>_. []) ?t7"
  have "\<not> adjacent blank blank ?t7" using squeeze_blanks [of "[]" t] by (simp add: sub_subst)
  then have t8: "\<not> adjacent blank blank ?t8" "\<not> adjacent blank (\<lambda>c. c = NL) ?t8"
    using trim_lines [of ?t7 "[]"] by (simp_all add: sub_subst)
  have "\<not> blank NL" by (simp add: blank_def NL_def TAB_def)
  then show ?thesis
    using t8 collapse_newlines [of "[]" ?t8 blank blank] collapse_newlines [of "[]" ?t8 blank "\<lambda>c. c = NL"]
    by (simp add: tidy_blanks_def sub_subst)
qed

lemma clean_stages:
  assumes "s \<noteq> []"
  shows "\<exists>t. set t \<subseteq> Collect clean_char \<and> clean nf s = strip (tidy_blanks t)"
proof -
  let ?t1 = "filter (\<lambda>c. \<not> invisible c) (nf s)"
  let ?t3 = "filter (\<lambda>c. \<not> control c) (map line_break_control ?t1)"
  let ?t4 = "replace_all [CR] [NL] (replace_all [CR, NL] [NL] ?t3)"
  let ?S = "{c. \<not> control c \<and> \<not> invisible c}"
  have NL: "NL \<in> ?S" using newline_clean(1) by (simp add: clean_char_def)
  have step: "set (replace_all x [NL] t) \<subseteq> ?S" if "set t \<subseteq> ?S" for x t
  proof -
    have "set (replace_all x [NL] t) \<subseteq> set t \<union> set [NL]" by (rule replace_all_chars)
    also have "\<dots> \<subseteq> ?S" using that NL by simp
    finally show ?thesis .
  qed
  have "set ?t3 \<subseteq> ?S" by (auto simp: line_break_visible)
  then have "set ?t4 \<subseteq> ?S" by (intro step)
  moreover have "CR \<notin> set ?t4" by (rule replace_char_gone) (simp add: CR_def NL_def)
  ultimately have "set ?t4 \<subseteq> Collect clean_char" by (auto simp: clean_char_def)
  then have "set (sub LINE_BREAK_HYPHEN (\<lambda>m. [hd m, last m]) (sub PAGE_FURNITURE (\<lambda>_. []) ?t4)) \<subseteq> Collect clean_char"
    by (intro sub_chars) (auto simp: subset_iff)
  then show ?thesis using assms unfolding clean_def Let_def tidy_blanks_def by auto
qed

text \<open>C18: What is stored and embedded is clean text, whatever the extractor and the normal form deliver. It
holds no control character except tab and newline (no NUL, which the database refuses), no carriage return
and no soft hyphen; no two blanks touch, no blank ends a line, at most one blank line separates two
paragraphs, and nothing is left to strip at either end.\<close>

theorem cleaned_text_is_clean:
  "list_all clean_char (clean nf s) \<and> \<not> adjacent blank blank (clean nf s)
   \<and> \<not> adjacent blank (\<lambda>c. c = NL) (clean nf s) \<and> \<not> triple_newline (clean nf s)
   \<and> strip (clean nf s) = clean nf s"
proof (cases "s = []")
  case True
  then show ?thesis by (simp add: clean_def strip_def lstrip_def rstrip_def)
next
  case False
  then obtain t where t: "set t \<subseteq> Collect clean_char" and eq: "clean nf s = strip (tidy_blanks t)"
    using clean_stages by blast
  obtain a b where ab: "tidy_blanks t = a @ clean nf s @ b" using strip_split [of "tidy_blanks t"] eq by auto
  have "set (clean nf s) \<subseteq> Collect clean_char" using tidy_blanks_chars [OF t] unfolding ab by auto
  moreover have "\<not> adjacent blank blank (clean nf s) \<and> \<not> adjacent blank (\<lambda>c. c = NL) (clean nf s)
      \<and> \<not> triple_newline (clean nf s)"
    using tidy_blanks_shape [of t] adjacent_append triple_append1 triple_append2 unfolding ab by metis
  ultimately show ?thesis using eq by (auto simp: list_all_iff)
qed

section \<open>The gate and the structure\<close>

lemma join_texts_Nil: "join_texts ts = [] \<longleftrightarrow> (\<forall>t\<in>set ts. t = [])"
proof -
  have "[] \<notin> set xs \<Longrightarrow> join sep xs = [] \<longleftrightarrow> xs = []" for sep :: string and xs
    by (induction sep xs rule: join.induct) auto
  then show ?thesis by (auto simp: join_texts_def filter_empty_conv)
qed

text \<open>The quality gate stops exactly the documents it names: those with no text at all, as
\<open>EMPTY_TEXT\<close>, and PDFs with fewer characters per page than the minimum, as \<open>LOW_TEXT_DENSITY\<close>; an empty
document passes for no format, a sparse slide deck or spreadsheet is not stopped. What follows the gate can
rely on text: a document that passed has a non-empty full text.\<close>

theorem quality_gate:
  "case nr_quality (normalize tk ex) of q \<Rightarrow>
     (qc_passed q \<longleftrightarrow> nr_full_text (normalize tk ex) \<noteq> []
        \<and> (er_mime_type ex = PDF_MIME \<longrightarrow>
             min_pdf_chars_per_page tk * length (er_units ex) \<le> qc_char_count q))
   \<and> qc_failures q = (if nr_full_text (normalize tk ex) = [] then [EMPTY_TEXT]
                       else if qc_passed q then [] else [LOW_TEXT_DENSITY])
   \<and> qc_unit_count q = length (nr_units (normalize tk ex))"
proof -
  let ?us = "map (clean_unit tk) (er_units ex)"
  have "sum_list (map (\<lambda>u. length (nu_text u)) ?us) = 0 \<longleftrightarrow> join_texts (map nu_text ?us) = []"
    by (auto simp: join_texts_Nil)
  then show ?thesis
    by (auto simp: normalize_def Let_def quality_check_units_def nr_full_text_def not_less)
qed

theorem quality_gate_witness:
  "qc_failures (nr_quality (normalize \<lparr> nfkc = id, detect_language = (\<lambda>_. None), min_pdf_chars_per_page = 50 \<rparr>
     \<lparr> er_document_id = ''d'', er_mime_type = PDF_MIME, er_extraction_method = METHOD_NATIVE,
       er_units = [\<lparr> eu_index = 1, eu_label = ''Page 1'', eu_text = ''scan'', eu_method = METHOD_NATIVE,
                    eu_text_is_table = False \<rparr>],
       er_headings = [], er_tables = [], er_ocr_pages = [], er_ocr_skipped_pages = [],
       er_ocr_unreadable_lines = [], er_figures = [] \<rparr>)) = [LOW_TEXT_DENSITY]"
proof -
  let ?tk = "\<lparr> nfkc = id, detect_language = (\<lambda>_. None), min_pdf_chars_per_page = 50 \<rparr>"
  let ?ex = "\<lparr> er_document_id = ''d'', er_mime_type = PDF_MIME, er_extraction_method = METHOD_NATIVE,
       er_units = [\<lparr> eu_index = 1, eu_label = ''Page 1'', eu_text = ''scan'', eu_method = METHOD_NATIVE,
                    eu_text_is_table = False \<rparr>],
       er_headings = [], er_tables = [], er_ocr_pages = [], er_ocr_skipped_pages = [],
       er_ocr_unreadable_lines = [], er_figures = [] \<rparr>"
  have "nr_full_text (normalize ?tk ?ex) \<noteq> []" by code_simp
  moreover have "\<not> qc_passed (nr_quality (normalize ?tk ?ex))" by code_simp
  ultimately show ?thesis using quality_gate [of ?tk ?ex] by (simp add: Let_def)
qed

text \<open>Normalization rewrites text and nothing else. Units come out one for one with their index, label
and table flag; every heading kept is one of the extraction's at the same level and unit, cleaned and not
empty; every table keeps its cells and place; a figure is dropped only when cleaning leaves neither text
nor caption.\<close>

theorem normalization_keeps_structure:
  "map (\<lambda>u. (nu_index u, nu_label u, nu_text_is_table u)) (nr_units (normalize tk ex))
      = map (\<lambda>u. (eu_index u, eu_label u, eu_text_is_table u)) (er_units ex)
   \<and> map nu_text (nr_units (normalize tk ex)) = map (\<lambda>u. clean (nfkc tk) (eu_text u)) (er_units ex)
   \<and> map (\<lambda>t. (et_unit_index t, et_rows t)) (nr_tables (normalize tk ex))
      = map (\<lambda>t. (et_unit_index t, et_rows t)) (er_tables ex)
   \<and> map (\<lambda>h. (h_unit_index h, h_level h, h_text h)) (nr_headings (normalize tk ex))
      = map (\<lambda>h. (h_unit_index h, h_level h, clean (nfkc tk) (h_text h)))
          (filter (\<lambda>h. clean (nfkc tk) (h_text h) \<noteq> []) (er_headings ex))
   \<and> map ef_unit_index (nr_figures (normalize tk ex))
      = map ef_unit_index (filter (\<lambda>f. clean (nfkc tk) (ef_text f) \<noteq> []
          \<or> (case ef_caption f of None \<Rightarrow> False | Some c \<Rightarrow> clean (nfkc tk) c \<noteq> [])) (er_figures ex))"
proof -
  have "map (\<lambda>t. (et_unit_index t, et_rows t)) (map (clean_table tk) ts) = map (\<lambda>t. (et_unit_index t, et_rows t)) ts" for ts
    by (simp add: clean_table_def split: option.split)
  moreover have "map ef_unit_index (List.map_filter (clean_figure tk) fs)
      = map ef_unit_index (filter (\<lambda>f. clean (nfkc tk) (ef_text f) \<noteq> []
          \<or> (case ef_caption f of None \<Rightarrow> False | Some c \<Rightarrow> clean (nfkc tk) c \<noteq> [])) fs)" for fs
    by (induction fs) (auto simp: List.map_filter_simps clean_figure_def Let_def split: option.splits)
  moreover have "map (\<lambda>h. (h_unit_index h, h_level h, h_text h))
        (filter (\<lambda>h. h_text h \<noteq> []) (map (\<lambda>h. h\<lparr> h_text := clean (nfkc tk) (h_text h) \<rparr>) hs))
      = map (\<lambda>h. (h_unit_index h, h_level h, clean (nfkc tk) (h_text h)))
          (filter (\<lambda>h. clean (nfkc tk) (h_text h) \<noteq> []) hs)" for hs
    by (induction hs) auto
  ultimately show ?thesis by (simp add: normalize_def Let_def clean_unit_def)
qed

theorem normalization_keeps_structure_witness:
  "\<exists>ex tk. er_units ex \<noteq> [] \<and> map nu_text (nr_units (normalize tk ex)) = map (\<lambda>u. clean (nfkc tk) (eu_text u)) (er_units ex)"
proof -
  let ?tk = "\<lparr> nfkc = id, detect_language = (\<lambda>_. None), min_pdf_chars_per_page = 50 \<rparr>"
  let ?ex = "\<lparr> er_document_id = ''d'', er_mime_type = PDF_MIME, er_extraction_method = METHOD_NATIVE,
       er_units = [\<lparr> eu_index = 1, eu_label = ''Page 1'', eu_text = ''two  words'', eu_method = METHOD_NATIVE,
                    eu_text_is_table = False \<rparr>],
       er_headings = [], er_tables = [], er_ocr_pages = [], er_ocr_skipped_pages = [],
       er_ocr_unreadable_lines = [], er_figures = [] \<rparr>"
  have "er_units ?ex \<noteq> []" by simp
  with normalization_keeps_structure [of ?tk ?ex] show ?thesis by blast
qed

end
