(* ===== verification/Chunker.thy ===== *)
theory Chunker
  imports Artifacts PyRegex
begin

text \<open>\<open>chunking/sizing.py\<close>, \<open>chunking/chunker.py\<close> and \<open>chunking/service.py\<close>: how a normalized document is cut
into passages. A budget is what \<open>SizeBudget\<close> offers, a measure with a target and a maximum; \<open>target or
setting\<close> reads 0 as unset. The products with 0.9 are computed exactly and rounded down.\<close>

section \<open>Budgets\<close>

record size_budget =
  measure_text :: "string \<Rightarrow> nat"
  target :: nat
  maximum :: nat

definition fits :: "size_budget \<Rightarrow> string \<Rightarrow> bool" where
  "fits b s = (measure_text b s \<le> maximum b)"

definition measure_all :: "size_budget \<Rightarrow> string list \<Rightarrow> nat list" where
  "measure_all b ts = map (measure_text b) ts"

definition or_setting :: "nat option \<Rightarrow> nat \<Rightarrow> nat" where
  "or_setting x setting = (case x of None \<Rightarrow> setting | Some n \<Rightarrow> if n = 0 then setting else n)"

definition CHUNK_TARGET_CHARS :: nat where "CHUNK_TARGET_CHARS = 1600"
definition CHUNK_MAX_CHARS :: nat where "CHUNK_MAX_CHARS = 2000"
definition CHUNK_TARGET_TOKENS :: nat where "CHUNK_TARGET_TOKENS = 400"
definition CHUNK_MAX_TOKENS :: nat where "CHUNK_MAX_TOKENS = 500"

definition character_budget :: "nat option \<Rightarrow> nat option \<Rightarrow> size_budget" where
  "character_budget tgt mx =
     \<lparr> measure_text = length, target = or_setting tgt CHUNK_TARGET_CHARS, maximum = or_setting mx CHUNK_MAX_CHARS \<rparr>"

text \<open>A tokenizer: the count of one text (\<open>count_tokens\<close> maps it over a batch) and the model's window.\<close>

record token_counter =
  count_tokens :: "string \<Rightarrow> nat"
  max_sequence_tokens :: nat

definition token_budget :: "token_counter \<Rightarrow> nat option \<Rightarrow> nat option \<Rightarrow> size_budget" where
  "token_budget counter tgt mx =
     (let m = min (or_setting mx CHUNK_MAX_TOKENS) (max_sequence_tokens counter) in
      \<lparr> measure_text = count_tokens counter, target = min (or_setting tgt CHUNK_TARGET_TOKENS) m, maximum = m \<rparr>)"

text \<open>The memo of \<open>TokenBudget\<close>: measuring through it.\<close>

definition memo_measure :: "token_counter \<Rightarrow> string \<Rightarrow> (string \<times> nat) list \<Rightarrow> nat \<times> (string \<times> nat) list" where
  "memo_measure counter s memo =
     (case map_of memo s of Some n \<Rightarrow> (n, memo)
      | None \<Rightarrow> (let n = count_tokens counter s in (n, (s, n) # memo)))"

section \<open>Splitting text\<close>

definition PARAGRAPH_BREAK :: re where
  "PARAGRAPH_BREAK = cat [lit NL, star (Cls is_space), lit NL]"

definition SENTENCE_END :: re where
  "SENTENCE_END = Cat (After (\<lambda>c. c \<in> set ''.!?'')) (plus (Cls is_space))"

definition parts_at :: "re \<Rightarrow> string \<Rightarrow> string list" where
  "parts_at r s = filter (\<lambda>p. p \<noteq> []) (map strip (split_re r s))"

text \<open>The first pattern that gives more than one part.\<close>

definition boundary_parts :: "string \<Rightarrow> string list option" where
  "boundary_parts s =
     (if 1 < length (parts_at PARAGRAPH_BREAK s) then Some (parts_at PARAGRAPH_BREAK s)
      else if 1 < length (parts_at SENTENCE_END s) then Some (parts_at SENTENCE_END s)
      else None)"

function slices :: "nat \<Rightarrow> string \<Rightarrow> string list" where
  "slices w s = (if s = [] \<or> w = 0 then [] else take w s # slices w (drop w s))"
  by pat_completeness auto
termination by (relation "measure (\<lambda>(w, s). length s)") auto

declare slices.simps [simp del]

definition hard_wrap :: "size_budget \<Rightarrow> string \<Rightarrow> string list" where
  "hard_wrap b s =
     (let measured = measure_text b s in
      if measured = 0 then [s]
      else let width = max 1 (maximum b * length s * 9 div (measured * 10)) in
        filter (\<lambda>p. p \<noteq> []) (map strip (slices width s)))"

fun pack_from :: "size_budget \<Rightarrow> (string \<Rightarrow> string list) \<Rightarrow> string \<Rightarrow> string list \<Rightarrow> string list" where
  "pack_from b split buffer [] = (if buffer = [] then [] else [buffer])"
| "pack_from b split buffer (part # parts) =
     (if maximum b < measure_text b part
      then (if buffer = [] then [] else [buffer]) @ split part @ pack_from b split [] parts
      else
        let candidate = (if buffer = [] then part else buffer @ [NL, NL] @ part) in
        if buffer \<noteq> [] \<and> target b < measure_text b candidate
        then buffer # pack_from b split part parts
        else pack_from b split candidate parts)"

definition pack :: "size_budget \<Rightarrow> (string \<Rightarrow> string list) \<Rightarrow> string list \<Rightarrow> string list" where
  "pack b split parts = pack_from b split [] parts"

lemma pack_from_cong:
  "(\<And>p. p \<in> set parts \<Longrightarrow> f p = g p) \<Longrightarrow> pack_from b f buffer parts = pack_from b g buffer parts"
  by (induction parts arbitrary: buffer) (simp_all add: Let_def)

lemma pack_cong [fundef_cong]:
  "\<lbrakk> b = b'; parts = parts'; \<And>p. p \<in> set parts' \<Longrightarrow> f p = g p \<rbrakk> \<Longrightarrow> pack b f parts = pack b' g parts'"
  unfolding pack_def by (metis pack_from_cong)

lemma sum_list_member: "x \<in> set (xs :: nat list) \<Longrightarrow> x \<le> sum_list xs"
  by (induction xs) auto

lemma two_parts_shorter:
  fixes xs :: "string list"
  assumes "1 < length (filter (\<lambda>p. p \<noteq> []) (map strip xs))" "p \<in> set (filter (\<lambda>p. p \<noteq> []) (map strip xs))"
  shows "length p + 1 < sum_list (map length xs) + length xs"
proof -
  obtain x where x: "x \<in> set xs" "p = strip x" using assms(2) by auto
  have "length x \<le> sum_list (map length xs)" using x(1) sum_list_member by force
  then have "length p \<le> sum_list (map length xs)" unfolding x(2) using length_strip [of x] by (rule order_trans [rotated])
  moreover have "1 < length xs" using assms(1) length_filter_le [of _ "map strip xs"] by (metis length_map less_le_trans)
  ultimately show ?thesis by simp
qed

lemma parts_at_shorter:
  assumes "1 < length (parts_at r s)" "p \<in> set (parts_at r s)"
  shows "length p < length s"
  using two_parts_shorter [of "split_re r s" p] assms split_re_length [of r s] unfolding parts_at_def by simp

lemma boundary_parts_shorter: "\<lbrakk> boundary_parts s = Some parts; p \<in> set parts \<rbrakk> \<Longrightarrow> length p < length s"
  using parts_at_shorter by (auto simp: boundary_parts_def split: if_splits)

function split_to_size :: "size_budget \<Rightarrow> string \<Rightarrow> string list" where
  "split_to_size b s0 =
     (let s = strip s0 in
      if s = [] then []
      else if fits b s then [s]
      else case boundary_parts s of
          Some parts \<Rightarrow> pack b (split_to_size b) parts
        | None \<Rightarrow> hard_wrap b s)"
  by pat_completeness auto
termination
proof (relation "measure (\<lambda>(b, s). length s)")
  fix b s0 s parts p
  assume "s = strip s0" "boundary_parts s = Some parts" "p \<in> set parts"
  then have "length p < length (strip s0)" using boundary_parts_shorter by blast
  then have "length p < length s0" using length_strip [of s0] by (rule less_le_trans)
  then show "((b, p), b, s0) \<in> measure (\<lambda>(b, s). length s)" by simp
qed simp

declare split_to_size.simps [simp del]

section \<open>Tables\<close>

definition cell_text :: "string \<Rightarrow> string" where
  "cell_text s = join ''; '' (map strip (filter (\<lambda>p. strip p \<noteq> []) (splitlines s)))"

definition filled :: "string list \<Rightarrow> nat" where
  "filled row = length (filter (\<lambda>c. c \<noteq> []) row)"

definition header_row :: "string list list \<Rightarrow> nat" where
  "header_row rows =
     (let counts = map filled rows; widest = Max (set (take 12 counts)) in
      case find (\<lambda>i. widest < counts ! i * 2) [0..<min 3 (length rows)] of None \<Rightarrow> 0 | Some i \<Rightarrow> i)"

definition row_line :: "string list \<Rightarrow> string" where
  "row_line row = join '' | '' row"

definition header_line :: "string list list \<Rightarrow> nat \<Rightarrow> string" where
  "header_line rows start =
     join [NL] (map (\<lambda>row. join '' '' (filter (\<lambda>c. c \<noteq> []) row)) (take start rows) @ [row_line (rows ! start)])"

text \<open>Greedy grouping of the rows against the running estimate.\<close>

fun group_from :: "(string \<Rightarrow> nat) \<Rightarrow> nat \<Rightarrow> nat \<Rightarrow> string list \<Rightarrow> nat \<Rightarrow> string list \<Rightarrow> string list list" where
  "group_from sizes header_size limit buffer running [] = (if buffer = [] then [] else [buffer])"
| "group_from sizes header_size limit buffer running (line # lines) =
     (if buffer \<noteq> [] \<and> limit < running + sizes line
      then buffer # group_from sizes header_size limit [line] (header_size + sizes line) lines
      else group_from sizes header_size limit (buffer @ [line]) (running + sizes line) lines)"

definition group_text :: "string \<Rightarrow> string list \<Rightarrow> string" where
  "group_text header rows = join [NL] (header # rows)"

function fit_group :: "size_budget \<Rightarrow> string \<Rightarrow> string list \<Rightarrow> string list list" where
  "fit_group b header rows =
     (if length rows \<le> 1 \<or> fits b (group_text header rows) then [rows]
      else fit_group b header (take (length rows div 2) rows)
           @ fit_group b header (drop (length rows div 2) rows))"
  by pat_completeness auto
termination by (relation "measure (\<lambda>(b, h, rows). length rows)") auto

declare fit_group.simps [simp del]

text \<open>\<open>_group_rows\<close>, before and after the groups are rendered with the header.\<close>

definition row_groups :: "size_budget \<Rightarrow> string \<Rightarrow> string list \<Rightarrow> string list list" where
  "row_groups b header lines =
     (let header_size = measure_text b header;
          limit = max (header_size + 1) (maximum b * 9 div 10)
      in concat (map (fit_group b header) (group_from (measure_text b) header_size limit [] header_size lines)))"

definition group_rows :: "size_budget \<Rightarrow> string \<Rightarrow> string list \<Rightarrow> string list" where
  "group_rows b header lines = map (group_text header) (row_groups b header lines)"

definition table_rows :: "extracted_table \<Rightarrow> string list list" where
  "table_rows t = map (map cell_text) (filter (\<lambda>row. row \<noteq> []) (et_rows t))"

definition render_table :: "size_budget \<Rightarrow> extracted_table \<Rightarrow> string list" where
  "render_table b t =
     (let rows = table_rows t in
      if rows = [] then []
      else
        let start = header_row rows; header = header_line rows start; body = drop (start + 1) rows in
        if body = [] then [header] else group_rows b header (map row_line body))"

section \<open>Sections of a unit\<close>

fun heading_cuts :: "string \<Rightarrow> nat \<Rightarrow> heading list \<Rightarrow> (nat \<times> string) list" where
  "heading_cuts text start [] = []"
| "heading_cuts text start (h # hs) =
     (let needle = strip (h_text h) in
      if needle = [] then heading_cuts text start hs
      else case find_from needle start text of
          None \<Rightarrow> heading_cuts text start hs
        | Some pos \<Rightarrow> (pos, needle) # heading_cuts text (pos + length needle) hs)"

fun sections_from :: "string \<Rightarrow> (nat \<times> string) list \<Rightarrow> (string option \<times> string) list" where
  "sections_from text [] = []"
| "sections_from text ((pos, needle) # cuts) =
     (let stop = (case cuts of [] \<Rightarrow> length text | (next, _) # _ \<Rightarrow> next);
          body = strip (drop pos (take stop text))
      in (if body = [] then [] else [(Some needle, body)]) @ sections_from text cuts)"

definition split_unit_by_headings :: "normalized_unit \<Rightarrow> heading list \<Rightarrow> (string option \<times> string) list" where
  "split_unit_by_headings u headings =
     (let text = strip (nu_text u) in
      if text = [] then []
      else if headings = [] then [(None, text)]
      else case heading_cuts text 0 headings of
          [] \<Rightarrow> [(None, text)]
        | (first, needle) # cuts \<Rightarrow>
            (let lead = strip (take first text) in if 0 < first \<and> lead \<noteq> [] then [(None, lead)] else [])
            @ sections_from text ((first, needle) # cuts))"

section \<open>Chunking a document\<close>

text \<open>\<open>Chunk(index=len(chunks), ...)\<close>, appended piece by piece.\<close>

definition new_passage :: "nat \<Rightarrow> nat \<Rightarrow> string option \<Rightarrow> bool \<Rightarrow> string \<Rightarrow> passage" where
  "new_passage i page heading table text =
     \<lparr> p_index = i, p_text = text, p_page_number = Some page, p_section_heading = heading,
       p_is_table = table, p_scale = SECTION_SCALE \<rparr>"

definition add_pieces :: "nat \<Rightarrow> string option \<Rightarrow> bool \<Rightarrow> string list \<Rightarrow> passage list \<Rightarrow> passage list" where
  "add_pieces page heading table pieces cs =
     foldl (\<lambda>acc piece. acc @ [new_passage (length acc) page heading table piece]) cs pieces"

definition add_table :: "size_budget \<Rightarrow> nat \<Rightarrow> string option \<Rightarrow> passage list \<Rightarrow> extracted_table \<Rightarrow> passage list" where
  "add_table b page heading cs t = add_pieces page heading True (render_table b t) cs"

definition figure_body :: "extracted_figure \<Rightarrow> string" where
  "figure_body f =
     (let base = ''[Figure] (text read from a picture by OCR)'';
          label = (case ef_caption f of None \<Rightarrow> base | Some c \<Rightarrow> if c = [] then base else base @ '' '' @ c)
      in if ef_text f = [] then label else label @ [NL] @ ef_text f)"

definition add_figure :: "size_budget \<Rightarrow> nat \<Rightarrow> string option \<Rightarrow> passage list \<Rightarrow> extracted_figure \<Rightarrow> passage list" where
  "add_figure b page heading cs f = add_pieces page heading False (split_to_size b (figure_body f)) cs"

record chunk_state =
  cs_chunks :: "passage list"
  cs_heading :: "string option"
  cs_tables :: "extracted_table list"
  cs_figures :: "extracted_figure list"

definition title_only :: "string \<Rightarrow> string \<Rightarrow> chunk_state \<Rightarrow> bool" where
  "title_only heading body st =
     (squeeze body = squeeze heading
      \<and> (list_ex (\<lambda>t. et_heading t = Some heading) (cs_tables st)
         \<or> list_ex (\<lambda>f. ef_heading f = Some heading) (cs_figures st)))"

definition chunk_section :: "size_budget \<Rightarrow> nat \<Rightarrow> chunk_state \<Rightarrow> string option \<times> string \<Rightarrow> chunk_state" where
  "chunk_section b page st sec =
     (case sec of
        (None, body) \<Rightarrow>
          st\<lparr> cs_chunks := add_pieces page (cs_heading st) False (split_to_size b body) (cs_chunks st) \<rparr>
      | (Some heading, body) \<Rightarrow>
          let pieces = (if title_only heading body st then [] else split_to_size b body);
              prose = add_pieces page (Some heading) False pieces (cs_chunks st);
              tables = filter (\<lambda>t. et_heading t = Some heading) (cs_tables st);
              figures = filter (\<lambda>f. ef_heading f = Some heading) (cs_figures st)
          in st\<lparr> cs_heading := Some heading,
                 cs_chunks := foldl (add_figure b page (Some heading))
                                (foldl (add_table b page (Some heading)) prose tables) figures,
                 cs_tables := foldl (\<lambda>xs t. remove1 t xs) (cs_tables st) tables,
                 cs_figures := foldl (\<lambda>xs f. remove1 f xs) (cs_figures st) figures \<rparr>)"

text \<open>\<open>table.heading or fallback\<close>\<close>

definition own_or :: "string option \<Rightarrow> string option \<Rightarrow> string option" where
  "own_or h fallback = (case h of None \<Rightarrow> fallback | Some t \<Rightarrow> if t = [] then fallback else Some t)"

definition chunk_unit ::
  "size_budget \<Rightarrow> normalization_result \<Rightarrow> passage list \<times> string option \<Rightarrow> normalized_unit \<Rightarrow> passage list \<times> string option" where
  "chunk_unit b r acc u =
     (let current = (if nr_mime_type r \<in> {PPTX_MIME, XLSX_MIME} then None else snd acc);
          page = nu_index u;
          headings = filter (\<lambda>h. h_unit_index h = page) (nr_headings r);
          sections = (if nu_text_is_table u then [] else split_unit_by_headings u headings);
          st0 = \<lparr> cs_chunks = fst acc, cs_heading = current,
                  cs_tables = filter (\<lambda>t. et_unit_index t = page) (nr_tables r),
                  cs_figures = filter (\<lambda>f. ef_unit_index f = page) (nr_figures r) \<rparr>;
          st = foldl (chunk_section b page) st0 sections;
          fallback = (if 1 < length headings then None else cs_heading st);
          with_tables = foldl (\<lambda>cs t. add_table b page (own_or (et_heading t) fallback) cs t)
                          (cs_chunks st) (cs_tables st);
          with_figures = foldl (\<lambda>cs f. add_figure b page (own_or (ef_heading f) fallback) cs f)
                          with_tables (cs_figures st)
      in (with_figures, cs_heading st))"

definition chunk_document :: "size_budget \<Rightarrow> normalization_result \<Rightarrow> passage list" where
  "chunk_document b r = fst (foldl (chunk_unit b r) ([], None) (nr_units r))"

text \<open>\<open>ChunkingService\<close>: a tokenizer if one could be loaded, else the character budget.\<close>

definition service_budget :: "token_counter option \<Rightarrow> size_budget" where
  "service_budget counter =
     (case counter of None \<Rightarrow> character_budget None None | Some c \<Rightarrow> token_budget c None None)"

text \<open>\<open>full\<close>: \<open>None\<close> when constructing the provider raises, else what reading its window gives. Only the construction is inside
the \<open>try\<close>; the window is read by \<open>TokenBudget\<close> after it.\<close>

definition with_model_tokenizer ::
  "token_counter option \<Rightarrow> ('e, token_counter) result option \<Rightarrow> ('e, size_budget) result" where
  "with_model_tokenizer tokenizer_only full =
     (case tokenizer_only of
        Some c \<Rightarrow> Inr (service_budget (Some c))
      | None \<Rightarrow>
          (case full of
             None \<Rightarrow> Inr (service_budget None)
           | Some (Inl e) \<Rightarrow> Inl e
           | Some (Inr c) \<Rightarrow> Inr (service_budget (Some c))))"

definition chunk_service :: "size_budget \<Rightarrow> normalization_result \<Rightarrow> chunking_result" where
  "chunk_service b r = \<lparr> cr_document_id = nr_document_id r, cr_chunks = chunk_document b r \<rparr>"

section \<open>Splitting loses nothing\<close>

text \<open>The visible text: what is left when white space is not counted.\<close>

definition ink :: "string \<Rightarrow> string" where
  "ink s = filter (\<lambda>c. \<not> is_space c) s"

lemma ink_append [simp]: "ink (s @ t) = ink s @ ink t"
  by (simp add: ink_def)

lemma ink_Nil [simp]: "ink [] = []"
  by (simp add: ink_def)

lemma ink_Cons [simp]: "ink (c # s) = (if is_space c then ink s else c # ink s)"
  by (simp add: ink_def)

lemma ink_space: "\<forall>c\<in>set s. is_space c \<Longrightarrow> ink s = []"
  by (simp add: ink_def filter_empty_conv)

lemma ink_strip [simp]: "ink (strip s) = ink s"
proof -
  obtain a b where ab: "s = a @ strip s @ b" "\<forall>c\<in>set a \<union> set b. is_space c" using strip_split by blast
  have "ink s = ink a @ ink (strip s) @ ink b" by (subst ab(1)) simp
  then show ?thesis using ab(2) by (simp add: ink_space)
qed

lemma newline_is_space [simp]: "is_space NL"
  by code_simp

lemma ink_concat: "ink (concat xs) = concat (map ink xs)"
  by (induction xs) simp_all

lemma ink_strip_filter: "concat (map ink (filter (\<lambda>p. p \<noteq> []) (map strip xs))) = concat (map ink xs)"
proof (induction xs)
  case (Cons x xs)
  then show ?case using ink_strip [of x] by (cases "strip x = []") auto
qed simp

lemma split_segs_ink:
  assumes "\<forall>m. Hit m \<in> set gs \<longrightarrow> ink m = []"
  shows "concat (map ink (split_segs gs)) = ink (concat (map seg_text gs))"
  using assms
proof (induction gs rule: split_segs.induct)
  case (2 c gs)
  then obtain w ws where w: "split_segs gs = w # ws" by (cases "split_segs gs") auto
  have "concat (map ink (split_segs gs)) = ink (concat (map seg_text gs))" using 2 by simp
  then show ?case using w by simp
qed simp_all

lemma parts_ink:
  assumes "only is_space r"
  shows "concat (map ink (parts_at r s)) = ink s"
proof -
  have "concat (map ink (parts_at r s)) = concat (map ink (split_re r s))"
    unfolding parts_at_def by (rule ink_strip_filter)
  also have "\<dots> = ink s"
    unfolding split_re_def using split_segs_ink [of "scan r ([], s)"] scan_only [OF assms]
    by (auto simp: scan_text ink_space)
  finally show ?thesis .
qed

lemma break_patterns: "only is_space PARAGRAPH_BREAK" "only is_space SENTENCE_END"
proof -
  show "only is_space PARAGRAPH_BREAK" "only is_space SENTENCE_END"
    by (simp_all add: PARAGRAPH_BREAK_def SENTENCE_END_def)
qed

lemma boundary_parts_ink: "boundary_parts s = Some parts \<Longrightarrow> concat (map ink parts) = ink s"
  using parts_ink [OF break_patterns(1)] parts_ink [OF break_patterns(2)]
  by (auto simp: boundary_parts_def split: if_splits)

lemma slices_Nil [simp]: "slices w [] = []"
  by (simp add: slices.simps [of w "[]"])

lemma slices_concat: "w \<noteq> 0 \<Longrightarrow> concat (slices w s) = s"
proof (induction w s rule: slices.induct)
  case (1 w s)
  then show ?case by (cases "s = []") (simp_all add: slices.simps [of w s])
qed

lemma hard_wrap_ink: "concat (map ink (hard_wrap b s)) = ink s"
proof -
  have "concat (map ink (filter (\<lambda>p. p \<noteq> []) (map strip (slices w s)))) = ink s" if "w \<noteq> 0" for w
    unfolding ink_strip_filter using slices_concat [OF that, of s] ink_concat [of "slices w s"] by simp
  then show ?thesis by (simp add: hard_wrap_def Let_def)
qed

lemma pack_from_ink:
  "(\<And>p. p \<in> set parts \<Longrightarrow> concat (map ink (split p)) = ink p) \<Longrightarrow>
     concat (map ink (pack_from b split buffer parts)) = ink buffer @ concat (map ink parts)"
proof (induction b split buffer parts rule: pack_from.induct)
  case (2 b split buffer part parts)
  let ?cand = "if buffer = [] then part else buffer @ [NL, NL] @ part"
  have cand: "ink ?cand = ink buffer @ ink part" by simp
  consider "maximum b < measure_text b part"
    | "\<not> maximum b < measure_text b part" "buffer \<noteq> [] \<and> target b < measure_text b ?cand"
    | "\<not> maximum b < measure_text b part" "\<not> (buffer \<noteq> [] \<and> target b < measure_text b ?cand)" by blast
  then show ?case
  proof cases
    case 1
    then show ?thesis using "2.IH"(1) "2.prems" by simp
  next
    case 2
    have "concat (map ink (pack_from b split part parts)) = ink part @ concat (map ink parts)"
      using "2.IH"(2) [OF 2(1) refl 2(2)] "2.prems" by simp
    moreover from 2(2) have "buffer \<noteq> []" "target b < measure_text b (buffer @ [NL, NL] @ part)" by auto
    ultimately show ?thesis using 2(1) by (simp add: Let_def)
  next
    case 3
    have "concat (map ink (pack_from b split ?cand parts)) = ink ?cand @ concat (map ink parts)"
      using "2.IH"(3) [OF 3(1) refl 3(2)] "2.prems" by simp
    then show ?thesis using 3 cand by (simp only: pack_from.simps Let_def if_False list.map concat.simps append_assoc)
  qed
qed simp

text \<open>Cutting a text to size neither loses nor duplicates nor reorders anything: the visible characters
of the passages, one after the other, are the visible characters of the text, for every budget.\<close>

lemma split_to_size_ink: "concat (map ink (split_to_size b s)) = ink s"
proof (induction b s rule: split_to_size.induct)
  case (1 b s0)
  let ?s = "strip s0"
  show ?case
  proof (cases "?s = [] \<or> fits b ?s")
    case True
    then show ?thesis using ink_strip [of s0] by (auto simp: split_to_size.simps [of b s0] Let_def simp del: ink_strip)
  next
    case False
    show ?thesis
    proof (cases "boundary_parts ?s")
      case None
      then show ?thesis using False hard_wrap_ink [of b ?s] by (simp add: split_to_size.simps [of b s0] Let_def)
    next
      case (Some parts)
      have "concat (map ink (pack b (split_to_size b) parts)) = concat (map ink parts)"
        unfolding pack_def using pack_from_ink [of parts "split_to_size b" b "[]"] "1.IH" [OF refl _ _ Some] False by simp
      then show ?thesis
        using False Some boundary_parts_ink [OF Some] by (simp add: split_to_size.simps [of b s0] Let_def)
    qed
  qed
qed

section \<open>Pieces fit\<close>

lemma parts_at_stripped: "p \<in> set (parts_at r s) \<Longrightarrow> p \<noteq> [] \<and> strip p = p"
  by (auto simp: parts_at_def)

lemma boundary_parts_stripped: "\<lbrakk> boundary_parts s = Some parts; p \<in> set parts \<rbrakk> \<Longrightarrow> p \<noteq> [] \<and> strip p = p"
  using parts_at_stripped by (auto simp: boundary_parts_def split: if_splits)

lemma strip_join:
  assumes "a \<noteq> []" "strip a = a" "c \<noteq> []" "strip c = c"
  shows "strip (a @ m @ c) = a @ m @ c"
proof (rule strip_id)
  show "a @ m @ c \<noteq> []" using assms(1) by simp
  show "\<not> is_space (hd (a @ m @ c))" using strip_ends [of a] assms by simp
  show "\<not> is_space (last (a @ m @ c))" using strip_ends [of c] assms by simp
qed

definition good_piece :: "size_budget \<Rightarrow> string \<Rightarrow> bool" where
  "good_piece b p = (p \<noteq> [] \<and> strip p = p
     \<and> (fits b p \<or> (\<exists>t. boundary_parts t = None \<and> \<not> fits b t \<and> p \<in> set (hard_wrap b t))))"

lemma pack_from_good:
  assumes "target b \<le> maximum b" "\<forall>p\<in>set parts. p \<noteq> [] \<and> strip p = p \<and> (\<forall>q\<in>set (split p). good_piece b q)"
    and "buffer = [] \<or> (strip buffer = buffer \<and> fits b buffer)"
  shows "\<forall>q\<in>set (pack_from b split buffer parts). good_piece b q"
  using assms(2,3)
proof (induction parts arbitrary: buffer)
  case Nil
  then show ?case by (auto simp: good_piece_def)
next
  case (Cons part parts)
  have part: "part \<noteq> []" "strip part = part" using Cons.prems(1) by simp_all
  have rest: "\<forall>p\<in>set parts. p \<noteq> [] \<and> strip p = p \<and> (\<forall>q\<in>set (split p). good_piece b q)"
    using Cons.prems(1) by simp
  have buf: "\<forall>q\<in>set (if buffer = [] then [] else [buffer]). good_piece b q"
    using Cons.prems(2) by (auto simp: good_piece_def)
  let ?cand = "if buffer = [] then part else buffer @ [NL, NL] @ part"
  consider "maximum b < measure_text b part"
    | "measure_text b part \<le> maximum b" "buffer \<noteq> []" "target b < measure_text b ?cand"
    | "measure_text b part \<le> maximum b" "buffer = [] \<or> measure_text b ?cand \<le> target b" by linarith
  then show ?case
  proof cases
    case 1
    then show ?thesis using buf Cons.IH [OF rest, of "[]"] Cons.prems(1) by auto
  next
    case 2
    then have "\<forall>q\<in>set (pack_from b split part parts). good_piece b q"
      using Cons.IH [OF rest, of part] part by (simp add: fits_def)
    then show ?thesis using 2 buf by (simp add: Let_def)
  next
    case 3
    have "strip ?cand = ?cand" using Cons.prems(2) part strip_join [of buffer part "[NL, NL]"] by auto
    moreover have "fits b ?cand" using 3 assms(1) by (auto simp: fits_def)
    ultimately have "\<forall>q\<in>set (pack_from b split ?cand parts). good_piece b q"
      using Cons.IH [OF rest, of ?cand] by blast
    then show ?thesis using 3 by (auto simp: Let_def)
  qed
qed

lemma hard_wrap_stripped: "\<lbrakk> t \<noteq> []; strip t = t; p \<in> set (hard_wrap b t) \<rbrakk> \<Longrightarrow> p \<noteq> [] \<and> strip p = p"
  by (auto simp: hard_wrap_def Let_def split: if_splits)

lemma split_to_size_good:
  assumes "target b \<le> maximum b"
  shows "\<forall>p\<in>set (split_to_size b s). good_piece b p"
  using assms
proof (induction b s rule: split_to_size.induct)
  case (1 b s0)
  let ?s = "strip s0"
  show ?case
  proof (cases "?s = [] \<or> fits b ?s")
    case True
    then show ?thesis by (auto simp: split_to_size.simps [of b s0] Let_def good_piece_def)
  next
    case False
    show ?thesis
    proof (cases "boundary_parts ?s")
      case None
      then have "\<forall>p\<in>set (hard_wrap b ?s). good_piece b p"
        using False hard_wrap_stripped [of ?s _ b] unfolding good_piece_def by (metis strip_strip)
      then show ?thesis using False None by (simp add: split_to_size.simps [of b s0] Let_def)
    next
      case (Some parts)
      have "\<forall>p\<in>set parts. p \<noteq> [] \<and> strip p = p \<and> (\<forall>q\<in>set (split_to_size b p). good_piece b q)"
        using "1.IH" [OF refl _ _ Some] False "1.prems" boundary_parts_stripped [OF Some] by blast
      then have "\<forall>q\<in>set (pack b (split_to_size b) parts). good_piece b q"
        unfolding pack_def using pack_from_good [OF "1.prems", of parts "split_to_size b" "[]"] by blast
      then show ?thesis using False Some by (simp add: split_to_size.simps [of b s0] Let_def)
    qed
  qed
qed

lemma slices_width: "p \<in> set (slices w s) \<Longrightarrow> length p \<le> w"
proof (induction w s rule: slices.induct)
  case (1 w s)
  then show ?case
    using "1.prems" by (cases "s = [] \<or> w = 0") (auto simp: slices.simps [of w s])
qed

lemma hard_wrap_width:
  assumes "measure_text b = length" "0 < maximum b" "p \<in> set (hard_wrap b t)"
  shows "length p \<le> maximum b"
proof (cases "t = []")
  case True
  then show ?thesis using assms by (simp add: hard_wrap_def Let_def)
next
  case False
  have "maximum b * length t * 9 = length t * (maximum b * 9)" by (simp add: mult.left_commute)
  then have "maximum b * length t * 9 div (length t * 10) = maximum b * 9 div 10"
    using False by (simp only: div_mult_mult1 length_0_conv not_False_eq_True if_False)
  also have "\<dots> \<le> maximum b" by presburger
  finally have w: "max 1 (maximum b * length t * 9 div (length t * 10)) \<le> maximum b" using assms(2) by simp
  obtain q where q: "q \<in> set (slices (max 1 (maximum b * length t * 9 div (length t * 10))) t)" "p = strip q"
    using assms(1,3) False by (auto simp: hard_wrap_def Let_def)
  have "length p \<le> length q" unfolding q(2) by (rule length_strip)
  also have "\<dots> \<le> maximum b" using slices_width [OF q(1)] w by (rule order_trans)
  finally show ?thesis .
qed

text \<open>Passages of prose fit. When the target does not exceed the maximum, every piece is non-empty,
has nothing to strip, and is within the maximum, unless it was cut by width from a text with no paragraph or
sentence break at all; under a character budget even those are within it.\<close>

theorem prose_pieces_fit:
  assumes "target b \<le> maximum b" "p \<in> set (split_to_size b s)"
  shows "p \<noteq> [] \<and> strip p = p
    \<and> (fits b p \<or> (\<exists>t. boundary_parts t = None \<and> \<not> fits b t \<and> p \<in> set (hard_wrap b t)))
    \<and> (measure_text b = length \<and> 0 < maximum b \<longrightarrow> length p \<le> maximum b)"
  using split_to_size_good [OF assms(1), of s] assms(2) hard_wrap_width [of b p]
  by (auto simp: good_piece_def fits_def)

theorem prose_pieces_fit_witness:
  "\<exists>p\<in>set (split_to_size (character_budget (Some 8) (Some 10)) ''One two. Three four five.''). length p \<le> 10"
proof -
  let ?b = "character_budget (Some 8) (Some 10)"
  have ne: "split_to_size ?b ''One two. Three four five.'' \<noteq> []" by code_simp
  then obtain p where p: "p \<in> set (split_to_size ?b ''One two. Three four five.'')" by (meson list.set_sel(1))
  have "target ?b \<le> maximum ?b" by code_simp
  from prose_pieces_fit [OF this p] have "length p \<le> 10" by (simp add: character_budget_def or_setting_def)
  with p show ?thesis by blast
qed

section \<open>Tables keep their rows\<close>

lemma group_from_concat: "concat (group_from sizes h cap buffer running lines) = buffer @ lines"
  by (induction sizes h cap buffer running lines rule: group_from.induct) auto

lemma group_from_nonempty: "g \<in> set (group_from sizes h cap buffer running lines) \<Longrightarrow> g \<noteq> []"
  by (induction sizes h cap buffer running lines rule: group_from.induct) (auto split: if_splits)

lemma fit_group_ok:
  "rows \<noteq> [] \<Longrightarrow> concat (fit_group b h rows) = rows
     \<and> (\<forall>g\<in>set (fit_group b h rows). g \<noteq> [] \<and> (length g = 1 \<or> fits b (group_text h g)))"
proof (induction b h rows rule: fit_group.induct)
  case (1 b h rows)
  show ?case
  proof (cases "length rows \<le> 1 \<or> fits b (group_text h rows)")
    case True
    then have "length rows = 1 \<or> fits b (group_text h rows)" using "1.prems" by (cases rows) auto
    then show ?thesis using True "1.prems" by (simp add: fit_group.simps [of b h rows])
  next
    case False
    let ?k = "length rows div 2"
    have k: "0 < ?k" "?k < length rows" using False by auto
    have "take ?k rows \<noteq> []" "drop ?k rows \<noteq> []" using k "1.prems" by simp_all
    then show ?thesis
      using "1.IH" [OF False] False by (auto simp: fit_group.simps [of b h rows])
  qed
qed

lemma row_groups_ok:
  "concat (row_groups b h lines) = lines
   \<and> (\<forall>g\<in>set (row_groups b h lines). g \<noteq> [] \<and> (length g = 1 \<or> fits b (group_text h g)))"
proof -
  let ?gs = "group_from (measure_text b) (measure_text b h) (max (measure_text b h + 1) (maximum b * 9 div 10)) []
      (measure_text b h) lines"
  have gs: "concat ?gs = lines" "\<forall>g\<in>set ?gs. g \<noteq> []"
    using group_from_concat [where buffer = "[]"] group_from_nonempty by auto
  have all: "concat (concat (map (fit_group b h) xs)) = concat xs
      \<and> (\<forall>g\<in>set (concat (map (fit_group b h) xs)). g \<noteq> [] \<and> (length g = 1 \<or> fits b (group_text h g)))"
    if "\<forall>g\<in>set xs. g \<noteq> []" for xs
    using that
  proof (induction xs)
    case (Cons g xs)
    then show ?case using fit_group_ok [of g b h] by auto
  qed simp
  show ?thesis unfolding row_groups_def Let_def using all [OF gs(2)] unfolding gs(1) .
qed

text \<open>A table is never cut inside a row and never without its header. Its passages are groups of
consecutive rows, each under the same header line (titles above it included), that give back every row of
the table once and in order; and each group fits the budget unless it is a single row.\<close>

theorem table_groups_keep_rows:
  fixes t :: extracted_table
  defines "rows \<equiv> table_rows t"
  shows "\<exists>groups. render_table b t = map (group_text (header_line rows (header_row rows))) groups
    \<and> concat groups = map row_line (drop (header_row rows + 1) rows)
    \<and> (if rows = [] then groups = [] else if drop (header_row rows + 1) rows = [] then groups = [[]]
       else list_all (\<lambda>g. g \<noteq> [] \<and>
              (length g = 1 \<or> fits b (group_text (header_line rows (header_row rows)) g))) groups)"
proof -
  let ?h = "header_line rows (header_row rows)" and ?body = "drop (header_row rows + 1) rows"
  consider "rows = []" | "rows \<noteq> []" "?body = []" | "rows \<noteq> []" "?body \<noteq> []" by blast
  then show ?thesis
  proof cases
    case 1
    then show ?thesis by (intro exI [of _ "[]"]) (simp add: render_table_def rows_def)
  next
    case 2
    then show ?thesis
      by (intro exI [of _ "[[]]"]) (simp add: render_table_def rows_def Let_def group_text_def)
  next
    case 3
    then show ?thesis
      using row_groups_ok [of b ?h "map row_line ?body"]
      by (intro exI [of _ "row_groups b ?h (map row_line ?body)"])
        (auto simp: render_table_def rows_def Let_def group_rows_def list_all_iff)
  qed
qed

section \<open>Sections cover the unit\<close>

lemma heading_cuts_ok:
  "\<lbrakk> start \<le> length text; heading_cuts text start hs = (pos, needle) # cuts \<rbrakk> \<Longrightarrow>
     start \<le> pos \<and> pos + length needle \<le> length text \<and> (\<exists>hs'. cuts = heading_cuts text (pos + length needle) hs')"
proof (induction "text" start hs rule: heading_cuts.induct)
  case (2 t start h hs)
  let ?n = "strip (h_text h)"
  consider "?n = []" | "?n \<noteq> []" "find_from ?n start t = None"
    | p where "?n \<noteq> []" "find_from ?n start t = Some p" by (cases "find_from ?n start t") auto
  then show ?case
  proof cases
    case 1
    then show ?thesis using "2.IH"(1) [OF refl] "2.prems" by simp
  next
    case 2
    then show ?thesis using "2.IH"(2) [OF refl] "2.prems" by simp
  next
    case 3
    then show ?thesis using "2.prems" find_from_Some [OF 3(2)] by (auto simp: Let_def)
  qed
qed simp

lemma heading_cuts_needle: "\<forall>c\<in>set (heading_cuts text start hs). snd c \<noteq> []"
  by (induction "text" start hs rule: heading_cuts.induct) (auto simp: Let_def split: option.split)

lemma sections_ink:
  "\<lbrakk> start \<le> length text; heading_cuts text start hs = (pos, needle) # cuts \<rbrakk> \<Longrightarrow>
     concat (map (\<lambda>sec. ink (snd sec)) (sections_from text ((pos, needle) # cuts))) = ink (drop pos text)"
proof (induction cuts arbitrary: start hs pos needle)
  case Nil
  show ?case using ink_strip [of "drop pos text"]
    by (cases "strip (drop pos text) = []") (simp_all del: ink_strip add: Let_def)
next
  case (Cons c cuts)
  obtain next_pos n' where c: "c = (next_pos, n')" by (cases c)
  from heading_cuts_ok [OF Cons.prems] obtain hs' where
    pos: "start \<le> pos" "pos + length needle \<le> length text" and
    tail: "heading_cuts text (pos + length needle) hs' = (next_pos, n') # cuts" unfolding c by metis
  note nxt = heading_cuts_ok [OF pos(2) tail]
  have ih: "concat (map (\<lambda>sec. ink (snd sec)) (sections_from text ((next_pos, n') # cuts))) = ink (drop next_pos text)"
    by (rule Cons.IH [OF pos(2) tail])
  have "ink (drop pos text) = ink (drop pos (take next_pos text)) @ ink (drop next_pos text)"
  proof -
    have "drop pos text = drop pos (take next_pos text) @ drop next_pos text"
      using nxt by (metis append_take_drop_id drop_append drop_drop drop_take add.commute le_add_diff_inverse le_trans le_add1 diff_is_0_eq drop0 length_take min.absorb2)
    then show ?thesis by (metis ink_append)
  qed
  then show ?case
    using ih ink_strip [of "drop pos (take next_pos text)"] unfolding c
    by (cases "strip (drop pos (take next_pos text)) = []") (simp_all del: ink_strip add: Let_def)
qed

lemma split_unit_ink:
  "concat (map (\<lambda>sec. ink (snd sec)) (split_unit_by_headings u hs)) = ink (nu_text u)"
proof -
  let ?t = "strip (nu_text u)"
  have t: "ink ?t = ink (nu_text u)" by simp
  show ?thesis
  proof (cases "heading_cuts ?t 0 hs")
    case Nil
    then show ?thesis using t by (auto simp: split_unit_by_headings_def Let_def simp del: ink_strip)
  next
    case (Cons c cuts)
    obtain pos needle where c: "c = (pos, needle)" by (cases c)
    have sec: "concat (map (\<lambda>sec. ink (snd sec)) (sections_from ?t ((pos, needle) # cuts))) = ink (drop pos ?t)"
      using sections_ink [of 0 ?t hs] Cons c by simp
    have split: "ink ?t = ink (take pos ?t) @ ink (drop pos ?t)" by (metis append_take_drop_id ink_append)
    have "pos + length needle \<le> length ?t" using heading_cuts_ok [of 0 ?t hs pos needle cuts] Cons c by simp
    moreover have "needle \<noteq> []" using heading_cuts_needle [of ?t 0 hs] Cons c by simp
    ultimately have ne: "hs \<noteq> []" "?t \<noteq> []" using Cons by auto
    let ?lead = "strip (take pos ?t)"
    have lead: "concat (map (\<lambda>sec. ink (snd sec)) (if 0 < pos \<and> ?lead \<noteq> [] then [(None, ?lead)] else [])) = ink (take pos ?t)"
      using ink_strip [of "take pos ?t"] by (cases "0 < pos"; cases "?lead = []") (simp_all del: ink_strip)
    have "split_unit_by_headings u hs = (if 0 < pos \<and> ?lead \<noteq> [] then [(None, ?lead)] else [])
        @ sections_from ?t ((pos, needle) # cuts)"
      using ne Cons c by (simp add: split_unit_by_headings_def Let_def del: sections_from.simps)
    then show ?thesis unfolding t [symmetric] split by (simp only: map_append concat_append lead sec)
  qed
qed

section \<open>The whole document\<close>

definition in_order :: "passage list \<Rightarrow> bool" where
  "in_order cs = (map p_index cs = [0..<length cs])"

definition table_texts :: "passage list \<Rightarrow> string list" where
  "table_texts cs = map p_text (filter p_is_table cs)"

definition inked :: "passage list \<Rightarrow> string" where
  "inked cs = concat (map (\<lambda>p. ink (p_text p)) cs)"

lemma add_pieces_simps [simp]:
  "add_pieces page h tbl [] cs = cs"
  "add_pieces page h tbl (p # ps) cs = add_pieces page h tbl ps (cs @ [new_passage (length cs) page h tbl p])"
  by (simp_all add: add_pieces_def)

lemma add_pieces_ok:
  "in_order cs \<Longrightarrow> in_order (add_pieces page h tbl ps cs)"
  "table_texts (add_pieces page h tbl ps cs) = table_texts cs @ (if tbl then ps else [])"
  "inked (add_pieces page h tbl ps cs) = inked cs @ concat (map ink ps)"
  by (induction ps arbitrary: cs) (auto simp: in_order_def table_texts_def inked_def new_passage_def)

lemma add_tables_ok:
  "in_order cs \<Longrightarrow> in_order (foldl (\<lambda>cs t. add_table b page (h t) cs t) cs ts)"
  "table_texts (foldl (\<lambda>cs t. add_table b page (h t) cs t) cs ts) = table_texts cs @ concat (map (render_table b) ts)"
  by (induction ts arbitrary: cs) (auto simp: add_table_def add_pieces_ok)

lemma add_figures_ok:
  "in_order cs \<Longrightarrow> in_order (foldl (\<lambda>cs f. add_figure b page (h f) cs f) cs fs)"
  "table_texts (foldl (\<lambda>cs f. add_figure b page (h f) cs f) cs fs) = table_texts cs"
  by (induction fs arbitrary: cs) (auto simp: add_figure_def add_pieces_ok)

text \<open>All the table passages a list of tables gives, as a multiset.\<close>

definition rendered :: "size_budget \<Rightarrow> extracted_table list \<Rightarrow> string multiset" where
  "rendered b ts = mset (concat (map (render_table b) ts))"

lemma rendered_simps [simp]:
  "rendered b [] = {#}" "rendered b (t # ts) = mset (render_table b t) + rendered b ts"
  "rendered b (ts @ us) = rendered b ts + rendered b us"
  by (simp_all add: rendered_def)

lemma rendered_mset: "mset ts = mset us \<Longrightarrow> rendered b ts = rendered b us"
proof -
  have "rendered b xs = sum_mset (image_mset (\<lambda>t. mset (render_table b t)) (mset xs))" for xs
    by (induction xs) simp_all
  then show "mset ts = mset us \<Longrightarrow> rendered b ts = rendered b us" by simp
qed

lemma remove_found: "mset (foldl (\<lambda>xs t. remove1 t xs) xs ys) = mset xs - mset ys"
  by (induction ys arbitrary: xs) simp_all

lemma rendered_split:
  "rendered b (filter P ts) + rendered b (foldl (\<lambda>xs t. remove1 t xs) ts (filter P ts)) = rendered b ts"
proof -
  have "mset (filter P ts) \<subseteq># mset ts" by (simp add: mset_filter)
  then have "mset (filter P ts) + (mset ts - mset (filter P ts)) = mset ts" by (rule subset_mset.add_diff_inverse)
  then have "mset (filter P ts @ foldl (\<lambda>xs t. remove1 t xs) ts (filter P ts)) = mset ts"
    unfolding mset_append remove_found .
  from rendered_mset [OF this] show ?thesis unfolding rendered_simps .
qed

lemma chunk_section_ok:
  "in_order (cs_chunks st) \<Longrightarrow> in_order (cs_chunks (chunk_section b page st sec))"
  "mset (table_texts (cs_chunks (chunk_section b page st sec))) + rendered b (cs_tables (chunk_section b page st sec))
    = mset (table_texts (cs_chunks st)) + rendered b (cs_tables st)"
proof -
  obtain h body where sec: "sec = (h, body)" by (cases sec)
  show "in_order (cs_chunks st) \<Longrightarrow> in_order (cs_chunks (chunk_section b page st sec))"
    by (cases h) (auto simp: chunk_section_def sec Let_def add_pieces_ok
        intro!: add_figures_ok(1) add_tables_ok(1) [where h = "\<lambda>_. _"])
  show "mset (table_texts (cs_chunks (chunk_section b page st sec))) + rendered b (cs_tables (chunk_section b page st sec))
    = mset (table_texts (cs_chunks st)) + rendered b (cs_tables st)"
  proof (cases h)
    case None
    then show ?thesis by (simp add: chunk_section_def sec add_pieces_ok)
  next
    case (Some hd)
    let ?P = "\<lambda>t. et_heading t = Some hd"
    have "mset (table_texts (cs_chunks (chunk_section b page st sec)))
        = mset (table_texts (cs_chunks st)) + rendered b (filter ?P (cs_tables st))"
      using add_figures_ok(2) [of b page "\<lambda>_. Some hd"] add_tables_ok(2) [of b page "\<lambda>_. Some hd"]
      by (simp add: chunk_section_def sec Some Let_def add_pieces_ok rendered_def)
    moreover have "cs_tables (chunk_section b page st sec)
        = foldl (\<lambda>xs t. remove1 t xs) (cs_tables st) (filter ?P (cs_tables st))"
      by (simp add: chunk_section_def sec Some Let_def)
    ultimately show ?thesis using rendered_split [of b ?P "cs_tables st"] by (simp add: ac_simps)
  qed
qed

lemma chunk_sections_ok:
  "in_order (cs_chunks st) \<Longrightarrow> in_order (cs_chunks (foldl (chunk_section b page) st secs))"
  "mset (table_texts (cs_chunks (foldl (chunk_section b page) st secs)))
      + rendered b (cs_tables (foldl (chunk_section b page) st secs))
    = mset (table_texts (cs_chunks st)) + rendered b (cs_tables st)"
  by (induction secs arbitrary: st) (simp_all add: chunk_section_ok)

lemma chunk_unit_ok:
  "in_order (fst acc) \<Longrightarrow> in_order (fst (chunk_unit b r acc u))"
  "mset (table_texts (fst (chunk_unit b r acc u))) =
     mset (table_texts (fst acc)) + rendered b (filter (\<lambda>t. et_unit_index t = nu_index u) (nr_tables r))"
proof -
  show "in_order (fst acc) \<Longrightarrow> in_order (fst (chunk_unit b r acc u))"
    unfolding chunk_unit_def Let_def fst_conv
    by (intro add_figures_ok(1) add_tables_ok(1) chunk_sections_ok(1)) simp
  show "mset (table_texts (fst (chunk_unit b r acc u))) =
     mset (table_texts (fst acc)) + rendered b (filter (\<lambda>t. et_unit_index t = nu_index u) (nr_tables r))"
    unfolding chunk_unit_def Let_def fst_conv add_figures_ok(2) add_tables_ok(2) mset_append rendered_def [symmetric]
      chunk_sections_ok(2) by simp
qed

lemma chunk_units_ok:
  "in_order (fst acc) \<Longrightarrow> in_order (fst (foldl (chunk_unit b r) acc us))"
  "mset (table_texts (fst (foldl (chunk_unit b r) acc us))) = mset (table_texts (fst acc))
     + sum_list (map (\<lambda>u. rendered b (filter (\<lambda>t. et_unit_index t = nu_index u) (nr_tables r))) us)"
  by (induction us arbitrary: acc) (simp_all add: chunk_unit_ok ac_simps)

lemma rendered_by_unit:
  "distinct (map nu_index us) \<Longrightarrow>
     sum_list (map (\<lambda>u. rendered b (filter (\<lambda>t. et_unit_index t = nu_index u) ts)) us)
     = rendered b (filter (\<lambda>t. et_unit_index t \<in> set (map nu_index us)) ts)"
proof (induction us)
  case (Cons u us)
  have "mset (filter (\<lambda>t. et_unit_index t = nu_index u) ts @ filter (\<lambda>t. et_unit_index t \<in> set (map nu_index us)) ts)
      = mset (filter (\<lambda>t. et_unit_index t \<in> set (map nu_index (u # us))) ts)"
    using Cons.prems by (induction ts) auto
  then show ?case using Cons rendered_mset [of _ _ b] by (metis (no_types, lifting) distinct.simps(2) list.simps(9) rendered_simps(3) sum_list.Cons)
qed simp

text \<open>Without tables and figures nothing is left out either.\<close>

lemma chunk_section_inked:
  assumes "cs_tables st = []" "cs_figures st = []"
  shows "inked (cs_chunks (chunk_section b page st sec)) = inked (cs_chunks st) @ ink (snd sec)
    \<and> cs_tables (chunk_section b page st sec) = [] \<and> cs_figures (chunk_section b page st sec) = []"
proof -
  obtain h body where sec: "sec = (h, body)" by (cases sec)
  show ?thesis
    by (cases h) (simp_all add: chunk_section_def sec Let_def assms title_only_def add_pieces_ok split_to_size_ink)
qed

lemma chunk_sections_inked:
  "\<lbrakk> cs_tables st = []; cs_figures st = [] \<rbrakk> \<Longrightarrow>
     inked (cs_chunks (foldl (chunk_section b page) st secs)) = inked (cs_chunks st) @ concat (map (\<lambda>sec. ink (snd sec)) secs)
     \<and> cs_tables (foldl (chunk_section b page) st secs) = [] \<and> cs_figures (foldl (chunk_section b page) st secs) = []"
  by (induction secs arbitrary: st) (simp_all add: chunk_section_inked)

lemma chunk_units_inked:
  assumes "nr_tables r = []" "nr_figures r = []"
  shows "inked (fst (foldl (chunk_unit b r) acc us)) = inked (fst acc)
    @ concat (map (\<lambda>u. ink (nu_text u)) (filter (\<lambda>u. \<not> nu_text_is_table u) us))"
proof (induction us arbitrary: acc)
  case (Cons u us)
  have "inked (fst (chunk_unit b r acc u)) = inked (fst acc) @ (if nu_text_is_table u then [] else ink (nu_text u))"
    by (cases "nu_text_is_table u") (simp_all add: chunk_unit_def Let_def assms chunk_sections_inked split_unit_ink)
  then show ?case using Cons by simp
qed simp

lemma chunk_document_indices: "map p_index (chunk_document b r) = [0..<length (chunk_document b r)]"
proof -
  have "in_order (chunk_document b r)"
    unfolding chunk_document_def by (rule chunk_units_ok(1)) (simp add: in_order_def)
  then show ?thesis unfolding in_order_def .
qed


definition sample_document :: normalization_result where
  "sample_document =
     \<lparr> nr_document_id = ''d'', nr_mime_type = PDF_MIME, nr_language = None,
       nr_units = [\<lparr> nu_index = 1, nu_label = ''Page 1'', nu_text = ''Intro. Stack emissions rose.'',
                    nu_text_is_table = False \<rparr>,
                  \<lparr> nu_index = 2, nu_label = ''Page 2'', nu_text = ''Annex'', nu_text_is_table = False \<rparr>],
       nr_headings = [\<lparr> h_text = ''Stack emissions'', h_level = 1, h_unit_index = 1 \<rparr>],
       nr_tables = [\<lparr> et_unit_index = 1, et_rows = [[''Unit'', ''SO2''], [''1'', ''200'']],
                     et_heading = Some ''Stack emissions'' \<rparr>],
       nr_figures = [],
       nr_quality = \<lparr> qc_passed = True, qc_failures = [], qc_char_count = 33, qc_unit_count = 2,
                      qc_chars_per_page_tenths = None \<rparr> \<rparr>"


end
