(* ===== verification/StageHandlers.thy ===== *)
theory StageHandlers
  imports ScanHandler Normalize Chunker
begin

text \<open>The stages after SCAN: \<open>extraction_job_handler.py\<close>, \<open>normalization_job_handler.py\<close>,
\<open>chunking_job_handler.py\<close>, \<open>embedding_job_handler.py\<close>, \<open>embedding/service.py\<close> and their workers. Each handler is
one function on the shared world, returning its outcome (\<open>Inl\<close> for an exception that leaves \<open>process\<close>).
Where a handler commits its document's new status before it hands the document on, the two halves are
separate definitions. The JSON codecs of the artifacts, the format extractors and the embedding model are
parameters.\<close>

section \<open>What the handlers are given\<close>

datatype embed_error = EmbedValueError string | EmbedOtherError string

record embedding_provider =
  ep_model_name :: string
  ep_dimensions :: nat
  ep_max_sequence_tokens :: nat
  ep_embed_passages :: "string list \<Rightarrow> (embed_error, rat list list) result"
  ep_count_tokens :: "string list \<Rightarrow> nat list"

record stage_env =
  base :: scan_env
  put_raises :: bool
  db_raises :: bool
  fault :: string
  extraction :: extraction_service
  dump_extraction :: "extraction_result \<Rightarrow> bytes"
  load_extraction :: "bytes \<Rightarrow> extraction_result option"
  dump_normalized :: "normalization_result \<Rightarrow> bytes"
  load_normalized :: "bytes \<Rightarrow> normalization_result option"
  text_tools :: text_toolkit
  budget :: size_budget
  embedder :: embedding_provider
  EMBEDDING_BATCH_SIZE :: nat
  EMBEDDING_SKIP_NON_ENGLISH :: bool
  EMBEDDING_MIN_PROSE_RATIO :: "nat \<times> nat"

text \<open>The four outcome classes: the artifact's key or the number of rows written, where they have one.\<close>

record stage_outcome =
  so_document_id :: uuid
  so_status :: DocumentStatus
  so_message :: string
  so_key :: "string option"
  so_count :: nat
  so_failure_reason :: "string option"
  so_transient :: bool

definition outcome_of :: "uuid \<Rightarrow> DocumentStatus \<Rightarrow> string \<Rightarrow> stage_outcome" where
  "outcome_of i st msg =
     \<lparr> so_document_id = i, so_status = st, so_message = msg, so_key = None, so_count = 0,
       so_failure_reason = None, so_transient = False \<rparr>"

definition not_found :: "uuid \<Rightarrow> DocumentStatus \<Rightarrow> stage_outcome" where
  "not_found i st = (outcome_of i st ''Document record not found.'')
     \<lparr> so_failure_reason := Some ''DOCUMENT_NOT_FOUND: Document ID not registered in database.'' \<rparr>"

definition transient_failure :: "document \<Rightarrow> string \<Rightarrow> string \<Rightarrow> stage_outcome" where
  "transient_failure d msg reason = (outcome_of (doc_id d) (status d) msg)
     \<lparr> so_failure_reason := Some reason, so_transient := True \<rparr>"

definition not_applicable :: "document \<Rightarrow> string \<Rightarrow> stage_outcome" where
  "not_applicable d what = outcome_of (doc_id d) (status d)
     (''Document is '' @ status_value (status d) @ ''; '' @ what @ '' not applicable.'')"

text \<open>\<open>_audit\<close>: best-effort and once per document and event.\<close>

definition stage_audit :: "stage_env \<Rightarrow> uuid \<Rightarrow> AuditEventType \<Rightarrow> (string \<times> json) list \<Rightarrow> world \<Rightarrow> world" where
  "stage_audit env i ev det w = scan_audit (base env) i ev det False w"

definition read_object :: "stage_env \<Rightarrow> string \<Rightarrow> string \<Rightarrow> world \<Rightarrow> bytes option" where
  "read_object env bucket key w =
     (if get_raises (base env) then None else fs_get bucket key (objects w))"

text \<open>\<open>_fail\<close>: the status and the reason, then the audit event.\<close>

definition fail_document ::
  "stage_env \<Rightarrow> document \<Rightarrow> DocumentStatus \<Rightarrow> AuditEventType \<Rightarrow> (string \<times> json) list \<Rightarrow> string \<Rightarrow> string
     \<Rightarrow> world \<Rightarrow> (string, stage_outcome) result \<times> world" where
  "fail_document env d st ev det prefix reason w =
     (case update_doc (now (base env)) (d\<lparr> status := st, rejection_reason := Some reason \<rparr>) w of
        Inl e \<Rightarrow> (Inl ''IntegrityError'', w)
      | Inr w1 \<Rightarrow>
          (Inr ((outcome_of (doc_id d) st (prefix @ reason))\<lparr> so_failure_reason := Some reason \<rparr>),
           stage_audit env (doc_id d) ev det w1))"

definition reason_details :: "document \<Rightarrow> string \<Rightarrow> (string \<times> json) list" where
  "reason_details d reason = [(''filename'', JStr (filename d)), (''reason'', JStr reason)]"

definition enqueue_next :: "stage_env \<Rightarrow> uuid \<Rightarrow> JobStage \<Rightarrow> world \<Rightarrow> world" where
  "enqueue_next env i st w = enqueue_job (next_job_id (base env)) i st (now (base env)) w"

section \<open>EXTRACT\<close>

definition extraction_fail ::
  "stage_env \<Rightarrow> document \<Rightarrow> string \<Rightarrow> world \<Rightarrow> (string, stage_outcome) result \<times> world" where
  "extraction_fail env d reason w =
     fail_document env d DocumentStatus.EXTRACTION_FAILED AuditEventType.EXTRACTION_FAILED
       (reason_details d reason) ''Extraction failed: '' reason w"

text \<open>After the status is committed: the audit event, then the next job.\<close>

definition extraction_handoff ::
  "stage_env \<Rightarrow> uuid \<Rightarrow> extraction_result \<Rightarrow> world \<Rightarrow> stage_outcome \<times> world" where
  "extraction_handoff env i r w =
     (let key = extraction_key_for i;
          w1 = stage_audit env i EXTRACTION_COMPLETED
            [(''extraction_key'', JStr key), (''unit_count'', JInt (int (length (er_units r)))),
             (''char_count'', JInt (int (er_char_count r))), (''table_count'', JInt (int (length (er_tables r)))),
             (''heading_count'', JInt (int (length (er_headings r)))),
             (''extraction_method'', JStr (er_extraction_method r))] w
      in ((outcome_of i EXTRACTED ''Document text extracted and queued for normalization.'')
            \<lparr> so_key := Some key \<rparr>, enqueue_next env i NORMALIZE w1))"

definition extraction_store ::
  "stage_env \<Rightarrow> document \<Rightarrow> extraction_result \<Rightarrow> world \<Rightarrow> (string, stage_outcome) result \<times> world" where
  "extraction_store env d r w =
     (if put_raises env
      then (Inr (transient_failure d ''Storage error writing the extraction result.''
             (''STORAGE_ERROR: Failed to write extraction artifact ('' @ fault env @ '').'')), w)
      else
        let w1 = w\<lparr> objects := fs_put EXTRACTED_BUCKET (extraction_key_for (doc_id d)) (dump_extraction env r) (objects w) \<rparr>
        in case update_doc (now (base env))
                  (d\<lparr> status := EXTRACTED, extraction_method := Some (er_extraction_method r) \<rparr>) w1 of
             Inl e \<Rightarrow> (Inl ''IntegrityError'', w1)
           | Inr w2 \<Rightarrow> (let (out, w3) = extraction_handoff env (doc_id d) r w2 in (Inr out, w3)))"

definition extraction_process :: "stage_env \<Rightarrow> uuid \<Rightarrow> world \<Rightarrow> (string, stage_outcome) result \<times> world" where
  "extraction_process env i w =
     (case pg_get_by_id i (documents w) of
        None \<Rightarrow> (Inr (not_found i DocumentStatus.EXTRACTION_FAILED), w)
      | Some d \<Rightarrow>
          if status d \<noteq> VALIDATED
          then (Inr ((not_applicable d ''extraction'')\<lparr> so_key := Some (extraction_key_for i) \<rparr>), w)
          else case (case raw_path d of None \<Rightarrow> '''' | Some p \<Rightarrow> p) of
            [] \<Rightarrow> extraction_fail env d
                   ''MISSING_RAW_OBJECT: Document is VALIDATED but has no raw_path to read.'' w
          | c # cs \<Rightarrow>
              (case read_object env RAW_BUCKET (after_last (CHR ''/'') (c # cs)) w of
                 None \<Rightarrow> (Inr (transient_failure d ''Could not read the promoted file from raw storage.''
                            (''STORAGE_ERROR: Failed to read raw object ('' @ fault env @ '').'')), w)
               | Some data \<Rightarrow>
                   (case extract_content (extraction env) i data (mime_type d) of
                      Inl (ExtractionError e) \<Rightarrow> extraction_fail env d (''EXTRACTION_FAILED: '' @ e) w
                    | Inl (OtherError e) \<Rightarrow> (Inl e, w)
                    | Inr r \<Rightarrow> extraction_store env d r w)))"

section \<open>NORMALIZE\<close>

definition quality_details :: "quality_check \<Rightarrow> (string \<times> json) list" where
  "quality_details q =
     [(''char_count'', JInt (int (qc_char_count q))), (''unit_count'', JInt (int (qc_unit_count q)))]
     @ (case qc_chars_per_page_tenths q of None \<Rightarrow> [] | Some n \<Rightarrow> [(''chars_per_page'', JStr (format_fixed 1 n 10))])"

definition normalization_fail ::
  "stage_env \<Rightarrow> document \<Rightarrow> normalization_result \<Rightarrow> world \<Rightarrow> (string, stage_outcome) result \<times> world" where
  "normalization_fail env d r w =
     fail_document env d DocumentStatus.NORMALIZATION_FAILED AuditEventType.NORMALIZATION_FAILED
       ([(''filename'', JStr (filename d)), (''failures'', JList (map JStr (qc_failures (nr_quality r))))]
        @ quality_details (nr_quality r))
       ''Normalization rejected the document: ''
       (''QUALITY_CHECK_FAILED: '' @ join '', '' (qc_failures (nr_quality r))) w"

definition normalization_handoff ::
  "stage_env \<Rightarrow> uuid \<Rightarrow> normalization_result \<Rightarrow> world \<Rightarrow> stage_outcome \<times> world" where
  "normalization_handoff env i r w =
     (let key = normalized_key_for i;
          w1 = stage_audit env i NORMALIZATION_COMPLETED
            [(''normalized_key'', JStr key), (''char_count'', JInt (int (nr_char_count r))),
             (''unit_count'', JInt (int (length (nr_units r)))), (''language'', json_opt (nr_language r)),
             (''table_count'', JInt (int (length (nr_tables r))))] w
      in ((outcome_of i AWAITING_CLASSIFICATION ''Document normalized and awaiting classification.'')
            \<lparr> so_key := Some key \<rparr>, enqueue_next env i CHUNK w1))"

definition normalization_process :: "stage_env \<Rightarrow> uuid \<Rightarrow> world \<Rightarrow> (string, stage_outcome) result \<times> world" where
  "normalization_process env i w =
     (case pg_get_by_id i (documents w) of
        None \<Rightarrow> (Inr (not_found i DocumentStatus.NORMALIZATION_FAILED), w)
      | Some d \<Rightarrow>
          if status d \<noteq> EXTRACTED
          then (Inr ((not_applicable d ''normalization'')\<lparr> so_key := Some (normalized_key_for i) \<rparr>), w)
          else case Option.bind (read_object env EXTRACTED_BUCKET (extraction_key_for i) w) (load_extraction env) of
            None \<Rightarrow> (Inr (transient_failure d ''Could not read the extraction artifact.''
                       (''STORAGE_ERROR: Failed to read extraction artifact ('' @ fault env @ '').'')), w)
          | Some ex \<Rightarrow>
              let r = normalize (text_tools env) ex in
              if \<not> qc_passed (nr_quality r) then normalization_fail env d r w
              else if put_raises env
              then (Inr (transient_failure d ''Storage error writing the normalized result.''
                     (''STORAGE_ERROR: Failed to write normalized artifact ('' @ fault env @ '').'')), w)
              else
                let w1 = w\<lparr> objects := fs_put NORMALIZED_BUCKET (normalized_key_for i) (dump_normalized env r) (objects w) \<rparr>
                in case update_doc (now (base env)) (d\<lparr> status := AWAITING_CLASSIFICATION \<rparr>) w1 of
                     Inl e \<Rightarrow> (Inl ''IntegrityError'', w1)
                   | Inr w2 \<Rightarrow> (let (out, w3) = normalization_handoff env i r w2 in (Inr out, w3)))"

section \<open>CHUNK\<close>

text \<open>The row a passage is stored as.\<close>

definition chunk_row :: "uuid \<Rightarrow> string \<Rightarrow> passage \<Rightarrow> chunk" where
  "chunk_row i doc_title p =
     \<lparr> chunk_document_id = i, chunk_scale = p_scale p, chunk_index = p_index p, chunk_text = p_text p,
       page_number = p_page_number p, section_heading = p_section_heading p, is_table = p_is_table p,
       char_count = p_char_count p, document_title = Some doc_title, embedding = None \<rparr>"

text \<open>\<open>_persist\<close>: delete and insert in one transaction.\<close>

definition persist_chunks :: "uuid \<Rightarrow> string \<Rightarrow> passage list \<Rightarrow> world \<Rightarrow> world" where
  "persist_chunks i doc_title ps w =
     w\<lparr> chunks := filter (\<lambda>c. chunk_document_id c \<noteq> i) (chunks w) @ map (chunk_row i doc_title) ps \<rparr>"

text \<open>\<open>load_result\<close> of the first two handlers and \<open>load_chunks\<close>: an artifact or the passages of a document, read back. \<open>None\<close> is the
exception of a missing or unreadable artifact.\<close>

definition load_extraction_result :: "stage_env \<Rightarrow> uuid \<Rightarrow> world \<Rightarrow> extraction_result option" where
  "load_extraction_result env i w =
     Option.bind (read_object env EXTRACTED_BUCKET (extraction_key_for i) w) (load_extraction env)"

definition load_normalized_result :: "stage_env \<Rightarrow> uuid \<Rightarrow> world \<Rightarrow> normalization_result option" where
  "load_normalized_result env i w =
     Option.bind (read_object env NORMALIZED_BUCKET (normalized_key_for i) w) (load_normalized env)"

definition load_chunks :: "uuid \<Rightarrow> world \<Rightarrow> chunk list" where
  "load_chunks i w = sort_key chunk_index (filter (\<lambda>c. chunk_document_id c = i) (chunks w))"

definition display_title :: "document \<Rightarrow> string" where
  "display_title d =
     (let t = strip (case title d of None \<Rightarrow> '''' | Some t \<Rightarrow> t)
      in if t = [] then after_last (CHR ''/'') (filename d) else t)"

definition chunking_fail ::
  "stage_env \<Rightarrow> document \<Rightarrow> string \<Rightarrow> world \<Rightarrow> (string, stage_outcome) result \<times> world" where
  "chunking_fail env d reason w =
     fail_document env d DocumentStatus.CHUNKING_FAILED AuditEventType.CHUNKING_FAILED
       (reason_details d reason) ''Chunking rejected the document: '' reason w"

definition chunking_handoff ::
  "stage_env \<Rightarrow> uuid \<Rightarrow> chunking_result \<Rightarrow> world \<Rightarrow> stage_outcome \<times> world" where
  "chunking_handoff env i r w =
     (let n = length (cr_chunks r); w1 = enqueue_next env i EMBED w in
      ((outcome_of i CHUNKED (''Document split into '' @ nat_str n @ '' passages.''))\<lparr> so_count := n \<rparr>,
       stage_audit env i CHUNKING_COMPLETED
         [(''chunk_count'', JInt (int n)), (''table_chunk_count'', JInt (int (cr_table_chunk_count r))),
          (''total_chars'', JInt (int (cr_total_chars r)))] w1))"

definition chunking_process :: "stage_env \<Rightarrow> uuid \<Rightarrow> world \<Rightarrow> (string, stage_outcome) result \<times> world" where
  "chunking_process env i w =
     (case pg_get_by_id i (documents w) of
        None \<Rightarrow> (Inr (not_found i DocumentStatus.CHUNKING_FAILED), w)
      | Some d \<Rightarrow>
          if status d \<noteq> AWAITING_CLASSIFICATION then (Inr (not_applicable d ''chunking''), w)
          else case Option.bind (read_object env NORMALIZED_BUCKET (normalized_key_for i) w) (load_normalized env) of
            None \<Rightarrow> (Inr (transient_failure d ''Could not read the normalized artifact.''
                       (''STORAGE_ERROR: Failed to read normalized artifact ('' @ fault env @ '').'')), w)
          | Some nr \<Rightarrow>
              let r = chunk_service (budget env) nr in
              if cr_chunks r = []
              then chunking_fail env d ''NO_CHUNKS_PRODUCED: Normalized document yielded no passages.'' w
              else if db_raises env
              then (Inr (transient_failure d ''Database error writing chunks.''
                     (''STORAGE_ERROR: Failed to persist chunks ('' @ fault env @ '').'')), w)
              else
                let w1 = persist_chunks i (display_title d) (cr_chunks r) w
                in case update_doc (now (base env)) (d\<lparr> status := CHUNKED \<rparr>) w1 of
                     Inl e \<Rightarrow> (Inl ''IntegrityError'', w1)
                   | Inr w2 \<Rightarrow> (let (out, w3) = chunking_handoff env i r w2 in (Inr out, w3)))"

section \<open>EMBED\<close>

record embedding_result =
  em_document_id :: uuid
  em_model_name :: string
  em_dimensions :: nat
  em_vectors :: "rat list list"
  em_max_sequence_tokens :: nat
  em_token_counts :: "nat list"

definition em_truncated_count :: "embedding_result \<Rightarrow> nat" where
  "em_truncated_count r = length (filter (\<lambda>n. em_max_sequence_tokens r < n) (em_token_counts r))"

definition em_truncated_tokens :: "embedding_result \<Rightarrow> nat" where
  "em_truncated_tokens r = sum_list (map (\<lambda>n. n - em_max_sequence_tokens r)
     (filter (\<lambda>n. em_max_sequence_tokens r < n) (em_token_counts r)))"

text \<open>\<open>for start in range(0, len(texts), batch_size)\<close>; the size is positive.\<close>

function batches :: "nat \<Rightarrow> 'a list \<Rightarrow> 'a list list" where
  "batches n xs = (if xs = [] \<or> n = 0 then [] else take n xs # batches n (drop n xs))"
  by pat_completeness auto
termination by (relation "measure (\<lambda>(n, xs). length xs)") auto

declare batches.simps [simp del]

lemma concat_batches: "0 < n \<Longrightarrow> concat (batches n xs) = xs"
proof (induction n xs rule: batches.induct)
  case (1 n xs)
  then show ?case by (subst batches.simps) auto
qed

fun embed_batches ::
  "embedding_provider \<Rightarrow> string list list \<Rightarrow> (embed_error, rat list list \<times> nat list) result" where
  "embed_batches p [] = Inr ([], [])"
| "embed_batches p (b # bs) =
     (case ep_embed_passages p b of
        Inl e \<Rightarrow> Inl e
      | Inr vs \<Rightarrow>
          (case embed_batches p bs of
             Inl e \<Rightarrow> Inl e
           | Inr (ws, ns) \<Rightarrow> Inr (vs @ ws, ep_count_tokens p b @ ns)))"

definition embed_document ::
  "embedding_provider \<Rightarrow> nat \<Rightarrow> uuid \<Rightarrow> string list \<Rightarrow> (embed_error, embedding_result) result" where
  "embed_document p batch_size i texts =
     (case embed_batches p (batches batch_size texts) of
        Inl e \<Rightarrow> Inl e
      | Inr (vectors, counts) \<Rightarrow>
          Inr \<lparr> em_document_id = i, em_model_name = ep_model_name p, em_dimensions = ep_dimensions p,
                em_vectors = vectors, em_max_sequence_tokens = ep_max_sequence_tokens p,
                em_token_counts = counts \<rparr>)"

text \<open>\<open>prose_ratio(text) < minimum\<close>, for the minimum \<open>fst q / snd q\<close>; the empty text has ratio 0.\<close>

definition prose_counted :: "string \<Rightarrow> nat" where
  "prose_counted s = sum_list (map length
     (filter (\<lambda>tok. 3 \<le> length tok \<and> \<not> list_ex is_digit tok) (split_ws s)))"

definition prose_ratio_below :: "nat \<times> nat \<Rightarrow> string \<Rightarrow> bool" where
  "prose_ratio_below q s =
     (if s = [] then 0 < fst q else prose_counted s * snd q < fst q * length s)"

definition DEFAULT_LANGUAGE :: string where "DEFAULT_LANGUAGE = ''en''"
definition SUPPORTED_LANGUAGES :: "string list" where "SUPPORTED_LANGUAGES = [''en'']"

definition detected_language :: "stage_env \<Rightarrow> uuid \<Rightarrow> world \<Rightarrow> string option" where
  "detected_language env i w =
     (case Option.bind (read_object env NORMALIZED_BUCKET (normalized_key_for i) w) (load_normalized env) of
        None \<Rightarrow> None
      | Some r \<Rightarrow>
          if prose_ratio_below (EMBEDDING_MIN_PROSE_RATIO env) (nr_full_text r) then Some DEFAULT_LANGUAGE
          else nr_language r)"

definition language_supported :: "string option \<Rightarrow> bool" where
  "language_supported l = (case l of None \<Rightarrow> False | Some x \<Rightarrow> x \<in> set SUPPORTED_LANGUAGES)"

definition skip_unsupported_language ::
  "stage_env \<Rightarrow> document \<Rightarrow> string option \<Rightarrow> world \<Rightarrow> (string, stage_outcome) result \<times> world" where
  "skip_unsupported_language env d language w =
     (case update_doc (now (base env)) (d\<lparr> status := SKIPPED_UNSUPPORTED_LANGUAGE \<rparr>) w of
        Inl e \<Rightarrow> (Inl ''IntegrityError'', w)
      | Inr w1 \<Rightarrow>
          (Inr (outcome_of (doc_id d) SKIPPED_UNSUPPORTED_LANGUAGE
             (''Language '' @ SQ @ (case language of None \<Rightarrow> ''None'' | Some l \<Rightarrow> l) @ SQ
              @ '' is not covered by the configured embedding model.'')),
           stage_audit env (doc_id d) EMBEDDING_SKIPPED
             [(''filename'', JStr (filename d)), (''language'', json_opt language),
              (''model'', JStr (ep_model_name (embedder env)))] w1))"

definition embedding_fail ::
  "stage_env \<Rightarrow> document \<Rightarrow> string \<Rightarrow> world \<Rightarrow> (string, stage_outcome) result \<times> world" where
  "embedding_fail env d reason w =
     fail_document env d DocumentStatus.EMBEDDING_FAILED AuditEventType.EMBEDDING_FAILED
       (reason_details d reason) ''Embedding rejected the document: '' reason w"

definition stored_chunks :: "uuid \<Rightarrow> world \<Rightarrow> chunk list" where
  "stored_chunks i w = sort_key chunk_index (filter (\<lambda>c. chunk_document_id c = i) (chunks w))"

text \<open>Rows are written back through their identity, which the unique index makes (document, scale, index).\<close>

definition chunk_key :: "chunk \<Rightarrow> uuid \<times> string \<times> nat" where
  "chunk_key c = (chunk_document_id c, chunk_scale c, chunk_index c)"

definition write_vectors :: "chunk list \<Rightarrow> rat list list \<Rightarrow> world \<Rightarrow> world" where
  "write_vectors rows vectors w =
     w\<lparr> chunks := map (\<lambda>c. case map_of (zip (map chunk_key rows) vectors) (chunk_key c) of
                        None \<Rightarrow> c | Some v \<Rightarrow> c\<lparr> embedding := Some v \<rparr>) (chunks w) \<rparr>"

definition embedding_store ::
  "stage_env \<Rightarrow> document \<Rightarrow> chunk list \<Rightarrow> embedding_result \<Rightarrow> world \<Rightarrow> (string, stage_outcome) result \<times> world" where
  "embedding_store env d rows r w =
     (if length (em_vectors r) \<noteq> length rows
      then embedding_fail env d (''VECTOR_COUNT_MISMATCH: '' @ nat_str (length (em_vectors r)) @ '' vectors for ''
             @ nat_str (length rows) @ '' chunks.'') w
      else if db_raises env
      then (Inr (transient_failure d ''Database error writing embeddings.''
             (''STORAGE_ERROR: Failed to persist embeddings ('' @ fault env @ '').'')), w)
      else
        let w1 = write_vectors rows (em_vectors r) w; n = length (em_vectors r) in
        case update_doc (now (base env)) (d\<lparr> status := LIVE \<rparr>) w1 of
          Inl e \<Rightarrow> (Inl ''IntegrityError'', w1)
        | Inr w2 \<Rightarrow>
            (Inr ((outcome_of (doc_id d) LIVE
                (''Document embedded into '' @ nat_str n @ '' vectors and is searchable.''))\<lparr> so_count := n \<rparr>),
             stage_audit env (doc_id d) EMBEDDING_COMPLETED
               [(''vector_count'', JInt (int n)), (''model'', JStr (em_model_name r)),
                (''dimensions'', JInt (int (em_dimensions r)))] w2))"

definition embedding_process :: "stage_env \<Rightarrow> uuid \<Rightarrow> world \<Rightarrow> (string, stage_outcome) result \<times> world" where
  "embedding_process env i w =
     (case pg_get_by_id i (documents w) of
        None \<Rightarrow> (Inr (not_found i DocumentStatus.EMBEDDING_FAILED), w)
      | Some d \<Rightarrow>
          if status d \<noteq> CHUNKED then (Inr (not_applicable d ''embedding''), w)
          else
            let language = detected_language env i w in
            if EMBEDDING_SKIP_NON_ENGLISH env \<and> \<not> language_supported language
            then skip_unsupported_language env d language w
            else
              let rows = stored_chunks i w in
              if rows = []
              then embedding_fail env d ''NO_CHUNKS_FOUND: Document is CHUNKED but has no passages to embed.'' w
              else case embed_document (embedder env) (EMBEDDING_BATCH_SIZE env) i (map chunk_text rows) of
                Inl (EmbedValueError e) \<Rightarrow> embedding_fail env d (''EMBEDDING_CONFIG_ERROR: '' @ e) w
              | Inl (EmbedOtherError e) \<Rightarrow>
                  (Inr (transient_failure d ''Embedding inference failed.'' (''EMBEDDING_ERROR: '' @ e)), w)
              | Inr r \<Rightarrow> embedding_store env d rows r w)"

section \<open>The workers\<close>

text \<open>\<open>process_job\<close> of the four workers: a reason is a failure, transient or permanent; an exception that
leaves the handler is unexpected.\<close>

definition stage_outcome_of :: "(string, stage_outcome) result \<Rightarrow> outcome" where
  "stage_outcome_of r =
     (case r of
        Inl e \<Rightarrow> UnexpectedError e
      | Inr out \<Rightarrow>
          (case so_failure_reason out of
             None \<Rightarrow> Processed
           | Some reason \<Rightarrow>
               if reason = [] then Processed
               else if so_transient out then TransientError reason else PermanentError reason))"

definition stage_process :: "stage_env \<Rightarrow> JobStage \<Rightarrow> uuid \<Rightarrow> world \<Rightarrow> (string, stage_outcome) result \<times> world" where
  "stage_process env st i w =
     (case st of
        EXTRACT \<Rightarrow> extraction_process env i w
      | NORMALIZE \<Rightarrow> normalization_process env i w
      | CHUNK \<Rightarrow> chunking_process env i w
      | EMBED \<Rightarrow> embedding_process env i w
      | _ \<Rightarrow> (Inl ''no such stage'', w))"

definition stage_worker :: "stage_env \<Rightarrow> JobStage \<Rightarrow> uuid \<Rightarrow> world \<Rightarrow> outcome \<times> world" where
  "stage_worker env st i w = (let (r, w1) = stage_process env st i w in (stage_outcome_of r, w1))"

section \<open>What a stage does to the documents\<close>

text \<open>Either nothing, or one document gets a new status and keeps its tier.\<close>

definition moved :: "uuid \<Rightarrow> DocumentStatus \<Rightarrow> world \<Rightarrow> world \<Rightarrow> bool" where
  "moved i s w w' =
     (\<exists>d'. find_doc i (documents w') = Some d' \<and> status d' = s
        \<and> (\<exists>d. find_doc i (documents w) = Some d \<and> classification d' = classification d)
        \<and> (\<forall>j. j \<noteq> i \<longrightarrow> find_doc j (documents w') = find_doc j (documents w))
        \<and> (wf_docs (documents w) \<longrightarrow> wf_docs (documents w')))"

lemma moved_frame: "\<lbrakk> moved i s w w'; documents w2 = documents w' \<rbrakk> \<Longrightarrow> moved i s w w2"
  by (simp add: moved_def)

lemma moved_frame_before: "\<lbrakk> moved i s w1 w'; documents w = documents w1 \<rbrakk> \<Longrightarrow> moved i s w w'"
  by (simp add: moved_def)

lemma update_moves:
  assumes "find_doc i (documents w) = Some d" "doc_id x = i" "update_doc t x w = Inr w'"
  shows "moved i (status x) w w'"
proof -
  obtain r rows where upd: "pg_update_document t x (documents w) = Inr (r, rows)" and w': "w' = w\<lparr> documents := rows \<rparr>"
    using assms(3) by (auto simp: update_doc_Inr)
  have row: "find_doc (doc_id x) (documents w) = Some d" using assms(1,2) by simp
  have r: "r = touch t d (written_back x d)" using pg_update_Inr [OF row upd] by simp
  have "wf_docs (documents w) \<Longrightarrow> wf_docs rows" using postgres_update_keeps [of "documents w" t x] upd by simp
  then show ?thesis
    unfolding moved_def w' using pg_update_find [OF row upd] assms(1,2) r by simp
qed

lemma stage_audit_frame [simp, frame_simps]:
  "documents (stage_audit env i ev det w) = documents w" "jobs (stage_audit env i ev det w) = jobs w"
  "objects (stage_audit env i ev det w) = objects w" "chunks (stage_audit env i ev det w) = chunks w"
  by (simp_all add: stage_audit_def)

lemma enqueue_next_frame [simp, frame_simps]:
  "documents (enqueue_next env i st w) = documents w" "objects (enqueue_next env i st w) = objects w"
  "chunks (enqueue_next env i st w) = chunks w"
  "jobs (enqueue_next env i st w) = jobs w @ [new_job (next_job_id (base env)) i st (now (base env))]"
  by (simp_all add: enqueue_next_def)

lemma write_frame [simp, frame_simps]:
  "documents (persist_chunks i t ps w) = documents w" "documents (write_vectors rows vs w) = documents w"
  "jobs (persist_chunks i t ps w) = jobs w" "jobs (write_vectors rows vs w) = jobs w"
  "objects (persist_chunks i t ps w) = objects w" "objects (write_vectors rows vs w) = objects w"
  by (simp_all add: persist_chunks_def write_vectors_def)

lemma persisted_chunks_are_loaded:
  "load_chunks i (persist_chunks i t ps w) = sort_key chunk_index (map (chunk_row i t) ps)"
  by (simp add: load_chunks_def persist_chunks_def chunk_row_def filter_map comp_def)

lemma get_doc: "pg_get_by_id i (documents w) = Some d \<Longrightarrow> find_doc i (documents w) = Some d \<and> doc_id d = i"
  using find_doc_Some by (auto simp: pg_get_by_id_def)

lemma moved_simps [simp]:
  "moved i s w (stage_audit env j ev det w1) = moved i s w w1" "moved i s w (enqueue_next env j st w1) = moved i s w w1"
  by (simp_all add: moved_def)

lemma fail_document_moves:
  assumes "find_doc i (documents w) = Some d" "fail_document env d s ev det pre reason w = (r, w')"
  shows "w' = w \<or> moved i s w w'"
proof -
  have "doc_id d = i" using find_doc_Some [OF assms(1)] by simp
  then show ?thesis
    using assms update_moves [OF assms(1), of "d\<lparr> status := s, rejection_reason := Some reason \<rparr>" "now (base env)"]
    by (auto simp: fail_document_def split: sum.splits)
qed

definition stage_edges :: "JobStage \<Rightarrow> (DocumentStatus \<times> DocumentStatus) list" where
  "stage_edges st =
     (case st of
        SCAN \<Rightarrow> []
      | EXTRACT \<Rightarrow> [(VALIDATED, EXTRACTED), (VALIDATED, DocumentStatus.EXTRACTION_FAILED)]
      | NORMALIZE \<Rightarrow> [(EXTRACTED, AWAITING_CLASSIFICATION), (EXTRACTED, DocumentStatus.NORMALIZATION_FAILED)]
      | CHUNK \<Rightarrow> [(AWAITING_CLASSIFICATION, CHUNKED), (AWAITING_CLASSIFICATION, DocumentStatus.CHUNKING_FAILED)]
      | EMBED \<Rightarrow> [(CHUNKED, LIVE), (CHUNKED, DocumentStatus.EMBEDDING_FAILED), (CHUNKED, SKIPPED_UNSUPPORTED_LANGUAGE)])"

definition edge_step :: "JobStage \<Rightarrow> uuid \<Rightarrow> world \<Rightarrow> world \<Rightarrow> bool" where
  "edge_step st i w w' =
     (documents w' = documents w \<or>
      (\<exists>d s. find_doc i (documents w) = Some d \<and> (status d, s) \<in> set (stage_edges st) \<and> moved i s w w'))"

lemma edge_step_refl [simp]: "edge_step st i w w" "documents w' = documents w \<Longrightarrow> edge_step st i w w'"
  by (simp_all add: edge_step_def)

lemma edge_stepI:
  "\<lbrakk> find_doc i (documents w) = Some d; (status d, s) \<in> set (stage_edges st); w' = w \<or> moved i s w w' \<rbrakk> \<Longrightarrow> edge_step st i w w'"
  by (auto simp: edge_step_def)

text \<open>A write-back of the document with a new status, in a world with the same documents.\<close>

lemma update_edge:
  assumes "find_doc i (documents w) = Some d" "(status d, status x) \<in> set (stage_edges st)" "doc_id x = i"
    and "documents w0 = documents w" "update_doc t x w0 = Inr w1" "documents w' = documents w1"
  shows "edge_step st i w w'"
proof -
  have "moved i (status x) w0 w1" using update_moves [of i w0 d x] assms(1,3-5) by simp
  then have "moved i (status x) w w'" using moved_frame [OF _ assms(6)] moved_frame_before assms(4) by metis
  then show ?thesis using assms(1,2) by (auto simp: edge_step_def)
qed

lemma extraction_edges:
  assumes "extraction_process env i w = (r, w')"
  shows "edge_step EXTRACT i w w'"
proof (cases "pg_get_by_id i (documents w)")
  case None
  then show ?thesis using assms by (simp add: extraction_process_def)
next
  case (Some d)
  note d = get_doc [OF Some]
  show ?thesis
  proof (cases "status d = VALIDATED")
    case False
    then show ?thesis using assms Some by (simp add: extraction_process_def)
  next
    case True
    have fail: "edge_step EXTRACT i w w'" if "extraction_fail env d reason w = (r, w')" for reason
      using fail_document_moves [of i w d] that d True
      by (intro edge_stepI [of i w d "DocumentStatus.EXTRACTION_FAILED"]) (auto simp: extraction_fail_def stage_edges_def)
    have store: "edge_step EXTRACT i w w'" if "extraction_store env d ex w = (r, w')" for ex
    proof -
      have upd: "edge_step EXTRACT i w w'"
        if "update_doc (now (base env)) (d\<lparr> status := EXTRACTED, extraction_method := m \<rparr>) w0 = Inr w1"
          "documents w0 = documents w" "documents w' = documents w1" for w0 w1 m
        using update_edge [OF conjunct1 [OF d] _ _ that(2,1,3), of EXTRACT] d True by (simp add: stage_edges_def)
      show ?thesis
        using that upd
        by (auto simp: extraction_store_def extraction_handoff_def Let_def split: if_splits sum.splits prod.splits)
    qed
    show ?thesis
      using assms Some True
      by (auto simp: extraction_process_def split: list.splits option.splits sum.splits extraction_failure.splits
          intro: fail store)
  qed
qed


lemma normalization_edges:
  assumes "normalization_process env i w = (r, w')"
  shows "edge_step NORMALIZE i w w'"
proof (cases "pg_get_by_id i (documents w)")
  case None
  then show ?thesis using assms by (simp add: normalization_process_def)
next
  case (Some d)
  note d = get_doc [OF Some]
  show ?thesis
  proof (cases "status d = EXTRACTED")
    case False
    then show ?thesis using assms Some by (simp add: normalization_process_def)
  next
    case True
    have fail: "edge_step NORMALIZE i w w'" if "normalization_fail env d nr w = (r, w')" for nr
      using fail_document_moves [of i w d] that d True
      by (intro edge_stepI [of i w d "DocumentStatus.NORMALIZATION_FAILED"])
        (auto simp: normalization_fail_def stage_edges_def)
    have upd: "edge_step NORMALIZE i w w'"
      if "update_doc (now (base env)) (d\<lparr> status := AWAITING_CLASSIFICATION \<rparr>) w0 = Inr w1"
        "documents w0 = documents w" "documents w' = documents w1" for w0 w1
      using update_edge [OF conjunct1 [OF d] _ _ that(2,1,3), of NORMALIZE] d True by (simp add: stage_edges_def)
    show ?thesis
      using assms Some True upd
      by (auto simp: normalization_process_def normalization_handoff_def Let_def
          split: if_splits option.splits sum.splits intro: fail)
  qed
qed

lemma chunking_edges:
  assumes "chunking_process env i w = (r, w')"
  shows "edge_step CHUNK i w w'"
proof (cases "pg_get_by_id i (documents w)")
  case None
  then show ?thesis using assms by (simp add: chunking_process_def)
next
  case (Some d)
  note d = get_doc [OF Some]
  show ?thesis
  proof (cases "status d = AWAITING_CLASSIFICATION")
    case False
    then show ?thesis using assms Some by (simp add: chunking_process_def)
  next
    case True
    have fail: "edge_step CHUNK i w w'" if "chunking_fail env d reason w = (r, w')" for reason
      using fail_document_moves [of i w d] that d True
      by (intro edge_stepI [of i w d "DocumentStatus.CHUNKING_FAILED"]) (auto simp: chunking_fail_def stage_edges_def)
    have upd: "edge_step CHUNK i w w'"
      if "update_doc (now (base env)) (d\<lparr> status := CHUNKED \<rparr>) w0 = Inr w1"
        "documents w0 = documents w" "documents w' = documents w1" for w0 w1
      using update_edge [OF conjunct1 [OF d] _ _ that(2,1,3), of CHUNK] d True by (simp add: stage_edges_def)
    show ?thesis
      using assms Some True upd
      by (auto simp: chunking_process_def chunking_handoff_def Let_def
          split: if_splits option.splits sum.splits intro: fail)
  qed
qed

lemma embedding_edges:
  assumes "embedding_process env i w = (r, w')"
  shows "edge_step EMBED i w w'"
proof (cases "pg_get_by_id i (documents w)")
  case None
  then show ?thesis using assms by (simp add: embedding_process_def)
next
  case (Some d)
  note d = get_doc [OF Some]
  show ?thesis
  proof (cases "status d = CHUNKED")
    case False
    then show ?thesis using assms Some by (simp add: embedding_process_def)
  next
    case True
    have fail: "edge_step EMBED i w w'" if "embedding_fail env d reason w = (r, w')" for reason
      using fail_document_moves [of i w d] that d True
      by (intro edge_stepI [of i w d "DocumentStatus.EMBEDDING_FAILED"]) (auto simp: embedding_fail_def stage_edges_def)
    have upd: "edge_step EMBED i w w'"
      if "update_doc (now (base env)) (d\<lparr> status := s \<rparr>) w0 = Inr w1" "s \<in> {LIVE, SKIPPED_UNSUPPORTED_LANGUAGE}"
        "documents w0 = documents w" "documents w' = documents w1" for w0 w1 s
      using update_edge [OF conjunct1 [OF d] _ _ that(3,1,4), of EMBED] d True that(2) by (auto simp: stage_edges_def)
    have skip: "edge_step EMBED i w w'" if "skip_unsupported_language env d l w = (r, w')" for l
      using that upd by (auto simp: skip_unsupported_language_def split: sum.splits)
    have store: "edge_step EMBED i w w'" if "embedding_store env d rows em w = (r, w')" for rows em
      using that upd by (auto simp: embedding_store_def Let_def split: if_splits sum.splits intro: fail)
    show ?thesis
      using assms Some True
      by (auto simp: embedding_process_def Let_def
          split: if_splits option.splits sum.splits embed_error.splits intro: fail skip store)
  qed
qed

lemma stage_worker_edges: "stage_worker env st i w = (out, w') \<Longrightarrow> edge_step st i w w'"
  using extraction_edges normalization_edges chunking_edges embedding_edges
  by (auto simp: stage_worker_def stage_process_def Let_def split: JobStage.splits prod.splits)

text \<open>C14: Every stage moves its own document along the life cycle and nothing else. Whatever a worker run
ends in, the table keeps its constraints, every other document is exactly as it was, and the document of the
job is unchanged or has gone from the status the stage waits for to one of that stage's results, with its tier untouched.\<close>

theorem stages_follow_the_lifecycle:
  assumes "wf_docs (documents w)" "stage_worker env st i w = (out, w')"
  shows "wf_docs (documents w') \<and> (\<forall>j. j \<noteq> i \<longrightarrow> find_doc j (documents w') = find_doc j (documents w))
    \<and> (case find_doc i (documents w) of
         None \<Rightarrow> find_doc i (documents w') = None
       | Some d \<Rightarrow> \<exists>d'. find_doc i (documents w') = Some d' \<and> classification d' = classification d
           \<and> (d' = d \<or> (status d, status d') \<in> set (stage_edges st)))"
  using stage_worker_edges [OF assms(2)] assms(1)
  by (cases "find_doc i (documents w)") (auto simp: edge_step_def moved_def)

text \<open>C15: A transient failure leaves no trace. Whenever a stage worker reports an outcome the queue will
retry as transient (storage or database fault, failed inference), documents, jobs, chunks, audit log and
objects are exactly what they were, so the retry starts from the same state.\<close>

theorem transient_failure_leaves_no_trace:
  assumes "stage_worker env st i w = (TransientError reason, w')"
  shows "w' = w"
proof -
  obtain r where r: "stage_process env st i w = (r, w')" "stage_outcome_of r = TransientError reason"
    using assms by (auto simp: stage_worker_def Let_def split: prod.splits)
  then obtain out where out: "r = Inr out" "so_transient out"
    by (auto simp: stage_outcome_of_def split: sum.splits option.splits if_splits)
  have fail: "\<not> so_transient out" if "fail_document env d s ev det pre rs w = (Inr out, w')" for d s ev det pre rs
    using that by (auto simp: fail_document_def outcome_of_def split: sum.splits)
  have "extraction_process env i w = (Inr out, w') \<Longrightarrow> w' = w"
    using out(2) by (auto simp: extraction_process_def extraction_store_def extraction_handoff_def extraction_fail_def
        Let_def outcome_of_def split: option.splits list.splits sum.splits if_splits extraction_failure.splits dest: fail)
  moreover have "normalization_process env i w = (Inr out, w') \<Longrightarrow> w' = w"
    using out(2) by (auto simp: normalization_process_def normalization_handoff_def normalization_fail_def
        Let_def outcome_of_def split: option.splits sum.splits if_splits dest: fail)
  moreover have "chunking_process env i w = (Inr out, w') \<Longrightarrow> w' = w"
    using out(2) by (auto simp: chunking_process_def chunking_handoff_def chunking_fail_def
        Let_def outcome_of_def split: option.splits sum.splits if_splits dest: fail)
  moreover have "embedding_process env i w = (Inr out, w') \<Longrightarrow> w' = w"
    using out(2) by (auto simp: embedding_process_def embedding_store_def skip_unsupported_language_def embedding_fail_def
        Let_def outcome_of_def split: option.splits sum.splits if_splits embed_error.splits dest: fail)
  ultimately show ?thesis using r(1) out(1) by (auto simp: stage_process_def split: JobStage.splits)
qed

end
