(* ===== verification/Pipeline.thy ===== *)
theory Pipeline
  imports StageHandlers
begin

text \<open>The stages composed: what a document needs to get from VALIDATED to LIVE, that it then does, and what
redelivered jobs, crashes between two commits and storage faults do to it.\<close>

section \<open>A document gets through\<close>

text \<open>A stage only waits for active statuses, so its write-back never collides with the unique index.\<close>

lemma status_update_accepted:
  assumes "wf_docs (documents w)" "find_doc i (documents w) = Some d" "active_status (status d)"
    and "doc_id x = i" "checksum x = checksum d"
  shows "\<exists>w'. update_doc t x w = Inr w'"
proof -
  have d: "d \<in> set (documents w)" "doc_id d = i" using find_doc_Some [OF assms(2)] by auto
  have "c = d" if "c \<in> set (documents w)" "active_checksum c = Some h" "active_checksum d = Some h" for c h
    using active_unique [OF assms(1) that(1) d(1) that(2,3)] by simp
  moreover have "active_checksum d = checksum x" using assms(3,5) by (simp add: active_checksum_def)
  ultimately have "\<forall>c\<in>set (documents w). doc_id c \<noteq> i \<longrightarrow> active_checksum c = None \<or> active_checksum c \<noteq> checksum x"
    using d(2) by (metis option.exhaust)
  then show ?thesis
    using pg_update_accepted [of "documents w" x d t] assms by (auto simp: update_doc_def)
qed

text \<open>The row a write-back leaves.\<close>

lemma update_doc_row:
  assumes "find_doc i (documents w) = Some d" "doc_id x = i" "update_doc t x w = Inr w'"
  shows "find_doc i (documents w') = Some (touch t d (written_back x d)) \<and> jobs w' = jobs w \<and> objects w' = objects w
    \<and> chunks w' = chunks w \<and> audit_log w' = audit_log w"
proof -
  obtain r rows where upd: "pg_update_document t x (documents w) = Inr (r, rows)" and w': "w' = w\<lparr> documents := rows \<rparr>"
    using assms(3) by (auto simp: update_doc_Inr)
  have "find_doc (doc_id x) (documents w) = Some d" using assms(1,2) by simp
  from pg_update_Inr [OF this upd] pg_update_find [OF this upd] show ?thesis using w' assms(2) by simp
qed

text \<open>A stage that goes well: its document moves, one job is queued for the next stage or none, and the
other tables are what the stage made of them.\<close>

definition advanced :: "uuid \<Rightarrow> document \<Rightarrow> DocumentStatus \<Rightarrow> JobStage list \<Rightarrow> world \<Rightarrow> world \<Rightarrow> bool" where
  "advanced i d s next w w' =
     (wf_docs (documents w')
      \<and> (\<exists>d'. find_doc i (documents w') = Some d' \<and> doc_id d' = i \<and> status d' = s \<and> display_title d' = display_title d)
      \<and> map job_stage (jobs w') = map job_stage (jobs w) @ next)"

lemma touch_labels [simp]:
  "title (touch t old new) = title new" "filename (touch t old new) = filename new"
  "title (written_back d row) = title d" "filename (written_back d row) = filename row"
  by (simp_all add: touch_def written_back_def)

lemma update_advances:
  assumes "wf_docs (documents w)" "find_doc i (documents w) = Some d" "active_status (status d)"
    and "x = d\<lparr> status := s, extraction_method := m \<rparr>"
  shows "\<exists>w'. update_doc t x w = Inr w' \<and> advanced i d s [] w w' \<and> objects w' = objects w \<and> chunks w' = chunks w"
proof -
  have d: "doc_id d = i" using find_doc_Some [OF assms(2)] by simp
  then obtain w' where w': "update_doc t x w = Inr w'"
    using status_update_accepted [OF assms(1-3), of x t] assms(4) by auto
  have x: "doc_id x = i" using assms(4) d by simp
  have "status (touch t d (written_back x d)) = s" "display_title (touch t d (written_back x d)) = display_title d"
    "doc_id (touch t d (written_back x d)) = i"
    using d assms(4) by (simp_all add: display_title_def cong: if_cong)
  then show ?thesis
    using w' update_doc_row [OF assms(2) x w'] update_moves [OF assms(2) x w'] assms(1) d
    by (auto simp: advanced_def moved_def)
qed

lemma advanced_frame:
  "\<lbrakk> advanced i d s ns w w1; documents w2 = documents w1; map job_stage (jobs w2) = map job_stage (jobs w1) @ ms \<rbrakk>
    \<Longrightarrow> advanced i d s (ns @ ms) w w2"
  by (simp add: advanced_def)


lemma extraction_succeeds:
  assumes "wf_docs (documents w)" "find_doc i (documents w) = Some d" "status d = VALIDATED"
    and "raw_path d = Some p" "p \<noteq> []" "read_object env RAW_BUCKET (after_last (CHR ''/'') p) w = Some data"
    and "extract_content (extraction env) i data (mime_type d) = Inr ex" "\<not> put_raises env"
  shows "\<exists>w'. stage_worker env EXTRACT i w = (Processed, w') \<and> advanced i d EXTRACTED [NORMALIZE] w w'
    \<and> fs_get EXTRACTED_BUCKET (extraction_key_for i) (objects w') = Some (dump_extraction env ex)
    \<and> chunks w' = chunks w"
proof -
  have d: "doc_id d = i" "pg_get_by_id i (documents w) = Some d"
    using find_doc_Some [OF assms(2)] assms(2) by (auto simp: pg_get_by_id_def)
  let ?w1 = "w\<lparr> objects := fs_put EXTRACTED_BUCKET (extraction_key_for i) (dump_extraction env ex) (objects w) \<rparr>"
  let ?x = "d\<lparr> status := EXTRACTED, extraction_method := Some (er_extraction_method ex) \<rparr>"
  have up: "wf_docs (documents ?w1)" "find_doc i (documents ?w1) = Some d" "active_status (status d)"
    "?x = d\<lparr> status := EXTRACTED, extraction_method := Some (er_extraction_method ex) \<rparr>"
    using assms(1-3) by (simp_all add: active_status_def)
  obtain w2 where w2: "update_doc (now (base env)) ?x ?w1 = Inr w2" "advanced i d EXTRACTED [] ?w1 w2"
      "objects w2 = objects ?w1" "chunks w2 = chunks ?w1"
    using update_advances [OF up, of "now (base env)"] by blast
  obtain out w3 where w3: "extraction_handoff env i ex w2 = (out, w3)" by fastforce
  have frame: "documents w3 = documents w2" "objects w3 = objects w2" "chunks w3 = chunks w2"
    "map job_stage (jobs w3) = map job_stage (jobs w2) @ [NORMALIZE]" and ok: "so_failure_reason out = None"
    using w3 by (auto simp: extraction_handoff_def Let_def new_job_def outcome_of_def)
  have "extraction_process env i w = (Inr out, w3)"
    using assms(3-8) d w2(1) w3 by (cases p) (simp_all add: extraction_process_def extraction_store_def Let_def)
  then have "stage_worker env EXTRACT i w = (Processed, w3)"
    using ok by (simp add: stage_worker_def stage_process_def stage_outcome_of_def)
  moreover have "advanced i d EXTRACTED [NORMALIZE] w w3"
    using advanced_frame [OF w2(2) frame(1,4)] by (simp add: advanced_def)
  ultimately show ?thesis using frame(2,3) w2(3,4) by (intro exI [of _ w3]) simp
qed

lemma normalization_succeeds:
  assumes "wf_docs (documents w)" "find_doc i (documents w) = Some d" "status d = EXTRACTED"
    and "Option.bind (read_object env EXTRACTED_BUCKET (extraction_key_for i) w) (load_extraction env) = Some ex"
    and "qc_passed (nr_quality (normalize (text_tools env) ex))" "\<not> put_raises env"
  shows "\<exists>w'. stage_worker env NORMALIZE i w = (Processed, w') \<and> advanced i d AWAITING_CLASSIFICATION [CHUNK] w w'
    \<and> fs_get NORMALIZED_BUCKET (normalized_key_for i) (objects w')
        = Some (dump_normalized env (normalize (text_tools env) ex))
    \<and> chunks w' = chunks w"
proof -
  have d: "doc_id d = i" "pg_get_by_id i (documents w) = Some d"
    using find_doc_Some [OF assms(2)] assms(2) by (auto simp: pg_get_by_id_def)
  let ?r = "normalize (text_tools env) ex"
  let ?w1 = "w\<lparr> objects := fs_put NORMALIZED_BUCKET (normalized_key_for i) (dump_normalized env ?r) (objects w) \<rparr>"
  let ?x = "d\<lparr> status := AWAITING_CLASSIFICATION \<rparr>"
  have up: "wf_docs (documents ?w1)" "find_doc i (documents ?w1) = Some d" "active_status (status d)"
    "?x = d\<lparr> status := AWAITING_CLASSIFICATION, extraction_method := extraction_method d \<rparr>"
    using assms(1-3) by (simp_all add: active_status_def)
  obtain w2 where w2: "update_doc (now (base env)) ?x ?w1 = Inr w2" "advanced i d AWAITING_CLASSIFICATION [] ?w1 w2"
      "objects w2 = objects ?w1" "chunks w2 = chunks ?w1"
    using update_advances [OF up, of "now (base env)"] by blast
  obtain out w3 where w3: "normalization_handoff env i ?r w2 = (out, w3)" by fastforce
  have frame: "documents w3 = documents w2" "objects w3 = objects w2" "chunks w3 = chunks w2"
    "map job_stage (jobs w3) = map job_stage (jobs w2) @ [CHUNK]" and ok: "so_failure_reason out = None"
    using w3 by (auto simp: normalization_handoff_def Let_def new_job_def outcome_of_def)
  have "normalization_process env i w = (Inr out, w3)"
    using assms(3-6) d w2(1) w3 by (simp add: normalization_process_def Let_def)
  then have "stage_worker env NORMALIZE i w = (Processed, w3)"
    using ok by (simp add: stage_worker_def stage_process_def stage_outcome_of_def)
  moreover have "advanced i d AWAITING_CLASSIFICATION [CHUNK] w w3"
    using advanced_frame [OF w2(2) frame(1,4)] by (simp add: advanced_def)
  ultimately show ?thesis using frame(2,3) w2(3,4) by (intro exI [of _ w3]) simp
qed

lemma chunking_succeeds:
  assumes "wf_docs (documents w)" "find_doc i (documents w) = Some d" "status d = AWAITING_CLASSIFICATION"
    and "Option.bind (read_object env NORMALIZED_BUCKET (normalized_key_for i) w) (load_normalized env) = Some nr"
    and "cr_chunks (chunk_service (budget env) nr) \<noteq> []" "\<not> db_raises env"
  shows "\<exists>w'. stage_worker env CHUNK i w = (Processed, w') \<and> advanced i d CHUNKED [EMBED] w w' \<and> objects w' = objects w
    \<and> chunks w' = filter (\<lambda>c. chunk_document_id c \<noteq> i) (chunks w)
        @ map (chunk_row i (display_title d)) (cr_chunks (chunk_service (budget env) nr))"
proof -
  have d: "doc_id d = i" "pg_get_by_id i (documents w) = Some d"
    using find_doc_Some [OF assms(2)] assms(2) by (auto simp: pg_get_by_id_def)
  let ?r = "chunk_service (budget env) nr"
  let ?w1 = "persist_chunks i (display_title d) (cr_chunks ?r) w"
  let ?x = "d\<lparr> status := CHUNKED \<rparr>"
  have up: "wf_docs (documents ?w1)" "find_doc i (documents ?w1) = Some d" "active_status (status d)"
    "?x = d\<lparr> status := CHUNKED, extraction_method := extraction_method d \<rparr>"
    using assms(1-3) by (simp_all add: active_status_def)
  obtain w2 where w2: "update_doc (now (base env)) ?x ?w1 = Inr w2" "advanced i d CHUNKED [] ?w1 w2"
      "objects w2 = objects ?w1" "chunks w2 = chunks ?w1"
    using update_advances [OF up, of "now (base env)"] by blast
  obtain out w3 where w3: "chunking_handoff env i ?r w2 = (out, w3)" by fastforce
  have frame: "documents w3 = documents w2" "objects w3 = objects w2" "chunks w3 = chunks w2"
    "map job_stage (jobs w3) = map job_stage (jobs w2) @ [EMBED]" and ok: "so_failure_reason out = None"
    using w3 by (auto simp: chunking_handoff_def Let_def new_job_def outcome_of_def)
  have "chunking_process env i w = (Inr out, w3)"
    using assms(3-6) d w2(1) w3 by (simp add: chunking_process_def Let_def)
  then have "stage_worker env CHUNK i w = (Processed, w3)"
    using ok by (simp add: stage_worker_def stage_process_def stage_outcome_of_def)
  moreover have "advanced i d CHUNKED [EMBED] w w3"
    using advanced_frame [OF w2(2) frame(1,4)] by (simp add: advanced_def)
  ultimately show ?thesis using frame(2,3) w2(3,4) by (intro exI [of _ w3]) (simp add: persist_chunks_def)
qed


text \<open>One vector per text, in every batch.\<close>

definition one_vector_per_text :: "embedding_provider \<Rightarrow> bool" where
  "one_vector_per_text p = (\<forall>ts. \<exists>vs. ep_embed_passages p ts = Inr vs \<and> length vs = length ts)"

lemma embed_batches_complete:
  "one_vector_per_text p \<Longrightarrow> \<exists>vs ns. embed_batches p bs = Inr (vs, ns) \<and> length vs = length (concat bs)"
proof (induction bs)
  case (Cons b bs)
  obtain vs where "ep_embed_passages p b = Inr vs" "length vs = length b"
    using Cons.prems by (auto simp: one_vector_per_text_def)
  with Cons show ?case by auto
qed simp

lemma embed_document_complete:
  "\<lbrakk> one_vector_per_text p; 0 < n \<rbrakk> \<Longrightarrow> \<exists>r. embed_document p n i ts = Inr r \<and> length (em_vectors r) = length ts"
  using embed_batches_complete [of p "batches n ts"] concat_batches [of n ts] by (auto simp: embed_document_def)

lemma sort_key_map: "(\<And>x. k (f x) = k x) \<Longrightarrow> sort_key k (map f xs) = map f (sort_key k xs)"
proof (induction xs)
  case (Cons x xs)
  have "insort_key k (f x) (map f ys) = map f (insort_key k x ys)" for ys
    using Cons.prems by (induction ys) auto
  with Cons show ?case by simp
qed simp

lemma zip_fill:
  assumes "distinct (map k xs)" "length vs = length xs"
  shows "map (\<lambda>c. case map_of (zip (map k xs) vs) (k c) of None \<Rightarrow> c | Some v \<Rightarrow> f c v) xs = map2 f xs vs"
proof (rule nth_equalityI)
  fix j assume "j < length (map (\<lambda>c. case map_of (zip (map k xs) vs) (k c) of None \<Rightarrow> c | Some v \<Rightarrow> f c v) xs)"
  then show "map (\<lambda>c. case map_of (zip (map k xs) vs) (k c) of None \<Rightarrow> c | Some v \<Rightarrow> f c v) xs ! j = map2 f xs vs ! j"
    using map_of_zip_nth [of "map k xs" vs j] assms by simp
qed (use assms in simp)

text \<open>The vectors end up on the rows they were computed from, in order, and on no other row.\<close>

lemma stored_after_write:
  assumes "distinct (map chunk_key (stored_chunks i w))" "length vs = length (stored_chunks i w)"
  shows "stored_chunks i (write_vectors (stored_chunks i w) vs w)
           = map2 (\<lambda>c v. c\<lparr> embedding := Some v \<rparr>) (stored_chunks i w) vs
       \<and> filter (\<lambda>c. chunk_document_id c \<noteq> i) (chunks (write_vectors (stored_chunks i w) vs w))
           = filter (\<lambda>c. chunk_document_id c \<noteq> i) (chunks w)"
proof -
  let ?rows = "stored_chunks i w"
  let ?f = "\<lambda>c. case map_of (zip (map chunk_key ?rows) vs) (chunk_key c) of None \<Rightarrow> c | Some v \<Rightarrow> c\<lparr> embedding := Some v \<rparr>"
  have id: "chunk_document_id (?f c) = chunk_document_id c" "chunk_index (?f c) = chunk_index c" for c
    by (simp_all split: option.split)
  have w': "chunks (write_vectors ?rows vs w) = map ?f (chunks w)" by (simp add: write_vectors_def)
  have "stored_chunks i (write_vectors ?rows vs w) = sort_key chunk_index (map ?f (filter (\<lambda>c. chunk_document_id c = i) (chunks w)))"
    unfolding stored_chunks_def [of i "write_vectors ?rows vs w"] w' filter_map comp_def id ..
  also have "\<dots> = map ?f ?rows"
    using sort_key_map [of chunk_index ?f "filter (\<lambda>c. chunk_document_id c = i) (chunks w)", OF id(2)]
    by (simp only: stored_chunks_def)
  finally have 1: "stored_chunks i (write_vectors ?rows vs w) = map ?f ?rows" .
  have mine: "chunk_document_id c = i" if "c \<in> set ?rows" for c using that by (simp add: stored_chunks_def)
  have other: "?f c = c" if "chunk_document_id c \<noteq> i" for c
  proof -
    have "chunk_key c \<notin> set (map chunk_key ?rows)" using mine that by (auto simp: chunk_key_def)
    then have "map_of (zip (map chunk_key ?rows) vs) (chunk_key c) = None"
      using assms(2) by (metis length_map map_of_zip_is_None)
    then show ?thesis by simp
  qed
  have "filter (\<lambda>c. chunk_document_id c \<noteq> i) (map ?f (chunks w)) = map ?f (filter (\<lambda>c. chunk_document_id c \<noteq> i) (chunks w))"
    by (simp add: filter_map comp_def id)
  also have "\<dots> = filter (\<lambda>c. chunk_document_id c \<noteq> i) (chunks w)" by (rule map_idI) (auto simp: other)
  finally show ?thesis using 1 zip_fill [OF assms] unfolding w' by simp
qed


lemma embedding_store_live:
  assumes "find_doc i (documents w) = Some d" "status d = CHUNKED" "rows = stored_chunks i w"
    and "distinct (map chunk_key rows)"
    and "embedding_store env d rows em w = (r, w')" "find_doc i (documents w') = Some d'" "status d' = LIVE"
  shows "length (em_vectors em) = length rows
    \<and> stored_chunks i w' = map2 (\<lambda>c v. c\<lparr> embedding := Some v \<rparr>) rows (em_vectors em)
    \<and> filter (\<lambda>c. chunk_document_id c \<noteq> i) (chunks w') = filter (\<lambda>c. chunk_document_id c \<noteq> i) (chunks w)"
proof -
  have d: "doc_id d = i" using find_doc_Some [OF assms(1)] by simp
  have len: "length (em_vectors em) = length rows"
  proof (rule ccontr)
    assume "length (em_vectors em) \<noteq> length rows"
    then obtain e where "embedding_fail env d e w = (r, w')" using assms(5) by (auto simp: embedding_store_def)
    then have "w' = w \<or> moved i DocumentStatus.EMBEDDING_FAILED w w'"
      unfolding embedding_fail_def by (rule fail_document_moves [OF assms(1)])
    then show False using assms(1,2,6,7) by (auto simp: moved_def)
  qed
  have "\<not> db_raises env" using assms(1,2,5-7) len by (auto simp: embedding_store_def)
  then have "chunks w' = chunks (write_vectors rows (em_vectors em) w)"
  proof (cases "update_doc (now (base env)) (d\<lparr> status := LIVE \<rparr>) (write_vectors rows (em_vectors em) w)")
    case (Inr w2)
    have "chunks w2 = chunks (write_vectors rows (em_vectors em) w)"
      using update_doc_row [OF _ _ Inr, of i d] assms(1) d by simp
    then show ?thesis using assms(5) len \<open>\<not> db_raises env\<close> Inr by (auto simp: embedding_store_def Let_def)
  qed (use assms(5) len in \<open>simp add: embedding_store_def Let_def\<close>)
  then have "stored_chunks i w' = stored_chunks i (write_vectors rows (em_vectors em) w)"
    by (simp add: stored_chunks_def)
  then show ?thesis
    using stored_after_write [of i w "em_vectors em"] assms(3,4) len \<open>chunks w' = _\<close> by simp
qed

text \<open>C16: LIVE means embedded. When EMBED takes a CHUNKED document to LIVE, every stored passage of the
document carries the vector the model computed from its own text, in passage order, there is at least one
passage, the rows are otherwise as they were, and no other document's rows changed.\<close>

theorem live_means_embedded:
  assumes "find_doc i (documents w) = Some d" "status d = CHUNKED"
    and "distinct (map chunk_key (stored_chunks i w))"
    and "embedding_process env i w = (r, w')" "find_doc i (documents w') = Some d'" "status d' = LIVE"
  shows "\<exists>vs ns. embed_batches (embedder env) (batches (EMBEDDING_BATCH_SIZE env) (map chunk_text (stored_chunks i w)))
        = Inr (vs, ns)
    \<and> vs \<noteq> [] \<and> length vs = length (stored_chunks i w)
    \<and> stored_chunks i w' = map2 (\<lambda>c v. c\<lparr> embedding := Some v \<rparr>) (stored_chunks i w) vs
    \<and> filter (\<lambda>c. chunk_document_id c \<noteq> i) (chunks w') = filter (\<lambda>c. chunk_document_id c \<noteq> i) (chunks w)"
proof -
  have d: "doc_id d = i" "pg_get_by_id i (documents w) = Some d"
    using find_doc_Some [OF assms(1)] assms(1) by (auto simp: pg_get_by_id_def)
  have fail: False if "embedding_fail env d e w = (r, w')" for e
    using fail_document_moves [OF assms(1) that [unfolded embedding_fail_def]] assms(1,2,5,6) by (auto simp: moved_def)
  have skip: False if "skip_unsupported_language env d l w = (r, w')" for l
    using that update_moves [OF assms(1), of "d\<lparr> status := SKIPPED_UNSUPPORTED_LANGUAGE \<rparr>" "now (base env)"]
      d(1) assms(1,2,5,6)
    by (auto simp: skip_unsupported_language_def moved_def split: sum.splits)
  have same: False if "w' = w" using that assms(1,2,5,6) by simp
  obtain em where em: "embed_document (embedder env) (EMBEDDING_BATCH_SIZE env) i (map chunk_text (stored_chunks i w)) = Inr em"
      "embedding_store env d (stored_chunks i w) em w = (r, w')" "stored_chunks i w \<noteq> []"
    using assms(2,4) d(2) fail skip same
    by (auto simp: embedding_process_def Let_def split: if_splits sum.splits embed_error.splits)
  obtain ns where "embed_batches (embedder env) (batches (EMBEDDING_BATCH_SIZE env) (map chunk_text (stored_chunks i w)))
      = Inr (em_vectors em, ns)"
    using em(1) by (auto simp: embed_document_def split: sum.splits)
  with embedding_store_live [OF assms(1,2) refl assms(3) em(2) assms(5,6)] em(3) show ?thesis by auto
qed


lemma embedding_succeeds:
  assumes "wf_docs (documents w)" "find_doc i (documents w) = Some d" "status d = CHUNKED"
    and "EMBEDDING_SKIP_NON_ENGLISH env \<longrightarrow> language_supported (detected_language env i w)"
    and "stored_chunks i w \<noteq> []" "distinct (map chunk_key (stored_chunks i w))"
    and "one_vector_per_text (embedder env)" "0 < EMBEDDING_BATCH_SIZE env" "\<not> db_raises env"
  shows "\<exists>w' vs. stage_worker env EMBED i w = (Processed, w') \<and> advanced i d LIVE [] w w'
    \<and> length vs = length (stored_chunks i w)
    \<and> stored_chunks i w' = map2 (\<lambda>c v. c\<lparr> embedding := Some v \<rparr>) (stored_chunks i w) vs"
proof -
  have d: "doc_id d = i" "pg_get_by_id i (documents w) = Some d"
    using find_doc_Some [OF assms(2)] assms(2) by (auto simp: pg_get_by_id_def)
  let ?rows = "stored_chunks i w"
  obtain em where em: "embed_document (embedder env) (EMBEDDING_BATCH_SIZE env) i (map chunk_text ?rows) = Inr em"
      "length (em_vectors em) = length ?rows"
    using embed_document_complete [OF assms(7,8), of i "map chunk_text ?rows"] by auto
  let ?w1 = "write_vectors ?rows (em_vectors em) w"
  let ?x = "d\<lparr> status := LIVE \<rparr>"
  have up: "wf_docs (documents ?w1)" "find_doc i (documents ?w1) = Some d" "active_status (status d)"
    "?x = d\<lparr> status := LIVE, extraction_method := extraction_method d \<rparr>"
    using assms(1-3) by (simp_all add: active_status_def)
  obtain w2 where w2: "update_doc (now (base env)) ?x ?w1 = Inr w2" "advanced i d LIVE [] ?w1 w2"
      "chunks w2 = chunks ?w1"
    using update_advances [OF up, of "now (base env)"] by blast
  obtain r w3 where w3: "embedding_store env d ?rows em w = (r, w3)" by fastforce
  have ok: "stage_outcome_of r = Processed" and frame: "documents w3 = documents w2" "jobs w3 = jobs w2" "chunks w3 = chunks w2"
    using w3 assms(9) em(2) w2(1) by (auto simp: embedding_store_def Let_def stage_outcome_of_def outcome_of_def)
  have "embedding_process env i w = (r, w3)"
    using assms(3-5) d em(1) w3 by (auto simp: embedding_process_def Let_def)
  then have "stage_worker env EMBED i w = (Processed, w3)" using ok by (simp add: stage_worker_def stage_process_def)
  moreover have "advanced i d LIVE [] w w3" using w2(2) frame by (simp add: advanced_def)
  moreover have "stored_chunks i w3 = stored_chunks i ?w1" using frame(3) w2(3) by (simp add: stored_chunks_def)
  ultimately show ?thesis using stored_after_write [OF assms(6) em(2)] em(2) by metis
qed

text \<open>The four workers, one after the other, as the queue hands the document on.\<close>

fun run_stages :: "stage_env \<Rightarrow> uuid \<Rightarrow> JobStage list \<Rightarrow> world \<Rightarrow> outcome list \<times> world" where
  "run_stages env i [] w = ([], w)"
| "run_stages env i (st # sts) w =
     (let (out, w1) = stage_worker env st i w; (outs, w2) = run_stages env i sts w1 in (out # outs, w2))"

text \<open>What a document needs to get through: its bytes are readable, its format is extracted, the text passes
the quality gate, it yields passages, and its language is covered; the artifact codecs round-trip, the model
returns one vector per text, and no backend fails.\<close>

definition processable :: "stage_env \<Rightarrow> document \<Rightarrow> world \<Rightarrow> extraction_result \<Rightarrow> bool" where
  "processable env d w ex =
     (\<not> get_raises (base env) \<and> \<not> put_raises env \<and> \<not> db_raises env
      \<and> (\<exists>p data. raw_path d = Some p \<and> p \<noteq> [] \<and> fs_get RAW_BUCKET (after_last (CHR ''/'') p) (objects w) = Some data
           \<and> extract_content (extraction env) (doc_id d) data (mime_type d) = Inr ex)
      \<and> load_extraction env (dump_extraction env ex) = Some ex
      \<and> (let nr = normalize (text_tools env) ex in
           load_normalized env (dump_normalized env nr) = Some nr \<and> qc_passed (nr_quality nr)
           \<and> chunk_document (budget env) nr \<noteq> []
           \<and> (EMBEDDING_SKIP_NON_ENGLISH env \<longrightarrow>
                prose_ratio_below (EMBEDDING_MIN_PROSE_RATIO env) (nr_full_text nr) \<or> language_supported (nr_language nr)))
      \<and> one_vector_per_text (embedder env) \<and> 0 < EMBEDDING_BATCH_SIZE env)"

lemma stored_after_chunking:
  assumes "chunks w' = filter (\<lambda>c. chunk_document_id c \<noteq> i) (chunks w) @ map (chunk_row i t) (chunk_document b nr)"
  shows "stored_chunks i w' = map (chunk_row i t) (chunk_document b nr)
    \<and> distinct (map chunk_key (map (chunk_row i t) (chunk_document b nr)))"
proof -
  let ?ps = "chunk_document b nr"
  have idx: "map p_index ?ps = [0..<length ?ps]"
    using chunk_document_indices by simp
  have "filter (\<lambda>c. chunk_document_id c = i) (chunks w') = map (chunk_row i t) ?ps"
    using assms by (simp add: filter_map comp_def chunk_row_def)
  moreover have m: "map chunk_index (map (chunk_row i t) ?ps) = map p_index ?ps" by (simp add: chunk_row_def)
  then have "sort_key chunk_index (map (chunk_row i t) ?ps) = map (chunk_row i t) ?ps"
    by (intro sort_key_id_if_sorted) (simp add: idx)
  moreover have "distinct (map chunk_index (map (chunk_row i t) ?ps))" unfolding m idx by simp
  then have "distinct (map chunk_key (map (chunk_row i t) ?ps))"
    by (simp add: distinct_map inj_on_def chunk_key_def chunk_row_def)
  ultimately show ?thesis by (simp add: stored_chunks_def)
qed


text \<open>C13: A document gets through. In a consistent table, a VALIDATED document that can be processed is taken
by EXTRACT, NORMALIZE, CHUNK and EMBED, one after the other, each of them ending well and queueing exactly the
next one, until it is LIVE; its stored passages are those of the chunker on the normalized text, in order,
each with an embedding.\<close>

theorem pipeline_reaches_live:
  assumes "wf_docs (documents w)" "find_doc i (documents w) = Some d" "status d = VALIDATED" "processable env d w ex"
  shows "\<exists>w' d' vs. run_stages env i [EXTRACT, NORMALIZE, CHUNK, EMBED] w = (replicate 4 Processed, w')
    \<and> find_doc i (documents w') = Some d' \<and> status d' = LIVE
    \<and> map job_stage (jobs w') = map job_stage (jobs w) @ [NORMALIZE, CHUNK, EMBED]
    \<and> length vs = length (chunk_document (budget env) (normalize (text_tools env) ex))
    \<and> stored_chunks i w' = map2 (\<lambda>p v. (chunk_row i (display_title d) p)\<lparr> embedding := Some v \<rparr>)
        (chunk_document (budget env) (normalize (text_tools env) ex)) vs"
proof -
  let ?nr = "normalize (text_tools env) ex" and ?ps = "chunk_document (budget env) (normalize (text_tools env) ex)"
  have d: "doc_id d = i" using find_doc_Some [OF assms(2)] by simp
  note P = assms(4) [unfolded processable_def Let_def d]
  obtain p data where p: "raw_path d = Some p" "p \<noteq> []" "fs_get RAW_BUCKET (after_last (CHR ''/'') p) (objects w) = Some data"
      "extract_content (extraction env) i data (mime_type d) = Inr ex" using P by blast
  obtain w1 where w1: "stage_worker env EXTRACT i w = (Processed, w1)" "advanced i d EXTRACTED [NORMALIZE] w w1"
      "fs_get EXTRACTED_BUCKET (extraction_key_for i) (objects w1) = Some (dump_extraction env ex)" "chunks w1 = chunks w"
    using extraction_succeeds [OF assms(1-3) p(1,2) _ p(4)] P p(3) by (auto simp: read_object_def)
  obtain d1 where d1: "find_doc i (documents w1) = Some d1" "status d1 = EXTRACTED" "display_title d1 = display_title d"
      "wf_docs (documents w1)" using w1(2) by (auto simp: advanced_def)
  obtain w2 where w2: "stage_worker env NORMALIZE i w1 = (Processed, w2)" "advanced i d1 AWAITING_CLASSIFICATION [CHUNK] w1 w2"
      "fs_get NORMALIZED_BUCKET (normalized_key_for i) (objects w2) = Some (dump_normalized env ?nr)" "chunks w2 = chunks w1"
    using normalization_succeeds [OF d1(4,1,2), of env ex] P w1(3) by (auto simp: read_object_def)
  obtain d2 where d2: "find_doc i (documents w2) = Some d2" "status d2 = AWAITING_CLASSIFICATION"
      "display_title d2 = display_title d" "wf_docs (documents w2)" using w2(2) d1(3) by (auto simp: advanced_def)
  have read: "Option.bind (read_object env NORMALIZED_BUCKET (normalized_key_for i) w2) (load_normalized env) = Some ?nr"
    using P w2(3) by (simp add: read_object_def)
  have ne: "cr_chunks (chunk_service (budget env) ?nr) = ?ps" "?ps \<noteq> []" using P by (simp_all add: chunk_service_def)
  obtain w3 where w3: "stage_worker env CHUNK i w2 = (Processed, w3)" "advanced i d2 CHUNKED [EMBED] w2 w3" "objects w3 = objects w2"
      "chunks w3 = filter (\<lambda>c. chunk_document_id c \<noteq> i) (chunks w2) @ map (chunk_row i (display_title d)) ?ps"
    using chunking_succeeds [OF d2(4,1,2) read] ne P unfolding d2(3) by auto
  obtain d3 where d3: "find_doc i (documents w3) = Some d3" "status d3 = CHUNKED" "wf_docs (documents w3)"
    using w3(2) by (auto simp: advanced_def)
  note rows = stored_after_chunking [OF w3(4)]
  have lang: "EMBEDDING_SKIP_NON_ENGLISH env \<longrightarrow> language_supported (detected_language env i w3)"
    using P w2(3) w3(3)
    by (auto simp: detected_language_def read_object_def language_supported_def DEFAULT_LANGUAGE_def SUPPORTED_LANGUAGES_def)
  obtain w4 vs where w4: "stage_worker env EMBED i w3 = (Processed, w4)" "advanced i d3 LIVE [] w3 w4"
      "length vs = length (stored_chunks i w3)"
      "stored_chunks i w4 = map2 (\<lambda>c v. c\<lparr> embedding := Some v \<rparr>) (stored_chunks i w3) vs"
    using embedding_succeeds [OF d3(3,1,2) lang] rows ne(2) P by auto
  obtain d4 where d4: "find_doc i (documents w4) = Some d4" "status d4 = LIVE" using w4(2) by (auto simp: advanced_def)
  have "run_stages env i [EXTRACT, NORMALIZE, CHUNK, EMBED] w = (replicate 4 Processed, w4)"
    using w1(1) w2(1) w3(1) w4(1) by (simp add: numeral_eq_Suc)
  moreover have "map job_stage (jobs w4) = map job_stage (jobs w) @ [NORMALIZE, CHUNK, EMBED]"
    using w1(2) w2(2) w3(2) w4(2) by (simp add: advanced_def)
  moreover have "stored_chunks i w4 = map2 (\<lambda>p v. (chunk_row i (display_title d) p)\<lparr> embedding := Some v \<rparr>) ?ps vs"
    using w4(4) rows by (simp add: map2_map_map [symmetric] zip_map1 comp_def case_prod_unfold)
  ultimately show ?thesis using d4 w4(3) rows by auto
qed


section \<open>Interruptions and faults\<close>

definition stage_input :: "JobStage \<Rightarrow> DocumentStatus option" where
  "stage_input st =
     (case st of
        SCAN \<Rightarrow> None
      | EXTRACT \<Rightarrow> Some VALIDATED
      | NORMALIZE \<Rightarrow> Some EXTRACTED
      | CHUNK \<Rightarrow> Some AWAITING_CLASSIFICATION
      | EMBED \<Rightarrow> Some CHUNKED)"

lemma stage_not_applicable:
  assumes "find_doc i (documents w) = Some d" "stage_input st = Some s" "status d \<noteq> s"
  shows "stage_worker env st i w = (Processed, w)"
proof -
  have "pg_get_by_id i (documents w) = Some d" using assms(1) by (simp add: pg_get_by_id_def)
  then show ?thesis
    using assms(2,3)
    by (cases st) (simp_all add: stage_input_def stage_worker_def stage_process_def extraction_process_def
        normalization_process_def chunking_process_def embedding_process_def not_applicable_def outcome_of_def
        stage_outcome_of_def)
qed

text \<open>Redelivery is harmless. A job that is run again after its stage has left its mark on the document,
whatever became of it, changes nothing at all and ends as processed: in particular it queues no second job,
writes no passage and no audit event.\<close>

theorem redelivery_is_harmless:
  assumes "find_doc i (documents w) = Some d" "stage_worker env st i w = (out, w1)" "documents w1 \<noteq> documents w"
  shows "\<forall>env'. stage_worker env' st i w1 = (Processed, w1)"
proof -
  obtain s d' where e: "(status d, s) \<in> set (stage_edges st)" "find_doc i (documents w1) = Some d'" "status d' = s"
    using stage_worker_edges [OF assms(2)] assms(1,3) by (auto simp: edge_step_def moved_def)
  have "stage_input st = Some (status d)" "s \<noteq> status d"
    using e(1) by (cases st; auto simp: stage_edges_def stage_input_def)+
  then show ?thesis using stage_not_applicable [OF e(2)] e(3) by blast
qed

text \<open>A crash in the hand-over strands the document. If the EXTRACT worker dies after committing the
status EXTRACTED and before it queues the next stage, the job's retry is processed without doing anything:
the document stays EXTRACTED and no NORMALIZE job exists for it.\<close>

theorem interrupted_handoff_strands_document:
  assumes "find_doc i (documents w) = Some d"
    and "update_doc t (d\<lparr> status := EXTRACTED, extraction_method := m \<rparr>) w = Inr w1"
    and "\<not> list_ex (\<lambda>j. job_document_id j = i \<and> job_stage j = NORMALIZE) (jobs w)"
  shows "stage_worker env EXTRACT i w1 = (Processed, w1)
    \<and> map_option status (find_doc i (documents w1)) = Some EXTRACTED
    \<and> \<not> list_ex (\<lambda>j. job_document_id j = i \<and> job_stage j = NORMALIZE) (jobs w1)"
proof -
  have "doc_id d = i" using find_doc_Some [OF assms(1)] by simp
  then obtain d' where d': "find_doc i (documents w1) = Some d'" "status d' = EXTRACTED" "jobs w1 = jobs w"
    using update_doc_row [OF assms(1) _ assms(2)] by simp
  then show ?thesis using stage_not_applicable [OF d'(1), of EXTRACT VALIDATED] assms(3) by (simp add: stage_input_def)
qed

text \<open>A read fault in EMBED is not retried. When the language check is on and the normalized artifact cannot
be read, the stage does not fail: the document becomes SKIPPED_UNSUPPORTED_LANGUAGE and the job ends as
processed, whatever language the document is in.\<close>

theorem unreadable_artifact_skips_embedding:
  assumes "wf_docs (documents w)" "find_doc i (documents w) = Some d" "status d = CHUNKED"
    and "EMBEDDING_SKIP_NON_ENGLISH env" "get_raises (base env)"
  shows "\<exists>w'. stage_worker env EMBED i w = (Processed, w')
    \<and> map_option status (find_doc i (documents w')) = Some SKIPPED_UNSUPPORTED_LANGUAGE"
proof -
  have d: "doc_id d = i" "pg_get_by_id i (documents w) = Some d"
    using find_doc_Some [OF assms(2)] assms(2) by (auto simp: pg_get_by_id_def)
  let ?x = "d\<lparr> status := SKIPPED_UNSUPPORTED_LANGUAGE \<rparr>"
  obtain w1 where w1: "update_doc (now (base env)) ?x w = Inr w1"
    using status_update_accepted [OF assms(1,2), of ?x "now (base env)"] assms(3) d(1) by (auto simp: active_status_def)
  have lang: "detected_language env i w = None" using assms(5) by (simp add: detected_language_def read_object_def)
  have "embedding_process env i w = skip_unsupported_language env d None w"
    using assms(3,4) d(2) lang by (simp add: embedding_process_def language_supported_def)
  then show ?thesis
    using w1 update_doc_row [OF assms(2) _ w1] d(1)
    by (simp add: stage_worker_def stage_process_def skip_unsupported_language_def stage_outcome_of_def outcome_of_def)
qed


section \<open>Witnesses\<close>

definition sample_extraction :: extraction_result where
  "sample_extraction =
     \<lparr> er_document_id = ''h'', er_mime_type = PDF_MIME, er_extraction_method = METHOD_NATIVE,
       er_units = [\<lparr> eu_index = 1, eu_label = ''Page 1'', eu_text = ''Clean air for all.'', eu_method = METHOD_NATIVE,
                    eu_text_is_table = False \<rparr>],
       er_headings = [], er_tables = [], er_ocr_pages = [], er_ocr_skipped_pages = [],
       er_ocr_unreadable_lines = [], er_figures = [] \<rparr>"

definition sample_content :: extracted_content where
  "sample_content =
     \<lparr> ec_units = er_units sample_extraction, ec_headings = [], ec_tables = [], ec_ocr_pages = [],
       ec_ocr_skipped_pages = [], ec_ocr_unreadable_lines = [], ec_figures = [] \<rparr>"

definition sample_tools :: text_toolkit where
  "sample_tools = \<lparr> nfkc = id, detect_language = (\<lambda>_. None), min_pdf_chars_per_page = 5 \<rparr>"

definition sample_stage_env :: stage_env where
  "sample_stage_env =
     \<lparr> base = sample_env, put_raises = False, db_raises = False, fault = ''timeout'',
       extraction = \<lparr> extractors = [(PDF_MIME, \<lambda>_. Inr sample_content)], picture_formats = [], read_pictures = None \<rparr>,
       dump_extraction = (\<lambda>_. ''e''), load_extraction = (\<lambda>_. Some sample_extraction),
       dump_normalized = (\<lambda>_. ''n''), load_normalized = (\<lambda>_. Some (normalize sample_tools sample_extraction)),
       text_tools = sample_tools, budget = character_budget (Some 20) (Some 30),
       embedder = \<lparr> ep_model_name = ''m'', ep_dimensions = 1, ep_max_sequence_tokens = 9,
                   ep_embed_passages = (\<lambda>ts. Inr (map (\<lambda>_. [1]) ts)), ep_count_tokens = map length \<rparr>,
       EMBEDDING_BATCH_SIZE = 32, EMBEDDING_SKIP_NON_ENGLISH = False, EMBEDDING_MIN_PROSE_RATIO = (1, 10) \<rparr>"

definition sample_document_at :: "DocumentStatus \<Rightarrow> document" where
  "sample_document_at s = (new_document ''h'' ''h.pdf'' 3 0)
     \<lparr> mime_type := PDF_MIME, status := s, checksum := Some ''s'', raw_path := Some ''raw/h.pdf'' \<rparr>"

definition sample_at :: "DocumentStatus \<Rightarrow> world" where
  "sample_at s = empty_world\<lparr> documents := [sample_document_at s], objects := [((RAW_BUCKET, ''h.pdf''), ''pdf'')],
     chunks := [\<lparr> chunk_document_id = ''h'', chunk_scale = SECTION_SCALE, chunk_index = 0, chunk_text = ''Clean air'',
                  page_number = None, section_heading = None, is_table = False, char_count = 9,
                  document_title = None, embedding = None \<rparr>] \<rparr>"

lemma sample_at_simps [simp]:
  "documents (sample_at s) = [sample_document_at s]" "jobs (sample_at s) = []"
  "status (sample_document_at s) = s" "doc_id (sample_document_at s) = ''h''"
  "find_doc ''h'' [sample_document_at s] = Some (sample_document_at s)"
  by (simp_all add: sample_at_def sample_document_at_def empty_world_def new_document_def find_doc_def)

lemma sample_at_wf [simp]: "wf_docs [sample_document_at s]"
  by (simp add: wf_docs_def split: option.split)

theorem stages_follow_the_lifecycle_witness:
  "wf_docs (documents (snd (stage_worker sample_stage_env EMBED ''h'' (sample_at CHUNKED))))
   \<and> (\<exists>d'. find_doc ''h'' (documents (snd (stage_worker sample_stage_env EMBED ''h'' (sample_at CHUNKED)))) = Some d')"
proof -
  obtain out w' where run: "stage_worker sample_stage_env EMBED ''h'' (sample_at CHUNKED) = (out, w')" by fastforce
  have "wf_docs (documents (sample_at CHUNKED))" by simp
  from stages_follow_the_lifecycle [OF this run] run show ?thesis by auto
qed

theorem transient_failure_leaves_no_trace_witness:
  "\<exists>reason. stage_worker (sample_stage_env\<lparr> db_raises := True \<rparr>) EMBED ''h'' (sample_at CHUNKED)
     = (TransientError reason, sample_at CHUNKED)"
proof -
  have "case fst (stage_worker (sample_stage_env\<lparr> db_raises := True \<rparr>) EMBED ''h'' (sample_at CHUNKED)) of
      TransientError _ \<Rightarrow> True | _ \<Rightarrow> False" by code_simp
  then obtain reason w' where
    run: "stage_worker (sample_stage_env\<lparr> db_raises := True \<rparr>) EMBED ''h'' (sample_at CHUNKED) = (TransientError reason, w')"
    by (auto split: outcome.splits prod.splits) (metis prod.collapse)
  from transient_failure_leaves_no_trace [OF this] run show ?thesis by blast
qed

theorem live_means_embedded_witness:
  "\<exists>vs. vs \<noteq> [] \<and> stored_chunks ''h'' (snd (stage_worker sample_stage_env EMBED ''h'' (sample_at CHUNKED)))
     = map2 (\<lambda>c v. c\<lparr> embedding := Some v \<rparr>) (stored_chunks ''h'' (sample_at CHUNKED)) vs"
proof -
  let ?w = "sample_at CHUNKED"
  obtain r w' where run: "embedding_process sample_stage_env ''h'' ?w = (r, w')" by fastforce
  have "map_option status (find_doc ''h'' (documents (snd (embedding_process sample_stage_env ''h'' ?w)))) = Some LIVE"
    by code_simp
  then obtain d' where d': "find_doc ''h'' (documents w') = Some d'" "status d' = LIVE" using run by auto
  have given: "find_doc ''h'' (documents ?w) = Some (sample_document_at CHUNKED)" "status (sample_document_at CHUNKED) = CHUNKED"
    by simp_all
  have "distinct (map chunk_key (stored_chunks ''h'' ?w))" by code_simp
  from live_means_embedded [OF given this run d'] have "\<exists>vs. vs \<noteq> [] \<and>
      stored_chunks ''h'' w' = map2 (\<lambda>c v. c\<lparr> embedding := Some v \<rparr>) (stored_chunks ''h'' ?w) vs" by blast
  then show ?thesis using run by (simp add: stage_worker_def stage_process_def)
qed

lemma sample_processable: "processable sample_stage_env (sample_document_at VALIDATED) (sample_at VALIDATED) sample_extraction"
proof -
  have "extract_content (extraction sample_stage_env) ''h'' ''pdf'' PDF_MIME = Inr sample_extraction" by code_simp
  moreover have "qc_passed (nr_quality (normalize sample_tools sample_extraction))" by code_simp
  moreover have "chunk_document (character_budget (Some 20) (Some 30)) (normalize sample_tools sample_extraction) \<noteq> []"
    by code_simp
  moreover have "fs_get RAW_BUCKET (after_last (CHR ''/'') ''raw/h.pdf'') (objects (sample_at VALIDATED)) = Some ''pdf''"
    by code_simp
  ultimately show ?thesis
    by (simp add: processable_def Let_def one_vector_per_text_def sample_stage_env_def sample_document_at_def sample_env_def new_document_def)
qed

theorem pipeline_reaches_live_witness:
  "\<exists>w' d'. run_stages sample_stage_env ''h'' [EXTRACT, NORMALIZE, CHUNK, EMBED] (sample_at VALIDATED) = (replicate 4 Processed, w')
     \<and> find_doc ''h'' (documents w') = Some d' \<and> status d' = LIVE"
  using pipeline_reaches_live [OF _ _ _ sample_processable, of "''h''"] by auto

theorem redelivery_is_harmless_witness:
  "\<exists>out w1. stage_worker sample_stage_env EMBED ''h'' (sample_at CHUNKED) = (out, w1)
     \<and> stage_worker sample_stage_env EMBED ''h'' w1 = (Processed, w1)"
proof -
  obtain out w1 where run: "stage_worker sample_stage_env EMBED ''h'' (sample_at CHUNKED) = (out, w1)" by fastforce
  have "map status (documents (snd (stage_worker sample_stage_env EMBED ''h'' (sample_at CHUNKED)))) = [LIVE]" by code_simp
  then have "documents w1 \<noteq> documents (sample_at CHUNKED)" using run by auto
  from redelivery_is_harmless [OF _ run this] run show ?thesis by auto
qed

theorem interrupted_handoff_strands_document_witness:
  "\<exists>w1. stage_worker sample_stage_env EXTRACT ''h'' w1 = (Processed, w1)
     \<and> map_option status (find_doc ''h'' (documents w1)) = Some EXTRACTED \<and> jobs w1 = []"
proof -
  let ?d = "sample_document_at VALIDATED" and ?w = "sample_at VALIDATED"
  have row: "find_doc ''h'' (documents ?w) = Some ?d" by simp
  obtain w1 where up: "update_doc 9 (?d\<lparr> status := EXTRACTED, extraction_method := Some METHOD_NATIVE \<rparr>) ?w = Inr w1"
    using status_update_accepted [of ?w "''h''" ?d "?d\<lparr> status := EXTRACTED, extraction_method := Some METHOD_NATIVE \<rparr>" 9]
    by (auto simp: active_status_def)
  have "jobs w1 = []" using update_doc_row [OF row _ up] by simp
  with interrupted_handoff_strands_document [OF row up] show ?thesis by force
qed

theorem unreadable_artifact_skips_embedding_witness:
  "\<exists>w'. stage_worker (sample_stage_env\<lparr> EMBEDDING_SKIP_NON_ENGLISH := True, base := sample_env\<lparr> get_raises := True \<rparr> \<rparr>)
      EMBED ''h'' (sample_at CHUNKED) = (Processed, w')"
  using unreadable_artifact_skips_embedding [of "sample_at CHUNKED" "''h''" "sample_document_at CHUNKED"
      "sample_stage_env\<lparr> EMBEDDING_SKIP_NON_ENGLISH := True, base := sample_env\<lparr> get_raises := True \<rparr> \<rparr>"]
  by auto

end
