(* ===== verification/Accounts.thy ===== *)
theory Accounts
  imports DataModel PyText
begin

text \<open>\<open>modules/auth/models.py\<close>, \<open>security.py\<close>, \<open>service.py\<close>, \<open>dependencies.py\<close> and the endpoints of
\<open>api/v1/auth.py\<close>: the \<open>users\<close> table, registration, login, the token check every other endpoint depends on, and
the published demo login. bcrypt, the JWT library, UUID and e-mail parsing are parameters.\<close>

section \<open>The table and what the service is given\<close>

record user =
  u_id :: uuid
  u_email :: string
  u_full_name :: string
  u_hashed_password :: string
  u_role :: string
  u_is_active :: bool
  u_created_at :: time
  u_last_login_at :: "time option"

text \<open>\<open>checkpw\<close> and \<open>jwt_decode\<close> are \<open>None\<close> when the library raises; a decoded payload is its subject claim,
\<open>None\<close> when it has none. \<open>valid_email\<close> is the validator behind \<open>EmailStr\<close>.\<close>

record auth_env =
  auth_now :: time
  fresh_user_id :: uuid
  hashpw :: "string \<Rightarrow> string"
  checkpw :: "string \<Rightarrow> string \<Rightarrow> bool option"
  jwt_encode :: "uuid \<Rightarrow> string \<Rightarrow> time \<Rightarrow> string"
  jwt_decode :: "string \<Rightarrow> string option option"
  parse_uuid :: "string \<Rightarrow> uuid option"
  valid_email :: "string \<Rightarrow> (string, string) result"
  ALLOWED_EMAIL_DOMAIN :: string
  JWT_ACCESS_TOKEN_EXPIRE_MINUTES :: int
  DEMO_LOGIN_EMAIL :: string
  DEMO_LOGIN_PASSWORD :: string

section \<open>Passwords and tokens\<close>

text \<open>The pattern searches of \<open>_PASSWORD_COMPLEXITY\<close>, each for one character of a class.\<close>

definition PASSWORD_COMPLEXITY :: "((char \<Rightarrow> bool) \<times> string) list" where
  "PASSWORD_COMPLEXITY =
     [(is_upper_ascii, ''an uppercase letter''), (is_lower_ascii, ''a lowercase letter''), (is_decimal, ''a digit''),
      (\<lambda>c. \<not> (is_upper_ascii c \<or> is_lower_ascii c \<or> is_decimal c), ''a special character'')]"

definition missing_classes :: "string \<Rightarrow> string list" where
  "missing_classes value = map snd (filter (\<lambda>(p, name). \<not> list_ex p value) PASSWORD_COMPLEXITY)"

text \<open>\<open>UserRegister\<close>: the payload that is accepted, or the first violated constraint.\<close>

definition user_register :: "auth_env \<Rightarrow> string \<Rightarrow> string \<Rightarrow> string \<Rightarrow> (string, string) result" where
  "user_register env email full_name password =
     (case valid_email env email of
        Inl e \<Rightarrow> Inl e
      | Inr em \<Rightarrow>
          if full_name = [] \<or> 255 < length full_name then Inl ''full_name''
          else if length password < 8 \<or> 128 < length password then Inl ''password''
          else if missing_classes password \<noteq> []
          then Inl (''Password must contain at least '' @ join '', '' (missing_classes password) @ ''.'')
          else Inr em)"

definition MAX_PASSWORD_BYTES :: nat where "MAX_PASSWORD_BYTES = 72"

definition utf8_length :: "string \<Rightarrow> nat" where
  "utf8_length s = sum_list (map (\<lambda>c. if code c < 128 then 1 else 2) s)"

definition hash_password :: "auth_env \<Rightarrow> string \<Rightarrow> (string, string) result" where
  "hash_password env plain =
     (if MAX_PASSWORD_BYTES < utf8_length plain
      then Inl (''Password must be at most '' @ nat_str MAX_PASSWORD_BYTES @ '' bytes.'')
      else Inr (hashpw env plain))"

definition verify_password :: "auth_env \<Rightarrow> string \<Rightarrow> string \<Rightarrow> bool" where
  "verify_password env plain hashed = (case checkpw env plain hashed of None \<Rightarrow> False | Some b \<Rightarrow> b)"

definition create_access_token :: "auth_env \<Rightarrow> uuid \<Rightarrow> string \<Rightarrow> string" where
  "create_access_token env i role = jwt_encode env i role (auth_now env + 60 * JWT_ACCESS_TOKEN_EXPIRE_MINUTES env)"

section \<open>The service\<close>

datatype auth_error =
    EmailAlreadyRegistered string | DisallowedEmailDomain string | PasswordValueError string

definition get_by_email :: "string \<Rightarrow> user list \<Rightarrow> user option" where
  "get_by_email email us = find (\<lambda>u. u_email u = lower email) us"

definition get_user :: "uuid \<Rightarrow> user list \<Rightarrow> user option" where
  "get_user i us = find (\<lambda>u. u_id u = i) us"

definition register_user ::
  "auth_env \<Rightarrow> string \<Rightarrow> string \<Rightarrow> string \<Rightarrow> UserRole \<Rightarrow> user list \<Rightarrow> (auth_error, user \<times> user list) result" where
  "register_user env email full_name password role us =
     (if \<not> endswith (lower email) (''@'' @ lower (ALLOWED_EMAIL_DOMAIN env))
      then Inl (DisallowedEmailDomain
             (''Registration is restricted to @'' @ ALLOWED_EMAIL_DOMAIN env @ '' email addresses.''))
      else if get_by_email email us \<noteq> None
      then Inl (EmailAlreadyRegistered (''Email '' @ SQ @ email @ SQ @ '' is already registered.''))
      else case hash_password env password of
        Inl e \<Rightarrow> Inl (PasswordValueError e)
      | Inr h \<Rightarrow>
          let u = \<lparr> u_id = fresh_user_id env, u_email = lower email, u_full_name = full_name, u_hashed_password = h,
                    u_role = role_value role, u_is_active = True, u_created_at = auth_now env, u_last_login_at = None \<rparr>
          in Inr (u, us @ [u]))"

definition authenticate :: "auth_env \<Rightarrow> string \<Rightarrow> string \<Rightarrow> user list \<Rightarrow> (string, user \<times> user list) result" where
  "authenticate env email password us =
     (case get_by_email email us of
        None \<Rightarrow> Inl ''Invalid email or password.''
      | Some u \<Rightarrow>
          if \<not> u_is_active u \<or> \<not> verify_password env password (u_hashed_password u)
          then Inl ''Invalid email or password.''
          else let u' = u\<lparr> u_last_login_at := Some (auth_now env) \<rparr> in Inr (u', replace_key u_id u' us))"

section \<open>The endpoints\<close>

definition register_endpoint ::
  "auth_env \<Rightarrow> string \<Rightarrow> string \<Rightarrow> string \<Rightarrow> user list \<Rightarrow> (http_error, user) result \<times> user list" where
  "register_endpoint env email full_name password us =
     (case user_register env email full_name password of
        Inl e \<Rightarrow> (Inl (HttpError 422 e), us)
      | Inr em \<Rightarrow>
          (case register_user env em full_name password USER us of
             Inl (EmailAlreadyRegistered e) \<Rightarrow> (Inl (HttpError 409 e), us)
           | Inl (DisallowedEmailDomain e) \<Rightarrow> (Inl (HttpError 422 e), us)
           | Inl (PasswordValueError e) \<Rightarrow> (Inl (HttpError 422 e), us)
           | Inr (u, us') \<Rightarrow> (Inr u, us')))"

definition login_endpoint :: "auth_env \<Rightarrow> string \<Rightarrow> string \<Rightarrow> user list \<Rightarrow> (http_error, string) result \<times> user list" where
  "login_endpoint env username password us =
     (case authenticate env username password us of
        Inl e \<Rightarrow> (Inl (HttpError 401 e), us)
      | Inr (u, us') \<Rightarrow> (Inr (create_access_token env (u_id u) (u_role u)), us'))"

definition get_current_user :: "auth_env \<Rightarrow> string option \<Rightarrow> user list \<Rightarrow> (http_error, user) result" where
  "get_current_user env token us =
     (let unauthorized = Inl (HttpError 401 ''Could not validate credentials.'') in
      case token of
        None \<Rightarrow> unauthorized
      | Some t \<Rightarrow>
          if t = [] then unauthorized
          else case Option.bind (Option.bind (jwt_decode env t) id) (parse_uuid env) of
            None \<Rightarrow> unauthorized
          | Some i \<Rightarrow>
              (case get_user i us of
                 None \<Rightarrow> unauthorized
               | Some u \<Rightarrow> if \<not> u_is_active u then unauthorized else Inr u))"

definition demo_login :: "auth_env \<Rightarrow> user list \<Rightarrow> (http_error, string \<times> string) result" where
  "demo_login env us =
     (if DEMO_LOGIN_EMAIL env = [] \<or> DEMO_LOGIN_PASSWORD env = []
      then Inl (HttpError 404 ''No demo login is configured.'')
      else case find (\<lambda>u. u_email u = lower (DEMO_LOGIN_EMAIL env)) us of
        Some u \<Rightarrow> if u_role u = role_value ADMIN then Inl (HttpError 404 ''No demo login is configured.'')
                  else Inr (DEMO_LOGIN_EMAIL env, DEMO_LOGIN_PASSWORD env)
      | None \<Rightarrow> Inr (DEMO_LOGIN_EMAIL env, DEMO_LOGIN_PASSWORD env))"

section \<open>Privileges\<close>

definition wf_users :: "user list \<Rightarrow> bool" where
  "wf_users us = (distinct (map u_id us) \<and> distinct (map u_email us) \<and> (\<forall>u\<in>set us. u_email u = lower (u_email u)))"

definition admins :: "user list \<Rightarrow> uuid list" where
  "admins us = map u_id (filter (\<lambda>u. u_role u = role_value ADMIN) us)"

lemma lower_char_twice [simp]: "lower_char (lower_char c) = lower_char c"
proof -
  have "(of_char c :: nat) < 256" using of_char_mod_256 [of c, where 'a = nat] by (metis mod_less_divisor zero_less_numeral)
  then show ?thesis by (auto simp: lower_char_def Let_def)
qed

lemma lower_twice [simp]: "lower (lower s) = lower s"
  by (simp add: lower_def)

lemma get_by_email_None: "wf_users us \<Longrightarrow> get_by_email e us = None \<longleftrightarrow> lower e \<notin> u_email ` set us"
  by (auto simp: get_by_email_def find_None image_iff)

lemma registered:
  assumes "register_endpoint env e n p us = (Inr u, us')"
  shows "\<exists>em. user_register env e n p = Inr em \<and> get_by_email em us = None
    \<and> endswith (lower em) (''@'' @ lower (ALLOWED_EMAIL_DOMAIN env)) \<and> us' = us @ [u]
    \<and> u = \<lparr> u_id = fresh_user_id env, u_email = lower em, u_full_name = n, u_hashed_password = hashpw env p,
            u_role = ''USER'', u_is_active = True, u_created_at = auth_now env, u_last_login_at = None \<rparr>"
  using assms
  by (auto simp: register_endpoint_def register_user_def hash_password_def role_value_def Let_def
      split: sum.splits auth_error.splits if_splits)

lemma registration_refused: "register_endpoint env e n p us = (Inl x, us') \<Longrightarrow> us' = us"
  by (auto simp: register_endpoint_def split: sum.splits auth_error.splits)

lemma authenticated:
  assumes "authenticate env e p us = Inr (u, us')"
  shows "\<exists>old. get_by_email e us = Some old \<and> u = old\<lparr> u_last_login_at := Some (auth_now env) \<rparr>
    \<and> us' = replace_key u_id u us"
  using assms by (auto simp: authenticate_def Let_def split: option.splits if_splits)

lemma map_replace_key:
  assumes "distinct (map key rows)" "old \<in> set rows" "f r = f old" "key r = key old"
  shows "map f (replace_key key r rows) = map f rows"
  using assms distinct_key_unique [OF assms(1) _ assms(2)] by (auto simp: replace_key_def)


lemma login_keeps:
  assumes "wf_users us"
  shows "wf_users (snd (login_endpoint env e p us)) \<and> map u_email (snd (login_endpoint env e p us)) = map u_email us
    \<and> admins (snd (login_endpoint env e p us)) = admins us"
proof (cases "authenticate env e p us")
  case (Inl x)
  then show ?thesis using assms by (simp add: login_endpoint_def)
next
  case (Inr y)
  obtain u us' where y: "y = (u, us')" by (cases y)
  obtain old where old: "get_by_email e us = Some old" "u = old\<lparr> u_last_login_at := Some (auth_now env) \<rparr>"
      "us' = replace_key u_id u us"
    using authenticated [OF Inr [unfolded y]] by blast
  have mem: "old \<in> set us" using old(1) by (auto simp: get_by_email_def dest: find_Some_mem)
  have ids: "distinct (map u_id us)" using assms by (simp add: wf_users_def)
  note same = map_replace_key [OF ids mem]
  have e: "map u_email us' = map u_email us" unfolding old(3) by (rule same) (simp_all add: old(2))
  have "map (\<lambda>u. (u_id u, u_role u)) us' = map (\<lambda>u. (u_id u, u_role u)) us"
    unfolding old(3) by (rule same) (simp_all add: old(2))
  then have "map fst (filter (\<lambda>x. snd x = role_value ADMIN) (map (\<lambda>u. (u_id u, u_role u)) us'))
      = map fst (filter (\<lambda>x. snd x = role_value ADMIN) (map (\<lambda>u. (u_id u, u_role u)) us))" by simp
  then have a: "admins us' = admins us" by (simp add: admins_def filter_map comp_def)
  have "(\<forall>x\<in>set (map u_email us). x = lower x)" using assms by (simp add: wf_users_def)
  then have "wf_users us'" using e assms unfolding wf_users_def old(3) map_key_replace by (metis (no_types, lifting) image_eqI list.set_map old(3))
  then show ?thesis using e a by (simp add: login_endpoint_def Inr y)
qed

lemma registration_grants_nothing:
  assumes "wf_users us" "fresh_user_id env \<notin> u_id ` set us"
  shows "wf_users (snd (register_endpoint env e n p us)) \<and> admins (snd (register_endpoint env e n p us)) = admins us
    \<and> (case register_endpoint env e n p us of
         (Inl x, us') \<Rightarrow> us' = us
       | (Inr u, us') \<Rightarrow> us' = us @ [u] \<and> u_role u = role_value USER \<and> u_is_active u
           \<and> u_email u \<notin> u_email ` set us \<and> endswith (u_email u) (''@'' @ lower (ALLOWED_EMAIL_DOMAIN env)))"
proof (cases "register_endpoint env e n p us")
  case (Pair r us')
  show ?thesis
  proof (cases r)
    case (Inl x)
    then show ?thesis using registration_refused [of env e n p us x us'] Pair assms(1) by simp
  next
    case (Inr u)
    show ?thesis
    proof -
      obtain em where em: "get_by_email em us = None" "endswith (lower em) (''@'' @ lower (ALLOWED_EMAIL_DOMAIN env))"
        "us' = us @ [u]" "u_id u = fresh_user_id env" "u_email u = lower em" "u_role u = ''USER''" "u_is_active u"
        using registered [OF Pair [unfolded Inr]] by auto
      have e: "u_email u \<notin> u_email ` set us" using em(1,5) get_by_email_None [OF assms(1), of em] by simp
      have "wf_users us'" using assms e em(3-5) unfolding wf_users_def by simp
      moreover have "admins us' = admins us" using em(3,6) by (simp add: admins_def role_value_def)
      ultimately show ?thesis using em e Pair Inr by (simp add: role_value_def)
    qed
  qed
qed

lemma demo_login_is_no_admin:
  assumes "wf_users us"
  shows "case demo_login env us of Inl x \<Rightarrow> True
       | Inr (de, dp) \<Rightarrow> \<forall>u\<in>set us. u_email u = lower de \<longrightarrow> u_id u \<notin> set (admins us)"
proof (cases "find (\<lambda>u. u_email u = lower (DEMO_LOGIN_EMAIL env)) us")
  case None
  then have "\<forall>u\<in>set us. u_email u \<noteq> lower (DEMO_LOGIN_EMAIL env)" by (simp add: find_None)
  then show ?thesis using None by (simp add: demo_login_def)
next
  case (Some v)
  have mail: "u = v" if "u \<in> set us" "u_email u = lower (DEMO_LOGIN_EMAIL env)" for u
    using distinct_key_unique [of u_email us u v] that assms find_Some_mem [OF Some] by (simp add: wf_users_def)
  have key: "x = v" if "x \<in> set us" "u_id x = u_id v" for x
    using distinct_key_unique [of u_id us x v] that assms find_Some_mem [OF Some] by (simp add: wf_users_def)
  have only: "\<forall>u\<in>set us. u_email u = lower (DEMO_LOGIN_EMAIL env) \<longrightarrow> u_id u \<notin> set (admins us)"
    if "u_role v \<noteq> role_value ADMIN"
  proof (intro ballI impI notI)
    fix u assume u: "u \<in> set us" "u_email u = lower (DEMO_LOGIN_EMAIL env)" "u_id u \<in> set (admins us)"
    obtain x where "x \<in> set us" "u_role x = role_value ADMIN" "u_id x = u_id u"
      using u(3) by (auto simp: admins_def)
    then show False using mail [OF u(1,2)] key [of x] that by simp
  qed
  show ?thesis
  proof (cases "(DEMO_LOGIN_EMAIL env = [] \<or> DEMO_LOGIN_PASSWORD env = []) \<or> u_role v = role_value ADMIN")
    case True
    then have "\<exists>x. demo_login env us = Inl x" by (auto simp: demo_login_def Some)
    then show ?thesis by auto
  next
    case False
    then have "demo_login env us = Inr (DEMO_LOGIN_EMAIL env, DEMO_LOGIN_PASSWORD env)"
      unfolding demo_login_def Some option.case by simp
    then show ?thesis using only [OF False [THEN iffD1 [OF de_Morgan_disj], THEN conjunct2]] by (simp only: sum.case prod.case)
  qed
qed

text \<open>C27: No endpoint of this component makes an administrator. On a well-formed table, registering and logging in
keep the table well-formed (unique ids, unique lower-case addresses) and the set of administrators exactly as it
was, whatever the payload; a registration that succeeds adds one active \<open>USER\<close> of the allowed domain under an
address nobody had, one that fails changes nothing; and the published demo credentials never belong to an
administrator.\<close>

theorem no_endpoint_grants_admin:
  assumes "wf_users us" "fresh_user_id env \<notin> u_id ` set us"
  shows "wf_users (snd (register_endpoint env e n p us)) \<and> admins (snd (register_endpoint env e n p us)) = admins us
    \<and> (case register_endpoint env e n p us of
         (Inl x, us') \<Rightarrow> us' = us
       | (Inr u, us') \<Rightarrow> us' = us @ [u] \<and> u_role u = role_value USER \<and> u_is_active u
           \<and> u_email u \<notin> u_email ` set us \<and> endswith (u_email u) (''@'' @ lower (ALLOWED_EMAIL_DOMAIN env)))
    \<and> wf_users (snd (login_endpoint env e p us)) \<and> admins (snd (login_endpoint env e p us)) = admins us
    \<and> (case demo_login env us of Inl x \<Rightarrow> True
       | Inr (de, dp) \<Rightarrow> \<forall>u\<in>set us. u_email u = lower de \<longrightarrow> u_id u \<notin> set (admins us))"
proof -
  note r = registration_grants_nothing [OF assms, of e n p] and l = login_keeps [OF assms(1), of env e p]
  show ?thesis
    by (intro conjI r [THEN conjunct1] r [THEN conjunct2, THEN conjunct1] r [THEN conjunct2, THEN conjunct2]
        l [THEN conjunct1] l [THEN conjunct2, THEN conjunct2] demo_login_is_no_admin [OF assms(1)])
qed


section \<open>From registration to an authenticated call\<close>

text \<open>What the code relies on: bcrypt accepts what it hashed, and an unexpired token signed with the deployment's
key decodes to the subject it was issued for. A UUID's text parses back.\<close>

definition libraries_ok :: "auth_env \<Rightarrow> bool" where
  "libraries_ok env =
     ((\<forall>pw. checkpw env pw (hashpw env pw) = Some True)
      \<and> (\<forall>i r t. jwt_encode env i r t \<noteq> [] \<and> jwt_decode env (jwt_encode env i r t) = Some (Some i))
      \<and> parse_uuid env (fresh_user_id env) = Some (fresh_user_id env))"


section \<open>Witnesses\<close>

text \<open>A store whose hash is the reversed password and whose token is the subject after a marker.\<close>

definition sample_auth :: auth_env where
  "sample_auth =
     \<lparr> auth_now = 5, fresh_user_id = ''u1'', hashpw = rev, checkpw = (\<lambda>p h. Some (h = rev p)),
       jwt_encode = (\<lambda>i r t. CHR ''.'' # i), jwt_decode = (\<lambda>t. Some (Some (tl t))), parse_uuid = Some,
       valid_email = Inr, ALLOWED_EMAIL_DOMAIN = ''A-pag.org'', JWT_ACCESS_TOKEN_EXPIRE_MINUTES = 60,
       DEMO_LOGIN_EMAIL = '''', DEMO_LOGIN_PASSWORD = '''' \<rparr>"

definition sample_admin :: user where
  "sample_admin =
     \<lparr> u_id = ''u0'', u_email = ''root@a-pag.org'', u_full_name = ''R'', u_hashed_password = ''x'', u_role = ''ADMIN'',
       u_is_active = True, u_created_at = 0, u_last_login_at = None \<rparr>"

lemma sample_users_ok: "wf_users [sample_admin]" "fresh_user_id sample_auth \<notin> u_id ` set [sample_admin]"
  by (simp_all add: wf_users_def sample_admin_def sample_auth_def) code_simp

lemma sample_registration:
  "fst (register_endpoint sample_auth ''New@a-pag.org'' ''N'' ''Secret-123'' [sample_admin])
     = Inr \<lparr> u_id = ''u1'', u_email = ''new@a-pag.org'', u_full_name = ''N'', u_hashed_password = ''321-terceS'',
             u_role = ''USER'', u_is_active = True, u_created_at = 5, u_last_login_at = None \<rparr>"
  by code_simp

theorem no_endpoint_grants_admin_witness:
  "admins (snd (register_endpoint sample_auth ''New@a-pag.org'' ''N'' ''Secret-123'' [sample_admin])) = [''u0'']"
  using no_endpoint_grants_admin [OF sample_users_ok, of "''New@a-pag.org''" "''N''" "''Secret-123''"]
  by (simp add: admins_def sample_admin_def role_value_def)


end
