(* ===== verification/Upload.thy ===== *)
theory Upload
  imports ScanHandler
begin

text \<open>\<open>document_pipeline/upload_service.py\<close>: the one way in. The upload endpoint and the Drive connector both hand
their bytes to \<open>receive\<close>, which lands them in quarantine, registers the document and queues its scan.\<close>

definition MAX_FILE_SIZE :: nat where "MAX_FILE_SIZE = 100 * 1024 * 1024"

record upload_request =
  rq_classification :: Classification
  rq_supersedes_doc_id :: "uuid option"
  rq_keep_previous_version :: bool
  rq_owner_id :: "uuid option"
  rq_title :: "string option"
  rq_description :: "string option"
  rq_document_date :: "time option"
  rq_upload_batch_id :: "uuid option"

text \<open>The fresh identifiers of one call, the clock, and the faults: \<open>put_fails\<close> when the store raises,
\<open>audit_fails\<close> when the audit write does, which is swallowed.\<close>

record upload_env =
  up_document_id :: uuid
  up_correlation_id :: uuid
  up_job_id :: uuid
  up_now :: time
  put_fails :: bool
  audit_fails :: bool

record receipt = upload_response +
  rc_status_url :: string
  rc_correlation_id :: uuid
  rc_upload_batch_id :: "uuid option"

definition audit_as :: "bool \<Rightarrow> uuid \<Rightarrow> AuditEventType \<Rightarrow> (string \<times> json) list \<Rightarrow> string option \<Rightarrow> uuid option \<Rightarrow> world \<Rightarrow> world" where
  "audit_as fails i ev det usr corr w = (if fails then w else log_event i ev det usr corr w)"

text \<open>The row \<open>receive\<close> registers.\<close>

definition received_document :: "upload_env \<Rightarrow> string \<Rightarrow> bytes \<Rightarrow> upload_request \<Rightarrow> string \<Rightarrow> document" where
  "received_document env name data m mime =
     (new_document (up_document_id env) name (length data) (up_now env))
       \<lparr> owner_id := rq_owner_id m, title := rq_title m, description := rq_description m, mime_type := mime,
         upload_batch_id := rq_upload_batch_id m, status := QUARANTINED, classification := Some (rq_classification m),
         document_date := rq_document_date m, version := 1,
         quarantine_path := Some (QUARANTINE_BUCKET @ ''/'' @ build_quarantine_key (up_document_id env) mime) \<rparr>"

definition upload_receipt :: "upload_env \<Rightarrow> string \<Rightarrow> upload_request \<Rightarrow> string \<Rightarrow> receipt" where
  "upload_receipt env name m mime =
     \<lparr> resp_document_id = up_document_id env, resp_filename = name, resp_status = QUARANTINED,
       resp_quarantine_key = build_quarantine_key (up_document_id env) mime, resp_checksum = None,
       resp_rejection_reason = None, was_duplicate = False, canonical_tier_escalated = False,
       message = ''Document accepted for asynchronous scanning and processing.'',
       rc_status_url = ''/api/v1/documents/'' @ up_document_id env @ ''/status'',
       rc_correlation_id = up_correlation_id env, rc_upload_batch_id = rq_upload_batch_id m \<rparr>"

definition receive ::
  "upload_env \<Rightarrow> string \<Rightarrow> bytes \<Rightarrow> upload_request \<Rightarrow> string \<Rightarrow> world \<Rightarrow> (string, receipt) result \<times> world" where
  "receive env name data m mime w =
     (if put_fails env then (Inl ''StorageError'', w)
      else
        let i = up_document_id env; key = build_quarantine_key i mime;
            w1 = w\<lparr> objects := fs_put QUARANTINE_BUCKET key data (objects w) \<rparr>
        in case pg_create (up_now env) (received_document env name data m mime) (documents w1) of
             Inl e \<Rightarrow> (Inl ''IntegrityError'', w1)
           | Inr (row, rows) \<Rightarrow>
               let w2 = enqueue_job (up_job_id env) i SCAN (up_now env) (w1\<lparr> documents := rows \<rparr>);
                   w3 = audit_as (audit_fails env) i DOCUMENT_QUARANTINED
                     [(''filename'', JStr name), (''size_bytes'', JInt (int (length data))),
                      (''classification'', JStr (classification_value (rq_classification m))),
                      (''quarantine_key'', JStr key)] (rq_owner_id m) (Some (up_correlation_id env)) w2
               in (Inr (upload_receipt env name m mime), w3))"

section \<open>What a received upload is\<close>

lemma audit_as_frame [simp, frame_simps]:
  "documents (audit_as b i ev det u c w) = documents w" "jobs (audit_as b i ev det u c w) = jobs w"
  "chunks (audit_as b i ev det u c w) = chunks w" "objects (audit_as b i ev det u c w) = objects w"
  by (simp_all add: audit_as_def)

text \<open>The row as the database holds it.\<close>

definition received_row :: "upload_env \<Rightarrow> string \<Rightarrow> bytes \<Rightarrow> upload_request \<Rightarrow> string \<Rightarrow> document" where
  "received_row env name data m mime =
     (received_document env name data m mime)
       \<lparr> created_at := up_now env, updated_at := up_now env, deleted_at := None, purged_at := None \<rparr>"

lemma received_row_fields [simp]:
  "doc_id (received_row env name data m mime) = up_document_id env"
  "classification (received_row env name data m mime) = Some (rq_classification m)"
  "owner_id (received_row env name data m mime) = rq_owner_id m"
  "status (received_row env name data m mime) = QUARANTINED"
  "checksum (received_row env name data m mime) = None"
  "mime_type (received_row env name data m mime) = mime"
  "filename (received_row env name data m mime) = name"
  "supersedes_id (received_row env name data m mime) = None"
  "upload_batch_id (received_row env name data m mime) = rq_upload_batch_id m"
  "quarantine_path (received_row env name data m mime) = Some (quarantine_path_of (up_document_id env) mime)"
  "deleted_at (received_row env name data m mime) = None"
  by (simp_all add: received_row_def received_document_def new_document_def quarantine_path_of_def)

lemma received_create:
  assumes "wf_docs rows" "up_document_id env \<notin> doc_id ` set rows"
  shows "pg_create t (received_document env name data m mime) rows
    = Inr ((received_document env name data m mime)\<lparr> created_at := t, updated_at := t, deleted_at := None, purged_at := None \<rparr>,
           rows @ [(received_document env name data m mime)\<lparr> created_at := t, updated_at := t, deleted_at := None, purged_at := None \<rparr>])"
proof -
  have "find_doc (up_document_id env) rows = None" using assms(2) by (simp add: find_doc_None)
  then show ?thesis using assms(1)
    by (simp add: pg_create_def received_document_def new_document_def Let_def commit_rows_def wf_docs_def
        active_checksum_def)
qed

text \<open>A fresh id and a working store: the call succeeds, and these are its four writes.\<close>

lemma receive_ok:
  assumes "wf_docs (documents w)" "up_document_id env \<notin> doc_id ` set (documents w)" "\<not> put_fails env"
  shows "\<exists>w'. receive env name data m mime w = (Inr (upload_receipt env name m mime), w')
    \<and> documents w' = documents w @ [received_row env name data m mime]
    \<and> jobs w' = jobs w @ [new_job (up_job_id env) (up_document_id env) SCAN (up_now env)]
    \<and> chunks w' = chunks w
    \<and> objects w' = fs_put QUARANTINE_BUCKET (build_quarantine_key (up_document_id env) mime) data (objects w)"
  using received_create [OF assms(1,2)] assms(3)
  by (simp add: receive_def Let_def enqueue_job_def received_row_def)

lemma extension_cases: "extension_for mime \<in> {''.pdf'', ''.docx'', ''.xlsx'', ''.pptx''}"
  by (auto simp: extension_for_def spec_for_cases FALLBACK_EXTENSION_def PDF_SPEC_def DOCX_SPEC_def
      XLSX_SPEC_def PPTX_SPEC_def split: option.splits)

lemma quarantine_key_inj:
  assumes "build_quarantine_key i m = build_quarantine_key j m'"
  shows "i = j"
proof -
  have "rev (extension_for m) @ rev i = rev (extension_for m') @ rev j"
    using arg_cong [OF assms, of rev] by (simp add: build_quarantine_key_def)
  then have "rev i = rev j" using extension_cases [of m] extension_cases [of m'] by auto
  then show ?thesis by simp
qed

lemma receive_wf:
  assumes "wf_docs (documents w)"
  shows "wf_docs (documents (snd (receive env name data m mime w)))"
proof (cases "put_fails env")
  case True
  then show ?thesis using assms by (simp add: receive_def)
next
  case False
  show ?thesis
    using postgres_create_keeps [OF assms, of "up_now env" "received_document env name data m mime"] False assms
    by (auto simp: receive_def Let_def enqueue_job_def split: sum.splits)
qed

text \<open>The version a caller names is ignored. What \<open>receive\<close> does and answers does not depend on
\<open>supersedes_doc_id\<close> or \<open>keep_previous_version\<close>: the registered document supersedes nothing, and the scan worker,
which is given no request, has nothing to retire.\<close>

theorem superseded_version_is_ignored:
  "receive env name data (m\<lparr> rq_supersedes_doc_id := s, rq_keep_previous_version := k \<rparr>) mime w
     = receive env name data m mime w
   \<and> (case receive env name data m mime w of (r, w') \<Rightarrow>
        supersedes_id ` (set (documents w') - set (documents w)) \<subseteq> {None})"
proof -
  have "receive env name data (m\<lparr> rq_supersedes_doc_id := s, rq_keep_previous_version := k \<rparr>) mime w
      = receive env name data m mime w"
  proof -
    let ?m = "m\<lparr> rq_supersedes_doc_id := s, rq_keep_previous_version := k \<rparr>"
    have same: "received_document env name data ?m mime = received_document env name data m mime"
      "upload_receipt env name ?m mime = upload_receipt env name m mime"
      "rq_classification ?m = rq_classification m" "rq_owner_id ?m = rq_owner_id m"
      by (simp_all add: received_document_def upload_receipt_def)
    show ?thesis unfolding receive_def same by (rule refl)
  qed
  moreover have "supersedes_id d = None"
    if "d \<in> set (documents (snd (receive env name data m mime w))) - set (documents w)" for d
    using that
    by (auto simp: receive_def pg_create_def commit_rows_def Let_def enqueue_job_def received_document_def
        new_document_def split: if_splits sum.splits)
  ultimately show ?thesis by (auto simp: case_prod_unfold)
qed

end
