(* ===== verification/Erasure.thy ===== *)
theory Erasure
  imports Upload
begin

text \<open>\<open>document_pipeline/erasure.py\<close>: deleting a document and everything derived from it. The session's
transaction matters here: the audit entry commits in the middle, so what \<open>rollback\<close> undoes afterwards is written
out.\<close>

section \<open>What erasing is given\<close>

text \<open>\<open>stat_fails\<close>: \<open>object_exists\<close> answers \<open>False\<close> because the look-up failed; \<open>delete_fails\<close>: \<open>delete_object\<close>
answers \<open>False\<close> although the object is there.\<close>

record erase_env =
  er_now :: time
  er_audit_fails :: bool
  stat_fails :: "string \<Rightarrow> string \<Rightarrow> bool"
  delete_fails :: "string \<Rightarrow> string \<Rightarrow> bool"

datatype erase_error = DocumentBusy uuid | StorageEraseFailed string

definition unfinished_jobs :: "uuid \<Rightarrow> world \<Rightarrow> job list" where
  "unfinished_jobs i w = filter (\<lambda>j. job_document_id j = i \<and> job_status j \<in> {PENDING, RUNNING}) (jobs w)"

definition cancel_jobs :: "time \<Rightarrow> uuid \<Rightarrow> world \<Rightarrow> world" where
  "cancel_jobs t i w =
     w\<lparr> jobs := update_where (\<lambda>j. job_document_id j = i \<and> job_status j \<in> {PENDING, RUNNING})
          (\<lambda>j. j\<lparr> job_status := FAILED, finished_at := Some t, error_message := Some ''document deleted'' \<rparr>) (jobs w) \<rparr>"

text \<open>The objects of a document, in the order they are removed; an empty or missing path has none.\<close>

definition object_key :: "string \<Rightarrow> string \<Rightarrow> string" where
  "object_key bucket path =
     (if startswith path (bucket @ ''/'') then tl (dropWhile (\<lambda>c. c \<noteq> CHR ''/'') path) else path)"

definition document_objects :: "document \<Rightarrow> (string \<times> string) list" where
  "document_objects d =
     map (\<lambda>(b, p). (b, object_key b p))
       (filter (\<lambda>(b, p). p \<noteq> [])
         [(RAW_BUCKET, case raw_path d of None \<Rightarrow> [] | Some p \<Rightarrow> p),
          (QUARANTINE_BUCKET, case quarantine_path d of None \<Rightarrow> [] | Some p \<Rightarrow> p),
          (EXTRACTED_BUCKET, extraction_key_for (doc_id d)), (NORMALIZED_BUCKET, normalized_key_for (doc_id d))])"

text \<open>The loop stops at the first object that is there and cannot be removed; the earlier ones are gone.\<close>

fun erase_objects :: "erase_env \<Rightarrow> (string \<times> string) list \<Rightarrow> object_store \<Rightarrow> string option \<times> object_store" where
  "erase_objects env [] s = (None, s)"
| "erase_objects env ((b, k) # rest) s =
     (if stat_fails env b k \<or> \<not> fs_exists b k s then erase_objects env rest s
      else if delete_fails env b k then (Some (b @ ''/'' @ k), s)
      else erase_objects env rest (snd (fs_delete b k s)))"

definition erase_rows :: "erase_env \<Rightarrow> document \<Rightarrow> world \<Rightarrow> world" where
  "erase_rows env d w =
     (let rows1 = snd (pg_purge (er_now env) (doc_id d) (documents w));
          rows2 = (case checksum d of
                     None \<Rightarrow> rows1
                   | Some c \<Rightarrow> if c = [] then rows1 else snd (pg_purge_duplicates_of (er_now env) c rows1))
      in w\<lparr> chunks := filter (\<lambda>c. chunk_document_id c \<noteq> doc_id d) (chunks w), documents := rows2 \<rparr>)"

text \<open>\<open>record\<close> is the caller's audit entry. When it is written it commits the cancelled jobs with it, so a later
rollback finds nothing to undo; when it failed, the cancelled jobs are still part of the open transaction.\<close>

definition erase_document ::
  "erase_env \<Rightarrow> document \<Rightarrow> (world \<Rightarrow> world) \<Rightarrow> world \<Rightarrow> (erase_error, unit) result \<times> world" where
  "erase_document env d record_entry w =
     (if \<exists>j\<in>set (unfinished_jobs (doc_id d) w). job_status j = RUNNING then (Inl (DocumentBusy (doc_id d)), w)
      else
        let w1 = cancel_jobs (er_now env) (doc_id d) w;
            w2 = (if er_audit_fails env then w1 else record_entry w1)
        in case erase_objects env (document_objects d) (objects w2) of
             (Some k, s) \<Rightarrow>
               (Inl (StorageEraseFailed k), (if er_audit_fails env then w else w2)\<lparr> objects := s \<rparr>)
           | (None, s) \<Rightarrow> (Inr (), erase_rows env d (w2\<lparr> objects := s \<rparr>)))"

section \<open>The objects\<close>

lemma erase_objects_other:
  "(b, k) \<notin> set ks \<Longrightarrow> fs_get b k (snd (erase_objects env ks s)) = fs_get b k s"
proof (induction ks arbitrary: s)
  case (Cons x ks)
  then show ?case by (cases x) auto
qed simp

lemma fs_exists_get: "fs_exists b k s \<longleftrightarrow> fs_get b k s \<noteq> None"
  by (rule fs.exists_get)

lemma erase_objects_keeps_gone: "fs_get b k s = None \<Longrightarrow> fs_get b k (snd (erase_objects env ks s)) = None"
  by (induction ks arbitrary: s) (auto split: prod.splits)

lemma erase_objects_gone:
  "\<lbrakk> fst (erase_objects env ks s) = None; (b, k) \<in> set ks; \<not> stat_fails env b k \<rbrakk>
     \<Longrightarrow> fs_get b k (snd (erase_objects env ks s)) = None"
proof (induction ks arbitrary: s)
  case (Cons x ks)
  obtain b' k' where x: "x = (b', k')" by (cases x)
  show ?case
  proof (cases "(b, k) = x")
    case True
    then show ?thesis using Cons.prems x
      by (auto simp: fs_exists_get intro: erase_objects_keeps_gone split: if_splits)
  next
    case False
    then show ?thesis using Cons x by (auto split: if_splits)
  qed
qed simp

lemma erase_objects_all:
  "(\<And>b k. \<not> delete_fails env b k) \<Longrightarrow> fst (erase_objects env ks s) = None"
  by (induction ks arbitrary: s) (auto split: prod.splits)

lemma object_key_bucket [simp]:
  assumes "CHR ''/'' \<notin> set b"
  shows "object_key b (b @ ''/'' @ k) = k"
proof -
  have "dropWhile (\<lambda>c. c \<noteq> CHR ''/'') (b @ ''/'' @ k) = ''/'' @ k"
    using assms by (subst dropWhile_append2) auto
  then show ?thesis using startswith_append [of "b @ ''/''" k] by (simp add: object_key_def)
qed

section \<open>The audit entry as an interface\<close>

text \<open>What erasing relies on: whoever records the deletion touches the audit log only.\<close>

locale deletion_record =
  fixes entry :: "world \<Rightarrow> world"
  assumes documents_kept: "documents (entry w) = documents w"
    and jobs_kept: "jobs (entry w) = jobs w"
    and chunks_kept: "chunks (entry w) = chunks w"
    and objects_kept: "objects (entry w) = objects w"
begin

lemma busy_iff:
  "fst (erase_document env d entry w) = Inl (DocumentBusy i) \<longleftrightarrow>
     i = doc_id d \<and> (\<exists>j\<in>set (jobs w). job_document_id j = doc_id d \<and> job_status j = RUNNING)"
  by (auto simp: erase_document_def unfinished_jobs_def Let_def split: prod.split option.split)

lemma busy_changes_nothing:
  "erase_document env d entry w = (Inl (DocumentBusy i), w') \<Longrightarrow> w' = w"
  by (auto simp: erase_document_def Let_def split: prod.splits option.splits if_splits)

lemma erased:
  assumes "erase_document env d entry w = (Inr (), w')"
  shows "chunks w' = filter (\<lambda>c. chunk_document_id c \<noteq> doc_id d) (chunks w)"
    and "jobs w' = jobs (cancel_jobs (er_now env) (doc_id d) w)"
    and "documents w' = documents (erase_rows env d w)"
    and "objects w' = snd (erase_objects env (document_objects d) (objects w))"
    and "fst (erase_objects env (document_objects d) (objects w)) = None"
    and "\<not> er_audit_fails env \<Longrightarrow> audit_log w' = audit_log (entry (cancel_jobs (er_now env) (doc_id d) w))"
  using assms
  by (auto simp: erase_document_def erase_rows_def cancel_jobs_def Let_def documents_kept jobs_kept chunks_kept
      objects_kept split: prod.splits option.splits if_splits)

text \<open>A deletion that storage refuses: the audit entry is committed and the jobs stay cancelled, although the row
and the passages are untouched.\<close>

lemma refused:
  assumes "erase_document env d entry w = (Inl (StorageEraseFailed k), w')" "\<not> er_audit_fails env"
  shows "documents w' = documents w \<and> chunks w' = chunks w \<and> jobs w' = jobs (cancel_jobs (er_now env) (doc_id d) w)
    \<and> audit_log w' = audit_log (entry (cancel_jobs (er_now env) (doc_id d) w))
    \<and> objects w' = snd (erase_objects env (document_objects d) (objects w))"
  using assms
  by (auto simp: erase_document_def cancel_jobs_def Let_def documents_kept jobs_kept chunks_kept objects_kept
      split: prod.splits option.splits if_splits)

end

lemma no_unfinished_after_cancel: "unfinished_jobs i (cancel_jobs t i w) = []"
proof -
  have "filter (\<lambda>j. job_document_id j = i \<and> job_status j \<in> {PENDING, RUNNING})
      (update_where (\<lambda>j. job_document_id j = i \<and> job_status j \<in> {PENDING, RUNNING})
        (\<lambda>j. j\<lparr> job_status := FAILED, finished_at := Some t, error_message := Some ''document deleted'' \<rparr>) js) = []" for js
    by (induction js) simp_all
  then show ?thesis by (simp add: unfinished_jobs_def cancel_jobs_def)
qed

lemma cancel_jobs_frame [simp, frame_simps]:
  "documents (cancel_jobs t i w) = documents w" "chunks (cancel_jobs t i w) = chunks w"
  "objects (cancel_jobs t i w) = objects w" "audit_log (cancel_jobs t i w) = audit_log w"
  by (simp_all add: cancel_jobs_def)

end
