(* ===== verification/DriveListing.thy ===== *)
theory DriveListing
  imports Validation Access "HOL-Library.Multiset"
begin

text \<open>What the Drive connector knows about Drive: \<open>connectors/drive/models.py\<close>, \<open>export_map.py\<close>, the listing half of
\<open>client.py\<close>, the two tables of \<open>db/models.py\<close> it keeps, and how \<open>service.py\<close> finds the watched files and their
tiers. The HTTP calls are parameters: a page of a listing, or the error the client raises.\<close>

section \<open>Files, states and tables\<close>

datatype DriveFileState = FILE_IMPORTED | FILE_SKIPPED | FILE_REMOVED | FILE_FAILED

datatype VersionState = V_PENDING | V_CURRENT | V_SUPERSEDED | V_DUPLICATE | V_FAILED | V_REMOVED

record drive_file =
  df_file_id :: string
  df_name :: string
  df_mime_type :: string
  df_modified_time :: string
  df_size :: "nat option"
  df_owner_email :: "string option"
  df_md5 :: "string option"

text \<open>\<open>drive_files\<close> and \<open>drive_file_versions\<close>.\<close>

record drive_row =
  dr_file_id :: string
  dr_document_id :: "uuid option"
  dr_modified_time :: "string option"
  dr_md5 :: "string option"
  dr_name :: "string option"
  dr_mime_type :: "string option"
  dr_folder_id :: "string option"
  dr_classification :: "Classification option"
  dr_owner_email :: "string option"
  dr_state :: DriveFileState
  dr_skip_reason :: "string option"
  dr_last_synced_at :: time

record drive_version =
  dv_version_id :: uuid
  dv_file_id :: string
  dv_document_id :: uuid
  dv_modified_time :: "string option"
  dv_md5 :: "string option"
  dv_state :: VersionState
  dv_note :: "string option"
  dv_imported_at :: time
  dv_settled_at :: "time option"

section \<open>What a file is exported to\<close>

definition FOLDER_MIME :: string where "FOLDER_MIME = ''application/vnd.google-apps.folder''"
definition SHORTCUT_MIME :: string where "SHORTCUT_MIME = ''application/vnd.google-apps.shortcut''"

definition GOOGLE_EXPORTS :: "(string \<times> string \<times> string) list" where
  "GOOGLE_EXPORTS =
     [(''application/vnd.google-apps.document'', DOCX_MIME, ''.docx''),
      (''application/vnd.google-apps.spreadsheet'', XLSX_MIME, ''.xlsx''),
      (''application/vnd.google-apps.presentation'', PPTX_MIME, ''.pptx'')]"

definition UNEXPORTABLE :: "(string \<times> string) list" where
  "UNEXPORTABLE =
     [(''application/vnd.google-apps.form'', ''a Google Form''),
      (''application/vnd.google-apps.drawing'', ''a Google Drawing''),
      (''application/vnd.google-apps.map'', ''a Google My Map''),
      (''application/vnd.google-apps.site'', ''a Google Site''),
      (''application/vnd.google-apps.script'', ''an Apps Script project''),
      (''application/vnd.google-apps.jam'', ''a Jamboard''),
      (SHORTCUT_MIME, ''a shortcut to another file'')]"

definition export_target :: "string \<Rightarrow> (string \<times> string) option" where
  "export_target mime = map_of GOOGLE_EXPORTS mime"

definition unexportable_reason :: "string \<Rightarrow> string option" where
  "unexportable_reason mime =
     (case map_of UNEXPORTABLE mime of
        Some what \<Rightarrow> Some (what @ '' - it has no document form this pipeline can read'')
      | None \<Rightarrow>
          if startswith mime ''application/vnd.google-apps.'' \<and> map_of GOOGLE_EXPORTS mime = None
          then Some (''an unrecognised Google-native type ('' @ mime @ '')'')
          else None)"

section \<open>Listings\<close>

text \<open>A page of a listing: its items and the token of the next page, if any. Whether the pages end is the
server's doing, so the walk over them is a partial function.\<close>

type_synonym listing_page = "(string, drive_file list \<times> string option) result"

partial_function (option) paged_from ::
  "(string option \<Rightarrow> listing_page) \<Rightarrow> string option \<Rightarrow> (string, drive_file list) result option" where
  [code]: "paged_from fetch token =
     (case fetch token of
        Inl e \<Rightarrow> Some (Inl e)
      | Inr (items, next_token) \<Rightarrow>
          (case next_token of
             None \<Rightarrow> Some (Inr items)
           | Some t \<Rightarrow>
               if t = [] then Some (Inr items)
               else Option.bind (paged_from fetch (Some t))
                 (\<lambda>rest. Some (case rest of Inl e \<Rightarrow> Inl e | Inr later \<Rightarrow> Inr (items @ later)))))"

section \<open>The folder tree\<close>

text \<open>The folders of a listing that were not seen yet, each recorded one level deeper.\<close>

fun visit_children ::
  "nat \<Rightarrow> string list \<Rightarrow> (string \<times> nat) list \<Rightarrow> (string \<times> nat) list \<times> (string \<times> nat) list" where
  "visit_children depth [] depths = (depths, [])"
| "visit_children depth (c # cs) depths =
     (if c \<in> fst ` set depths then visit_children depth cs depths
      else case visit_children depth cs (depths @ [(c, depth)]) of
        (depths', fresh) \<Rightarrow> (depths', (c, depth) # fresh))"

lemma visit_children_depth: "(f, d) \<in> set (snd (visit_children depth cs depths)) \<Longrightarrow> d = depth"
  by (induction depth cs depths rule: visit_children.induct) (auto split: if_splits prod.splits)

text \<open>\<open>frontier.pop()\<close> takes the folder appended last: the head of the list here. \<open>sub\<close> lists the folders
directly under one. Every step replaces a folder by finitely many deeper ones, and depth is capped.\<close>

function walk_from ::
  "(string \<Rightarrow> (string, string list) result) \<Rightarrow> nat \<Rightarrow> (string \<times> nat) list \<Rightarrow> (string \<times> nat) list
     \<Rightarrow> (string, (string \<times> nat) list) result" where
  "walk_from sub max_depth depths [] = Inr depths"
| "walk_from sub max_depth depths ((f, d) # frontier) =
     (if max_depth \<le> d then walk_from sub max_depth depths frontier
      else case sub f of
        Inl e \<Rightarrow> Inl e
      | Inr cs \<Rightarrow>
          walk_from sub max_depth (fst (visit_children (d + 1) cs depths))
            (rev (snd (visit_children (d + 1) cs depths)) @ frontier))"
  by pat_completeness auto

termination
proof (relation "inv_image (mult less_than) (\<lambda>(sub, m, depths, frontier). mset (map (\<lambda>(f, d). m - d) frontier))")
  show "wf (inv_image (mult less_than)
      (\<lambda>(sub :: string \<Rightarrow> (string, string list) result, m, depths :: (string \<times> nat) list, frontier :: (string \<times> nat) list).
         mset (map (\<lambda>(f, d). m - d) frontier)))"
    by (intro wf_inv_image wf_mult wf_less_than)
next
  fix sub :: "string \<Rightarrow> (string, string list) result" and m :: nat and depths frontier :: "(string \<times> nat) list"
    and f :: string and d :: nat
  have "({#m - d#} + mset (map (\<lambda>(f, d). m - d) frontier), mset (map (\<lambda>(f, d). m - d) frontier)) \<in> (mult less_than)\<inverse>"
    using one_step_implies_mult [of "{#m - d#}" "{#}" less_than "mset (map (\<lambda>(f, d). m - d) frontier)"]
    by (simp add: add.commute)
  then show "((sub, m, depths, frontier), sub, m, depths, (f, d) # frontier)
      \<in> inv_image (mult less_than) (\<lambda>(sub, m, depths, frontier). mset (map (\<lambda>(f, d). m - d) frontier))"
    by simp
next
  fix sub :: "string \<Rightarrow> (string, string list) result" and m :: nat and depths frontier :: "(string \<times> nat) list"
    and f :: string and d :: nat and cs
  assume shallow: "\<not> m \<le> d" and "sub f = Inr cs"
  let ?new = "rev (snd (visit_children (d + 1) cs depths))"
  have "\<forall>k\<in># mset (map (\<lambda>(f, d). m - d) ?new). k < m - d"
    using visit_children_depth [of _ _ "d + 1" cs depths] shallow by fastforce
  then have "(mset (map (\<lambda>(f, d). m - d) frontier) + mset (map (\<lambda>(f, d). m - d) ?new),
      mset (map (\<lambda>(f, d). m - d) frontier) + {#m - d#}) \<in> mult less_than"
    by (intro one_step_implies_mult) auto
  then show "((sub, m, fst (visit_children (d + 1) cs depths), ?new @ frontier), sub, m, depths, (f, d) # frontier)
      \<in> inv_image (mult less_than) (\<lambda>(sub, m, depths, frontier). mset (map (\<lambda>(f, d). m - d) frontier))"
    by (simp add: add.commute)
qed

definition MAX_DEPTH :: nat where "MAX_DEPTH = 10"

definition walk_folder_tree :: "(string \<Rightarrow> (string, string list) result) \<Rightarrow> string \<Rightarrow> (string, (string \<times> nat) list) result" where
  "walk_folder_tree sub start = walk_from sub MAX_DEPTH [(start, 0)] [(start, 0)]"

section \<open>The walk covers the tree\<close>

lemma visit_children_found:
  assumes "distinct (map fst depths)"
  shows "distinct (map fst (fst (visit_children k cs depths)))
    \<and> fst ` set (fst (visit_children k cs depths)) = fst ` set depths \<union> set cs
    \<and> set (fst (visit_children k cs depths)) = set depths \<union> set (snd (visit_children k cs depths))"
  using assms
proof (induction k cs depths rule: visit_children.induct)
  case (2 k c cs depths)
  show ?case
  proof (cases "c \<in> fst ` set depths")
    case True
    have "visit_children k (c # cs) depths = visit_children k cs depths" using True by (simp only: visit_children.simps if_True)
    then show ?thesis using 2(1) [OF True 2(3)] True by (simp only: list.set) blast
  next
    case False
    then have "distinct (map fst (depths @ [(c, k)]))" using 2(3) by auto
    note ih = 2(2) [OF False this]
    let ?V = "visit_children k cs (depths @ [(c, k)])"
    have eq: "visit_children k (c # cs) depths = (fst ?V, (c, k) # snd ?V)" using False by (simp add: case_prod_unfold)
    have "fst ` set (fst ?V) = fst ` set depths \<union> set (c # cs)" using ih by (metis Un_insert_left Un_insert_right fst_conv
      image_insert list.simps(15) set_append sup_bot.right_neutral list.set(1))
    moreover have "set (fst ?V) = set depths \<union> set ((c, k) # snd ?V)" using ih by auto
    ultimately show ?thesis using ih by (simp only: eq fst_conv snd_conv)
  qed
qed simp

text \<open>What holds of the recorded folders and the stack while the walk runs.\<close>

definition walk_inv ::
  "(string \<Rightarrow> (string, string list) result) \<Rightarrow> nat \<Rightarrow> (string \<times> nat) list \<Rightarrow> (string \<times> nat) list \<Rightarrow> bool" where
  "walk_inv sub m depths frontier =
     (distinct (map fst depths) \<and> set frontier \<subseteq> set depths \<and> (\<forall>(f, d)\<in>set depths. d \<le> m)
      \<and> (\<forall>(f, d)\<in>set depths. d < m \<longrightarrow> (f, d) \<in> set frontier
           \<or> (\<exists>cs. sub f = Inr cs \<and> set cs \<subseteq> fst ` set depths)))"

lemma walk_inv_step:
  assumes "walk_inv sub m depths ((f, d) # frontier)" "\<not> m \<le> d" "sub f = Inr cs"
  shows "walk_inv sub m (fst (visit_children (d + 1) cs depths)) (rev (snd (visit_children (d + 1) cs depths)) @ frontier)
    \<and> set depths \<subseteq> set (fst (visit_children (d + 1) cs depths))"
proof -
  let ?dd = "fst (visit_children (d + 1) cs depths)" and ?new = "snd (visit_children (d + 1) cs depths)"
  have inv: "distinct (map fst depths)" "set frontier \<subseteq> set depths" "\<forall>(f, d)\<in>set depths. d \<le> m"
    "\<And>g e. (g, e) \<in> set depths \<Longrightarrow> e < m \<Longrightarrow> (g, e) = (f, d) \<or> (g, e) \<in> set frontier
        \<or> (\<exists>cs. sub g = Inr cs \<and> set cs \<subseteq> fst ` set depths)"
    using assms(1) by (auto simp: walk_inv_def)
  note found = visit_children_found [OF inv(1), of "d + 1" cs]
  have mem: "set ?dd = set depths \<union> set ?new" "fst ` set ?dd = fst ` set depths \<union> set cs" using found by blast+
  have deep: "\<forall>(g, e)\<in>set ?dd. e \<le> m"
    using inv(3) assms(2) mem(1) visit_children_depth [of _ _ "d + 1" cs depths] by fastforce
  have covered: "(g, e) \<in> set (rev ?new @ frontier) \<or> (\<exists>cs. sub g = Inr cs \<and> set cs \<subseteq> fst ` set ?dd)"
    if "(g, e) \<in> set ?dd" "e < m" for g e
  proof (cases "(g, e) \<in> set ?new")
    case False
    then have "(g, e) \<in> set depths" using that(1) mem(1) by blast
    then consider "(g, e) = (f, d)" | "(g, e) \<in> set frontier" | cs' where "sub g = Inr cs'" "set cs' \<subseteq> fst ` set depths"
      using inv(4) \<open>e < m\<close> by meson
    then show ?thesis using assms(3) mem(2) by cases auto
  qed simp
  have sub: "set (rev ?new @ frontier) \<subseteq> set ?dd" using inv(2) mem(1) by auto
  show ?thesis unfolding walk_inv_def using found deep covered sub mem(1) by blast
qed

lemma walk_covers:
  "(\<And>f. \<not> isl (sub f)) \<Longrightarrow> walk_inv sub m depths frontier \<Longrightarrow>
     \<exists>ds. walk_from sub m depths frontier = Inr ds \<and> set depths \<subseteq> set ds \<and> walk_inv sub m ds []"
proof (induction sub m depths frontier rule: walk_from.induct)
  case (2 sub m depths f d frontier)
  show ?case
  proof (cases "m \<le> d")
    case True
    then have "walk_inv sub m depths frontier" using 2(4) by (auto simp: walk_inv_def)
    then show ?thesis using 2(1) [OF True 2(3)] True by simp
  next
    case False
    obtain cs where cs: "sub f = Inr cs" using 2(3) [of f] by (cases "sub f") auto
    note step = walk_inv_step [OF 2(4) False cs]
    show ?thesis using 2(2) [OF False cs 2(3) step [THEN conjunct1]] step False cs by auto
  qed
qed simp


section \<open>Watched files and their tiers\<close>

text \<open>The client as the service sees it, its listings complete. Errors are the ones the run tells apart.\<close>

datatype drive_error = DriveSyncError string | SyncAlreadyRunning string | DriveApiError string

record drive_client =
  dc_subfolders :: "string \<Rightarrow> (string, string list) result"
  dc_children :: "string \<Rightarrow> (string, drive_file list) result"
  dc_download :: "string \<Rightarrow> (string, bytes) result"
  dc_export :: "string \<Rightarrow> string \<Rightarrow> (string, bytes) result"

definition add_tier :: "Classification \<Rightarrow> (string \<times> Classification) list \<Rightarrow> string \<Rightarrow> (string \<times> Classification) list" where
  "add_tier tier tiers f =
     (if map_of tiers f = None \<or> is_stricter (Some tier) (map_of tiers f) then AList.update f tier tiers else tiers)"

definition tree_tiers ::
  "drive_client \<Rightarrow> string \<Rightarrow> Classification \<Rightarrow> (string \<times> Classification) list
     \<Rightarrow> (drive_error, (string \<times> Classification) list) result" where
  "tree_tiers client start tier tiers =
     (if start = [] then Inr tiers
      else case walk_folder_tree (dc_subfolders client) start of
        Inl e \<Rightarrow> Inl (DriveApiError e)
      | Inr ds \<Rightarrow> Inr (foldl (add_tier tier) tiers (map fst ds)))"

definition resolve_folder_tiers ::
  "drive_client \<Rightarrow> string \<Rightarrow> string \<Rightarrow> (drive_error, (string \<times> Classification) list) result" where
  "resolve_folder_tiers client public_start restricted_start =
     (if public_start = [] \<and> restricted_start = []
      then Inl (DriveSyncError (''Neither GDRIVE_PUBLIC_FOLDER_ID nor GDRIVE_RESTRICTED_FOLDER_ID is set. ''
             @ ''Without a watched folder there is nothing to sync, and no way to decide a tier.''))
      else case tree_tiers client public_start PUBLIC [] of
        Inl e \<Rightarrow> Inl e
      | Inr tiers \<Rightarrow> tree_tiers client restricted_start RESTRICTED tiers)"

type_synonym watched = "(string \<times> drive_file \<times> Classification \<times> string) list"

definition add_item :: "Classification \<Rightarrow> string \<Rightarrow> watched \<Rightarrow> drive_file \<Rightarrow> watched" where
  "add_item tier folder found item =
     (if df_mime_type item = FOLDER_MIME then found
      else case map_of found (df_file_id item) of
        None \<Rightarrow> AList.update (df_file_id item) (item, tier, folder) found
      | Some (it, t, fo) \<Rightarrow>
          if is_stricter (Some tier) (Some t) then AList.update (df_file_id item) (item, tier, folder) found
          else found)"

fun list_watched_from ::
  "drive_client \<Rightarrow> (string \<times> Classification) list \<Rightarrow> watched \<Rightarrow> (drive_error, watched) result" where
  "list_watched_from client [] found = Inr found"
| "list_watched_from client ((folder, tier) # rest) found =
     (case dc_children client folder of
        Inl e \<Rightarrow> Inl (DriveApiError e)
      | Inr items \<Rightarrow> list_watched_from client rest (foldl (add_item tier folder) found items))"

definition list_watched_files ::
  "drive_client \<Rightarrow> (string \<times> Classification) list \<Rightarrow> (drive_error, watched) result" where
  "list_watched_files client tiers = list_watched_from client tiers []"

section \<open>The folder sets the tier\<close>

lemma stricter_tiers: "is_stricter (Some a) (Some b) \<longleftrightarrow> a = RESTRICTED \<and> b = PUBLIC"
  by (cases a; cases b) (simp_all add: is_stricter_def tier_rank_def)

lemma is_stricter_None: "is_stricter (Some a) None \<longleftrightarrow> a = RESTRICTED"
  by (cases a) (simp_all add: is_stricter_def tier_rank_def)

lemma map_of_add_tier:
  "map_of (add_tier tier tiers f) g =
     (if g = f then Some (case map_of tiers f of None \<Rightarrow> tier
                          | Some t \<Rightarrow> if tier = RESTRICTED then RESTRICTED else t)
      else map_of tiers g)"
  by (cases "map_of tiers f"; cases tier)
     (auto simp: add_tier_def stricter_tiers is_stricter_None update_conv' split: option.split Classification.split
       intro: Classification.exhaust)

lemma map_of_add_tiers:
  "map_of (foldl (add_tier tier) tiers fs) g =
     (if g \<in> set fs then Some (case map_of tiers g of None \<Rightarrow> tier
                              | Some t \<Rightarrow> if tier = RESTRICTED then RESTRICTED else t)
      else map_of tiers g)"
  by (induction fs arbitrary: tiers) (auto simp: map_of_add_tier split: option.splits)

text \<open>The folders of a tree, none when its walk fails or it is not configured.\<close>

definition tree_folders :: "drive_client \<Rightarrow> string \<Rightarrow> string set" where
  "tree_folders client start =
     (if start = [] then {}
      else case walk_folder_tree (dc_subfolders client) start of Inl e \<Rightarrow> {} | Inr ds \<Rightarrow> fst ` set ds)"

lemma tree_tiers_map:
  "tree_tiers client start tier tiers = Inr tiers' \<Longrightarrow>
     map_of tiers' g = (if g \<in> tree_folders client start
       then Some (case map_of tiers g of None \<Rightarrow> tier | Some t \<Rightarrow> if tier = RESTRICTED then RESTRICTED else t)
       else map_of tiers g)"
  by (auto simp: tree_tiers_def tree_folders_def map_of_add_tiers split: if_splits sum.splits; force)

lemma resolved_tiers:
  assumes "resolve_folder_tiers client p r = Inr tiers"
  shows "map_of tiers g = (if g \<in> tree_folders client r then Some RESTRICTED
      else if g \<in> tree_folders client p then Some PUBLIC else None)"
proof -
  obtain t1 where "tree_tiers client p PUBLIC [] = Inr t1" "tree_tiers client r RESTRICTED t1 = Inr tiers"
    using assms by (auto simp: resolve_folder_tiers_def split: if_splits sum.splits)
  then show ?thesis using tree_tiers_map [of client p PUBLIC "[]" t1 g] tree_tiers_map [of client r RESTRICTED t1 tiers g]
    by (auto split: option.splits)
qed

lemma distinct_add_tiers: "distinct (map fst tiers) \<Longrightarrow> distinct (map fst (foldl (add_tier tier) tiers fs))"
  by (induction fs arbitrary: tiers) (auto simp: add_tier_def distinct_update)

lemma distinct_tree_tiers:
  "tree_tiers client start tier tiers = Inr tiers' \<Longrightarrow> distinct (map fst tiers) \<Longrightarrow> distinct (map fst tiers')"
  by (auto simp: tree_tiers_def distinct_add_tiers split: if_splits sum.splits)

lemma resolved_distinct: "resolve_folder_tiers client p r = Inr tiers \<Longrightarrow> distinct (map fst tiers)"
  by (auto simp: resolve_folder_tiers_def split: if_splits sum.splits dest: distinct_tree_tiers)

text \<open>Every listed non-folder item with the folder it was listed in and that folder's tier, in order.\<close>

definition occurrences :: "drive_client \<Rightarrow> (string \<times> Classification) list \<Rightarrow> (Classification \<times> string \<times> drive_file) list" where
  "occurrences client tiers =
     concat (map (\<lambda>(fo, t). map (\<lambda>it. (t, fo, it))
       (filter (\<lambda>it. df_mime_type it \<noteq> FOLDER_MIME) (case dc_children client fo of Inl e \<Rightarrow> [] | Inr its \<Rightarrow> its))) tiers)"

lemma occurrence_iff:
  "(t, fo, it) \<in> set (occurrences client tiers) \<longleftrightarrow> (fo, t) \<in> set tiers \<and> df_mime_type it \<noteq> FOLDER_MIME
     \<and> (\<exists>its. dc_children client fo = Inr its \<and> it \<in> set its)"
proof (induction tiers)
  case (Cons x tiers)
  obtain fo' t' where x: "x = (fo', t')" by (cases x)
  show ?case using Cons
    by (cases "dc_children client fo'") (auto simp: occurrences_def x)
qed (simp add: occurrences_def)

definition add_occurrence :: "watched \<Rightarrow> Classification \<times> string \<times> drive_file \<Rightarrow> watched" where
  "add_occurrence found x = (case x of (t, fo, it) \<Rightarrow> add_item t fo found it)"

lemma foldl_add_item:
  "foldl (add_item t fo) found its
     = foldl add_occurrence found (map (\<lambda>it. (t, fo, it)) (filter (\<lambda>it. df_mime_type it \<noteq> FOLDER_MIME) its))"
  by (induction its arbitrary: found) (auto simp: add_occurrence_def add_item_def)

lemma listed:
  "list_watched_from client tiers found = Inr found' \<Longrightarrow> found' = foldl add_occurrence found (occurrences client tiers)"
  by (induction client tiers found rule: list_watched_from.induct)
     (auto simp: occurrences_def foldl_add_item split: sum.splits)

text \<open>What folding the occurrences yields: one entry per file id, an occurrence itself, at the strictest tier.\<close>

definition strictest :: "(Classification \<times> string \<times> drive_file) list \<Rightarrow> string \<Rightarrow> Classification" where
  "strictest occ i = (if \<exists>(t, fo, it)\<in>set occ. df_file_id it = i \<and> t = RESTRICTED then RESTRICTED else PUBLIC)"

lemma add_occurrences:
  assumes "\<forall>(t, fo, it)\<in>set occ. df_mime_type it \<noteq> FOLDER_MIME"
  shows "distinct (map fst (foldl add_occurrence [] occ))
    \<and> (case map_of (foldl add_occurrence [] occ) i of
         None \<Rightarrow> \<forall>(t, fo, it)\<in>set occ. df_file_id it \<noteq> i
       | Some (it, t, fo) \<Rightarrow> (t, fo, it) \<in> set occ \<and> df_file_id it = i \<and> t = strictest occ i)"
  using assms
proof (induction occ rule: rev_induct)
  case (snoc x occ)
  obtain t fo it where x: "x = (t, fo, it)" by (cases x)
  let ?f = "foldl add_occurrence [] occ"
  have mime: "df_mime_type it \<noteq> FOLDER_MIME" using snoc.prems x by simp
  have ih: "distinct (map fst ?f)" "case map_of ?f i of None \<Rightarrow> \<forall>(t, fo, it)\<in>set occ. df_file_id it \<noteq> i
       | Some (it, t, fo) \<Rightarrow> (t, fo, it) \<in> set occ \<and> df_file_id it = i \<and> t = strictest occ i"
    using snoc by simp_all
  have step: "foldl add_occurrence [] (occ @ [x]) = add_item t fo ?f it" by (simp add: x add_occurrence_def)
  have "distinct (map fst (add_item t fo ?f it))"
    using ih(1) by (auto simp: add_item_def distinct_update split: option.split)
  moreover have "case map_of (add_item t fo ?f it) i of None \<Rightarrow> \<forall>(t, fo, it)\<in>set (occ @ [x]). df_file_id it \<noteq> i
       | Some (it, t, fo) \<Rightarrow> (t, fo, it) \<in> set (occ @ [x]) \<and> df_file_id it = i \<and> t = strictest (occ @ [x]) i"
  proof (cases "df_file_id it = i")
    case False
    then have m: "map_of (add_item t fo ?f it) i = map_of ?f i"
      using mime by (auto simp: add_item_def update_conv' split: option.split)
    have "strictest (occ @ [x]) i = strictest occ i" using False by (auto simp: strictest_def x)
    then show ?thesis unfolding m using ih(2) False by (auto simp: x split: option.splits)
  next
    case True
    show ?thesis
    proof (cases "map_of ?f i")
      case None
      then have none: "\<forall>(t, fo, it)\<in>set occ. df_file_id it \<noteq> i" using ih(2) by simp
      then have "strictest (occ @ [x]) i = t" using True by (cases t) (auto simp: strictest_def x)
      then show ?thesis using None True mime by (auto simp: add_item_def update_conv' x)
    next
      case (Some y)
      obtain it' t' fo' where y: "y = (it', t', fo')" by (cases y)
      have "(t', fo', it') \<in> set occ \<and> df_file_id it' = i \<and> t' = strictest occ i"
        by (rule ih(2) [unfolded Some y option.case prod.case])
      then have old: "(t', fo', it') \<in> set occ" "df_file_id it' = i" "t' = strictest occ i" by blast+
      have new: "strictest (occ @ [x]) i = (if t = RESTRICTED then RESTRICTED else t')"
        using True old(3) by (auto simp: strictest_def x)
      show ?thesis
        using Some y True mime old new
        by (cases t; cases t') (auto simp: add_item_def update_conv' x stricter_tiers)
    qed
  qed
  ultimately show ?case by (simp only: step)
qed simp


section \<open>Folders hidden by the depth limit\<close>

text \<open>A chain of folders \<open>1\<close> to \<open>9\<close> under the start folder \<open>0\<close> that ends in \<open>x\<close>, and a short way
through \<open>a\<close> to the same \<open>x\<close>, which holds \<open>y\<close>.\<close>

definition detour :: "string \<Rightarrow> (string, string list) result" where
  "detour f = Inr
     (case map_of [(''0'', [''a'', ''1'']), (''1'', [''2'']), (''2'', [''3'']), (''3'', [''4'']), (''4'', [''5'']), (''5'', [''6'']),
        (''6'', [''7'']), (''7'', [''8'']), (''8'', [''9'']), (''9'', [''x'']), (''a'', [''x'']), (''x'', [''y''])] f of
        None \<Rightarrow> [] | Some cs \<Rightarrow> cs)"

definition plain_file :: "string \<Rightarrow> string \<Rightarrow> drive_file" where
  "plain_file i name =
     \<lparr> df_file_id = i, df_name = name, df_mime_type = PDF_MIME, df_modified_time = ''t0'', df_size = Some 9,
       df_owner_email = None, df_md5 = Some ''m0'' \<rparr>"

text \<open>The folder \<open>y\<close> is also filed under the public start folder \<open>p\<close>, and holds one file.\<close>

definition detour_client :: drive_client where
  "detour_client =
     \<lparr> dc_subfolders = (\<lambda>f. if f = ''p'' then Inr [''y''] else detour f),
       dc_children = (\<lambda>f. Inr (if f = ''y'' then [plain_file ''f1'' ''secret.pdf''] else [])),
       dc_download = (\<lambda>f. Inl ''''), dc_export = (\<lambda>f m. Inl '''') \<rparr>"

text \<open>The depth limit can let a restricted file out. The walk goes depth first, so a folder three levels below
the restricted root may first be met at the bottom of a chain of ten; it is then recorded there, its subfolders are
never listed, and a file in one of them that is also under the public tree is taken for \<open>PUBLIC\<close>.\<close>

theorem depth_limit_lets_restricted_out:
  "detour ''0'' = Inr [''a'', ''1''] \<and> detour ''a'' = Inr [''x''] \<and> detour ''x'' = Inr [''y'']
   \<and> (case resolve_folder_tiers detour_client ''p'' ''0'' of
        Inl e \<Rightarrow> False
      | Inr tiers \<Rightarrow>
          map_of tiers ''x'' = Some RESTRICTED \<and> map_of tiers ''y'' = Some PUBLIC
          \<and> map_sum (\<lambda>_. ()) (map (\<lambda>(i, it, t, fo). (i, t, fo))) (list_watched_files detour_client tiers)
              = Inr [(''f1'', PUBLIC, ''y'')])"
  by code_simp

section \<open>Every page is read\<close>

text \<open>A server that answers with these pages: each but the last names the next one by a token.\<close>

fun served :: "(string option \<Rightarrow> listing_page) \<Rightarrow> string option \<Rightarrow> drive_file list list \<Rightarrow> string list \<Rightarrow> bool" where
  "served fetch token [] tokens = False"
| "served fetch token [items] tokens = (tokens = [] \<and> fetch token = Inr (items, None))"
| "served fetch token (items # p # pages) (t # tokens) =
     (t \<noteq> [] \<and> fetch token = Inr (items, Some t) \<and> served fetch (Some t) (p # pages) tokens)"
| "served fetch token (items # p # pages) [] = False"

text \<open>No page is dropped. However many pages the server splits a listing into, following the tokens ends and
returns the items of all of them in order.\<close>

theorem every_page_is_listed:
  "served fetch token pages tokens \<Longrightarrow> paged_from fetch token = Some (Inr (concat pages))"
proof (induction fetch token pages tokens rule: served.induct)
  case (2 fetch token items tokens)
  then show ?case by (subst paged_from.simps) simp
next
  case (3 fetch token items p pages t tokens)
  then show ?case by (subst paged_from.simps) simp
qed simp_all

theorem every_page_is_listed_witness:
  "paged_from (\<lambda>t. if t = None then Inr ([plain_file ''a'' ''1''], Some ''n'') else Inr ([plain_file ''b'' ''2''], None)) None
     = Some (Inr [plain_file ''a'' ''1'', plain_file ''b'' ''2''])"
  using every_page_is_listed [of _ None "[[plain_file ''a'' ''1''], [plain_file ''b'' ''2'']]" "[''n'']"] by simp

section \<open>Witnesses\<close>



end
