(* ===== verification/Ingestion.thy ===== *)
theory Ingestion
  imports Accounts Erasure DriveListing
begin

text \<open>\<open>api/v1/ingestion.py\<close>: the document endpoints, each a function of the caller and the shared world, its
\<open>HTTPException\<close>s on the left. What the framework does before a handler runs (rate limits, form parsing) is not
modelled; the caller is what \<open>get_current_user\<close> returned.\<close>

section \<open>What an endpoint is given\<close>

text \<open>\<open>uploads k\<close> are the fresh identifiers, clock and faults of the \<open>k\<close>-th \<open>receive\<close> of a request.\<close>

record api_env =
  api_now :: time
  api_audit_fails :: bool
  api_get_raises :: bool
  api_tk :: toolkit
  api_erase :: erase_env
  uploads :: "nat \<Rightarrow> upload_env"
  batch_id :: uuid
  api_chunk_id :: "chunk \<Rightarrow> uuid"
  accounts :: "user list"
  drive_rows :: "drive_row list"
  drive_versions :: "drive_version list"
  MAX_FILES_PER_UPLOAD :: nat
  MAX_BATCH_SIZE_BYTES :: nat
  api_ts_match :: "string \<Rightarrow> document \<Rightarrow> bool"
  api_ts_rank :: "string \<Rightarrow> document \<Rightarrow> int"

definition viewable :: "user \<Rightarrow> document \<Rightarrow> bool" where
  "viewable u d = can_view (classification d) (owner_id d) (Some (u_id u)) (is_admin (Some (u_role u)))"

definition may_change :: "user \<Rightarrow> document \<Rightarrow> bool" where
  "may_change u d = (owner_id d = Some (u_id u) \<or> u_role u = role_value ADMIN)"

definition missing :: "uuid \<Rightarrow> http_error" where
  "missing i = HttpError 404 (''Document with ID '' @ i @ '' not found.'')"

text \<open>\<open>if not doc or not _can_view(doc, current_user)\<close>\<close>

definition visible_document :: "user \<Rightarrow> uuid \<Rightarrow> world \<Rightarrow> document option" where
  "visible_document u i w =
     (case pg_get_by_id i (documents w) of None \<Rightarrow> None | Some d \<Rightarrow> if viewable u d then Some d else None)"

definition safe_disposition_filename :: "string \<Rightarrow> string" where
  "safe_disposition_filename s = filter (\<lambda>c. c \<noteq> CR \<and> c \<noteq> NL \<and> c \<noteq> CHR 0x22) s"

definition uploader_email :: "api_env \<Rightarrow> document \<Rightarrow> string option" where
  "uploader_email env d = Option.bind (owner_id d) (\<lambda>i. map_option u_email (get_user i (accounts env)))"

definition removed_from_drive :: "api_env \<Rightarrow> uuid \<Rightarrow> bool" where
  "removed_from_drive env i =
     list_ex (\<lambda>v. dv_document_id v = i
       \<and> list_ex (\<lambda>r. dr_file_id r = dv_file_id v \<and> dr_state r = FILE_REMOVED) (drive_rows env)) (drive_versions env)"

section \<open>Upload\<close>

record upload_file =
  uf_filename :: "string option"
  uf_content_type :: "string option"
  uf_data :: bytes

definition shown_name :: "upload_file \<Rightarrow> string" where
  "shown_name f = (case uf_filename f of None \<Rightarrow> ''None'' | Some n \<Rightarrow> n)"

text \<open>The first loop: every file is read and checked before any is received.\<close>

fun check_files :: "api_env \<Rightarrow> nat \<Rightarrow> upload_file list \<Rightarrow> (http_error, (upload_file \<times> format_spec) list) result" where
  "check_files env sofar [] = Inr []"
| "check_files env sofar (f # fs) =
     (if uf_data f = [] then Inl (HttpError 422 (''EMPTY_FILE: '' @ SQ @ shown_name f @ SQ @ '' is 0 bytes.''))
      else if MAX_FILE_SIZE < length (uf_data f)
      then Inl (HttpError 422 (''OVERSIZED_FILE: '' @ SQ @ shown_name f @ SQ @ '' exceeds ''
             @ nat_str (MAX_FILE_SIZE div (1024 * 1024)) @ '' MB.''))
      else if MAX_BATCH_SIZE_BYTES env < sofar + length (uf_data f)
      then Inl (HttpError 422 (''BATCH_TOO_LARGE: Combined upload exceeds ''
             @ nat_str (MAX_BATCH_SIZE_BYTES env div (1024 * 1024)) @ '' MB.''))
      else case detect_format (api_tk env) (uf_data f) of
        None \<Rightarrow> Inl (HttpError 415 (SQ @ shown_name f @ SQ @ '': '' @ describe_unsupported (uf_data f) (uf_content_type f)))
      | Some spec \<Rightarrow>
          (case check_files env (sofar + length (uf_data f)) fs of
             Inl e \<Rightarrow> Inl e
           | Inr rest \<Rightarrow> Inr ((f, spec) # rest)))"

definition stored_name :: "upload_file \<Rightarrow> format_spec \<Rightarrow> string" where
  "stored_name f spec =
     (case uf_filename f of None \<Rightarrow> ''unknown'' @ extension spec
      | Some n \<Rightarrow> if n = [] then ''unknown'' @ extension spec else n)"

text \<open>The second loop. An exception of \<open>receive\<close> ends the request, but what was received before stays.\<close>

fun receive_all ::
  "api_env \<Rightarrow> nat \<Rightarrow> upload_request \<Rightarrow> (upload_file \<times> format_spec) list \<Rightarrow> world
     \<Rightarrow> (http_error, receipt list) result \<times> world" where
  "receive_all env k m [] w = (Inr [], w)"
| "receive_all env k m ((f, spec) # rest) w =
     (case receive (uploads env k) (stored_name f spec) (uf_data f) m (spec_mime spec) w of
        (Inl e, w1) \<Rightarrow> (Inl (Unhandled e), w1)
      | (Inr r, w1) \<Rightarrow>
          (case receive_all env (k + 1) m rest w1 of
             (Inl e, w2) \<Rightarrow> (Inl e, w2)
           | (Inr rs, w2) \<Rightarrow> (Inr (r # rs), w2)))"

definition upload_documents ::
  "api_env \<Rightarrow> user \<Rightarrow> upload_file list \<Rightarrow> Classification \<Rightarrow> string option \<Rightarrow> time option \<Rightarrow> uuid option \<Rightarrow> bool
     \<Rightarrow> world \<Rightarrow> (http_error, receipt list) result \<times> world" where
  "upload_documents env u files tier descr date supersedes keep w =
     (if files = [] then (Inl (HttpError 422 ''NO_FILES: At least one file is required.''), w)
      else if MAX_FILES_PER_UPLOAD env < length files
      then (Inl (HttpError 422 (''TOO_MANY_FILES: Maximum '' @ nat_str (MAX_FILES_PER_UPLOAD env)
             @ '' files per upload request.'')), w)
      else if 1 < length files \<and> supersedes \<noteq> None
      then (Inl (HttpError 422 ''INVALID_REQUEST: supersedes_doc_id is only valid for a single-file upload.''), w)
      else case check_files env 0 files of
        Inl e \<Rightarrow> (Inl e, w)
      | Inr contents \<Rightarrow>
          receive_all env 0
            \<lparr> rq_classification = tier, rq_supersedes_doc_id = supersedes, rq_keep_previous_version = keep,
              rq_owner_id = Some (u_id u), rq_title = None, rq_description = descr, rq_document_date = date,
              rq_upload_batch_id = Some (batch_id env) \<rparr> contents w)"

section \<open>Status, content and passages\<close>

record duplicate_view =
  dup_document_id :: uuid
  dup_filename :: string
  dup_deleted :: bool
  dup_can_restore :: bool

definition canonical_id_of :: "audit_entry \<Rightarrow> uuid option" where
  "canonical_id_of e =
     (case map_of (details e) ''canonical_document_id'' of Some (JStr i) \<Rightarrow> if i = [] then None else Some i | _ \<Rightarrow> None)"

definition last_where :: "('a \<Rightarrow> bool) \<Rightarrow> 'a list \<Rightarrow> 'a option" where
  "last_where P xs = find P (rev xs)"

definition duplicate_of :: "api_env \<Rightarrow> user \<Rightarrow> document \<Rightarrow> world \<Rightarrow> duplicate_view option" where
  "duplicate_of env u d w =
     (if status d \<noteq> DUPLICATE then None
      else case Option.bind (last_where (\<lambda>e. audit_document_id e = doc_id d \<and> event_type e = DOCUMENT_REJECTED) (audit_log w))
                  canonical_id_of of
        None \<Rightarrow> None
      | Some ci \<Rightarrow>
          (case pg_get_by_id ci (documents w) of
             None \<Rightarrow> None
           | Some canonical \<Rightarrow>
               if \<not> viewable u canonical \<or> purged_at canonical \<noteq> None then None
               else Some \<lparr> dup_document_id = doc_id canonical, dup_filename = filename canonical,
                 dup_deleted = (deleted_at canonical \<noteq> None),
                 dup_can_restore = (deleted_at canonical \<noteq> None \<and> may_change u canonical
                   \<and> status canonical \<noteq> SUPERSEDED \<and> \<not> removed_from_drive env (doc_id canonical)) \<rparr>))"

text \<open>The document's own fields come with it; the rest of the payload is looked up.\<close>

record status_view =
  sv_document :: document
  sv_uploaded_by :: "string option"
  sv_latest_event :: "(AuditEventType \<times> (string \<times> json) list) option"
  sv_duplicate_of :: "duplicate_view option"

definition get_document_status :: "api_env \<Rightarrow> user \<Rightarrow> uuid \<Rightarrow> world \<Rightarrow> (http_error, status_view) result" where
  "get_document_status env u i w =
     (case visible_document u i w of
        None \<Rightarrow> Inl (missing i)
      | Some d \<Rightarrow>
          Inr \<lparr> sv_document = d, sv_uploaded_by = uploader_email env d,
                sv_latest_event = map_option (\<lambda>e. (event_type e, details e))
                  (last_where (\<lambda>e. audit_document_id e = i) (audit_log w)),
                sv_duplicate_of = duplicate_of env u d w \<rparr>)"

text \<open>\<open>path.split("/", 1)[-1]\<close>\<close>

definition object_key_after :: "string \<Rightarrow> string" where
  "object_key_after p = (if CHR ''/'' \<in> set p then tl (dropWhile (\<lambda>c. c \<noteq> CHR ''/'') p) else p)"

record download =
  dl_content :: bytes
  dl_media_type :: string
  dl_disposition :: string

definition download_document :: "api_env \<Rightarrow> user \<Rightarrow> uuid \<Rightarrow> world \<Rightarrow> (http_error, download) result" where
  "download_document env u i w =
     (case visible_document u i w of
        None \<Rightarrow> Inl (missing i)
      | Some d \<Rightarrow>
          if purged_at d \<noteq> None
          then Inl (HttpError 410 ''GONE: This document was permanently deleted and its content no longer exists.'')
          else case (case raw_path d of None \<Rightarrow> [] | Some p \<Rightarrow> p) of
            [] \<Rightarrow> Inl (HttpError 409 (''NOT_AVAILABLE: Document is '' @ SQ @ status_value (status d) @ SQ
                   @ '' and has no promoted content to download.''))
          | c # cs \<Rightarrow>
              (case (if api_get_raises env then None
                     else fs_get RAW_BUCKET (object_key_after (c # cs)) (objects w)) of
                 None \<Rightarrow> Inl (Unhandled ''FileNotFoundError'')
               | Some data \<Rightarrow>
                   Inr \<lparr> dl_content = data, dl_media_type = mime_type d,
                         dl_disposition = ''inline; filename='' @ [CHR 0x22] @ safe_disposition_filename (filename d) @ [CHR 0x22] \<rparr>))"

record chunk_view =
  cv_chunk :: chunk
  cv_chunk_id :: uuid
  cv_embedded :: bool

record chunk_page =
  cp_document_id :: uuid
  cp_filename :: string
  cp_status :: string
  cp_total :: nat
  cp_limit :: int
  cp_offset :: int
  cp_chunks :: "chunk_view list"

definition get_document_chunks :: "api_env \<Rightarrow> user \<Rightarrow> uuid \<Rightarrow> int \<Rightarrow> int \<Rightarrow> world \<Rightarrow> (http_error, chunk_page) result" where
  "get_document_chunks env u i limit offset w =
     (case visible_document u i w of
        None \<Rightarrow> Inl (missing i)
      | Some d \<Rightarrow>
          let n = max 1 (min limit 1000); o1 = max 0 offset;
              rows = filter (\<lambda>c. chunk_document_id c = i) (chunks w)
          in Inr \<lparr> cp_document_id = i, cp_filename = filename d, cp_status = status_value (status d),
                   cp_total = length rows, cp_limit = n, cp_offset = o1,
                   cp_chunks = map (\<lambda>c. \<lparr> cv_chunk = c, cv_chunk_id = api_chunk_id env c, cv_embedded = (embedding c \<noteq> None) \<rparr>)
                     (page (nat n) (nat o1) (sort_key chunk_index rows)) \<rparr>)"

section \<open>Changing a document\<close>

definition api_audit ::
  "api_env \<Rightarrow> user \<Rightarrow> uuid \<Rightarrow> AuditEventType \<Rightarrow> (string \<times> json) list \<Rightarrow> world \<Rightarrow> world" where
  "api_audit env u i ev det w = audit_as (api_audit_fails env) i ev det (Some (u_id u)) None w"

record reclassified =
  rcl_document :: document
  rcl_previous :: "Classification option"
  rcl_by :: string

definition reclassify_document ::
  "api_env \<Rightarrow> user \<Rightarrow> uuid \<Rightarrow> Classification \<Rightarrow> string option \<Rightarrow> world \<Rightarrow> (http_error, reclassified) result \<times> world" where
  "reclassify_document env u i tier reason w =
     (case visible_document u i w of
        None \<Rightarrow> (Inl (missing i), w)
      | Some d \<Rightarrow>
          if \<not> may_change u d
          then (Inl (HttpError 403 ''FORBIDDEN: Only the uploader or an ADMIN may reclassify this document.''), w)
          else if purged_at d \<noteq> None
          then (Inl (HttpError 410
                 ''GONE: This document was permanently deleted and can no longer be reclassified.''), w)
          else if classification d = Some tier
          then (Inl (HttpError 409 (''NO_CHANGE: Document is already classified '' @ SQ @ classification_value tier @ SQ @ ''.'')), w)
          else
            let w1 = api_audit env u i DOCUMENT_RECLASSIFIED
                  [(''reclassified_by'', JStr (u_id u)), (''old_tier'', json_opt (map_option classification_value (classification d))),
                   (''new_tier'', JStr (classification_value tier)), (''reason'', json_opt reason)] w;
                (updated, rows) = pg_set_classification (api_now env) i tier (documents w1)
            in (Inr \<lparr> rcl_document = (case updated of None \<Rightarrow> d | Some x \<Rightarrow> x), rcl_previous = classification d,
                      rcl_by = u_email u \<rparr>, w1\<lparr> documents := rows \<rparr>))"

definition deletion_entry :: "api_env \<Rightarrow> user \<Rightarrow> document \<Rightarrow> world \<Rightarrow> world" where
  "deletion_entry env u d w =
     log_event (doc_id d) DOCUMENT_DELETED
       [(''deleted_by'', JStr (u_id u)), (''permanent'', JBool True), (''erased_sha256'', json_opt (checksum d)),
        (''erased_filename'', JStr (filename d))] (Some (u_id u)) None w"

definition delete_document :: "api_env \<Rightarrow> user \<Rightarrow> uuid \<Rightarrow> world \<Rightarrow> (http_error, uuid) result \<times> world" where
  "delete_document env u i w =
     (case visible_document u i w of
        None \<Rightarrow> (Inl (missing i), w)
      | Some d \<Rightarrow>
          if \<not> may_change u d
          then (Inl (HttpError 403 ''FORBIDDEN: Only the uploader or an ADMIN may delete this document.''), w)
          else if purged_at d \<noteq> None then (Inl (missing i), w)
          else case erase_document (api_erase env) d (deletion_entry env u d) w of
            (Inl (DocumentBusy j), w1) \<Rightarrow>
              (Inl (HttpError 409 ''BUSY: This file is being processed right now. Delete it again in a few seconds.''), w1)
          | (Inl (StorageEraseFailed k), w1) \<Rightarrow>
              (Inl (HttpError 500
                 ''STORAGE_ERROR: Could not erase the stored file. Nothing was deleted - please retry.''), w1)
          | (Inr (), w1) \<Rightarrow> (Inr i, w1))"

definition restore_document :: "api_env \<Rightarrow> user \<Rightarrow> uuid \<Rightarrow> world \<Rightarrow> (http_error, uuid \<times> DocumentStatus) result \<times> world" where
  "restore_document env u i w =
     (case visible_document u i w of
        None \<Rightarrow> (Inl (missing i), w)
      | Some d \<Rightarrow>
          if \<not> may_change u d
          then (Inl (HttpError 403 ''FORBIDDEN: Only the uploader or an ADMIN may restore this document.''), w)
          else if purged_at d \<noteq> None
          then (Inl (HttpError 410 ''GONE: This document was permanently deleted and its content no longer exists.''), w)
          else if deleted_at d = None then (Inl (HttpError 409 ''NOT_DELETED: This document is not deleted.''), w)
          else if status d = SUPERSEDED
          then (Inl (HttpError 409 ''SUPERSEDED: This is an older version, replaced when the file was edited.''), w)
          else if removed_from_drive env i
          then (Inl (HttpError 409 (''FROM_DRIVE: This file was removed from the Google Drive folder. Put it back ''
                 @ ''in the folder and the next sync restores it.'')), w)
          else
            let w1 = api_audit env u i DOCUMENT_RESTORED
                  [(''restored_by'', JStr (u_id u)), (''reason'', JStr ''restored-in-app''), (''filename'', JStr (filename d))] w;
                (ok, rows) = pg_restore (api_now env) i (documents w1)
            in if ok then (Inr (i, status d), w1\<lparr> documents := rows \<rparr>) else (Inl (missing i), w1))"

section \<open>Lists\<close>

definition with_uploader :: "api_env \<Rightarrow> document \<Rightarrow> document \<times> string option" where
  "with_uploader env d = (d, uploader_email env d)"

definition list_deleted_documents :: "api_env \<Rightarrow> user \<Rightarrow> int \<Rightarrow> world \<Rightarrow> ((document \<times> string option) \<times> bool) list" where
  "list_deleted_documents env u limit w =
     map (\<lambda>d. (with_uploader env d, removed_from_drive env (doc_id d)))
       (pg_list_deleted (Some (u_id u)) (is_admin (Some (u_role u))) limit (documents w))"

record document_page =
  pg_total :: nat
  pg_limit :: int
  pg_offset :: int
  pg_documents :: "(document \<times> string option) list"

definition list_documents :: "api_env \<Rightarrow> user \<Rightarrow> int \<Rightarrow> int \<Rightarrow> world \<Rightarrow> document_page" where
  "list_documents env u limit offset w =
     (let n = max 1 (min limit 200); o1 = max 0 offset;
          (docs, count) = pg_list_paginated (nat n) (nat o1) (Some (u_id u)) (is_admin (Some (u_role u))) (documents w)
      in \<lparr> pg_total = count, pg_limit = n, pg_offset = o1, pg_documents = map (with_uploader env) docs \<rparr>)"

definition search_documents :: "api_env \<Rightarrow> user \<Rightarrow> string \<Rightarrow> int \<Rightarrow> int \<Rightarrow> world \<Rightarrow> (http_error, document_page) result" where
  "search_documents env u q limit offset w =
     (if strip q = [] then Inl (HttpError 422 ''EMPTY_QUERY: q is required.'')
      else
        let n = max 1 (min limit 200); o1 = max 0 offset;
            (docs, count) = pg_search (api_ts_match env) (api_ts_rank env) (strip q) (nat n) (nat o1)
              (Some (u_id u)) (is_admin (Some (u_role u))) (documents w)
        in Inr \<lparr> pg_total = count, pg_limit = n, pg_offset = o1, pg_documents = map (with_uploader env) docs \<rparr>)"

section \<open>An upload request is checked before anything is stored\<close>

lemma checked:
  "check_files env sofar files = Inr contents \<Longrightarrow>
     map fst contents = files
     \<and> (\<forall>(f, spec)\<in>set contents. uf_data f \<noteq> [] \<and> length (uf_data f) \<le> MAX_FILE_SIZE
          \<and> detect_format (api_tk env) (uf_data f) = Some spec)
     \<and> (files \<noteq> [] \<longrightarrow> sofar + sum_list (map (length \<circ> uf_data) files) \<le> MAX_BATCH_SIZE_BYTES env)"
proof (induction env sofar files arbitrary: contents rule: check_files.induct)
  case (2 env sofar f fs)
  obtain spec rest where r: "uf_data f \<noteq> []" "\<not> MAX_FILE_SIZE < length (uf_data f)"
      "\<not> MAX_BATCH_SIZE_BYTES env < sofar + length (uf_data f)" "detect_format (api_tk env) (uf_data f) = Some spec"
      "check_files env (sofar + length (uf_data f)) fs = Inr rest" "contents = (f, spec) # rest"
    using 2(2) by (auto split: if_splits option.splits sum.splits)
  show ?case using 2(1) [OF r(1-5)] r by (cases fs) auto
qed simp

lemma check_refusal: "check_files env sofar files = Inl e \<Longrightarrow> \<exists>st d. e = HttpError st d \<and> st \<in> {415, 422}"
proof (induction env sofar files rule: check_files.induct)
  case (2 env sofar f fs)
  then show ?case by (auto split: if_splits option.splits sum.splits)
qed simp

text \<open>The row, the job and the object of the \<open>k\<close>-th file.\<close>

definition nth_row :: "api_env \<Rightarrow> upload_request \<Rightarrow> nat \<Rightarrow> upload_file \<times> format_spec \<Rightarrow> document" where
  "nth_row env m k x = received_row (uploads env k) (stored_name (fst x) (snd x)) (uf_data (fst x)) m (spec_mime (snd x))"

definition nth_job :: "api_env \<Rightarrow> nat \<Rightarrow> job" where
  "nth_job env k = new_job (up_job_id (uploads env k)) (up_document_id (uploads env k)) SCAN (up_now (uploads env k))"

definition nth_key :: "api_env \<Rightarrow> nat \<Rightarrow> upload_file \<times> format_spec \<Rightarrow> string" where
  "nth_key env k x = build_quarantine_key (up_document_id (uploads env k)) (spec_mime (snd x))"

lemma received_all:
  assumes "wf_docs (documents w)" "\<And>k. \<not> put_fails (uploads env k)"
    and "distinct (map (\<lambda>j. up_document_id (uploads env j)) [k..<k + length contents])"
    and "\<forall>j\<in>{k..<k + length contents}. up_document_id (uploads env j) \<notin> doc_id ` set (documents w)"
  shows "\<exists>rs w'. receive_all env k m contents w = (Inr rs, w') \<and> length rs = length contents
    \<and> documents w' = documents w @ map2 (nth_row env m) [k..<k + length contents] contents
    \<and> jobs w' = jobs w @ map (nth_job env) [k..<k + length contents] \<and> chunks w' = chunks w
    \<and> (\<forall>n<length contents. fs_get QUARANTINE_BUCKET (nth_key env (k + n) (contents ! n)) (objects w')
          = Some (uf_data (fst (contents ! n))))
    \<and> (\<forall>b key. b \<noteq> QUARANTINE_BUCKET \<or> key \<notin> (\<lambda>n. nth_key env (k + n) (contents ! n)) ` {..<length contents} \<longrightarrow>
          fs_get b key (objects w') = fs_get b key (objects w))"
  using assms
proof (induction contents arbitrary: k w)
  case Nil
  then show ?case by simp
next
  case (Cons x rest)
  obtain f spec where x: "x = (f, spec)" by (cases x)
  have up: "[k..<k + length (x # rest)] = k # [Suc k..<Suc k + length rest]" by (simp add: upt_conv_Cons del: upt_Suc)
  have fresh: "up_document_id (uploads env k) \<notin> doc_id ` set (documents w)" using Cons.prems(4) by simp
  obtain w1 where w1: "receive (uploads env k) (stored_name f spec) (uf_data f) m (spec_mime spec) w
        = (Inr (upload_receipt (uploads env k) (stored_name f spec) m (spec_mime spec)), w1)"
      "documents w1 = documents w @ [nth_row env m k x]" "jobs w1 = jobs w @ [nth_job env k]" "chunks w1 = chunks w"
      "objects w1 = fs_put QUARANTINE_BUCKET (nth_key env k x) (uf_data f) (objects w)"
    using receive_ok [OF Cons.prems(1) fresh Cons.prems(2), of "stored_name f spec" "uf_data f" m "spec_mime spec"]
    by (auto simp: nth_row_def nth_job_def nth_key_def x)
  have ids: "distinct (map (\<lambda>j. up_document_id (uploads env j)) [Suc k..<Suc k + length rest])"
      "\<forall>j\<in>{Suc k..<Suc k + length rest}. up_document_id (uploads env j) \<noteq> up_document_id (uploads env k)"
    using Cons.prems(3) unfolding up by (auto simp: image_iff)
  have wf1: "wf_docs (documents w1)"
    using receive_wf [OF Cons.prems(1), of "uploads env k" "stored_name f spec" "uf_data f" m "spec_mime spec"] w1(1) by simp
  have "\<forall>j\<in>{Suc k..<Suc k + length rest}. up_document_id (uploads env j) \<notin> doc_id ` set (documents w1)"
    using Cons.prems(4) ids(2) by (auto simp: w1(2) nth_row_def)
  note ih = Cons.IH [OF wf1 Cons.prems(2) ids(1) this]
  obtain rs w' where r: "receive_all env (Suc k) m rest w1 = (Inr rs, w')" "length rs = length rest"
      "documents w' = documents w1 @ map2 (nth_row env m) [Suc k..<Suc k + length rest] rest"
      "jobs w' = jobs w1 @ map (nth_job env) [Suc k..<Suc k + length rest]" "chunks w' = chunks w1"
      "\<And>n. n < length rest \<Longrightarrow> fs_get QUARANTINE_BUCKET (nth_key env (Suc k + n) (rest ! n)) (objects w') = Some (uf_data (fst (rest ! n)))"
      "\<And>b key. b \<noteq> QUARANTINE_BUCKET \<or> key \<notin> (\<lambda>n. nth_key env (Suc k + n) (rest ! n)) ` {..<length rest} \<Longrightarrow>
          fs_get b key (objects w') = fs_get b key (objects w1)"
    using ih by blast
  have other: "nth_key env k x \<notin> (\<lambda>n. nth_key env (Suc k + n) (rest ! n)) ` {..<length rest}"
    using ids(2) by (force simp: nth_key_def dest: quarantine_key_inj)
  have here: "fs_get QUARANTINE_BUCKET (nth_key env k x) (objects w') = Some (uf_data f)"
    using r(7) [of QUARANTINE_BUCKET "nth_key env k x"] other by (simp add: w1(5))
  have get: "fs_get QUARANTINE_BUCKET (nth_key env (k + n) ((x # rest) ! n)) (objects w') = Some (uf_data (fst ((x # rest) ! n)))"
    if "n < length (x # rest)" for n
    using that here r(6) [of "n - 1"] by (cases n) (auto simp: x)
  have img: "(\<lambda>n. nth_key env (k + n) ((x # rest) ! n)) ` {..<length (x # rest)}
      = insert (nth_key env k x) ((\<lambda>n. nth_key env (Suc k + n) (rest ! n)) ` {..<length rest})"
    by (auto simp: image_iff lessThan_Suc_eq_insert_0)
  have frame: "fs_get b key (objects w') = fs_get b key (objects w)"
    if "b \<noteq> QUARANTINE_BUCKET \<or> key \<notin> (\<lambda>n. nth_key env (k + n) ((x # rest) ! n)) ` {..<length (x # rest)}" for b key
    using that r(7) [of b key] unfolding img by (auto simp: w1(5))
  show ?case
    unfolding up using w1 r get frame by (simp add: x)
qed



section \<open>Who may change a document\<close>

lemma may_change_viewable: "may_change u d \<Longrightarrow> viewable u d"
  by (auto simp: may_change_def viewable_def can_view_def is_admin_def)

lemma visible_document_iff: "visible_document u i w = Some d \<longleftrightarrow> find_doc i (documents w) = Some d \<and> viewable u d"
  by (auto simp: visible_document_def pg_get_by_id_def split: option.splits if_splits)

interpretation deletion: deletion_record "deletion_entry env u d" for env u d
  by unfold_locales (simp_all add: deletion_entry_def)

datatype change = Reclassify Classification "string option" | Delete | Restore

definition change_document :: "api_env \<Rightarrow> user \<Rightarrow> uuid \<Rightarrow> change \<Rightarrow> world \<Rightarrow> (http_error, unit) result \<times> world" where
  "change_document env u i c w =
     (case c of
        Reclassify t reason \<Rightarrow> map_prod (map_sum id (\<lambda>_. ())) id (reclassify_document env u i t reason w)
      | Delete \<Rightarrow> map_prod (map_sum id (\<lambda>_. ())) id (delete_document env u i w)
      | Restore \<Rightarrow> map_prod (map_sum id (\<lambda>_. ())) id (restore_document env u i w))"

lemma no_right_no_change:
  assumes "\<And>d. find_doc i (documents w) = Some d \<Longrightarrow> \<not> may_change u d"
  shows "\<exists>e. change_document env u i c w = (Inl e, w)"
proof (cases "visible_document u i w")
  case None
  then show ?thesis
    by (cases c) (simp_all add: change_document_def reclassify_document_def delete_document_def restore_document_def)
next
  case (Some d)
  then have "\<not> may_change u d" using assms visible_document_iff by blast
  then show ?thesis using Some
    by (cases c) (simp_all add: change_document_def reclassify_document_def delete_document_def restore_document_def)
qed


lemma find_doc_update_where:
  "(\<And>r. P r \<Longrightarrow> doc_id (f r) = doc_id r) \<Longrightarrow>
     find_doc j (update_where P f rows) = map_option (\<lambda>r. if P r then f r else r) (find_doc j rows)"
  unfolding find_doc_def by (rule find_update_where)

definition dup_checksum :: "document \<Rightarrow> document \<Rightarrow> bool" where
  "dup_checksum d r = (\<exists>c. checksum d = Some c \<and> c \<noteq> [] \<and> is_duplicate_of c r)"

lemma erased_other_row:
  assumes "j \<noteq> doc_id d"
  shows "find_doc j (documents (erase_rows env d w)) =
    map_option (\<lambda>r. if dup_checksum d r then (tombstone_duplicate (er_now env) r)\<lparr> updated_at := er_now env \<rparr> else r)
      (find_doc j (documents w))"
proof -
  have purge: "find_doc j (snd (pg_purge t (doc_id d) rows)) = find_doc j rows" for t rows
    using assms by (auto simp: pg_purge_def find_doc_replace split: option.split dest: find_Some_mem)
  show ?thesis
    by (cases "checksum d")
       (auto simp: erase_rows_def Let_def purge dup_checksum_def pg_purge_duplicates_of_def find_doc_update_where
         option.map_ident)
qed

lemma deletion_rows:
  "documents (snd (erase_document env d (deletion_entry api u d') w)) \<in> {documents w, documents (erase_rows env d w)}"
proof (cases "erase_document env d (deletion_entry api u d') w")
  case (Pair r w')
  show ?thesis
  proof (cases r)
    case (Inr x)
    then show ?thesis using deletion.erased(3) [of env d api u d' w w'] Pair by simp
  next
    case (Inl e)
    then show ?thesis using Pair
      by (auto simp: erase_document_def Let_def deletion_entry_def cancel_jobs_def split: prod.splits option.splits if_splits)
  qed
qed

lemma other_rows_kept:
  assumes "find_doc j (documents w) = Some row" "visible_document u i w = Some d" "j \<noteq> i"
  shows "find_doc j (documents (snd (change_document env u i c w))) = Some row
    \<or> c = Delete \<and> dup_checksum d row"
proof -
  have id: "doc_id d = i" using assms(2) by (auto simp: visible_document_iff dest: find_doc_Some)
  show ?thesis
  proof (cases c)
    case (Reclassify t reason)
    then show ?thesis using assms find_doc_Some [OF assms(1)]
      by (simp add: change_document_def reclassify_document_def pg_set_classification_def Let_def api_audit_def
          find_doc_update_where)
  next
    case Restore
    have r: "find_doc j (snd (pg_restore t i rows)) = find_doc j rows" for t rows
      using assms(3) by (auto simp: pg_restore_def find_doc_replace split: option.split dest: find_Some_mem)
    show ?thesis using assms(1,2) r [of "api_now env" "documents w"] Restore
      by (auto simp: change_document_def restore_document_def Let_def api_audit_def case_prod_unfold)
  next
    case Delete
    have e: "find_doc j (documents (snd (erase_document (api_erase env) d (deletion_entry env u d) w))) = Some row
        \<or> dup_checksum d row"
      using deletion_rows [of "api_erase env" d env u d w] erased_other_row [of j d "api_erase env" w] assms(1,3) id
      by auto
    have "snd (delete_document env u i w) \<in> {w, snd (erase_document (api_erase env) d (deletion_entry env u d) w)}"
      using assms(2) by (simp add: delete_document_def split: prod.split sum.split erase_error.split unit.split)
    then have "find_doc j (documents (snd (delete_document env u i w))) = Some row \<or> dup_checksum d row"
      using e assms(1) by (elim insertE) (simp_all only: refl simp_thms empty_iff)
    then show ?thesis by (simp add: change_document_def Delete)
  qed
qed

text \<open>C25: Changing a document takes its owner or an administrator. If reclassifying, deleting or restoring document
\<open>i\<close> leaves any document's row different, the caller owns \<open>i\<close> or is an administrator, and the row is that of \<open>i\<close>
itself or, for a deletion, of a refused re-upload of the same bytes.\<close>

theorem changes_need_owner_or_admin:
  assumes "find_doc j (documents w) = Some row"
    and "find_doc j (documents (snd (change_document env u i c w))) \<noteq> Some row"
  shows "\<exists>d. find_doc i (documents w) = Some d \<and> (owner_id d = Some (u_id u) \<or> u_role u = role_value ADMIN)
    \<and> (j = i \<or> c = Delete \<and> status row = DUPLICATE \<and> checksum row = checksum d \<and> checksum d \<noteq> None)"
proof -
  obtain d where d: "find_doc i (documents w) = Some d" "may_change u d"
    using no_right_no_change [of i w u env c] assms by fastforce
  then have v: "visible_document u i w = Some d" using visible_document_iff may_change_viewable by blast
  show ?thesis
    using d other_rows_kept [OF assms(1) v, of env c] assms(2)
    by (intro exI [of _ d]) (auto simp: may_change_def dup_checksum_def is_duplicate_of_def)
qed


section \<open>A deletion that succeeds\<close>

lemma erased_own_row:
  assumes "wf_docs (documents w)" "find_doc i (documents w) = Some d" "purged_at d = None"
  shows "find_doc i (documents (erase_rows env d w)) = Some ((tombstone (er_now env) d)\<lparr> updated_at := er_now env \<rparr>)"
proof -
  have id: "doc_id d = i" using find_doc_Some [OF assms(2)] by simp
  let ?t = "(tombstone (er_now env) d)\<lparr> updated_at := er_now env \<rparr>"
  have "pg_purge (er_now env) i (documents w) = (True, replace_key doc_id ?t (documents w))"
    using assms by (simp add: pg_purge_found wf_docs_def)
  then have one: "find_doc i (snd (pg_purge (er_now env) i (documents w))) = Some ?t"
    using find_doc_replaced [OF assms(2), of ?t] id by simp
  have "\<not> is_duplicate_of c ?t" for c by (simp add: is_duplicate_of_def tombstone_def)
  then show ?thesis
    by (cases "checksum d") (simp_all add: erase_rows_def Let_def id one pg_purge_duplicates_of_def find_doc_update_where)
qed

lemma erase_rows_wf: "wf_docs (documents w) \<Longrightarrow> wf_docs (documents (erase_rows env d w))"
  by (simp add: erase_rows_def Let_def postgres_writes_keep split: option.split)

section \<open>Witnesses\<close>

definition sample_erase :: erase_env where
  "sample_erase = \<lparr> er_now = 9, er_audit_fails = False, stat_fails = (\<lambda>b k. False), delete_fails = (\<lambda>b k. False) \<rparr>"

definition sample_api :: api_env where
  "sample_api =
     \<lparr> api_now = 9, api_audit_fails = False, api_get_raises = False, api_tk = sample_toolkit, api_erase = sample_erase,
       uploads = (\<lambda>k. \<lparr> up_document_id = CHR ''d'' # replicate k CHR ''x'', up_correlation_id = ''k'',
         up_job_id = CHR ''j'' # replicate k CHR ''x'', up_now = 9, put_fails = False, audit_fails = False \<rparr>),
       batch_id = ''b'', api_chunk_id = (\<lambda>c. ''''), accounts = [], drive_rows = [], drive_versions = [],
       MAX_FILES_PER_UPLOAD = 5, MAX_BATCH_SIZE_BYTES = 1000, api_ts_match = (\<lambda>q d. False), api_ts_rank = (\<lambda>q d. 0) \<rparr>"

definition sample_file :: upload_file where
  "sample_file = \<lparr> uf_filename = Some ''a.pdf'', uf_content_type = None, uf_data = ''%PDF-1.7 %%EOF'' \<rparr>"

lemma sample_upload_checked:
  "check_files sample_api 0 [sample_file, sample_file] = Inr [(sample_file, PDF_SPEC), (sample_file, PDF_SPEC)]"
proof -
  have "detect_format (api_tk sample_api) (uf_data sample_file) = Some PDF_SPEC" by code_simp
  moreover have "uf_data sample_file = ''%PDF-1.7 %%EOF''" by (simp add: sample_file_def)
  ultimately show ?thesis by (simp add: MAX_FILE_SIZE_def) (simp add: sample_api_def)
qed


theorem changes_need_owner_or_admin_witness:
  "\<exists>d. find_doc ''c'' (documents (sample_world [sample_holder])) = Some d
     \<and> u_role sample_admin = role_value ADMIN"
proof -
  have f: "find_doc ''c'' (documents (sample_world [sample_holder])) = Some sample_holder" by (simp add: find_doc_def)
  have "classification (the (find_doc ''c'' (documents (snd (change_document sample_api sample_admin ''c''
      (Reclassify RESTRICTED None) (sample_world [sample_holder])))))) = Some RESTRICTED" by code_simp
  then have "find_doc ''c'' (documents (snd (change_document sample_api sample_admin ''c''
      (Reclassify RESTRICTED None) (sample_world [sample_holder])))) \<noteq> Some sample_holder" by auto
  from changes_need_owner_or_admin [OF f this] f
  show ?thesis by (auto simp: sample_admin_def role_value_def)
qed

end
