(* ===== verification/Deletion.thy ===== *)
theory Deletion
  imports Ingestion
begin

text \<open>What deleting through the API achieves: everything of the document is gone when it succeeds, what is left when
storage refuses, and what it takes from other documents that share its bytes.\<close>

section \<open>Success\<close>

lemma delete_runs:
  assumes "find_doc i (documents w) = Some d" "may_change u d" "purged_at d = None"
  shows "delete_document env u i w = (case erase_document (api_erase env) d (deletion_entry env u d) w of
       (Inl (DocumentBusy j), w1) \<Rightarrow>
         (Inl (HttpError 409 ''BUSY: This file is being processed right now. Delete it again in a few seconds.''), w1)
     | (Inl (StorageEraseFailed k), w1) \<Rightarrow>
         (Inl (HttpError 500 ''STORAGE_ERROR: Could not erase the stored file. Nothing was deleted - please retry.''), w1)
     | (Inr (), w1) \<Rightarrow> (Inr i, w1))"
  using assms visible_document_iff [of u i w d] may_change_viewable [OF assms(2)]
  by (simp add: delete_document_def)

lemma erase_succeeds:
  assumes "\<And>b k. \<not> delete_fails env b k" "\<forall>j\<in>set (jobs w). job_document_id j = doc_id d \<longrightarrow> job_status j \<noteq> RUNNING"
  shows "\<exists>w'. erase_document env d (deletion_entry api u d) w = (Inr (), w')"
proof -
  have "\<not> (\<exists>j\<in>set (unfinished_jobs (doc_id d) w). job_status j = RUNNING)"
    using assms(2) by (auto simp: unfinished_jobs_def)
  moreover have "fst (erase_objects env ks s) = None" for ks s
    by (rule erase_objects_all) (rule assms(1))
  ultimately show ?thesis unfolding erase_document_def Let_def
    by (auto split: prod.split option.split) (metis fst_conv option.distinct(1))+
qed

lemma erased_checksum_is_free:
  assumes "wf_docs (documents w)" "find_doc i (documents w) = Some d" "purged_at d = None"
    and "active_checksum d = Some c"
  shows "pg_get_by_checksum c (documents (erase_rows env d w)) = None"
proof -
  have id: "doc_id d = i" using find_doc_Some [OF assms(2)] by simp
  have "active_checksum r \<noteq> Some c" if r: "r \<in> set (documents (erase_rows env d w))" for r
  proof
    assume act: "active_checksum r = Some c"
    have dist: "distinct (map doc_id (documents (erase_rows env d w)))"
      using erase_rows_wf [OF assms(1)] by (simp add: wf_docs_def)
    then have found: "find_doc (doc_id r) (documents (erase_rows env d w)) = Some r"
      using r find_key_iff [of doc_id _ "doc_id r" r] by (simp add: find_doc_def)
    show False
    proof (cases "doc_id r = i")
      case True
      then have "r = (tombstone (er_now env) d)\<lparr> updated_at := er_now env \<rparr>"
        using found erased_own_row [OF assms(1-3), of env] by simp
      then show False using act by simp
    next
      case False
      then obtain r0 where r0: "find_doc (doc_id r) (documents w) = Some r0"
          "r = (if dup_checksum d r0 then (tombstone_duplicate (er_now env) r0)\<lparr> updated_at := er_now env \<rparr> else r0)"
        using found erased_other_row [of "doc_id r" d env w] id by auto
      have "r = r0" using r0(2) act by (auto split: if_splits)
      then have "r \<in> set (documents w)" using find_doc_Some [OF r0(1)] by simp
      then have "pg_get_by_checksum c (documents w) = Some r" "pg_get_by_checksum c (documents w) = Some d"
        using get_by_checksum_unique [OF assms(1)] act assms(4) find_doc_Some [OF assms(2)] by blast+
      then show False using False id by simp
    qed
  qed
  then show ?thesis by (simp add: get_by_checksum_None)
qed


section \<open>Bytes that two documents share\<close>

lemma raw_key_after [simp]: "object_key_after (RAW_BUCKET @ CHR ''/'' # key) = key"
proof -
  have "dropWhile (\<lambda>c. c \<noteq> CHR ''/'') (RAW_BUCKET @ CHR ''/'' # key) = CHR ''/'' # key"
    by (subst dropWhile_append2) (auto simp: RAW_BUCKET_def)
  then show ?thesis by (simp add: object_key_after_def)
qed

lemma raw_key [simp]: "object_key RAW_BUCKET (RAW_BUCKET @ CHR ''/'' # key) = key"
  using object_key_bucket [of RAW_BUCKET key] by (simp add: RAW_BUCKET_def)

lemma raw_object:
  "raw_path d = Some (RAW_BUCKET @ CHR ''/'' # key) \<Longrightarrow> (RAW_BUCKET, key) \<in> set (document_objects d)"
  by (simp add: document_objects_def)

lemma deleted_by_erasing:
  assumes "delete_document env u i w = (r, w')" "find_doc i (documents w) = Some d"
  shows "(r = Inr i \<longrightarrow> erase_document (api_erase env) d (deletion_entry env u d) w = (Inr (), w'))
    \<and> (\<forall>msg. r = Inl (HttpError 500 msg) \<longrightarrow>
          (\<exists>k. erase_document (api_erase env) d (deletion_entry env u d) w = (Inl (StorageEraseFailed k), w')))"
proof (cases "visible_document u i w = Some d \<and> may_change u d \<and> purged_at d = None")
  case False
  then have "fst (delete_document env u i w) \<in> {Inl (missing i),
      Inl (HttpError 403 ''FORBIDDEN: Only the uploader or an ADMIN may delete this document.'')}"
    using assms(2) by (auto simp: delete_document_def visible_document_def pg_get_by_id_def)
  then show ?thesis using assms(1) by (auto simp: missing_def)
next
  case True
  obtain x w1 where e: "erase_document (api_erase env) d (deletion_entry env u d) w = (x, w1)" by fastforce
  note run = delete_runs [OF assms(2) True [THEN conjunct2, THEN conjunct1] True [THEN conjunct2, THEN conjunct2], of env]
  show ?thesis
  proof (cases x)
    case (Inl err)
    then show ?thesis using run assms(1) e by (cases err) auto
  next
    case (Inr y)
    then show ?thesis using run assms(1) e by (auto split: unit.splits)
  qed
qed

text \<open>Erasing takes the bytes other documents still need. Originals are stored under their hash, and a superseded
version is outside deduplication, so a file that was edited and reverted has two rows on one object. Deleting either
row succeeds and leaves the other as it was, passages included, but its original is gone: downloading it raises.\<close>

theorem erasure_takes_shared_bytes:
  assumes "delete_document env u i w = (Inr i, w')" "find_doc i (documents w) = Some d"
    and "find_doc j (documents w) = Some d2" "j \<noteq> i" "status d2 \<noteq> DUPLICATE" "purged_at d2 = None" "viewable v d2"
    and "raw_path d = Some (RAW_BUCKET @ CHR ''/'' # key)" "raw_path d2 = Some (RAW_BUCKET @ CHR ''/'' # key)"
    and "\<not> stat_fails (api_erase env) RAW_BUCKET key"
  shows "find_doc j (documents w') = Some d2
    \<and> filter (\<lambda>c. chunk_document_id c = j) (chunks w') = filter (\<lambda>c. chunk_document_id c = j) (chunks w)
    \<and> download_document env v j w' = Inl (Unhandled ''FileNotFoundError'')"
proof -
  have id: "doc_id d = i" using find_doc_Some [OF assms(2)] by simp
  have e: "erase_document (api_erase env) d (deletion_entry env u d) w = (Inr (), w')"
    using deleted_by_erasing [OF assms(1,2)] by simp
  note er = deletion.erased [OF e]
  have row: "find_doc j (documents w') = Some d2"
    unfolding er(3) using erased_other_row [of j d "api_erase env" w] assms(3-5) id
    by (auto simp: dup_checksum_def is_duplicate_of_def)
  have gone: "fs_get RAW_BUCKET key (objects w') = None"
    unfolding er(4) by (rule erase_objects_gone [OF er(5) raw_object [OF assms(8)] assms(10)])
  have passages: "filter (\<lambda>c. chunk_document_id c = j) (chunks w') = filter (\<lambda>c. chunk_document_id c = j) (chunks w)"
    unfolding er(1) id using assms(4) by (auto simp: filter_filter intro!: filter_cong)
  have "visible_document v j w' = Some d2" using row assms(7) visible_document_iff by blast
  moreover obtain a as where "RAW_BUCKET @ CHR ''/'' # key = a # as" by (cases "RAW_BUCKET @ CHR ''/'' # key") auto
  ultimately have "download_document env v j w' = Inl (Unhandled ''FileNotFoundError'')"
    using assms(6,9) gone raw_key_after [of key] by (simp add: download_document_def)
  then show ?thesis using row passages by simp
qed

section \<open>A deletion that storage refuses\<close>

text \<open>A refused delete is half done. When the endpoint answers that the file could not be erased and nothing was
deleted, the row and the passages are indeed untouched, but the audit entry that it was permanently deleted is
written, every job of the document that was waiting is failed for good, and the objects removed before the one that
was refused are gone.\<close>

theorem refused_delete_is_half_done:
  assumes "delete_document env u i w = (Inl (HttpError 500 msg), w')" "find_doc i (documents w) = Some d"
    and "\<not> er_audit_fails (api_erase env)"
  shows "documents w' = documents w \<and> chunks w' = chunks w
    \<and> (\<exists>e. audit_log w' = audit_log w @ [e] \<and> audit_document_id e = i \<and> event_type e = DOCUMENT_DELETED)
    \<and> jobs w' = map (\<lambda>j. if j \<in> set (unfinished_jobs i w)
          then j\<lparr> job_status := FAILED, finished_at := Some (er_now (api_erase env)), error_message := Some ''document deleted'' \<rparr>
          else j) (jobs w)
    \<and> objects w' = snd (erase_objects (api_erase env) (document_objects d) (objects w))"
proof -
  have id: "doc_id d = i" using find_doc_Some [OF assms(2)] by simp
  obtain k where e: "erase_document (api_erase env) d (deletion_entry env u d) w = (Inl (StorageEraseFailed k), w')"
    using deleted_by_erasing [OF assms(1,2)] by blast
  note r = deletion.refused [OF e assms(3)]
  have "jobs (cancel_jobs t i w) = map (\<lambda>j. if j \<in> set (unfinished_jobs i w)
          then j\<lparr> job_status := FAILED, finished_at := Some t, error_message := Some ''document deleted'' \<rparr>
          else j) (jobs w)" for t
    by (auto simp: cancel_jobs_def update_where_def unfinished_jobs_def)
  then show ?thesis using r by (simp add: id deletion_entry_def log_event_def)
qed

section \<open>Witnesses\<close>

definition stored :: "uuid \<Rightarrow> DocumentStatus \<Rightarrow> document" where
  "stored i st = (new_document i ''a.pdf'' 14 0)
     \<lparr> mime_type := PDF_MIME, status := st, checksum := Some ''h14'', classification := Some PUBLIC,
       raw_path := Some (RAW_BUCKET @ CHR ''/'' # ''h14.pdf'') \<rparr>"

definition two_versions :: world where
  "two_versions = empty_world\<lparr> documents := [stored ''a'' SUPERSEDED, stored ''c'' LIVE],
     objects := [((RAW_BUCKET, ''h14.pdf''), ''%PDF-1.7 %%EOF'')] \<rparr>"

lemma two_versions_facts [simp]:
  "jobs two_versions = []"
  "find_doc ''a'' (documents two_versions) = Some (stored ''a'' SUPERSEDED)"
  "find_doc ''c'' (documents two_versions) = Some (stored ''c'' LIVE)"
  "wf_docs (documents two_versions)" "viewable sample_admin (stored i st)" "may_change sample_admin (stored i st)"
  "purged_at (stored i st) = None" "raw_path (stored i st) = Some (RAW_BUCKET @ CHR ''/'' # ''h14.pdf'')"
  "status (stored i st) = st" "active_checksum (stored ''c'' LIVE) = Some ''h14''"
  by (simp_all add: two_versions_def empty_world_def stored_def new_document_def find_doc_def wf_docs_def
      active_checksum_def active_status_def viewable_def can_view_def is_admin_def sample_admin_def may_change_def
      role_value_def)

lemma sample_api_erase [simp]:
  "\<not> delete_fails (api_erase sample_api) b k" "\<not> stat_fails (api_erase sample_api) b k"
  "\<not> er_audit_fails (api_erase sample_api)"
  by (simp_all add: sample_api_def sample_erase_def)


lemma sample_version_deleted: "fst (delete_document sample_api sample_admin ''a'' two_versions) = Inr ''a''"
  by code_simp

theorem erasure_takes_shared_bytes_witness:
  "\<exists>w'. delete_document sample_api sample_admin ''a'' two_versions = (Inr ''a'', w')
     \<and> find_doc ''c'' (documents w') = Some (stored ''c'' LIVE)
     \<and> download_document sample_api sample_admin ''c'' w' = Inl (Unhandled ''FileNotFoundError'')"
proof -
  obtain w' where d: "delete_document sample_api sample_admin ''a'' two_versions = (Inr ''a'', w')"
    using sample_version_deleted by (metis prod.collapse)
  show ?thesis
    using erasure_takes_shared_bytes [OF d two_versions_facts(2,3), of sample_admin "''h14.pdf''"] d
    by (intro exI [of _ w']) simp
qed

definition stuck_api :: api_env where
  "stuck_api = sample_api\<lparr> api_erase := sample_erase\<lparr> delete_fails := (\<lambda>b k. True) \<rparr> \<rparr>"

lemma sample_refusal:
  "fst (delete_document stuck_api sample_admin ''c'' two_versions)
     = Inl (HttpError 500 ''STORAGE_ERROR: Could not erase the stored file. Nothing was deleted - please retry.'')"
  by code_simp

theorem refused_delete_is_half_done_witness:
  "\<exists>w' e. snd (delete_document stuck_api sample_admin ''c'' two_versions) = w'
     \<and> documents w' = documents two_versions \<and> audit_log w' = audit_log two_versions @ [e]
     \<and> event_type e = DOCUMENT_DELETED"
proof -
  obtain w' where d: "delete_document stuck_api sample_admin ''c'' two_versions
      = (Inl (HttpError 500 ''STORAGE_ERROR: Could not erase the stored file. Nothing was deleted - please retry.''), w')"
    using sample_refusal by (metis prod.collapse)
  have ok: "\<not> er_audit_fails (api_erase stuck_api)" by (simp add: stuck_api_def sample_erase_def)
  show ?thesis using refused_delete_is_half_done [OF d two_versions_facts(3) ok] d by auto
qed

end
