(* ===== verification/DriveSync.thy ===== *)
theory DriveSync
  imports Accounts Upload DriveListing "HOL-Library.List_Lexorder" "HOL-Library.Char_ord"
begin

text \<open>\<open>connectors/drive/service.py\<close>: one pass of the Drive sync over the shared world and its own two tables: what
is imported, at which tier and for whom, what is restored, reclassified and retired, and how earlier imports settle.
The clock stands still within a pass; faults of Drive, storage and the audit log are part of what a pass is given.\<close>

section \<open>State and outcome\<close>

definition FAILED_STATUSES :: "DocumentStatus list" where
  "FAILED_STATUSES =
     [REJECTED, DocumentStatus.VALIDATION_FAILED, DocumentStatus.EXTRACTION_FAILED, DocumentStatus.NORMALIZATION_FAILED,
      DocumentStatus.CHUNKING_FAILED, DocumentStatus.EMBEDDING_FAILED, SKIPPED_UNSUPPORTED_LANGUAGE]"

record sync_outcome =
  o_files_found :: nat
  o_imported :: "string list"
  o_edited :: "string list"
  o_unchanged :: nat
  o_skipped :: "(string \<times> string) list"
  o_failed :: "(string \<times> string) list"
  o_removed :: "string list"
  o_restored :: "string list"
  o_reclassified :: "(string \<times> string \<times> string) list"
  o_owner_fallbacks :: "(string \<times> string) list"
  o_superseded :: "string list"
  o_duplicates :: "(string \<times> string) list"
  o_escalated :: "string list"
  o_pipeline_failed :: "(string \<times> string) list"
  o_still_processing :: nat

definition new_outcome :: sync_outcome where
  "new_outcome =
     \<lparr> o_files_found = 0, o_imported = [], o_edited = [], o_unchanged = 0, o_skipped = [], o_failed = [], o_removed = [],
       o_restored = [], o_reclassified = [], o_owner_fallbacks = [], o_superseded = [], o_duplicates = [],
       o_escalated = [], o_pipeline_failed = [], o_still_processing = 0 \<rparr>"

text \<open>\<open>_owner_cache\<close> lives as long as the service; an entry is \<open>None\<close> for an address without an account.\<close>

type_synonym owner_cache = "(string \<times> uuid option) list"

record drive_state =
  ds_world :: world
  ds_rows :: "drive_row list"
  ds_versions :: "drive_version list"
  ds_owners :: owner_cache
  ds_outcome :: sync_outcome

text \<open>\<open>sy_upload i\<close> are the fresh identifiers and faults of the import of file \<open>i\<close>; \<open>sy_locked\<close>: another process holds
the advisory lock.\<close>

record sync_env =
  sy_client :: drive_client
  public_folder_id :: string
  restricted_folder_id :: string
  fallback_owner_email :: string
  sy_max_bytes :: nat
  sy_users :: "user list"
  sy_toolkit :: toolkit
  sy_now :: time
  sy_upload :: "string \<Rightarrow> upload_env"
  sy_version_id :: "string \<Rightarrow> uuid"
  sy_audit_fails :: bool
  sy_locked :: bool

datatype sync_exn = SyncError drive_error | OtherError string

definition exn_text :: "sync_exn \<Rightarrow> string" where
  "exn_text e =
     (case e of OtherError m \<Rightarrow> m
      | SyncError (DriveSyncError m) \<Rightarrow> m | SyncError (SyncAlreadyRunning m) \<Rightarrow> m | SyncError (DriveApiError m) \<Rightarrow> m)"

definition report :: "(sync_outcome \<Rightarrow> sync_outcome) \<Rightarrow> drive_state \<Rightarrow> drive_state" where
  "report f s = s\<lparr> ds_outcome := f (ds_outcome s) \<rparr>"

definition on_world :: "(world \<Rightarrow> world) \<Rightarrow> drive_state \<Rightarrow> drive_state" where
  "on_world f s = s\<lparr> ds_world := f (ds_world s) \<rparr>"

section \<open>Owners, bookkeeping, content\<close>

definition look_up_owner :: "sync_env \<Rightarrow> string \<Rightarrow> uuid option" where
  "look_up_owner env key = map_option u_id (find (\<lambda>u. u_email u = key) (sy_users env))"

definition resolve_owner :: "sync_env \<Rightarrow> string option \<Rightarrow> owner_cache \<Rightarrow> (sync_exn, uuid \<times> bool) result \<times> owner_cache" where
  "resolve_owner env email cache =
     (let key = lower (strip (case email of None \<Rightarrow> [] | Some e \<Rightarrow> e));
          cache1 = (if key \<noteq> [] \<and> map_of cache key = None then (key, look_up_owner env key) # cache else cache);
          fb = lower (strip (fallback_owner_email env))
      in case (if key = [] then None else Option.bind (map_of cache1 key) id) of
           Some u \<Rightarrow> (Inr (u, False), cache1)
         | None \<Rightarrow>
             (case map_of cache1 ''__fallback__'' of
                Some (Some u) \<Rightarrow> (Inr (u, True), cache1)
              | Some None \<Rightarrow> (Inl (OtherError ''''), cache1)
              | None \<Rightarrow>
                  if fb = []
                  then (Inl (SyncError (DriveSyncError (''GDRIVE_FALLBACK_OWNER_EMAIL is not set. Documents whose Drive owner has no ''
                         @ ''account here would have no owner, and a RESTRICTED document with no owner ''
                         @ ''is invisible to everyone except admins.''))), cache1)
                  else case look_up_owner env fb of
                    None \<Rightarrow>
                      (Inl (SyncError (DriveSyncError (''GDRIVE_FALLBACK_OWNER_EMAIL is '' @ py_repr fb @ '', which is ''
                         @ ''not a registered user. Register it first (POST /api/v1/auth/register).''))), cache1)
                  | Some u \<Rightarrow> (Inr (u, True), (''__fallback__'', Some u) # cache1)))"

definition find_row :: "string \<Rightarrow> drive_row list \<Rightarrow> drive_row option" where
  "find_row i rows = find (\<lambda>r. dr_file_id r = i) rows"

definition blank_row :: "string \<Rightarrow> drive_row" where
  "blank_row i =
     \<lparr> dr_file_id = i, dr_document_id = None, dr_modified_time = None, dr_md5 = None, dr_name = None, dr_mime_type = None,
       dr_folder_id = None, dr_classification = None, dr_owner_email = None, dr_state = FILE_IMPORTED,
       dr_skip_reason = None, dr_last_synced_at = 0 \<rparr>"

definition written_row ::
  "sync_env \<Rightarrow> drive_file \<Rightarrow> DriveFileState \<Rightarrow> Classification option \<Rightarrow> string option \<Rightarrow> uuid option \<Rightarrow> string option
     \<Rightarrow> drive_row \<Rightarrow> drive_row" where
  "written_row env item st tier folder doc reason r =
     r\<lparr> dr_document_id := (case doc of None \<Rightarrow> dr_document_id r | Some i \<Rightarrow> Some i),
        dr_modified_time := Some (df_modified_time item), dr_md5 := df_md5 item, dr_name := Some (df_name item),
        dr_mime_type := Some (df_mime_type item), dr_folder_id := folder, dr_classification := tier,
        dr_owner_email := df_owner_email item, dr_state := st, dr_skip_reason := reason,
        dr_last_synced_at := sy_now env \<rparr>"

definition record_row ::
  "sync_env \<Rightarrow> drive_file \<Rightarrow> DriveFileState \<Rightarrow> Classification option \<Rightarrow> string option \<Rightarrow> uuid option \<Rightarrow> string option
     \<Rightarrow> drive_state \<Rightarrow> drive_state" where
  "record_row env item st tier folder doc reason s =
     (let write = written_row env item st tier folder doc reason in
      s\<lparr> ds_rows := (case find_row (df_file_id item) (ds_rows s) of
           Some r \<Rightarrow> replace_key dr_file_id (write r) (ds_rows s)
         | None \<Rightarrow> ds_rows s @ [write (blank_row (df_file_id item))]) \<rparr>)"

definition drive_audit :: "sync_env \<Rightarrow> uuid \<Rightarrow> AuditEventType \<Rightarrow> (string \<times> json) list \<Rightarrow> drive_state \<Rightarrow> drive_state" where
  "drive_audit env i ev det =
     on_world (audit_as (sy_audit_fails env) i ev ((''actor'', JStr ''drive-sync'') # det) (Some ''drive-sync'') None)"

definition content_changed :: "drive_row \<Rightarrow> drive_file \<Rightarrow> bool" where
  "content_changed row item =
     (case (df_md5 item, dr_md5 row) of
        (Some (a # as), Some (b # bs)) \<Rightarrow> a # as \<noteq> b # bs
      | _ \<Rightarrow> Some (df_modified_time item) \<noteq> dr_modified_time row)"

definition fetch_bytes :: "drive_client \<Rightarrow> drive_file \<Rightarrow> (string, bytes \<times> string) result" where
  "fetch_bytes client item =
     (case export_target (df_mime_type item) of
        None \<Rightarrow> map_sum id (\<lambda>data. (data, df_name item)) (dc_download client (df_file_id item))
      | Some (mime, ext) \<Rightarrow>
          map_sum id (\<lambda>data. (data, if endswith (lower (df_name item)) ext then df_name item else df_name item @ ext))
            (dc_export client (df_file_id item) mime))"

section \<open>One file\<close>

definition file_versions :: "string \<Rightarrow> drive_state \<Rightarrow> drive_version list" where
  "file_versions i s = filter (\<lambda>v. dv_file_id v = i) (ds_versions s)"

definition set_version :: "uuid \<Rightarrow> (drive_version \<Rightarrow> drive_version) \<Rightarrow> drive_state \<Rightarrow> drive_state" where
  "set_version i f s = s\<lparr> ds_versions := update_where (\<lambda>v. dv_version_id v = i) f (ds_versions s) \<rparr>"

definition inherited_tier :: "drive_row \<Rightarrow> Classification \<Rightarrow> document list \<Rightarrow> Classification" where
  "inherited_tier existing tier docs =
     (if dr_classification existing \<noteq> Some tier then tier
      else case Option.bind (dr_document_id existing) (\<lambda>i. pg_get_by_id i docs) of
        None \<Rightarrow> tier
      | Some previous \<Rightarrow>
          (case classification previous of
             None \<Rightarrow> tier
           | Some t \<Rightarrow> if is_stricter (Some t) (Some tier) then t else tier))"

definition restore_file :: "sync_env \<Rightarrow> drive_row \<Rightarrow> drive_state \<Rightarrow> drive_state" where
  "restore_file env row s =
     (let removed = sort_desc dv_imported_at (filter (\<lambda>v. dv_state v = V_REMOVED) (file_versions (dr_file_id row) s));
          version = (case removed of [] \<Rightarrow> None | v # vs \<Rightarrow> Some v)
      in case (case version of Some v \<Rightarrow> Some (dv_document_id v) | None \<Rightarrow> dr_document_id row) of
           None \<Rightarrow> s
         | Some i \<Rightarrow>
             let (ok, docs) = pg_restore (sy_now env) i (documents (ds_world s));
                 s1 = on_world (\<lambda>w. w\<lparr> documents := docs \<rparr>) s;
                 s2 = (if ok then drive_audit env i DOCUMENT_RESTORED
                         [(''reason'', JStr ''drive-file-returned''), (''drive_file_id'', JStr (dr_file_id row))] s1 else s1)
             in (case version of
                   None \<Rightarrow> s2
                 | Some v \<Rightarrow> set_version (dv_version_id v) (\<lambda>x. x\<lparr> dv_state := V_PENDING, dv_settled_at := None \<rparr>) s2))"

definition reclassify_one :: "sync_env \<Rightarrow> drive_row \<Rightarrow> Classification \<Rightarrow> drive_state \<Rightarrow> uuid \<Rightarrow> drive_state" where
  "reclassify_one env row tier s i =
     (case pg_get_by_id i (documents (ds_world s)) of
        None \<Rightarrow> s
      | Some d \<Rightarrow>
          if purged_at d \<noteq> None \<or> classification d = Some tier then s
          else drive_audit env i DOCUMENT_RECLASSIFIED
                 [(''old_tier'', json_opt (map_option classification_value (classification d))),
                  (''new_tier'', JStr (classification_value tier)), (''reason'', JStr ''drive-folder-move''),
                  (''drive_file_id'', JStr (dr_file_id row))]
                 (on_world (set_tier (sy_now env) i tier) s))"

text \<open>The documents of the current and pending versions, or the row's own when there is no such version.\<close>

definition live_versions :: "string \<Rightarrow> drive_state \<Rightarrow> drive_version list" where
  "live_versions i s = filter (\<lambda>v. dv_state v \<in> {V_CURRENT, V_PENDING}) (file_versions i s)"

definition live_targets :: "drive_row \<Rightarrow> drive_state \<Rightarrow> uuid list" where
  "live_targets row s =
     (case map dv_document_id (live_versions (dr_file_id row) s) of
        [] \<Rightarrow> (case dr_document_id row of None \<Rightarrow> [] | Some i \<Rightarrow> [i])
      | i # is \<Rightarrow> i # is)"

definition reclassify_file :: "sync_env \<Rightarrow> drive_row \<Rightarrow> Classification \<Rightarrow> drive_state \<Rightarrow> drive_state" where
  "reclassify_file env row tier s = foldl (reclassify_one env row tier) s (live_targets row s)"

definition tier_label :: "drive_file \<Rightarrow> Classification \<Rightarrow> string" where
  "tier_label item tier = df_name item @ '' ['' @ classification_value tier @ '']''"

definition unchanged_content ::
  "sync_env \<Rightarrow> bool \<Rightarrow> drive_row \<Rightarrow> drive_file \<Rightarrow> Classification \<Rightarrow> string \<Rightarrow> drive_state \<Rightarrow> drive_state" where
  "unchanged_content env dry existing item tier folder s =
     (let back = (dr_state existing = FILE_REMOVED);
          s1 = (if back then report (\<lambda>out. out\<lparr> o_restored := o_restored out @ [tier_label item tier] \<rparr>) s else s);
          s2 = (if back \<and> \<not> dry then restore_file env existing s1 else s1);
          moved = (dr_classification existing \<noteq> Some tier);
          old = (case dr_classification existing of None \<Rightarrow> ''-'' | Some t \<Rightarrow> classification_value t);
          s3 = (if moved then report (\<lambda>out. out\<lparr> o_reclassified := o_reclassified out @ [(df_name item, old, classification_value tier)] \<rparr>) s2
                else s2);
          s4 = (if moved \<and> \<not> dry then reclassify_file env existing tier s3 else s3);
          s5 = (if \<not> back \<and> \<not> moved then report (\<lambda>out. out\<lparr> o_unchanged := o_unchanged out + 1 \<rparr>) s4 else s4)
      in if dry then s5 else record_row env item FILE_IMPORTED (Some tier) (Some folder) None None s5)"

definition skip_file ::
  "sync_env \<Rightarrow> bool \<Rightarrow> drive_file \<Rightarrow> Classification \<Rightarrow> string \<Rightarrow> string \<Rightarrow> drive_state \<Rightarrow> drive_state" where
  "skip_file env dry item tier folder reason s =
     (let s1 = report (\<lambda>out. out\<lparr> o_skipped := o_skipped out @ [(df_name item, reason)] \<rparr>) s
      in if dry then s1 else record_row env item FILE_SKIPPED (Some tier) (Some folder) None (Some reason) s1)"

definition size_refusal :: "nat \<Rightarrow> nat \<Rightarrow> string" where
  "size_refusal n m =
     format_fixed 1 n (1024 * 1024) @ ''MB exceeds the '' @ format_fixed 0 m (1024 * 1024) @ ''MB limit''"

definition new_version :: "sync_env \<Rightarrow> drive_file \<Rightarrow> uuid \<Rightarrow> drive_version" where
  "new_version env item i =
     \<lparr> dv_version_id = sy_version_id env (df_file_id item), dv_file_id = df_file_id item, dv_document_id = i,
       dv_modified_time = Some (df_modified_time item), dv_md5 = df_md5 item, dv_state = V_PENDING, dv_note = None,
       dv_imported_at = sy_now env, dv_settled_at = None \<rparr>"

definition sync_request :: "Classification \<Rightarrow> uuid \<Rightarrow> upload_request" where
  "sync_request tier owner =
     \<lparr> rq_classification = tier, rq_supersedes_doc_id = None, rq_keep_previous_version = True, rq_owner_id = Some owner,
       rq_title = None, rq_description = None, rq_document_date = None, rq_upload_batch_id = None \<rparr>"

text \<open>What is reported and recorded once the pipeline has taken the bytes.\<close>

definition note_import ::
  "sync_env \<Rightarrow> drive_file \<Rightarrow> Classification \<Rightarrow> string \<Rightarrow> bool \<Rightarrow> uuid \<Rightarrow> drive_state \<Rightarrow> drive_state" where
  "note_import env item tier folder is_new_version i s =
     (let label = tier_label item tier;
          s1 = report (\<lambda>out. out\<lparr> o_imported := o_imported out @ [label],
                 o_edited := o_edited out @ (if is_new_version then [label] else []) \<rparr>) s;
          s2 = record_row env item FILE_IMPORTED (Some tier) (Some folder) (Some i) None s1
      in s2\<lparr> ds_versions := ds_versions s2 @ [new_version env item i] \<rparr>)"

definition import_file ::
  "sync_env \<Rightarrow> drive_row option \<Rightarrow> bool \<Rightarrow> drive_file \<Rightarrow> Classification \<Rightarrow> string \<Rightarrow> drive_state
     \<Rightarrow> sync_exn option \<times> drive_state" where
  "import_file env existing is_new_version item tier folder s =
     (case fetch_bytes (sy_client env) item of
        Inl e \<Rightarrow> (Some (SyncError (DriveApiError e)), s)
      | Inr (data, name) \<Rightarrow>
          if data = [] then (None, skip_file env False item tier folder ''the file is empty'' s)
          else case detect_format (sy_toolkit env) data of
            None \<Rightarrow> (None, skip_file env False item tier folder ''not a PDF, DOCX, XLSX or PPTX'' s)
          | Some spec \<Rightarrow>
              (case resolve_owner env (df_owner_email item) (ds_owners s) of
                 (Inl e, cache) \<Rightarrow> (Some e, s\<lparr> ds_owners := cache \<rparr>)
               | (Inr (owner, used_fallback), cache) \<Rightarrow>
                   let s1 = s\<lparr> ds_owners := cache \<rparr>;
                       s2 = (if used_fallback then report (\<lambda>out. out\<lparr> o_owner_fallbacks := o_owner_fallbacks out
                               @ [(df_name item, case df_owner_email item of None \<Rightarrow> ''unknown'' | Some [] \<Rightarrow> ''unknown'' | Some e \<Rightarrow> e)] \<rparr>) s1
                             else s1);
                       import_tier = (case existing of
                           Some row \<Rightarrow> if is_new_version then inherited_tier row tier (documents (ds_world s)) else tier
                         | None \<Rightarrow> tier)
                   in (case receive (sy_upload env (df_file_id item)) name data (sync_request import_tier owner)
                              (spec_mime spec) (ds_world s2) of
                         (Inl e, w) \<Rightarrow> (Some (OtherError e), s2\<lparr> ds_world := w \<rparr>)
                       | (Inr r, w) \<Rightarrow>
                           (None, note_import env item tier folder is_new_version (resp_document_id r) (s2\<lparr> ds_world := w \<rparr>)))))"

definition is_edit :: "drive_row option \<Rightarrow> bool" where
  "is_edit existing =
     (case existing of None \<Rightarrow> False | Some row \<Rightarrow> dr_document_id row \<noteq> None \<and> dr_state row = FILE_IMPORTED)"

definition sync_one ::
  "sync_env \<Rightarrow> bool \<Rightarrow> drive_file \<Rightarrow> Classification \<Rightarrow> string \<Rightarrow> drive_state \<Rightarrow> sync_exn option \<times> drive_state" where
  "sync_one env dry item tier folder s =
     (let existing = find_row (df_file_id item) (ds_rows s);
          fresh =
            (case unexportable_reason (df_mime_type item) of
               Some reason \<Rightarrow> (None, skip_file env dry item tier folder reason s)
             | None \<Rightarrow>
                 if (case df_size item of None \<Rightarrow> False | Some n \<Rightarrow> sy_max_bytes env < n)
                 then (None, skip_file env dry item tier folder
                        (size_refusal (case df_size item of None \<Rightarrow> 0 | Some n \<Rightarrow> n) (sy_max_bytes env)) s)
                 else if dry
                 then (None, report (\<lambda>out. out\<lparr> o_imported := o_imported out @ [tier_label item tier],
                        o_edited := o_edited out @ (if is_edit existing then [tier_label item tier] else []) \<rparr>) s)
                 else import_file env existing (is_edit existing) item tier folder s)
      in case existing of
           None \<Rightarrow> fresh
         | Some row \<Rightarrow>
             if dr_document_id row \<noteq> None \<and> dr_state row \<in> {FILE_IMPORTED, FILE_REMOVED} \<and> \<not> content_changed row item
             then (None, unchanged_content env dry row item tier folder s)
             else fresh)"
section \<open>Files that vanished\<close>

definition retire_doc :: "sync_env \<Rightarrow> drive_row \<Rightarrow> drive_state \<Rightarrow> uuid \<Rightarrow> drive_state" where
  "retire_doc env row s i =
     (let (ok, docs) = pg_soft_delete (sy_now env) i (documents (ds_world s));
          s1 = on_world (\<lambda>w. w\<lparr> documents := docs \<rparr>) s
      in if ok then drive_audit env i DOCUMENT_DELETED
             [(''reason'', JStr ''drive-file-removed''), (''drive_file_id'', JStr (dr_file_id row)), (''permanent'', JBool False)] s1
         else s1)"

definition retire_row :: "sync_env \<Rightarrow> bool \<Rightarrow> drive_state \<Rightarrow> drive_row \<Rightarrow> drive_state" where
  "retire_row env dry s row =
     (let name = (case dr_name row of None \<Rightarrow> dr_file_id row | Some [] \<Rightarrow> dr_file_id row | Some n \<Rightarrow> n);
          s1 = report (\<lambda>out. out\<lparr> o_removed := o_removed out @ [name] \<rparr>) s
      in if dry then s1
         else
           let s2 = foldl (retire_doc env row) s1 (live_targets row s1)
           in s2\<lparr> ds_versions := update_where (\<lambda>v. dv_file_id v = dr_file_id row \<and> dv_state v \<in> {V_CURRENT, V_PENDING})
                    (\<lambda>v. v\<lparr> dv_state := V_REMOVED, dv_settled_at := Some (sy_now env) \<rparr>) (ds_versions s2),
                  ds_rows := update_where (\<lambda>r. dr_file_id r = dr_file_id row)
                    (\<lambda>r. r\<lparr> dr_state := FILE_REMOVED, dr_skip_reason := Some ''no longer in a watched Drive folder'' \<rparr>) (ds_rows s2) \<rparr>)"

definition retire_vanished :: "sync_env \<Rightarrow> bool \<Rightarrow> bool \<Rightarrow> watched \<Rightarrow> drive_state \<Rightarrow> drive_state" where
  "retire_vanished env dry partial found s =
     (if partial then s
      else foldl (retire_row env dry) s
             (filter (\<lambda>r. dr_state r = FILE_IMPORTED \<and> map_of found (dr_file_id r) = None) (ds_rows s)))"

section \<open>Settling what earlier passes imported\<close>

definition canonical_for :: "document \<Rightarrow> document list \<Rightarrow> document option" where
  "canonical_for duplicate docs =
     (case checksum duplicate of
        None \<Rightarrow> None
      | Some c \<Rightarrow>
          if c = [] then None
          else find (\<lambda>d. checksum d = Some c \<and> doc_id d \<noteq> doc_id duplicate \<and> status d \<notin> {DUPLICATE, REJECTED}) docs)"

definition json_truthy :: "json \<Rightarrow> bool" where
  "json_truthy j = (case j of JNull \<Rightarrow> False | JBool b \<Rightarrow> b | JInt n \<Rightarrow> n \<noteq> 0 | JStr s \<Rightarrow> s \<noteq> [] | JList xs \<Rightarrow> xs \<noteq> [])"

definition was_escalation :: "uuid \<Rightarrow> world \<Rightarrow> bool" where
  "was_escalation i w =
     list_ex (\<lambda>e. audit_document_id e = i \<and> event_type e = DOCUMENT_REJECTED
       \<and> (case map_of (details e) ''canonical_tier_escalated'' of None \<Rightarrow> False | Some j \<Rightarrow> json_truthy j)) (audit_log w)"

definition settle :: "sync_env \<Rightarrow> bool \<Rightarrow> drive_version \<Rightarrow> VersionState \<Rightarrow> string \<Rightarrow> drive_state \<Rightarrow> drive_state" where
  "settle env dry v st note s =
     (if dry then s
      else set_version (dv_version_id v) (\<lambda>x. x\<lparr> dv_state := st, dv_note := Some note, dv_settled_at := Some (sy_now env) \<rparr>) s)"

definition settle_version :: "sync_env \<Rightarrow> bool \<Rightarrow> string \<Rightarrow> drive_state \<Rightarrow> drive_version \<Rightarrow> drive_state" where
  "settle_version env dry name s v =
     (if dv_state v \<noteq> V_PENDING then s
      else case pg_get_by_id (dv_document_id v) (documents (ds_world s)) of
        None \<Rightarrow> s
      | Some d \<Rightarrow>
          if status d = DUPLICATE
          then
            let canonical = canonical_for d (documents (ds_world s));
                s1 = report (\<lambda>out. out\<lparr> o_duplicates := o_duplicates out
                       @ [(name, case canonical of None \<Rightarrow> ''an existing document'' | Some c \<Rightarrow> filename c)] \<rparr>) s;
                s2 = (if was_escalation (dv_document_id v) (ds_world s)
                      then report (\<lambda>out. out\<lparr> o_escalated := o_escalated out @ [name] \<rparr>) s1 else s1)
            in settle env dry v V_DUPLICATE
                 (case canonical of None \<Rightarrow> ''duplicate'' | Some c \<Rightarrow> ''duplicate of '' @ doc_id c) s2
          else if status d \<in> set FAILED_STATUSES
          then settle env dry v V_FAILED (status_value (status d))
                 (report (\<lambda>out. out\<lparr> o_pipeline_failed := o_pipeline_failed out @ [(name, status_value (status d))] \<rparr>) s)
          else s)"

text \<open>The writes of \<open>_supersede\<close>; an update the database refuses raises.\<close>

definition write_doc :: "sync_env \<Rightarrow> document \<Rightarrow> drive_state \<Rightarrow> sync_exn option \<times> drive_state" where
  "write_doc env d s =
     (case update_doc (sy_now env) d (ds_world s) of
        Inl e \<Rightarrow> (Some (OtherError ''IntegrityError''), s)
      | Inr w \<Rightarrow> (None, s\<lparr> ds_world := w \<rparr>))"

definition supersede :: "sync_env \<Rightarrow> uuid \<Rightarrow> uuid \<Rightarrow> string \<Rightarrow> drive_state \<Rightarrow> sync_exn option \<times> drive_state" where
  "supersede env old_id new_id file s =
     (case pg_get_by_id old_id (documents (ds_world s)) of
        None \<Rightarrow> (None, s)
      | Some old \<Rightarrow>
          if purged_at old \<noteq> None then (None, s)
          else case write_doc env (old\<lparr> status := SUPERSEDED \<rparr>) s of
            (Some e, s1) \<Rightarrow> (Some e, s1)
          | (None, s1) \<Rightarrow>
              let s2 = on_world (\<lambda>w. w\<lparr> documents := snd (pg_soft_delete (sy_now env) old_id (documents w)) \<rparr>) s1;
                  (exn, s3) = (case pg_get_by_id new_id (documents (ds_world s2)) of
                      None \<Rightarrow> (None, s2)
                    | Some new \<Rightarrow>
                        write_doc env (new\<lparr> supersedes_id := Some old_id,
                          version := (if version old = 0 then 1 else version old) + 1 \<rparr>) s2)
              in (case exn of
                    Some e \<Rightarrow> (Some e, s3)
                  | None \<Rightarrow>
                      (None, drive_audit env old_id DOCUMENT_SUPERSEDED
                         [(''reason'', JStr ''drive-file-edited''), (''superseded_by'', JStr new_id),
                          (''drive_file_id'', JStr file)] s3)))"

fun retire_older ::
  "sync_env \<Rightarrow> bool \<Rightarrow> string \<Rightarrow> string \<Rightarrow> uuid \<Rightarrow> drive_version list \<Rightarrow> drive_state \<Rightarrow> sync_exn option \<times> drive_state" where
  "retire_older env dry file name new_id [] s = (None, s)"
| "retire_older env dry file name new_id (v # vs) s =
     (if dv_state v \<notin> {V_CURRENT, V_PENDING} then retire_older env dry file name new_id vs s
      else
        let s1 = report (\<lambda>out. out\<lparr> o_superseded := o_superseded out @ [name] \<rparr>) s
        in if dry then retire_older env dry file name new_id vs s1
           else case supersede env (dv_document_id v) new_id file s1 of
             (Some e, s2) \<Rightarrow> (Some e, s2)
           | (None, s2) \<Rightarrow>
               retire_older env dry file name new_id vs
                 (set_version (dv_version_id v)
                    (\<lambda>x. x\<lparr> dv_state := V_SUPERSEDED, dv_settled_at := Some (sy_now env) \<rparr>) s2))"

definition versions_by_import :: "string \<Rightarrow> drive_state \<Rightarrow> drive_version list" where
  "versions_by_import file s = sort_key dv_imported_at (file_versions file s)"

definition doc_is_live :: "uuid \<Rightarrow> world \<Rightarrow> bool" where
  "doc_is_live i w = (case pg_get_by_id i (documents w) of None \<Rightarrow> False | Some d \<Rightarrow> status d = LIVE)"

definition reconcile_file :: "sync_env \<Rightarrow> bool \<Rightarrow> string \<Rightarrow> drive_state \<Rightarrow> sync_exn option \<times> drive_state" where
  "reconcile_file env dry file s =
     (let name = (case Option.bind (find_row file (ds_rows s)) dr_name of None \<Rightarrow> file | Some [] \<Rightarrow> file | Some n \<Rightarrow> n);
          s1 = foldl (settle_version env dry name) s (versions_by_import file s);
          versions = versions_by_import file s1;
          newest = last versions
      in if dv_state newest \<noteq> V_PENDING then (None, s1)
         else if \<not> doc_is_live (dv_document_id newest) (ds_world s1)
         then (None, report (\<lambda>out. out\<lparr> o_still_processing := o_still_processing out + 1 \<rparr>) s1)
         else case retire_older env dry file name (dv_document_id newest) (butlast versions) s1 of
           (Some e, s2) \<Rightarrow> (Some e, s2)
         | (None, s2) \<Rightarrow>
             (None, if dry then s2
                    else set_version (dv_version_id newest)
                           (\<lambda>x. x\<lparr> dv_state := V_CURRENT, dv_settled_at := Some (sy_now env) \<rparr>) s2))"

fun reconcile_files :: "sync_env \<Rightarrow> bool \<Rightarrow> string list \<Rightarrow> drive_state \<Rightarrow> sync_exn option \<times> drive_state" where
  "reconcile_files env dry [] s = (None, s)"
| "reconcile_files env dry (f # fs) s =
     (case reconcile_file env dry f s of
        (Some e, s1) \<Rightarrow> (Some e, s1)
      | (None, s1) \<Rightarrow> reconcile_files env dry fs s1)"

definition reconcile :: "sync_env \<Rightarrow> bool \<Rightarrow> drive_state \<Rightarrow> sync_exn option \<times> drive_state" where
  "reconcile env dry s =
     reconcile_files env dry
       (remdups (map dv_file_id (filter (\<lambda>v. dv_state v = V_PENDING) (ds_versions s)))) s"

section \<open>A pass\<close>

fun sync_items :: "sync_env \<Rightarrow> bool \<Rightarrow> (drive_file \<times> Classification \<times> string) list \<Rightarrow> drive_state \<Rightarrow> sync_exn option \<times> drive_state" where
  "sync_items env dry [] s = (None, s)"
| "sync_items env dry ((item, tier, folder) # rest) s =
     (case sync_one env dry item tier folder s of
        (None, s1) \<Rightarrow> sync_items env dry rest s1
      | (Some e, s1) \<Rightarrow>
          (case e of
             SyncError (DriveSyncError m) \<Rightarrow> (Some e, s1)
           | SyncError (SyncAlreadyRunning m) \<Rightarrow> (Some e, s1)
           | _ \<Rightarrow>
               let s2 = report (\<lambda>out. out\<lparr> o_failed := o_failed out @ [(df_name item, exn_text e)] \<rparr>) s1
               in sync_items env dry rest
                    (if dry then s2
                     else record_row env item FILE_FAILED (Some tier) (Some folder) None (Some (take 500 (exn_text e))) s2)))"

text \<open>\<open>items[:limit]\<close>\<close>

definition first_items :: "int option \<Rightarrow> 'a list \<Rightarrow> 'a list" where
  "first_items limit xs =
     (case limit of None \<Rightarrow> xs | Some n \<Rightarrow> if 0 \<le> n then take (nat n) xs else take (length xs - nat (- n)) xs)"

definition sync_pass :: "sync_env \<Rightarrow> bool \<Rightarrow> int option \<Rightarrow> drive_state \<Rightarrow> sync_exn option \<times> drive_state" where
  "sync_pass env dry limit s =
     (let s0 = s\<lparr> ds_outcome := new_outcome \<rparr> in
      case resolve_folder_tiers (sy_client env) (public_folder_id env) (restricted_folder_id env) of
        Inl e \<Rightarrow> (Some (SyncError e), s0)
      | Inr tiers \<Rightarrow>
          (case list_watched_files (sy_client env) tiers of
             Inl e \<Rightarrow> (Some (SyncError e), s0)
           | Inr found \<Rightarrow>
               let s1 = report (\<lambda>out. out\<lparr> o_files_found := length found \<rparr>) s0;
                   items = first_items limit (sort_key (\<lambda>x. df_name (fst x)) (map snd found))
               in (case sync_items env dry items s1 of
                     (Some e, s2) \<Rightarrow> (Some e, s2)
                   | (None, s2) \<Rightarrow> reconcile env dry (retire_vanished env dry (limit \<noteq> None) found s2))))"

definition sync_once :: "sync_env \<Rightarrow> bool \<Rightarrow> int option \<Rightarrow> drive_state \<Rightarrow> sync_exn option \<times> drive_state" where
  "sync_once env dry limit s =
     (if \<not> dry \<and> sy_locked env
      then (Some (SyncError (SyncAlreadyRunning
             ''Another Drive sync is running. It will finish on its own; run this again after.'')), s)
      else sync_pass env dry limit s)"

section \<open>What each step leaves alone\<close>

lemma drive_frames [simp, frame_simps]:
  "ds_world (report f s) = ds_world s" "ds_rows (report f s) = ds_rows s" "ds_versions (report f s) = ds_versions s"
  "ds_owners (report f s) = ds_owners s" "ds_outcome (report f s) = f (ds_outcome s)"
  "ds_world (on_world g s) = g (ds_world s)" "ds_rows (on_world g s) = ds_rows s" "ds_versions (on_world g s) = ds_versions s"
  "ds_owners (on_world g s) = ds_owners s" "ds_outcome (on_world g s) = ds_outcome s"
  "ds_world (record_row env item st t fo d r s) = ds_world s"
  "ds_versions (record_row env item st t fo d r s) = ds_versions s"
  "ds_owners (record_row env item st t fo d r s) = ds_owners s"
  "ds_outcome (record_row env item st t fo d r s) = ds_outcome s"
  "ds_world (set_version i h s) = ds_world s" "ds_rows (set_version i h s) = ds_rows s"
  "ds_owners (set_version i h s) = ds_owners s" "ds_outcome (set_version i h s) = ds_outcome s"
  "documents (ds_world (drive_audit env i ev det s)) = documents (ds_world s)"
  "chunks (ds_world (drive_audit env i ev det s)) = chunks (ds_world s)"
  "jobs (ds_world (drive_audit env i ev det s)) = jobs (ds_world s)"
  "objects (ds_world (drive_audit env i ev det s)) = objects (ds_world s)"
  "ds_rows (drive_audit env i ev det s) = ds_rows s" "ds_versions (drive_audit env i ev det s) = ds_versions s"
  "ds_owners (drive_audit env i ev det s) = ds_owners s" "ds_outcome (drive_audit env i ev det s) = ds_outcome s"
  by (simp_all add: report_def on_world_def record_row_def set_version_def drive_audit_def Let_def)

section \<open>A dry run\<close>

definition untouched :: "drive_state \<Rightarrow> drive_state \<Rightarrow> bool" where
  "untouched s s' = (ds_world s' = ds_world s \<and> ds_rows s' = ds_rows s \<and> ds_versions s' = ds_versions s \<and> ds_owners s' = ds_owners s)"

lemma untouched_trans: "untouched s s1 \<Longrightarrow> untouched s1 s2 \<Longrightarrow> untouched s s2"
  by (simp add: untouched_def)

lemma untouched_refl [simp]: "untouched s s"
  by (simp add: untouched_def)

lemma untouched_report [simp]: "untouched s (report f s')  \<longleftrightarrow> untouched s s'"
  by (simp add: untouched_def)

lemma untouched_foldl: "(\<And>s x. untouched s (f s x)) \<Longrightarrow> untouched s (foldl f s xs)"
  by (induction xs arbitrary: s) (auto intro: untouched_trans)

lemma dry_one: "untouched s (snd (sync_one env True item tier folder s))"
  by (simp add: sync_one_def unchanged_content_def skip_file_def Let_def split: option.split)

lemma dry_items: "untouched s (snd (sync_items env True items s))"
proof (induction items arbitrary: s)
  case (Cons x rest)
  obtain item tier folder where x: "x = (item, tier, folder)" by (cases x)
  obtain e s1 where one: "sync_one env True item tier folder s = (e, s1)" by fastforce
  then have "untouched s s1" using dry_one [of s env item tier folder] by simp
  moreover have "untouched s1 (snd (sync_items env True rest s2))" if "untouched s1 s2" for s2
    using Cons that untouched_trans by blast
  ultimately show ?case
    by (auto simp: x one split: option.split sync_exn.split drive_error.split intro: untouched_trans)
qed simp

lemma dry_settle: "untouched s (settle_version env True name s v)"
  by (simp add: settle_version_def settle_def Let_def split: option.split)

lemma dry_older: "untouched s (snd (retire_older env True file name i vs s))"
proof (induction vs arbitrary: s)
  case (Cons v vs)
  have "untouched s (snd (retire_older env True file name i vs (report f s)))" for f
    using Cons [of "report f s"] by (simp add: untouched_def)
  then show ?case using Cons [of s] by (simp add: Let_def)
qed simp

text \<open>The versions of a file once each pending one is settled on its own terms, and the two ways to go on.\<close>

definition settled :: "sync_env \<Rightarrow> bool \<Rightarrow> string \<Rightarrow> drive_state \<Rightarrow> drive_state" where
  "settled env dry file s =
     foldl (settle_version env dry
       (case Option.bind (find_row file (ds_rows s)) dr_name of None \<Rightarrow> file | Some [] \<Rightarrow> file | Some n \<Rightarrow> n)) s
       (versions_by_import file s)"

lemma reconcile_file_cases:
  assumes s1: "s1 = settled env dry file s" and v: "v = last (versions_by_import file s1)"
  shows "(dv_state v = V_PENDING \<and> doc_is_live (dv_document_id v) (ds_world s1)
      \<and> (\<exists>name e s2. retire_older env dry file name (dv_document_id v) (butlast (versions_by_import file s1)) s1 = (e, s2)
          \<and> reconcile_file env dry file s = (e, if e \<noteq> None \<or> dry then s2
               else set_version (dv_version_id v) (\<lambda>x. x\<lparr> dv_state := V_CURRENT, dv_settled_at := Some (sy_now env) \<rparr>) s2)))
    \<or> (\<not> (dv_state v = V_PENDING \<and> doc_is_live (dv_document_id v) (ds_world s1))
      \<and> (\<exists>f. reconcile_file env dry file s = (None, report f s1)))"
proof -
  let ?name = "case Option.bind (find_row file (ds_rows s)) dr_name of None \<Rightarrow> file | Some [] \<Rightarrow> file | Some n \<Rightarrow> n"
  obtain e s2 where o: "retire_older env dry file ?name (dv_document_id v) (butlast (versions_by_import file s1)) s1 = (e, s2)"
    by fastforce
  have whole: "reconcile_file env dry file s =
      (if dv_state v \<noteq> V_PENDING then (None, s1)
       else if \<not> doc_is_live (dv_document_id v) (ds_world s1)
       then (None, report (\<lambda>out. out\<lparr> o_still_processing := o_still_processing out + 1 \<rparr>) s1)
       else (e, if e \<noteq> None \<or> dry then s2
               else set_version (dv_version_id v) (\<lambda>x. x\<lparr> dv_state := V_CURRENT, dv_settled_at := Some (sy_now env) \<rparr>) s2))"
    unfolding reconcile_file_def Let_def settled_def [symmetric] s1 [symmetric] v [symmetric] o prod.case
    by (cases e) simp_all
  have id: "s1 = report (\<lambda>out. out) s1" by (simp add: report_def)
  show ?thesis
  proof (cases "dv_state v = V_PENDING \<and> doc_is_live (dv_document_id v) (ds_world s1)")
    case True
    then show ?thesis unfolding whole using o by (intro disjI1 conjI exI [of _ ?name] exI [of _ e] exI [of _ s2]) simp_all
  next
    case False
    have "\<exists>f. (None, s1) = (None, report f s1)" using id by blast
    then show ?thesis using False unfolding whole by (cases "dv_state v = V_PENDING") auto
  qed
qed

lemma dry_reconcile_file: "untouched s (snd (reconcile_file env True file s))"
proof -
  let ?s1 = "settled env True file s"
  have s1: "untouched s ?s1" unfolding settled_def by (rule untouched_foldl) (rule dry_settle)
  have "\<exists>s2. untouched ?s1 s2 \<and> snd (reconcile_file env True file s) = s2"
    using reconcile_file_cases [OF refl refl, of "file" env True s]
  proof (elim disjE conjE exE)
    fix name e s2
    assume r: "retire_older env True file name (dv_document_id (last (versions_by_import file ?s1)))
        (butlast (versions_by_import file ?s1)) ?s1 = (e, s2)"
      and whole: "reconcile_file env True file s = (e, if e \<noteq> None \<or> True then s2
        else set_version (dv_version_id (last (versions_by_import file ?s1)))
          (\<lambda>x. x\<lparr> dv_state := V_CURRENT, dv_settled_at := Some (sy_now env) \<rparr>) s2)"
    show ?thesis using dry_older [of ?s1 env "file" name] r whole by (metis snd_conv)
  qed simp
  then show ?thesis using untouched_trans [OF s1] by simp
qed

lemma dry_reconcile: "untouched s (snd (reconcile_files env True fs s))"
proof (induction fs arbitrary: s)
  case (Cons f fs)
  obtain e s1 where one: "reconcile_file env True f s = (e, s1)" by fastforce
  then have "untouched s s1" using dry_reconcile_file [of s env f] by simp
  then show ?case using Cons [of s1] by (auto simp: one split: option.split intro: untouched_trans)
qed simp

lemma dry_pass: "untouched s (snd (sync_once env True limit s))"
proof -
  have retired: "untouched s' (retire_vanished env True partial found s')" for s' partial found
    by (auto simp: retire_vanished_def retire_row_def Let_def intro: untouched_foldl)
  have start: "untouched s (s\<lparr> ds_outcome := o' \<rparr>)" for o' by (simp add: untouched_def)
  show ?thesis
  proof (cases "resolve_folder_tiers (sy_client env) (public_folder_id env) (restricted_folder_id env)")
    case (Inl e)
    then show ?thesis by (simp add: sync_once_def sync_pass_def Let_def start)
  next
    case (Inr tiers)
    show ?thesis
    proof (cases "list_watched_files (sy_client env) tiers")
      case (Inl e)
      then show ?thesis using Inr by (simp add: sync_once_def sync_pass_def Let_def start)
    next
      case (Inr found)
      let ?s1 = "report (\<lambda>out. out\<lparr> o_files_found := length found \<rparr>) (s\<lparr> ds_outcome := new_outcome \<rparr>)"
      let ?items = "first_items limit (sort_key (\<lambda>x. df_name (fst x)) (map snd found))"
      obtain e s2 where items: "sync_items env True ?items ?s1 = (e, s2)" by fastforce
      have "untouched s s2"
        using dry_items [of ?s1 env ?items] start [of new_outcome] by (simp add: items untouched_def)
      then have "untouched s (snd (reconcile env True (retire_vanished env True (limit \<noteq> None) found s2)))"
        unfolding reconcile_def using retired dry_reconcile untouched_trans by meson
      then show ?thesis using \<open>untouched s s2\<close> items Inr
          \<open>resolve_folder_tiers (sy_client env) (public_folder_id env) (restricted_folder_id env) = Inr tiers\<close>
        by (simp add: sync_once_def sync_pass_def Let_def split: option.split)
    qed
  qed
qed

text \<open>A dry run writes nothing. Whatever Drive answers and whatever the tables hold, a dry run leaves documents,
passages, jobs, objects and the audit log as they were, and the connector's own tables too.\<close>

theorem dry_run_writes_nothing:
  "case sync_once env True limit s of (e, s') \<Rightarrow>
     ds_world s' = ds_world s \<and> ds_rows s' = ds_rows s \<and> ds_versions s' = ds_versions s \<and> ds_owners s' = ds_owners s"
  using dry_pass [of s env limit] by (simp add: untouched_def case_prod_unfold)


end
