(* ===== verification/DriveReconcile.thy ===== *)
theory DriveReconcile
  imports DriveSync
begin

text \<open>Why a pass of the Drive sync keeps its books: the constraints of the connector's two tables, how the versions of
a file settle, and what the pass can and cannot do to the documents behind them.\<close>

section \<open>Writing a document that exists\<close>

lemma write_doc_ok:
  assumes "wf_docs (documents (ds_world s))" "find_doc (doc_id d) (documents (ds_world s)) = Some row"
    and "active_checksum d = active_checksum row \<or> active_checksum d = None"
  shows "\<exists>w'. write_doc env d s = (None, s\<lparr> ds_world := w' \<rparr>) \<and> wf_docs (documents w')
    \<and> jobs w' = jobs (ds_world s) \<and> objects w' = objects (ds_world s) \<and> chunks w' = chunks (ds_world s)
    \<and> audit_log w' = audit_log (ds_world s) \<and> map doc_id (documents w') = map doc_id (documents (ds_world s))
    \<and> (\<forall>j. find_doc j (documents w') = (if j = doc_id d then Some (touch (sy_now env) row (written_back d row))
                                       else find_doc j (documents (ds_world s))))"
proof -
  let ?rows = "documents (ds_world s)"
  have mem: "row \<in> set ?rows" "doc_id row = doc_id d" using find_doc_Some [OF assms(2)] by simp_all
  have "pg_update_document (sy_now env) d ?rows \<noteq> Inl e" for e
  proof
    assume "pg_update_document (sy_now env) d ?rows = Inl e"
    then obtain other where o: "active_status (status d)" "checksum d \<noteq> None" "other \<in> set ?rows" "doc_id other \<noteq> doc_id d"
        "active_checksum other = checksum d"
      using pg_update_refused_iff [OF assms(1,2)] by blast
    then have "active_checksum d = checksum d" by (simp add: active_checksum_def)
    then have "active_checksum row = checksum d" using assms(3) o(2) by auto
    then show False using active_unique [OF assms(1) mem(1) o(3)] o(2,4,5) mem(2) by auto
  qed
  then obtain r rows' where upd: "pg_update_document (sy_now env) d ?rows = Inr (r, rows')"
    by (cases "pg_update_document (sy_now env) d ?rows") auto
  have r: "r = touch (sy_now env) row (written_back d row)" "rows' = replace_key doc_id r ?rows"
    using pg_update_Inr [OF assms(2) upd] by simp_all
  have "wf_docs rows'" using postgres_update_keeps [OF assms(1), of "sy_now env" d] upd by simp
  moreover have "find_doc j rows' = (if j = doc_id d then Some r else find_doc j ?rows)" for j
    by (rule pg_update_find [OF assms(2) upd])
  ultimately show ?thesis using r
    by (intro exI [of _ "(ds_world s)\<lparr> documents := rows' \<rparr>"]) (simp add: write_doc_def update_doc_def upd)
qed

lemma soft_delete_find:
  assumes "distinct (map doc_id rows)"
  shows "find_doc j (snd (pg_soft_delete t i rows)) =
    (if j = i then map_option (\<lambda>d. if deleted_at d = None \<and> purged_at d = None
                                   then d\<lparr> deleted_at := Some t, updated_at := t \<rparr> else d) (find_doc i rows)
     else find_doc j rows)"
proof -
  note w = find_where [OF assms, of i "\<lambda>d. deleted_at d = None \<and> purged_at d = None"]
  show ?thesis
  proof (cases "find_doc i rows")
    case None
    then show ?thesis using w by (auto simp: pg_soft_delete_def)
  next
    case (Some d)
    then have "doc_id d = i" "i \<in> doc_id ` set rows" using find_doc_Some [OF Some] by (auto intro: rev_image_eqI)
    then show ?thesis using Some w by (auto simp: pg_soft_delete_def find_doc_replace)
  qed
qed

lemma restore_find:
  assumes "distinct (map doc_id rows)"
  shows "find_doc j (snd (pg_restore t i rows)) =
    (if j = i then map_option (\<lambda>d. if deleted_at d \<noteq> None \<and> purged_at d = None
                                   then d\<lparr> deleted_at := None, updated_at := t \<rparr> else d) (find_doc i rows)
     else find_doc j rows)"
proof -
  note w = find_where [OF assms, of i "\<lambda>d. deleted_at d \<noteq> None \<and> purged_at d = None"]
  show ?thesis
  proof (cases "find_doc i rows")
    case None
    then show ?thesis using w by (auto simp: pg_restore_def)
  next
    case (Some d)
    then have "doc_id d = i" "i \<in> doc_id ` set rows" using find_doc_Some [OF Some] by (auto intro: rev_image_eqI)
    then show ?thesis using Some w by (auto simp: pg_restore_def find_doc_replace)
  qed
qed

lemma doc_ids_kept [simp]:
  "map doc_id (snd (pg_soft_delete t i rows)) = map doc_id rows" "map doc_id (snd (pg_restore t i rows)) = map doc_id rows"
  "map doc_id (snd (pg_set_classification t i c rows)) = map doc_id rows"
  by (auto simp: pg_soft_delete_def pg_restore_def pg_set_classification_def Let_def map_update_where split: option.split)

section \<open>Retiring one document in favour of another\<close>

text \<open>What \<open>supersede\<close> makes of the two rows.\<close>

definition retired_row :: "document \<Rightarrow> document \<Rightarrow> bool" where
  "retired_row d d' = (\<exists>u t. t \<noteq> None \<and> (deleted_at d \<noteq> None \<longrightarrow> t = deleted_at d)
     \<and> d' = d\<lparr> status := SUPERSEDED, updated_at := u, deleted_at := t \<rparr>)"

definition linked_row :: "uuid \<Rightarrow> document \<Rightarrow> document \<Rightarrow> bool" where
  "linked_row old n n' = (\<exists>u k. n' = n\<lparr> supersedes_id := Some old, version := k, updated_at := u \<rparr>)"

lemma written_back_status: "written_back (d\<lparr> status := st \<rparr>) d = d\<lparr> status := st \<rparr>"
  by (simp add: written_back_def)

lemma written_back_link: "written_back (d\<lparr> supersedes_id := a, version := k \<rparr>) d = d\<lparr> supersedes_id := a, version := k \<rparr>"
  by (simp add: written_back_def)

lemma touched: "\<exists>u. touch t old new = new\<lparr> updated_at := u \<rparr>"
proof (cases "new = old")
  case True
  then show ?thesis by (intro exI [of _ "updated_at new"]) (simp add: touch_def)
qed (auto simp: touch_def)

lemma drive_audit_world:
  "\<exists>w'. drive_audit env i ev det (s\<lparr> ds_world := w \<rparr>) = s\<lparr> ds_world := w' \<rparr>
      \<and> documents w' = documents w \<and> jobs w' = jobs w \<and> objects w' = objects w \<and> chunks w' = chunks w"
  unfolding drive_audit_def on_world_def
  by (rule exI [of _ "audit_as (sy_audit_fails env) i ev ((''actor'', JStr ''drive-sync'') # det) (Some ''drive-sync'') None w"]) simp

text \<open>The first half of \<open>supersede\<close>: the older document is retired, and what is left is the link from the newer one.\<close>

definition supersede_details :: "uuid \<Rightarrow> string \<Rightarrow> (string \<times> json) list" where
  "supersede_details new_id f =
     [(''reason'', JStr ''drive-file-edited''), (''superseded_by'', JStr new_id), (''drive_file_id'', JStr f)]"

lemma supersede_retires:
  assumes wf: "wf_docs (documents (ds_world s))"
    and old: "find_doc old_id (documents (ds_world s)) = Some old" "purged_at old = None"
  shows "\<exists>w2 old' k. wf_docs (documents w2) \<and> jobs w2 = jobs (ds_world s) \<and> objects w2 = objects (ds_world s)
    \<and> chunks w2 = chunks (ds_world s) \<and> map doc_id (documents w2) = map doc_id (documents (ds_world s)) \<and> retired_row old old'
    \<and> (\<forall>j. find_doc j (documents w2) = (if j = old_id then Some old' else find_doc j (documents (ds_world s))))
    \<and> supersede env old_id new_id f s =
      (case (case pg_get_by_id new_id (documents w2) of
          None \<Rightarrow> (None, s\<lparr> ds_world := w2 \<rparr>)
        | Some new \<Rightarrow> write_doc env (new\<lparr> supersedes_id := Some old_id, version := k \<rparr>) (s\<lparr> ds_world := w2 \<rparr>)) of
         (exn, s3) \<Rightarrow> (case exn of Some e \<Rightarrow> (Some e, s3)
          | None \<Rightarrow> (None, drive_audit env old_id DOCUMENT_SUPERSEDED (supersede_details new_id f) s3)))"
proof -
  have id: "doc_id old = old_id" using find_doc_Some [OF old(1)] by simp
  have inactive: "active_checksum (old\<lparr> status := SUPERSEDED \<rparr>) = None" by (simp add: active_checksum_def active_status_def)
  obtain w1 where w1: "write_doc env (old\<lparr> status := SUPERSEDED \<rparr>) s = (None, s\<lparr> ds_world := w1 \<rparr>)" "wf_docs (documents w1)"
      "jobs w1 = jobs (ds_world s)" "objects w1 = objects (ds_world s)" "chunks w1 = chunks (ds_world s)"
      "map doc_id (documents w1) = map doc_id (documents (ds_world s))"
      "\<And>j. find_doc j (documents w1) = (if j = old_id then Some (touch (sy_now env) old (old\<lparr> status := SUPERSEDED \<rparr>))
                                         else find_doc j (documents (ds_world s)))"
    using write_doc_ok [of s "old\<lparr> status := SUPERSEDED \<rparr>" old env, OF wf] old(1) id inactive
    by (auto simp: written_back_status)
  define w2 where "w2 = w1\<lparr> documents := snd (pg_soft_delete (sy_now env) old_id (documents w1)) \<rparr>"
  obtain u where u: "touch (sy_now env) old (old\<lparr> status := SUPERSEDED \<rparr>) = old\<lparr> status := SUPERSEDED, updated_at := u \<rparr>"
    using touched by blast
  define old' where "old' = (if deleted_at old = None
      then old\<lparr> status := SUPERSEDED, updated_at := sy_now env, deleted_at := Some (sy_now env) \<rparr>
      else old\<lparr> status := SUPERSEDED, updated_at := u \<rparr>)"
  have frame2: "jobs w2 = jobs w1" "objects w2 = objects w1" "chunks w2 = chunks w1" by (simp_all add: w2_def)
  have retired: "retired_row old old'"
    unfolding retired_row_def old'_def by (cases "deleted_at old") (auto intro: exI [of _ u])
  have d1: "distinct (map doc_id (documents w1))" using w1(2) by (simp add: wf_docs_def)
  have w2: "wf_docs (documents w2)" "map doc_id (documents w2) = map doc_id (documents (ds_world s))"
      "\<And>j. find_doc j (documents w2) = (if j = old_id then Some old' else find_doc j (documents (ds_world s)))"
    using w1(2,6) by (simp_all add: w2_def postgres_soft_delete_keeps soft_delete_find [OF d1] w1(7) u old(2) old'_def)
  let ?s2 = "s\<lparr> ds_world := w2 \<rparr>"
  obtain k where k: "(if version old = 0 then 1 else version old) + 1 = k" by blast
  have deleted: "on_world (\<lambda>w. w\<lparr> documents := snd (pg_soft_delete (sy_now env) old_id (documents w)) \<rparr>) (s\<lparr> ds_world := w1 \<rparr>) = ?s2"
    by (simp add: on_world_def w2_def)
  have start: "supersede env old_id new_id f s =
      (case (case pg_get_by_id new_id (documents (ds_world ?s2)) of
          None \<Rightarrow> (None, ?s2)
        | Some new \<Rightarrow> write_doc env (new\<lparr> supersedes_id := Some old_id, version := k \<rparr>) ?s2) of
         (exn, s3) \<Rightarrow> (case exn of Some e \<Rightarrow> (Some e, s3)
          | None \<Rightarrow> (None, drive_audit env old_id DOCUMENT_SUPERSEDED (supersede_details new_id f) s3)))"
    unfolding supersede_def supersede_details_def k pg_get_by_id_def old(1) option.case w1(1) prod.case Let_def deleted
    by (simp only: old(2) simp_thms if_False)
  show ?thesis
    by (rule exI [of _ w2], rule exI [of _ old'], rule exI [of _ k]) (use w2 frame2 w1(3-5) retired start in simp)
qed

lemma supersede_ok:
  assumes wf: "wf_docs (documents (ds_world s))" and ne: "old_id \<noteq> new_id"
    and old: "find_doc old_id (documents (ds_world s)) = Some old" "purged_at old = None"
  shows "\<exists>w' old'. supersede env old_id new_id f s = (None, s\<lparr> ds_world := w' \<rparr>) \<and> wf_docs (documents w')
    \<and> jobs w' = jobs (ds_world s) \<and> objects w' = objects (ds_world s) \<and> chunks w' = chunks (ds_world s)
    \<and> map doc_id (documents w') = map doc_id (documents (ds_world s))
    \<and> find_doc old_id (documents w') = Some old' \<and> retired_row old old'
    \<and> rel_option (linked_row old_id) (find_doc new_id (documents (ds_world s))) (find_doc new_id (documents w'))
    \<and> (\<forall>j. j \<noteq> old_id \<longrightarrow> j \<noteq> new_id \<longrightarrow> find_doc j (documents w') = find_doc j (documents (ds_world s)))"
proof -
  let ?det = "supersede_details new_id f"
  obtain w2 old' k where w2: "wf_docs (documents w2)" "map doc_id (documents w2) = map doc_id (documents (ds_world s))"
      "\<And>j. find_doc j (documents w2) = (if j = old_id then Some old' else find_doc j (documents (ds_world s)))"
    and frame2: "jobs w2 = jobs (ds_world s)" "objects w2 = objects (ds_world s)" "chunks w2 = chunks (ds_world s)"
    and retired: "retired_row old old'"
    and start: "supersede env old_id new_id f s =
      (case (case pg_get_by_id new_id (documents w2) of
          None \<Rightarrow> (None, s\<lparr> ds_world := w2 \<rparr>)
        | Some new \<Rightarrow> write_doc env (new\<lparr> supersedes_id := Some old_id, version := k \<rparr>) (s\<lparr> ds_world := w2 \<rparr>)) of
         (exn, s3) \<Rightarrow> (case exn of Some e \<Rightarrow> (Some e, s3) | None \<Rightarrow> (None, drive_audit env old_id DOCUMENT_SUPERSEDED ?det s3)))"
    using supersede_retires [OF wf old, of env new_id f] by blast
  let ?s2 = "s\<lparr> ds_world := w2 \<rparr>"
  show ?thesis
  proof (cases "find_doc new_id (documents (ds_world s))")
    case None
    then have "find_doc new_id (documents w2) = None" using w2(3) ne by simp
    then have run: "supersede env old_id new_id f s = (None, drive_audit env old_id DOCUMENT_SUPERSEDED ?det ?s2)"
      using start by (simp add: pg_get_by_id_def)
    obtain w' where "drive_audit env old_id DOCUMENT_SUPERSEDED ?det ?s2 = s\<lparr> ds_world := w' \<rparr>"
        "documents w' = documents w2" "jobs w' = jobs w2" "objects w' = objects w2" "chunks w' = chunks w2"
      using drive_audit_world [where s = s and w = w2 and det = ?det] by blast
    then show ?thesis using run w2 frame2 retired None ne
      by (intro exI [of _ w'] exI [of _ old']) simp
  next
    case (Some new)
    then have new: "find_doc new_id (documents w2) = Some new" "doc_id new = new_id"
      using w2(3) ne find_doc_Some by auto
    have "active_checksum (new\<lparr> supersedes_id := Some old_id, version := k \<rparr>) = active_checksum new"
      by (simp add: active_checksum_def)
    then obtain w3 where w3: "write_doc env (new\<lparr> supersedes_id := Some old_id, version := k \<rparr>) ?s2 = (None, ?s2\<lparr> ds_world := w3 \<rparr>)"
        "wf_docs (documents w3)" "jobs w3 = jobs w2" "objects w3 = objects w2" "chunks w3 = chunks w2"
        "map doc_id (documents w3) = map doc_id (documents w2)"
        "\<And>j. find_doc j (documents w3) = (if j = new_id
            then Some (touch (sy_now env) new (new\<lparr> supersedes_id := Some old_id, version := k \<rparr>)) else find_doc j (documents w2))"
      using write_doc_ok [of ?s2 "new\<lparr> supersedes_id := Some old_id, version := k \<rparr>" new env] w2(1) new
      by (auto simp: written_back_link)
    have "linked_row old_id new (touch (sy_now env) new (new\<lparr> supersedes_id := Some old_id, version := k \<rparr>))"
      unfolding linked_row_def using touched [of "sy_now env" new "new\<lparr> supersedes_id := Some old_id, version := k \<rparr>"]
      by (elim exE) (rule exI, rule exI, assumption)
    moreover have run: "supersede env old_id new_id f s
        = (None, drive_audit env old_id DOCUMENT_SUPERSEDED ?det (s\<lparr> ds_world := w3 \<rparr>))"
      using start new(1) w3(1) by (simp add: pg_get_by_id_def)
    moreover obtain w' where "drive_audit env old_id DOCUMENT_SUPERSEDED ?det (s\<lparr> ds_world := w3 \<rparr>) = s\<lparr> ds_world := w' \<rparr>"
        "documents w' = documents w3" "jobs w' = jobs w3" "objects w' = objects w3" "chunks w' = chunks w3"
      using drive_audit_world [where s = s and w = w3 and det = ?det] by blast
    ultimately show ?thesis using w3(2-7) w2 frame2 retired Some ne
      by (intro exI [of _ w'] exI [of _ old']) simp
  qed
qed
section \<open>Retiring every older version\<close>

definition visible_state :: "drive_version \<Rightarrow> bool" where
  "visible_state v = (dv_state v \<in> {V_CURRENT, V_PENDING})"

text \<open>The older versions with a row to retire, and the id the new row is linked to in the end.\<close>

definition retires :: "document list \<Rightarrow> drive_version \<Rightarrow> bool" where
  "retires docs v = (visible_state v
     \<and> (case find_doc (dv_document_id v) docs of None \<Rightarrow> False | Some d \<Rightarrow> purged_at d = None))"

definition linked_to :: "document list \<Rightarrow> drive_version list \<Rightarrow> uuid option \<Rightarrow> uuid option" where
  "linked_to docs vs a = foldl (\<lambda>a v. if retires docs v then Some (dv_document_id v) else a) a vs"

definition row_outcome :: "uuid \<Rightarrow> drive_version list \<Rightarrow> document list \<Rightarrow> uuid \<Rightarrow> document \<Rightarrow> document \<Rightarrow> bool" where
  "row_outcome n vs docs j d d' =
     (if j = n then \<exists>k u. d' = d\<lparr> supersedes_id := linked_to docs vs (supersedes_id d), version := k, updated_at := u \<rparr>
      else if \<exists>v\<in>set vs. retires docs v \<and> dv_document_id v = j then retired_row d d' else d' = d)"

definition docs_retired :: "uuid \<Rightarrow> drive_version list \<Rightarrow> document list \<Rightarrow> document list \<Rightarrow> bool" where
  "docs_retired n vs docs docs' =
     (\<forall>j d. find_doc j docs = Some d \<longrightarrow> (\<exists>d'. find_doc j docs' = Some d' \<and> row_outcome n vs docs j d d'))"

definition mark_superseded :: "sync_env \<Rightarrow> drive_version list \<Rightarrow> drive_version list \<Rightarrow> drive_version list" where
  "mark_superseded env vs rows =
     update_where (\<lambda>x. dv_version_id x \<in> dv_version_id ` {v \<in> set vs. visible_state v})
       (\<lambda>x. x\<lparr> dv_state := V_SUPERSEDED, dv_settled_at := Some (sy_now env) \<rparr>) rows"

lemma row_outcome_Nil: "row_outcome n [] docs j d d"
proof -
  have "d = d\<lparr> supersedes_id := linked_to docs [] (supersedes_id d), version := version d, updated_at := updated_at d \<rparr>"
    by (simp add: linked_to_def)
  then show ?thesis unfolding row_outcome_def by (simp only: list.set ball_empty bex_empty if_False refl simp_thms split: if_split) blast
qed

lemma docs_retired_Nil: "docs_retired n [] docs docs"
  by (simp add: docs_retired_def row_outcome_Nil)

lemma docs_retired_skip:
  assumes "\<not> retires docs v" "docs_retired n vs docs docs'"
  shows "docs_retired n (v # vs) docs docs'"
proof -
  have "linked_to docs (v # vs) a = linked_to docs vs a" for a using assms(1) by (simp add: linked_to_def)
  moreover have "(\<exists>x\<in>set (v # vs). retires docs x \<and> dv_document_id x = j) = (\<exists>x\<in>set vs. retires docs x \<and> dv_document_id x = j)" for j
    using assms(1) by auto
  ultimately show ?thesis using assms(2) by (simp only: docs_retired_def row_outcome_def)
qed

lemma retires_same:
  assumes "\<And>v. v \<in> set vs \<Longrightarrow> find_doc (dv_document_id v) docs' = find_doc (dv_document_id v) docs"
  shows "\<forall>v\<in>set vs. retires docs' v = retires docs v" and "linked_to docs' vs a = linked_to docs vs a"
proof -
  show r: "\<forall>v\<in>set vs. retires docs' v = retires docs v" using assms by (simp add: retires_def)
  show "linked_to docs' vs a = linked_to docs vs a"
    unfolding linked_to_def by (rule foldl_cong) (use r in auto)
qed

lemma docs_retired_step:
  assumes v: "retires docs v" "find_doc (dv_document_id v) docs = Some old"
    and ids: "dv_document_id v \<noteq> n" "n \<notin> dv_document_id ` set vs" "dv_document_id v \<notin> dv_document_id ` set vs"
    and one: "find_doc (dv_document_id v) docs1 = Some old1" "retired_row old old1"
      "rel_option (linked_row (dv_document_id v)) (find_doc n docs) (find_doc n docs1)"
      "\<And>j. j \<noteq> dv_document_id v \<Longrightarrow> j \<noteq> n \<Longrightarrow> find_doc j docs1 = find_doc j docs"
    and rest: "docs_retired n vs docs1 docs'"
  shows "docs_retired n (v # vs) docs docs'"
proof -
  have same: "find_doc (dv_document_id x) docs1 = find_doc (dv_document_id x) docs" if "x \<in> set vs" for x
    by (rule one(4)) (use ids that in \<open>metis imageI\<close>)+
  note keep = retires_same [OF same, simplified]
  show ?thesis unfolding docs_retired_def
  proof (intro allI impI)
    fix j d assume d: "find_doc j docs = Some d"
    consider "j = n" | "j = dv_document_id v" "j \<noteq> n" | "j \<noteq> n" "j \<noteq> dv_document_id v" by blast
    then show "\<exists>d'. find_doc j docs' = Some d' \<and> row_outcome n (v # vs) docs j d d'"
    proof cases
      case 1
      then obtain d1 where d1: "find_doc n docs1 = Some d1" "linked_row (dv_document_id v) d d1"
        using one(3) d by (cases "find_doc n docs1") auto
      obtain u k where l: "d1 = d\<lparr> supersedes_id := Some (dv_document_id v), version := k, updated_at := u \<rparr>"
        using d1(2) by (auto simp: linked_row_def)
      obtain d' where d': "find_doc n docs' = Some d'" "row_outcome n vs docs1 n d1 d'"
        using rest d1(1) unfolding docs_retired_def by blast
      obtain k' u' where e: "d' = d1\<lparr> supersedes_id := linked_to docs1 vs (supersedes_id d1), version := k', updated_at := u' \<rparr>"
        using d'(2) unfolding row_outcome_def by auto
      have link: "linked_to docs1 vs (supersedes_id d1) = linked_to docs (v # vs) (supersedes_id d)"
        using v(1) keep(2) by (simp add: l linked_to_def)
      have "d' = d\<lparr> supersedes_id := linked_to docs (v # vs) (supersedes_id d), version := k', updated_at := u' \<rparr>"
        unfolding e link by (simp add: l)
      then have "\<exists>k u. d' = d\<lparr> supersedes_id := linked_to docs (v # vs) (supersedes_id d), version := k, updated_at := u \<rparr>"
        by (intro exI)
      then have "row_outcome n (v # vs) docs j d d'" using 1 by (simp only: row_outcome_def refl if_True)
      then show ?thesis using d'(1) 1 by blast
    next
      case 2
      obtain d' where d': "find_doc j docs' = Some d'" "row_outcome n vs docs1 j old1 d'"
        using rest one(1) 2 unfolding docs_retired_def by blast
      have "\<not> (\<exists>x\<in>set vs. retires docs1 x \<and> dv_document_id x = j)" using ids(3) 2 by (metis imageI)
      then have "d' = old1" using d'(2) 2 by (simp add: row_outcome_def)
      moreover have "d = old" using d v(2) 2 by simp
      ultimately have "row_outcome n (v # vs) docs j d d'" using one(2) v(1) 2 unfolding row_outcome_def by auto
      then show ?thesis using d'(1) by blast
    next
      case 3
      then have "find_doc j docs1 = Some d" using one(4) d by simp
      then obtain d' where d': "find_doc j docs' = Some d'" "row_outcome n vs docs1 j d d'"
        using rest unfolding docs_retired_def by blast
      have "(\<exists>x\<in>set (v # vs). retires docs x \<and> dv_document_id x = j) = (\<exists>x\<in>set vs. retires docs1 x \<and> dv_document_id x = j)"
        using 3 keep(1) by auto
      then have "row_outcome n (v # vs) docs j d d'" using d'(2) 3(1) by (simp only: row_outcome_def if_False)
      then show ?thesis using d'(1) by blast
    qed
  qed
qed

lemma mark_superseded_simps:
  "mark_superseded env [] rows = rows"
  "\<not> visible_state v \<Longrightarrow> mark_superseded env (v # vs) rows = mark_superseded env vs rows"
  "visible_state v \<Longrightarrow> mark_superseded env (v # vs) rows
     = mark_superseded env vs (update_where (\<lambda>x. dv_version_id x = dv_version_id v)
         (\<lambda>x. x\<lparr> dv_state := V_SUPERSEDED, dv_settled_at := Some (sy_now env) \<rparr>) rows)"
  by (auto simp: mark_superseded_def update_where_def intro!: map_cong map_idI)

lemma supersede_visible:
  assumes "wf_docs (documents (ds_world s))" "dv_document_id v \<noteq> n" "n \<notin> dv_document_id ` set vs"
    and "dv_document_id v \<notin> dv_document_id ` set vs" "visible_state v"
  shows "\<exists>s2. supersede env (dv_document_id v) n f (report g s) = (None, s2) \<and> wf_docs (documents (ds_world s2))
    \<and> jobs (ds_world s2) = jobs (ds_world s) \<and> objects (ds_world s2) = objects (ds_world s)
    \<and> chunks (ds_world s2) = chunks (ds_world s) \<and> map doc_id (documents (ds_world s2)) = map doc_id (documents (ds_world s))
    \<and> ds_rows s2 = ds_rows s \<and> ds_owners s2 = ds_owners s \<and> ds_versions s2 = ds_versions s
    \<and> (\<forall>docs'. docs_retired n vs (documents (ds_world s2)) docs' \<longrightarrow> docs_retired n (v # vs) (documents (ds_world s)) docs')"
proof (cases "retires (documents (ds_world s)) v")
  case True
  then obtain old where old: "find_doc (dv_document_id v) (documents (ds_world s)) = Some old" "purged_at old = None"
    by (auto simp: retires_def split: option.splits)
  obtain w' old' where w': "supersede env (dv_document_id v) n f (report g s) = (None, (report g s)\<lparr> ds_world := w' \<rparr>)"
      "wf_docs (documents w')" "jobs w' = jobs (ds_world s)" "objects w' = objects (ds_world s)"
      "chunks w' = chunks (ds_world s)" "map doc_id (documents w') = map doc_id (documents (ds_world s))"
      "find_doc (dv_document_id v) (documents w') = Some old'" "retired_row old old'"
      "rel_option (linked_row (dv_document_id v)) (find_doc n (documents (ds_world s))) (find_doc n (documents w'))"
      "\<And>j. j \<noteq> dv_document_id v \<Longrightarrow> j \<noteq> n \<Longrightarrow> find_doc j (documents w') = find_doc j (documents (ds_world s))"
    using supersede_ok [of "report g s" "dv_document_id v" n old env f] assms(1) assms(2) old by auto
  show ?thesis
    by (rule exI [of _ "(report g s)\<lparr> ds_world := w' \<rparr>"]) (use w' docs_retired_step [OF True old(1) assms(2-4) w'(7-10)] in auto)
next
  case False
  then have none: "supersede env (dv_document_id v) n f (report g s) = (None, report g s)"
    using assms(5) by (auto simp: supersede_def retires_def pg_get_by_id_def split: option.splits)
  show ?thesis
    by (rule exI [of _ "report g s"]) (use none assms(1) docs_retired_skip [OF False] in auto)
qed

lemma retire_older_ok:
  assumes "wf_docs (documents (ds_world s))" "distinct (map dv_document_id vs)" "n \<notin> dv_document_id ` set vs"
  shows "\<exists>s'. retire_older env False f name n vs s = (None, s') \<and> wf_docs (documents (ds_world s'))
    \<and> jobs (ds_world s') = jobs (ds_world s) \<and> objects (ds_world s') = objects (ds_world s)
    \<and> chunks (ds_world s') = chunks (ds_world s)
    \<and> map doc_id (documents (ds_world s')) = map doc_id (documents (ds_world s))
    \<and> ds_rows s' = ds_rows s \<and> ds_owners s' = ds_owners s
    \<and> ds_versions s' = mark_superseded env vs (ds_versions s)
    \<and> docs_retired n vs (documents (ds_world s)) (documents (ds_world s'))"
  using assms
proof (induction vs arbitrary: s)
  case Nil
  then show ?case by (simp add: mark_superseded_simps docs_retired_Nil)
next
  case (Cons v vs)
  let ?docs = "documents (ds_world s)"
  have ids: "dv_document_id v \<noteq> n" "n \<notin> dv_document_id ` set vs" "dv_document_id v \<notin> dv_document_id ` set vs"
      "distinct (map dv_document_id vs)"
    using Cons.prems(2,3) by auto
  show ?case
  proof (cases "visible_state v")
    case False
    then have "\<not> retires ?docs v" by (simp add: retires_def)
    then show ?thesis using Cons.IH [OF Cons.prems(1) ids(4,2)] False
      by (auto simp: visible_state_def mark_superseded_simps(2) [OF False] dest: docs_retired_skip)
  next
    case vis: True
    let ?f = "\<lambda>out. out\<lparr> o_superseded := o_superseded out @ [name] \<rparr>"
    let ?g = "\<lambda>x. x\<lparr> dv_state := V_SUPERSEDED, dv_settled_at := Some (sy_now env) \<rparr>"
    obtain s2 where s2: "supersede env (dv_document_id v) n f (report ?f s) = (None, s2)" "wf_docs (documents (ds_world s2))"
        "jobs (ds_world s2) = jobs (ds_world s)" "objects (ds_world s2) = objects (ds_world s)"
        "chunks (ds_world s2) = chunks (ds_world s)"
        "map doc_id (documents (ds_world s2)) = map doc_id ?docs" "ds_rows s2 = ds_rows s" "ds_owners s2 = ds_owners s"
        "ds_versions s2 = ds_versions s"
        "\<And>docs'. docs_retired n vs (documents (ds_world s2)) docs' \<Longrightarrow> docs_retired n (v # vs) ?docs docs'"
      using supersede_visible [OF Cons.prems(1) ids(1-3) vis, of env f ?f] by blast
    let ?s3 = "set_version (dv_version_id v) ?g s2"
    have run: "retire_older env False f name n (v # vs) s = retire_older env False f name n vs ?s3"
      using vis s2(1) by (simp add: visible_state_def)
    have ih: "wf_docs (documents (ds_world ?s3))" using s2(2) by simp
    obtain s' where "retire_older env False f name n vs ?s3 = (None, s')" "wf_docs (documents (ds_world s'))"
      "jobs (ds_world s') = jobs (ds_world ?s3)" "objects (ds_world s') = objects (ds_world ?s3)"
      "chunks (ds_world s') = chunks (ds_world ?s3)"
      "map doc_id (documents (ds_world s')) = map doc_id (documents (ds_world ?s3))"
      "ds_rows s' = ds_rows ?s3" "ds_owners s' = ds_owners ?s3"
      "ds_versions s' = mark_superseded env vs (ds_versions ?s3)"
      "docs_retired n vs (documents (ds_world ?s3)) (documents (ds_world s'))"
      using Cons.IH [OF ih ids(4,2)] by blast
    then show ?thesis unfolding run
      using s2 mark_superseded_simps(3) [OF vis] by (intro exI [of _ s']) (simp add: set_version_def)
  qed
qed

section \<open>The constraints of the connector's tables\<close>

definition wf_versions :: "drive_version list \<Rightarrow> bool" where
  "wf_versions vs =
     (distinct (map dv_version_id vs) \<and> distinct (map dv_document_id vs)
      \<and> (\<forall>v\<in>set vs. \<forall>v'\<in>set vs. dv_state v = V_CURRENT \<and> dv_state v' = V_CURRENT \<and> dv_file_id v = dv_file_id v' \<longrightarrow> v = v'))"

text \<open>Keys are unique, references are valid, and a file has at most one current version.\<close>

definition wf_drive :: "drive_state \<Rightarrow> bool" where
  "wf_drive s =
     (wf_docs (documents (ds_world s)) \<and> distinct (map dr_file_id (ds_rows s)) \<and> wf_versions (ds_versions s)
      \<and> dv_document_id ` set (ds_versions s) \<subseteq> doc_id ` set (documents (ds_world s))
      \<and> dv_file_id ` set (ds_versions s) \<subseteq> dr_file_id ` set (ds_rows s))"

section \<open>Settling the pending versions\<close>

definition settled_version :: "sync_env \<Rightarrow> world \<Rightarrow> drive_version \<Rightarrow> drive_version" where
  "settled_version env w v =
     (if dv_state v \<noteq> V_PENDING then v
      else case find_doc (dv_document_id v) (documents w) of
        None \<Rightarrow> v
      | Some d \<Rightarrow>
          if status d = DUPLICATE
          then v\<lparr> dv_state := V_DUPLICATE,
                  dv_note := Some (case canonical_for d (documents w) of None \<Rightarrow> ''duplicate'' | Some c \<Rightarrow> ''duplicate of '' @ doc_id c),
                  dv_settled_at := Some (sy_now env) \<rparr>
          else if status d \<in> set FAILED_STATUSES
          then v\<lparr> dv_state := V_FAILED, dv_note := Some (status_value (status d)), dv_settled_at := Some (sy_now env) \<rparr>
          else v)"

lemma settled_version_fields [simp]:
  "dv_version_id (settled_version env w v) = dv_version_id v" "dv_file_id (settled_version env w v) = dv_file_id v"
  "dv_document_id (settled_version env w v) = dv_document_id v" "dv_imported_at (settled_version env w v) = dv_imported_at v"
  by (simp_all add: settled_version_def split: option.split)

lemma settled_state:
  "dv_state (settled_version env w v) = dv_state v \<or> dv_state v = V_PENDING \<and> dv_state (settled_version env w v) \<in> {V_DUPLICATE, V_FAILED}"
  by (simp add: settled_version_def split: option.split)

text \<open>One step, on a list that holds the version as it was or already settled.\<close>

lemma settle_step:
  assumes "\<forall>x\<in>set (ds_versions s). dv_version_id x = dv_version_id v \<longrightarrow> x = v \<or> x = settled_version env (ds_world s) v"
  shows "untouched (s\<lparr> ds_versions := map (\<lambda>x. if dv_version_id x = dv_version_id v then settled_version env (ds_world s) v else x)
      (ds_versions s) \<rparr>) (settle_version env False name s v)
    \<or> settled_version env (ds_world s) v = v \<and> untouched s (settle_version env False name s v)"
proof -
  let ?sv = "settled_version env (ds_world s) v"
  have upd: "update_where (\<lambda>x. dv_version_id x = dv_version_id v) g (ds_versions s)
      = map (\<lambda>x. if dv_version_id x = dv_version_id v then ?sv else x) (ds_versions s)"
    if "g v = ?sv" "g ?sv = ?sv" for g
    using assms that by (auto simp: update_where_def)
  show ?thesis
  proof (cases "dv_state v = V_PENDING")
    case False
    then show ?thesis by (simp add: settled_version_def settle_version_def)
  next
    case pending: True
    show ?thesis
    proof (cases "find_doc (dv_document_id v) (documents (ds_world s))")
      case None
      then show ?thesis by (simp add: settled_version_def settle_version_def pg_get_by_id_def)
    next
      case (Some d)
      consider "status d = DUPLICATE" | "status d \<noteq> DUPLICATE" "status d \<in> set FAILED_STATUSES"
        | "status d \<noteq> DUPLICATE" "status d \<notin> set FAILED_STATUSES" by blast
      then show ?thesis
      proof cases
        case 1
        have "update_where (\<lambda>x. dv_version_id x = dv_version_id v)
            (\<lambda>x. x\<lparr> dv_state := V_DUPLICATE,
                  dv_note := Some (case canonical_for d (documents (ds_world s)) of None \<Rightarrow> ''duplicate'' | Some c \<Rightarrow> ''duplicate of '' @ doc_id c),
                  dv_settled_at := Some (sy_now env) \<rparr>) (ds_versions s)
            = map (\<lambda>x. if dv_version_id x = dv_version_id v then ?sv else x) (ds_versions s)"
          by (rule upd) (simp_all add: settled_version_def pending Some 1)
        then show ?thesis using pending Some 1
          by (simp add: settle_version_def pg_get_by_id_def settle_def Let_def untouched_def set_version_def)
      next
        case 2
        have "update_where (\<lambda>x. dv_version_id x = dv_version_id v)
            (\<lambda>x. x\<lparr> dv_state := V_FAILED, dv_note := Some (status_value (status d)), dv_settled_at := Some (sy_now env) \<rparr>)
            (ds_versions s)
            = map (\<lambda>x. if dv_version_id x = dv_version_id v then ?sv else x) (ds_versions s)"
          by (rule upd) (simp_all add: settled_version_def pending Some 2)
        then show ?thesis using pending Some 2
          by (simp add: settle_version_def pg_get_by_id_def settle_def Let_def untouched_def set_version_def)
      next
        case 3
        then show ?thesis using pending Some
          by (simp add: settle_version_def settled_version_def pg_get_by_id_def)
      qed
    qed
  qed
qed

lemma settle_all:
  assumes "distinct (map dv_version_id (ds_versions s))" "set vs \<subseteq> set (ds_versions s)"
  shows "untouched (s\<lparr> ds_versions := map (\<lambda>x. if x \<in> set vs then settled_version env (ds_world s) x else x) (ds_versions s) \<rparr>)
    (foldl (settle_version env False name) s vs)"
  using assms(2)
proof (induction vs rule: rev_induct)
  case Nil
  then show ?case by (simp add: untouched_def)
next
  case (snoc v vs)
  let ?w = "ds_world s" and ?s' = "foldl (settle_version env False name) s vs"
  have ih: "ds_world ?s' = ?w" "ds_rows ?s' = ds_rows s" "ds_owners ?s' = ds_owners s"
    "ds_versions ?s' = map (\<lambda>x. if x \<in> set vs then settled_version env ?w x else x) (ds_versions s)"
    using snoc by (simp_all add: untouched_def)
  have id: "x = v" if "x \<in> set (ds_versions s)" "dv_version_id x = dv_version_id v" for x
    using distinct_key_unique [OF assms(1) that(1) _ that(2)] snoc.prems by auto
  have old: "\<forall>x\<in>set (ds_versions ?s'). dv_version_id x = dv_version_id v \<longrightarrow> x = v \<or> x = settled_version env (ds_world ?s') v"
  proof (intro ballI impI)
    fix x assume "x \<in> set (ds_versions ?s')" "dv_version_id x = dv_version_id v"
    then obtain y where y: "y \<in> set (ds_versions s)" "x = (if y \<in> set vs then settled_version env ?w y else y)"
        "dv_version_id y = dv_version_id v"
      unfolding ih(4) by (auto split: if_splits)
    then show "x = v \<or> x = settled_version env (ds_world ?s') v" using id [OF y(1,3)] ih(1) by auto
  qed
  have new: "map (\<lambda>x. if dv_version_id x = dv_version_id v then settled_version env ?w v else x) (ds_versions ?s')
      = map (\<lambda>x. if x \<in> set (vs @ [v]) then settled_version env ?w x else x) (ds_versions s)"
    unfolding ih(4) using id by auto
  have same: "ds_versions ?s' = map (\<lambda>x. if x \<in> set (vs @ [v]) then settled_version env ?w x else x) (ds_versions s)"
    if "settled_version env ?w v = v"
    unfolding ih(4) using that by auto
  show ?case
    using settle_step [OF old, of name]
  proof
    assume u: "untouched (?s'\<lparr> ds_versions := map (\<lambda>x. if dv_version_id x = dv_version_id v
        then settled_version env (ds_world ?s') v else x) (ds_versions ?s') \<rparr>) (settle_version env False name ?s' v)"
    show ?thesis using u [unfolded ih(1) new] by (simp add: untouched_def ih(1-3))
  next
    assume u: "settled_version env (ds_world ?s') v = v \<and> untouched ?s' (settle_version env False name ?s' v)"
    then have "ds_versions ?s' = map (\<lambda>x. if x \<in> set (vs @ [v]) then settled_version env ?w x else x) (ds_versions s)"
      by (intro same) (simp add: ih(1))
    then show ?thesis using u [THEN conjunct2] by (simp add: untouched_def ih(1-3))
  qed
qed

lemma sort_key_map_same: "(\<And>x. f (g x) = f x) \<Longrightarrow> sort_key f (map g xs) = map g (sort_key f xs)"
proof -
  assume same: "\<And>x. f (g x) = f x"
  have "insort_key f (g x) (map g ys) = map g (insort_key f x ys)" for x ys by (induction ys) (simp_all add: same)
  then show ?thesis by (induction xs) simp_all
qed

lemma settled_ok:
  assumes "distinct (map dv_version_id (ds_versions s))"
  shows "ds_world (settled env False f s) = ds_world s \<and> ds_rows (settled env False f s) = ds_rows s
    \<and> ds_owners (settled env False f s) = ds_owners s
    \<and> ds_versions (settled env False f s) = map (\<lambda>x. if dv_file_id x = f then settled_version env (ds_world s) x else x) (ds_versions s)
    \<and> versions_by_import f (settled env False f s) = map (settled_version env (ds_world s)) (versions_by_import f s)"
proof -
  let ?w = "ds_world s"
  have mem: "set (versions_by_import f s) = {x \<in> set (ds_versions s). dv_file_id x = f}"
    by (auto simp: versions_by_import_def file_versions_def)
  have u: "untouched (s\<lparr> ds_versions := map (\<lambda>x. if x \<in> set (versions_by_import f s) then settled_version env ?w x else x) (ds_versions s) \<rparr>)
      (settled env False f s)"
    unfolding settled_def by (rule settle_all [OF assms]) (simp add: mem)
  then have vs: "ds_versions (settled env False f s) = map (\<lambda>x. if dv_file_id x = f then settled_version env ?w x else x) (ds_versions s)"
    by (auto simp: untouched_def mem)
  have "filter (\<lambda>x. dv_file_id x = f) (map (\<lambda>x. if dv_file_id x = f then settled_version env ?w x else x) xs)
      = map (settled_version env ?w) (filter (\<lambda>x. dv_file_id x = f) xs)" for xs
    by (induction xs) simp_all
  then have "versions_by_import f (settled env False f s) = map (settled_version env ?w) (versions_by_import f s)"
    by (simp add: versions_by_import_def file_versions_def vs sort_key_map_same)
  then show ?thesis using u vs by (simp add: untouched_def)
qed

text \<open>Rewriting versions keeps their table well-formed if keys stay and nothing becomes current.\<close>

lemma wf_versions_map:
  assumes "wf_versions vs"
    and "\<And>x. x \<in> set vs \<Longrightarrow> dv_version_id (g x) = dv_version_id x \<and> dv_document_id (g x) = dv_document_id x \<and> dv_file_id (g x) = dv_file_id x"
    and "\<And>x. x \<in> set vs \<Longrightarrow> dv_state (g x) = V_CURRENT \<Longrightarrow> dv_state x = V_CURRENT"
  shows "wf_versions (map g vs)"
proof -
  have "map dv_version_id (map g vs) = map dv_version_id vs" "map dv_document_id (map g vs) = map dv_document_id vs"
    using assms(2) by simp_all
  moreover have "g x = g y"
    if "x \<in> set vs" "y \<in> set vs" "dv_state (g x) = V_CURRENT" "dv_state (g y) = V_CURRENT" "dv_file_id (g x) = dv_file_id (g y)" for x y
  proof -
    have "dv_state x = V_CURRENT" "dv_state y = V_CURRENT" "dv_file_id x = dv_file_id y" using that assms(2,3) by simp_all
    then have "x = y" using assms(1) that(1,2) by (simp add: wf_versions_def)
    then show ?thesis by simp
  qed
  ultimately show ?thesis using assms(1) unfolding wf_versions_def by (simp only: set_map) blast
qed

lemma settled_current: "dv_state (settled_version env w v) = V_CURRENT \<Longrightarrow> dv_state v = V_CURRENT"
  using settled_state [of env w v] by auto

lemma settled_wf:
  "wf_versions vs \<Longrightarrow> wf_versions (map (\<lambda>x. if dv_file_id x = f then settled_version env w x else x) vs)"
  by (rule wf_versions_map) (auto split: if_splits dest: settled_current)

end
