(* ===== verification/DrivePass.thy ===== *)
theory DrivePass
  imports DriveReconcile
begin

text \<open>What a pass of the Drive sync guarantees: how a file's versions settle, that its tables stay consistent whatever
happens, that nothing but configuration and listings can stop it, and where it falls short of its description.\<close>

section \<open>Reconciling one file\<close>

lemma file_version_mem: "x \<in> set (versions_by_import f s) \<longleftrightarrow> x \<in> set (ds_versions s) \<and> dv_file_id x = f"
  by (auto simp: versions_by_import_def file_versions_def)

lemma file_version_ids:
  assumes "wf_versions (ds_versions s)"
  shows "distinct (map dv_document_id (versions_by_import f s))" "distinct (map dv_version_id (versions_by_import f s))"
  using assms by (auto simp: wf_versions_def distinct_map versions_by_import_def file_versions_def intro: inj_on_subset)

lemma version_unique:
  "\<lbrakk> wf_drive s; a \<in> set (ds_versions s); b \<in> set (ds_versions s); dv_version_id a = dv_version_id b \<rbrakk> \<Longrightarrow> a = b"
  using distinct_key_unique [of dv_version_id "ds_versions s" a b] by (simp add: wf_drive_def wf_versions_def)

lemma live_is_settled:
  "find_doc (dv_document_id v) (documents w) = Some d \<Longrightarrow> status d = LIVE \<Longrightarrow> settled_version env w v = v"
  by (simp add: settled_version_def FAILED_STATUSES_def)

definition become_current :: "sync_env \<Rightarrow> uuid \<Rightarrow> drive_version list \<Rightarrow> drive_version list" where
  "become_current env i rows =
     update_where (\<lambda>x. dv_version_id x = i) (\<lambda>x. x\<lparr> dv_state := V_CURRENT, dv_settled_at := Some (sy_now env) \<rparr>) rows"

text \<open>The newest version's document is live: the exact effect.\<close>

lemma reconcile_live:
  assumes wf: "wf_drive s" and vs: "versions_by_import f s = olds @ [v]"
    and v: "dv_state v = V_PENDING" "doc_is_live (dv_document_id v) (ds_world s)"
  shows "\<exists>s'. reconcile_file env False f s = (None, s') \<and> wf_docs (documents (ds_world s'))
    \<and> jobs (ds_world s') = jobs (ds_world s) \<and> objects (ds_world s') = objects (ds_world s)
    \<and> chunks (ds_world s') = chunks (ds_world s)
    \<and> map doc_id (documents (ds_world s')) = map doc_id (documents (ds_world s))
    \<and> ds_rows s' = ds_rows s \<and> ds_owners s' = ds_owners s
    \<and> ds_versions s' = become_current env (dv_version_id v)
         (mark_superseded env (map (settled_version env (ds_world s)) olds)
           (map (\<lambda>x. if dv_file_id x = f then settled_version env (ds_world s) x else x) (ds_versions s)))
    \<and> docs_retired (dv_document_id v) (map (settled_version env (ds_world s)) olds)
         (documents (ds_world s)) (documents (ds_world s'))"
proof -
  let ?sv = "settled_version env (ds_world s)" and ?s1 = "settled env False f s"
  have wv: "wf_versions (ds_versions s)" "distinct (map dv_version_id (ds_versions s))" "wf_docs (documents (ds_world s))"
    using wf by (simp_all add: wf_drive_def wf_versions_def)
  note s1 = settled_ok [OF wv(2), of env f]
  have live: "?sv v = v" using v(2) live_is_settled [of v "ds_world s" _ env]
    by (auto simp: doc_is_live_def pg_get_by_id_def split: option.splits)
  have split: "versions_by_import f ?s1 = map ?sv olds @ [v]" using s1 vs live by simp
  then have ends: "last (versions_by_import f ?s1) = v" "butlast (versions_by_import f ?s1) = map ?sv olds"
    by (simp_all add: butlast_append)
  have live2: "doc_is_live (dv_document_id v) (ds_world ?s1)" using v(2) s1 by simp
  have ids: "distinct (map dv_document_id (map ?sv olds))" "dv_document_id v \<notin> dv_document_id ` set (map ?sv olds)"
    using file_version_ids(1) [OF wv(1), of f] unfolding vs by (auto simp: comp_def image_iff)
  obtain name e s2 where r: "retire_older env False f name (dv_document_id v) (map ?sv olds) ?s1 = (e, s2)"
      "reconcile_file env False f s = (e, if e \<noteq> None \<or> False then s2
         else set_version (dv_version_id v) (\<lambda>x. x\<lparr> dv_state := V_CURRENT, dv_settled_at := Some (sy_now env) \<rparr>) s2)"
    using reconcile_file_cases [OF refl refl, of f env False s, unfolded ends] v(1) live2 by blast
  have "wf_docs (documents (ds_world ?s1))" using s1 wv(3) by simp
  from retire_older_ok [OF this ids, of env f name] r(1) have e: "e = None" by auto
  from retire_older_ok [OF \<open>wf_docs (documents (ds_world ?s1))\<close> ids, of env f name] r(1) s1
  have "wf_docs (documents (ds_world s2)) \<and> jobs (ds_world s2) = jobs (ds_world s) \<and> objects (ds_world s2) = objects (ds_world s)
    \<and> chunks (ds_world s2) = chunks (ds_world s) \<and> map doc_id (documents (ds_world s2)) = map doc_id (documents (ds_world s))
    \<and> ds_rows s2 = ds_rows s \<and> ds_owners s2 = ds_owners s
    \<and> ds_versions s2 = mark_superseded env (map ?sv olds)
         (map (\<lambda>x. if dv_file_id x = f then ?sv x else x) (ds_versions s))
    \<and> docs_retired (dv_document_id v) (map ?sv olds) (documents (ds_world s)) (documents (ds_world s2))"
    by auto
  moreover have "reconcile_file env False f s
      = (None, set_version (dv_version_id v) (\<lambda>x. x\<lparr> dv_state := V_CURRENT, dv_settled_at := Some (sy_now env) \<rparr>) s2)"
    using r(2) e by simp
  ultimately show ?thesis
    by (intro exI [of _ "set_version (dv_version_id v) (\<lambda>x. x\<lparr> dv_state := V_CURRENT, dv_settled_at := Some (sy_now env) \<rparr>) s2"])
       (simp add: become_current_def, simp add: set_version_def)
qed

text \<open>Otherwise no document is touched.\<close>

lemma reconcile_waits:
  assumes wf: "wf_drive s" and vs: "versions_by_import f s = olds @ [v]"
    and v: "\<not> (dv_state v = V_PENDING \<and> doc_is_live (dv_document_id v) (ds_world s))"
  shows "\<exists>s'. reconcile_file env False f s = (None, s') \<and> ds_world s' = ds_world s \<and> ds_rows s' = ds_rows s
    \<and> ds_owners s' = ds_owners s
    \<and> ds_versions s' = map (\<lambda>x. if dv_file_id x = f then settled_version env (ds_world s) x else x) (ds_versions s)"
proof -
  let ?sv = "settled_version env (ds_world s)" and ?s1 = "settled env False f s"
  have "distinct (map dv_version_id (ds_versions s))" using wf by (simp add: wf_drive_def wf_versions_def)
  note s1 = settled_ok [OF this, of env f]
  have "last (versions_by_import f ?s1) = ?sv v" using s1 vs by simp
  then have "\<not> (dv_state (last (versions_by_import f ?s1)) = V_PENDING
      \<and> doc_is_live (dv_document_id (last (versions_by_import f ?s1))) (ds_world ?s1))"
    using v s1 settled_state [of env "ds_world s" v] by auto
  then obtain g where "reconcile_file env False f s = (None, report g ?s1)"
    using reconcile_file_cases [OF refl refl, of f env False s] by blast
  then show ?thesis using s1 by auto
qed
lemma settled_visible: "visible_state (settled_version env w x) \<Longrightarrow> settled_version env w x = x"
  by (auto simp: visible_state_def settled_version_def split: option.splits if_splits)

text \<open>The state each version ends in, given where it was.\<close>

lemma taken_over_states:
  fixes s :: drive_state
  assumes wf: "wf_drive s" and vs: "versions_by_import f s = olds @ [v]"
    and x: "x \<in> set (become_current env (dv_version_id v)
         (mark_superseded env (map (settled_version env (ds_world s)) olds)
           (map (\<lambda>x. if dv_file_id x = f then settled_version env (ds_world s) x else x) (ds_versions s))))"
  shows "\<exists>y\<in>set (ds_versions s). dv_version_id x = dv_version_id y \<and> dv_file_id x = dv_file_id y
    \<and> dv_document_id x = dv_document_id y
    \<and> (if dv_file_id y \<noteq> f then x = y else if y = v then dv_state x = V_CURRENT else \<not> visible_state x)"
proof -
  let ?sv = "settled_version env (ds_world s)"
  define h1 where "h1 = (\<lambda>z. if dv_file_id z = f then ?sv z else z)"
  define h2 where "h2 = (\<lambda>z :: drive_version. if dv_version_id z \<in> dv_version_id ` {o1 \<in> set (map ?sv olds). visible_state o1}
                    then z\<lparr> dv_state := V_SUPERSEDED, dv_settled_at := Some (sy_now env) \<rparr> else z)"
  define h3 where "h3 = (\<lambda>z :: drive_version. if dv_version_id z = dv_version_id v
             then z\<lparr> dv_state := V_CURRENT, dv_settled_at := Some (sy_now env) \<rparr> else z)"
  have "x \<in> h3 ` h2 ` h1 ` set (ds_versions s)"
    using x unfolding become_current_def mark_superseded_def update_where_def set_map h1_def h2_def h3_def .
  then obtain y where y: "y \<in> set (ds_versions s)" and "x = h3 (h2 (h1 y))" by blast
  note xy = \<open>x = h3 (h2 (h1 y))\<close> [unfolded h1_def h2_def h3_def]
  have uniq: "a = b" if "a \<in> set (ds_versions s)" "b \<in> set (ds_versions s)" "dv_version_id a = dv_version_id b" for a b
    by (rule version_unique [OF wf that])
  have mem: "z \<in> set olds \<or> z = v \<longleftrightarrow> z \<in> set (ds_versions s) \<and> dv_file_id z = f" for z
    using file_version_mem [of z f s] by (auto simp: vs)
  have old_id: "dv_version_id y \<in> dv_version_id ` {o1 \<in> set (map ?sv olds). visible_state o1}
      \<longleftrightarrow> y \<in> set olds \<and> visible_state (?sv y)"
    using uniq [OF y] mem by (auto simp: image_iff) blast+
  have v_id: "dv_version_id y = dv_version_id v \<longleftrightarrow> y = v" using uniq [OF y] mem by blast
  have nv: "v \<notin> set olds" using file_version_ids(1) [of s f] wf unfolding vs by (auto simp: wf_drive_def)
  have f: "dv_file_id v = f" using mem by blast
  show ?thesis
  proof (rule bexI [OF _ y])
    show "dv_version_id x = dv_version_id y \<and> dv_file_id x = dv_file_id y \<and> dv_document_id x = dv_document_id y
      \<and> (if dv_file_id y \<noteq> f then x = y else if y = v then dv_state x = V_CURRENT else \<not> visible_state x)"
    proof (cases "dv_file_id y = f")
      case False
      then have "y \<notin> set olds" "y \<noteq> v" using mem by blast+
      then show ?thesis unfolding xy using False old_id v_id by (simp add: Let_def)
    next
      case True
      then have "y \<noteq> v \<longrightarrow> y \<in> set olds" using mem y by blast
      then show ?thesis unfolding xy using True old_id v_id nv by (auto simp: Let_def visible_state_def)
    qed
  qed
qed

text \<open>An edit is a new version, and the old one is retired once the new one is live. Reconciling a file whose
newest version is pending and has a live document never fails and makes that version the only current or pending one
of the file; its document stays as it was but for the link to what it replaces; the document of the version current
until then, unless erased, is hidden and marked \<open>SUPERSEDED\<close>, keeping everything else, its tier and owner included;
and no document of another file, no passage, job or stored object is touched.\<close>

theorem newest_live_version_takes_over:
  assumes "wf_drive s" "versions_by_import f s = olds @ [v]" "dv_state v = V_PENDING"
    and "find_doc (dv_document_id v) (documents (ds_world s)) = Some d" "status d = LIVE"
  shows "\<exists>s'. reconcile_file env False f s = (None, s')
    \<and> (\<forall>x\<in>set (ds_versions s'). dv_file_id x = f \<longrightarrow>
          (dv_state x \<in> {V_CURRENT, V_PENDING} \<longleftrightarrow> dv_version_id x = dv_version_id v)
          \<and> (dv_version_id x = dv_version_id v \<longrightarrow> dv_state x = V_CURRENT))
    \<and> (\<exists>a k u. find_doc (dv_document_id v) (documents (ds_world s'))
          = Some (d\<lparr> supersedes_id := a, version := k, updated_at := u \<rparr>))
    \<and> (\<forall>x\<in>set olds. \<forall>r. dv_state x = V_CURRENT \<and> find_doc (dv_document_id x) (documents (ds_world s)) = Some r
          \<and> purged_at r = None \<longrightarrow>
          (\<exists>u t. t \<noteq> None \<and> find_doc (dv_document_id x) (documents (ds_world s'))
             = Some (r\<lparr> status := SUPERSEDED, updated_at := u, deleted_at := t \<rparr>)))
    \<and> (\<forall>j r. find_doc j (documents (ds_world s)) = Some r \<and> j \<notin> dv_document_id ` set (olds @ [v]) \<longrightarrow>
          find_doc j (documents (ds_world s')) = Some r)
    \<and> chunks (ds_world s') = chunks (ds_world s) \<and> jobs (ds_world s') = jobs (ds_world s)
    \<and> objects (ds_world s') = objects (ds_world s)"
proof -
  let ?sv = "settled_version env (ds_world s)" and ?docs = "documents (ds_world s)"
  have live: "doc_is_live (dv_document_id v) (ds_world s)" using assms(4,5) by (simp add: doc_is_live_def pg_get_by_id_def)
  obtain s' where s': "reconcile_file env False f s = (None, s')" "jobs (ds_world s') = jobs (ds_world s)"
      "objects (ds_world s') = objects (ds_world s)" "chunks (ds_world s') = chunks (ds_world s)"
      "ds_versions s' = become_current env (dv_version_id v) (mark_superseded env (map ?sv olds)
           (map (\<lambda>x. if dv_file_id x = f then ?sv x else x) (ds_versions s)))"
      "docs_retired (dv_document_id v) (map ?sv olds) ?docs (documents (ds_world s'))"
    using reconcile_live [OF assms(1-3) live, of env] by blast
  have uniq: "a = b" if "a \<in> set (ds_versions s)" "b \<in> set (ds_versions s)" "dv_version_id a = dv_version_id b" for a b
    by (rule version_unique [OF assms(1) that])
  have vmem: "v \<in> set (ds_versions s)" "dv_file_id v = f" using file_version_mem [of v f s] by (auto simp: assms(2))
  have states: "(dv_state x \<in> {V_CURRENT, V_PENDING} \<longleftrightarrow> dv_version_id x = dv_version_id v)
      \<and> (dv_version_id x = dv_version_id v \<longrightarrow> dv_state x = V_CURRENT)"
    if x: "x \<in> set (ds_versions s')" "dv_file_id x = f" for x
  proof -
    obtain y where y: "y \<in> set (ds_versions s)" "dv_version_id x = dv_version_id y" "dv_file_id y = f"
        "if y = v then dv_state x = V_CURRENT else \<not> visible_state x"
      using taken_over_states [OF assms(1,2), of x env] x s'(5) by auto
    have "dv_version_id x = dv_version_id v \<longleftrightarrow> y = v" using uniq [OF y(1) vmem(1)] y(2) by auto
    then show ?thesis using y(4) by (cases "y = v") (auto simp: visible_state_def)
  qed
  note out = s'(6) [unfolded docs_retired_def, rule_format]
  have own: "\<exists>a k u. find_doc (dv_document_id v) (documents (ds_world s'))
          = Some (d\<lparr> supersedes_id := a, version := k, updated_at := u \<rparr>)"
    using out [OF assms(4)] by (auto simp: row_outcome_def)
  have ids: "dv_document_id x \<noteq> dv_document_id v" if "x \<in> set olds" for x
    using file_version_ids(1) [of s f] assms(1,2) that by (auto simp: wf_drive_def image_iff)
  have retired: "\<exists>u t. t \<noteq> None \<and> find_doc (dv_document_id x) (documents (ds_world s'))
             = Some (r\<lparr> status := SUPERSEDED, updated_at := u, deleted_at := t \<rparr>)"
    if x: "x \<in> set olds" "dv_state x = V_CURRENT" and r: "find_doc (dv_document_id x) ?docs = Some r" "purged_at r = None" for x r
  proof -
    have "?sv x = x" using x(2) by (simp add: settled_version_def)
    then have "\<exists>o1\<in>set (map ?sv olds). retires ?docs o1 \<and> dv_document_id o1 = dv_document_id x"
      using x r by (intro bexI [of _ x]) (auto simp: retires_def visible_state_def image_iff intro: bexI [of _ x])
    then show ?thesis using out [OF r(1)] ids [OF x(1)] by (auto simp: row_outcome_def retired_row_def)
  qed
  have others: "find_doc j (documents (ds_world s')) = Some r"
    if "find_doc j ?docs = Some r" "j \<notin> dv_document_id ` set (olds @ [v])" for j r
    using out [OF that(1)] that(2) by (auto simp: row_outcome_def split: if_splits)
  show ?thesis
    by (rule exI [of _ s'], intro conjI s'(1-4) own) (use states retired others in blast)+
qed

section \<open>A file with something to show keeps something to show\<close>

definition searchable :: "world \<Rightarrow> uuid \<Rightarrow> bool" where
  "searchable w i =
     (case find_doc i (documents w) of None \<Rightarrow> False | Some d \<Rightarrow> status d = LIVE \<and> deleted_at d = None \<and> purged_at d = None)"

definition shown :: "string \<Rightarrow> drive_state \<Rightarrow> bool" where
  "shown f s = (\<exists>x\<in>set (ds_versions s). dv_file_id x = f \<and> visible_state x \<and> searchable (ds_world s) (dv_document_id x))"

text \<open>Reconciling never leaves a file with nothing to find. If a current or pending version of the file has a live,
undeleted document before, some current or pending version has one after, whatever became of the newer versions:
duplicate, failed, still processing or live. The newest version's document is only required not to be erased or
deleted by someone while it is live.\<close>

theorem reconciling_keeps_a_file_findable:
  assumes "wf_drive s" "shown f s"
    and "\<And>d v. \<lbrakk> v = last (versions_by_import f s); find_doc (dv_document_id v) (documents (ds_world s)) = Some d; status d = LIVE \<rbrakk>
           \<Longrightarrow> deleted_at d = None \<and> purged_at d = None"
  shows "\<exists>s'. reconcile_file env False f s = (None, s') \<and> shown f s'"
proof -
  obtain x where x: "x \<in> set (ds_versions s)" "dv_file_id x = f" "visible_state x" "searchable (ds_world s) (dv_document_id x)"
    using assms(2) by (auto simp: shown_def)
  then have "versions_by_import f s \<noteq> []" using file_version_mem [of x f s] by auto
  then obtain olds v where vs: "versions_by_import f s = olds @ [v]" by (metis append_butlast_last_id)
  show ?thesis
  proof (cases "dv_state v = V_PENDING \<and> doc_is_live (dv_document_id v) (ds_world s)")
    case True
    then obtain d where d: "find_doc (dv_document_id v) (documents (ds_world s)) = Some d" "status d = LIVE"
      by (auto simp: doc_is_live_def pg_get_by_id_def split: option.splits)
    have alive: "deleted_at d = None \<and> purged_at d = None" using assms(3) [of v d] d vs by simp
    obtain s' where s': "reconcile_file env False f s = (None, s')"
      "ds_versions s' = become_current env (dv_version_id v) (mark_superseded env (map (settled_version env (ds_world s)) olds)
           (map (\<lambda>x. if dv_file_id x = f then settled_version env (ds_world s) x else x) (ds_versions s)))"
      "docs_retired (dv_document_id v) (map (settled_version env (ds_world s)) olds) (documents (ds_world s)) (documents (ds_world s'))"
      using reconcile_live [OF assms(1) vs, of env] True by blast
    have "\<exists>a k u. find_doc (dv_document_id v) (documents (ds_world s'))
          = Some (d\<lparr> supersedes_id := a, version := k, updated_at := u \<rparr>)"
      using s'(3) [unfolded docs_retired_def, rule_format, OF d(1)] by (auto simp: row_outcome_def)
    then have found: "searchable (ds_world s') (dv_document_id v)" using d(2) alive by (auto simp: searchable_def)
    have vmem: "v \<in> set (ds_versions s)" "dv_file_id v = f" using file_version_mem [of v f s] by (auto simp: vs)
    have "map dv_version_id (ds_versions s') = map dv_version_id (ds_versions s)"
      by (simp add: s'(2) become_current_def mark_superseded_def map_update_where comp_def if_distrib cong: if_cong)
    then obtain x' where x': "x' \<in> set (ds_versions s')" "dv_version_id x' = dv_version_id v"
      using vmem(1) by (metis (no_types, lifting) image_iff list.set_map)
    obtain y where y: "y \<in> set (ds_versions s)" "dv_version_id x' = dv_version_id y" "dv_file_id x' = dv_file_id y"
        "dv_document_id x' = dv_document_id y"
        "if dv_file_id y \<noteq> f then x' = y else if y = v then dv_state x' = V_CURRENT else \<not> visible_state x'"
      using taken_over_states [OF assms(1) vs, of x' env] x'(1) unfolding s'(2) by blast
    have "y = v" using version_unique [OF assms(1) y(1) vmem(1)] x'(2) y(2) by simp
    then have "shown f s'" using x'(1) y vmem(2) found unfolding shown_def by (intro bexI [of _ x']) (auto simp: visible_state_def)
    then show ?thesis using s'(1) by blast
  next
    case False
    obtain s' where s': "reconcile_file env False f s = (None, s')" "ds_world s' = ds_world s"
      "ds_versions s' = map (\<lambda>x. if dv_file_id x = f then settled_version env (ds_world s) x else x) (ds_versions s)"
      using reconcile_waits [OF assms(1) vs False, of env] by blast
    have "settled_version env (ds_world s) x = x"
      using x(4) live_is_settled by (auto simp: searchable_def split: option.splits)
    then have "x \<in> set (ds_versions s')" using x(1) by (force simp: s'(3))
    then show ?thesis using s'(1,2) x unfolding shown_def by auto
  qed
qed

section \<open>The tables stay consistent\<close>

definition doc_ids :: "drive_state \<Rightarrow> uuid set" where
  "doc_ids s = doc_id ` set (documents (ds_world s))"

definition row_ids :: "drive_state \<Rightarrow> string set" where
  "row_ids s = dr_file_id ` set (ds_rows s)"

text \<open>A step that rewrites versions in place keeps the tables, if the rest of them grows.\<close>

lemma wf_drive_step:
  assumes "wf_drive s" "wf_docs (documents (ds_world s'))" "doc_ids s \<subseteq> doc_ids s'"
    and "distinct (map dr_file_id (ds_rows s'))" "row_ids s \<subseteq> row_ids s'"
    and "ds_versions s' = map g (ds_versions s)"
    and "\<And>x. x \<in> set (ds_versions s) \<Longrightarrow> dv_version_id (g x) = dv_version_id x \<and> dv_document_id (g x) = dv_document_id x \<and> dv_file_id (g x) = dv_file_id x"
    and "\<And>x. x \<in> set (ds_versions s) \<Longrightarrow> dv_state (g x) = V_CURRENT \<Longrightarrow> dv_state x = V_CURRENT"
  shows "wf_drive s'"
proof -
  have "wf_versions (ds_versions s')"
    unfolding assms(6) by (rule wf_versions_map) (use assms(1,7,8) in \<open>simp_all add: wf_drive_def\<close>)
  moreover have "dv_document_id ` set (ds_versions s') = dv_document_id ` set (ds_versions s)"
    "dv_file_id ` set (ds_versions s') = dv_file_id ` set (ds_versions s)"
    using assms(6,7) by (force simp: image_iff)+
  moreover have "dv_document_id ` set (ds_versions s) \<subseteq> doc_ids s" "dv_file_id ` set (ds_versions s) \<subseteq> row_ids s"
    using assms(1) by (simp_all add: wf_drive_def doc_ids_def row_ids_def)
  ultimately show ?thesis using assms(2-5) unfolding wf_drive_def doc_ids_def [symmetric] row_ids_def [symmetric]
    by (simp only: simp_thms) (meson subset_trans)
qed

lemma wf_report [simp]: "wf_drive (report h s) = wf_drive s"
  by (simp add: wf_drive_def)

lemma wf_audit [simp]: "wf_drive (drive_audit env i ev det s) = wf_drive s"
  by (simp add: wf_drive_def)

lemma wf_owners [simp]: "wf_drive (s\<lparr> ds_owners := c \<rparr>) = wf_drive s" "wf_drive (s\<lparr> ds_outcome := o1 \<rparr>) = wf_drive s"
  by (simp_all add: wf_drive_def)

lemma wf_docs_step:
  assumes "wf_drive s" "wf_docs rows" "map doc_id rows = map doc_id (documents (ds_world s))"
  shows "wf_drive (on_world (\<lambda>w. w\<lparr> documents := rows \<rparr>) s)"
proof -
  have "doc_id ` set rows = doc_id ` set (documents (ds_world s))" using assms(3) by (metis list.set_map)
  then show ?thesis using assms(1,2) by (simp add: wf_drive_def)
qed

lemma wf_row_update:
  assumes "wf_drive s" "\<And>r. dr_file_id (h r) = dr_file_id r"
  shows "wf_drive (s\<lparr> ds_rows := update_where P h (ds_rows s) \<rparr>)"
proof -
  have "map dr_file_id (update_where P h (ds_rows s)) = map dr_file_id (ds_rows s)" by (simp add: map_update_where assms(2))
  then show ?thesis using assms(1) unfolding wf_drive_def by (simp add: set_map [symmetric] del: set_map)
qed

lemma record_row_ids: "row_ids (record_row env item st t fo dc r s) = insert (df_file_id item) (row_ids s)"
proof (cases "find_row (df_file_id item) (ds_rows s)")
  case None
  then show ?thesis by (simp add: record_row_def row_ids_def written_row_def blank_row_def)
next
  case (Some x)
  then have x: "x \<in> set (ds_rows s)" "dr_file_id x = df_file_id item" by (auto simp: find_row_def dest: find_Some_mem)
  then have "df_file_id item \<in> row_ids s" unfolding row_ids_def by (metis imageI)
  moreover have "row_ids (record_row env item st t fo dc r s) = row_ids s"
    using Some map_key_replace [of dr_file_id "written_row env item st t fo dc r x" "ds_rows s"]
    by (simp add: record_row_def row_ids_def flip: set_map)
  ultimately show ?thesis by auto
qed

lemma wf_record [simp]: "wf_drive s \<Longrightarrow> wf_drive (record_row env item st t fo dc r s)"
proof -
  assume wf: "wf_drive s"
  have "distinct (map dr_file_id (ds_rows (record_row env item st t fo dc r s)))"
    using wf by (auto simp: record_row_def wf_drive_def written_row_def blank_row_def find_row_def find_None Let_def split: option.split)
  then show ?thesis using wf record_row_ids [of env item st t fo dc r s] unfolding wf_drive_def row_ids_def by auto
qed

lemma wf_set_version:
  assumes "wf_drive s" "\<And>x. dv_version_id (h x) = dv_version_id x \<and> dv_document_id (h x) = dv_document_id x \<and> dv_file_id (h x) = dv_file_id x"
    and "\<And>x. dv_state (h x) \<noteq> V_CURRENT"
  shows "wf_drive (s\<lparr> ds_versions := update_where P h (ds_versions s) \<rparr>)"
  by (rule wf_drive_step [OF assms(1), where g = "\<lambda>x. if P x then h x else x"])
     (use assms in \<open>auto simp: wf_drive_def doc_ids_def row_ids_def update_where_def split: if_splits\<close>)

lemma wf_skip [simp]: "wf_drive s \<Longrightarrow> wf_drive (skip_file env dry item t fo r s)"
  by (simp add: skip_file_def Let_def)

lemma wf_restore: "wf_drive s \<Longrightarrow> wf_drive (restore_file env row s)"
proof -
  assume wf: "wf_drive s"
  have docs: "wf_drive (on_world (\<lambda>w. w\<lparr> documents := snd (pg_restore t i (documents (ds_world s))) \<rparr>) s)" for t i
    by (rule wf_docs_step [OF wf]) (use wf in \<open>simp_all add: postgres_restore_keeps wf_drive_def\<close>)
  have pending: "wf_drive s' \<Longrightarrow> wf_drive (set_version j (\<lambda>x. x\<lparr> dv_state := V_PENDING, dv_settled_at := None \<rparr>) s')" for j s'
    unfolding set_version_def by (rule wf_set_version) simp_all
  show ?thesis using wf docs pending
    by (auto simp: restore_file_def Let_def case_prod_unfold split: option.split list.split)
qed

lemma wf_reclassify: "wf_drive s \<Longrightarrow> wf_drive (reclassify_file env row t s)"
proof -
  have one: "wf_drive (reclassify_one env row t s i)" if wf: "wf_drive s" for s i
  proof -
    have "on_world (set_tier u i t) s
        = on_world (\<lambda>w. w\<lparr> documents := snd (pg_set_classification u i t (documents (ds_world s))) \<rparr>) s" for u
      by (simp add: on_world_def set_tier_def)
    then have "wf_drive (on_world (set_tier u i t) s)" if "wf_drive (on_world (\<lambda>w. w\<lparr> documents := snd (pg_set_classification u i t (documents (ds_world s))) \<rparr>) s)" for u
      using that by (simp only:)
    moreover have "wf_drive (on_world (\<lambda>w. w\<lparr> documents := snd (pg_set_classification u i t (documents (ds_world s))) \<rparr>) s)" for u
      by (rule wf_docs_step [OF wf]) (use wf in \<open>simp_all add: postgres_set_tier_keeps wf_drive_def\<close>)
    ultimately show ?thesis using wf by (simp add: reclassify_one_def split: option.split)
  qed
  have "wf_drive s \<Longrightarrow> wf_drive (foldl (reclassify_one env row t) s is)" for s "is"
    by (induction "is" arbitrary: s) (simp_all add: one)
  then show "wf_drive s \<Longrightarrow> wf_drive (reclassify_file env row t s)" by (simp add: reclassify_file_def)
qed

lemma wf_unchanged: "wf_drive s \<Longrightarrow> wf_drive (unchanged_content env dry row item t fo s)"
  by (simp add: unchanged_content_def Let_def wf_restore wf_reclassify)

section \<open>What an import adds\<close>

lemma received:
  assumes "receive env name data m mime w = (r, w')"
  shows "case r of
      Inl e \<Rightarrow> documents w' = documents w
    | Inr rc \<Rightarrow> resp_document_id rc = up_document_id env \<and> up_document_id env \<notin> doc_id ` set (documents w)
        \<and> documents w' = documents w @ [received_row env name data m mime]"
  using assms
  by (auto simp: receive_def upload_receipt_def pg_create_def commit_rows_def Let_def enqueue_job_def received_document_def
      received_row_def new_document_def find_doc_None split: if_splits sum.splits)

definition fresh_version :: "sync_env \<Rightarrow> string \<Rightarrow> drive_state \<Rightarrow> bool" where
  "fresh_version env i s = (sy_version_id env i \<notin> dv_version_id ` set (ds_versions s))"

lemma wf_note_import:
  assumes "wf_drive s" "dc \<in> doc_ids s" "dc \<notin> dv_document_id ` set (ds_versions s)" "fresh_version env (df_file_id item) s"
  shows "wf_drive (note_import env item t fo ed dc s)"
proof -
  let ?s' = "note_import env item t fo ed dc s"
  have vs: "ds_versions ?s' = ds_versions s @ [new_version env item dc]" by (simp add: note_import_def Let_def)
  have rows: "row_ids ?s' = insert (df_file_id item) (row_ids s)"
    using record_row_ids [of env item FILE_IMPORTED "Some t" "Some fo" "Some dc" None "report h s" for h]
    by (simp add: note_import_def Let_def row_ids_def)
  have r: "wf_drive (record_row env item FILE_IMPORTED (Some t) (Some fo) (Some dc) None (report h s))" for h
    using assms(1) by simp
  have "distinct (map dr_file_id (ds_rows ?s'))" using r by (simp add: note_import_def Let_def wf_drive_def)
  moreover have "wf_versions (ds_versions ?s')"
    unfolding vs using assms by (auto simp: wf_versions_def wf_drive_def new_version_def fresh_version_def)
  moreover have "documents (ds_world ?s') = documents (ds_world s)" by (simp add: note_import_def Let_def)
  ultimately show ?thesis
    using assms(1,2) rows unfolding wf_drive_def vs by (auto simp: doc_ids_def row_ids_def new_version_def)
qed

lemma wf_import:
  assumes "wf_drive s" "fresh_version env (df_file_id item) s"
  shows "wf_drive (snd (import_file env ex ed item t fo s))"
proof (cases "fetch_bytes (sy_client env) item")
  case (Inl e)
  then show ?thesis using assms(1) by (simp add: import_file_def)
next
  case (Inr y)
  obtain data name where y: "y = (data, name)" by (cases y)
  have got: "wf_drive (snd (case receive (sy_upload env (df_file_id item)) name data m mime (ds_world s') of
        (Inl e, w) \<Rightarrow> (Some (OtherError e), s'\<lparr> ds_world := w \<rparr>)
      | (Inr r, w) \<Rightarrow> (None, note_import env item t fo ed (resp_document_id r) (s'\<lparr> ds_world := w \<rparr>))))"
    if s': "wf_drive s'" "fresh_version env (df_file_id item) s'" for s' m mime
  proof -
    obtain r w where r: "receive (sy_upload env (df_file_id item)) name data m mime (ds_world s') = (r, w)" by fastforce
    have docs: "wf_docs (documents w)"
      using receive_wf [of "ds_world s'" "sy_upload env (df_file_id item)" name data m mime] s'(1) r by (simp add: wf_drive_def)
    show ?thesis
    proof (cases r)
      case (Inl e)
      then show ?thesis using r received [OF r] s'(1) by (simp add: wf_drive_def)
    next
      case (Inr rc)
      note rec = received [OF r, unfolded Inr sum.case]
      have wf: "wf_drive (s'\<lparr> ds_world := w \<rparr>)" using s'(1) docs rec by (auto simp: wf_drive_def)
      have new: "resp_document_id rc \<in> doc_ids (s'\<lparr> ds_world := w \<rparr>)" using rec by (simp add: doc_ids_def)
      have "dv_document_id ` set (ds_versions s') \<subseteq> doc_id ` set (documents (ds_world s'))" using s'(1) by (simp add: wf_drive_def)
      then have "resp_document_id rc \<notin> dv_document_id ` set (ds_versions s')" using rec by auto
      then show ?thesis
        using wf_note_import [OF wf new, of env item t fo ed] s'(2) by (simp add: r Inr fresh_version_def)
    qed
  qed
  show ?thesis
    using assms got [of "s\<lparr> ds_owners := c \<rparr>" for c] got [of "report h (s\<lparr> ds_owners := c \<rparr>)" for h c]
    by (auto simp: import_file_def Inr y Let_def fresh_version_def split: option.split sum.split prod.split)
qed

lemma wf_sync_one:
  assumes "wf_drive s" "fresh_version env (df_file_id item) s"
  shows "wf_drive (snd (sync_one env dry item t fo s))"
  using assms wf_import [OF assms]
  by (simp add: sync_one_def Let_def wf_unchanged split: option.split)

definition version_ids :: "drive_state \<Rightarrow> uuid set" where
  "version_ids s = dv_version_id ` set (ds_versions s)"

lemma version_ids_simps [simp]:
  "version_ids (report h s) = version_ids s" "version_ids (record_row env item st t fo dc r s) = version_ids s"
  "version_ids (drive_audit env i ev det s) = version_ids s" "version_ids (on_world g s) = version_ids s"
  "version_ids (s\<lparr> ds_owners := c \<rparr>) = version_ids s" "version_ids (s\<lparr> ds_world := w \<rparr>) = version_ids s"
  by (simp_all add: version_ids_def)

lemma version_ids_set [simp]:
  assumes "\<And>x. dv_version_id (h x) = dv_version_id x"
  shows "version_ids (set_version i h s) = version_ids s"
proof -
  have "map dv_version_id (update_where (\<lambda>v. dv_version_id v = i) h (ds_versions s)) = map dv_version_id (ds_versions s)"
    by (simp add: map_update_where assms)
  then show ?thesis unfolding version_ids_def set_version_def by (simp flip: set_map)
qed

lemma version_ids_unchanged [simp]: "version_ids (unchanged_content env dry row item t fo s) = version_ids s"
proof -
  have "version_ids (foldl (reclassify_one env row t) s is) = version_ids s" for s "is"
  proof (induction "is" arbitrary: s)
    case (Cons i "is")
    have "version_ids (reclassify_one env row t s i) = version_ids s" by (simp add: reclassify_one_def split: option.split)
    then show ?case using Cons by simp
  qed simp
  moreover have "version_ids (restore_file env row s) = version_ids s" for s
    by (simp add: restore_file_def Let_def case_prod_unfold split: option.split list.split)
  ultimately show ?thesis by (simp add: unchanged_content_def Let_def reclassify_file_def)
qed

lemma sync_one_versions:
  "version_ids (snd (sync_one env dry item t fo s)) \<subseteq> insert (sy_version_id env (df_file_id item)) (version_ids s)"
proof -
  have skip: "version_ids (skip_file env d item t fo r s') = version_ids s'" for d r s' by (simp add: skip_file_def Let_def)
  have noted: "version_ids (note_import env item t fo ed dc s') = insert (sy_version_id env (df_file_id item)) (version_ids s')" for ed dc s'
    by (simp add: note_import_def Let_def version_ids_def new_version_def)
  have imp: "version_ids (snd (import_file env ex ed item t fo s)) \<subseteq> insert (sy_version_id env (df_file_id item)) (version_ids s)" for ex ed
    by (auto simp: import_file_def Let_def skip noted split: sum.split prod.split option.split)
  show ?thesis using imp by (simp add: sync_one_def Let_def skip subset_insertI split: option.split)
qed

lemma wf_sync_items:
  assumes "wf_drive s" "inj (sy_version_id env)" "distinct (map (\<lambda>x. df_file_id (fst x)) items)"
    and "\<forall>x\<in>set items. fresh_version env (df_file_id (fst x)) s"
  shows "wf_drive (snd (sync_items env dry items s))"
  using assms(1,3,4)
proof (induction items arbitrary: s)
  case (Cons x rest)
  obtain item t fo where x: "x = (item, t, fo)" by (cases x)
  obtain e s1 where one: "sync_one env dry item t fo s = (e, s1)" by fastforce
  have wf1: "wf_drive s1" using wf_sync_one [of s env item dry t fo] Cons.prems by (simp add: one x)
  have ids: "version_ids s1 \<subseteq> insert (sy_version_id env (df_file_id item)) (version_ids s)"
    using sync_one_versions [of env dry item t fo s] by (simp add: one)
  have later: "\<forall>y\<in>set rest. fresh_version env (df_file_id (fst y)) s1"
  proof
    fix y assume y: "y \<in> set rest"
    then have "df_file_id (fst y) \<noteq> df_file_id item" using Cons.prems(2) by (auto simp: x image_iff)
    then have "sy_version_id env (df_file_id (fst y)) \<noteq> sy_version_id env (df_file_id item)" using assms(2) by (auto dest: injD)
    then show "fresh_version env (df_file_id (fst y)) s1"
      using y ids Cons.prems(3) by (auto simp: fresh_version_def version_ids_def)
  qed
  have "wf_drive (snd (sync_items env dry rest s2))" if "wf_drive s2" "version_ids s2 = version_ids s1" for s2
    by (rule Cons.IH [OF that(1)]) (use Cons.prems(2) later that(2) in \<open>auto simp: fresh_version_def version_ids_def\<close>)
  then show ?case using wf1
    by (auto simp: x one Let_def split: option.split sync_exn.split drive_error.split)
qed simp

lemma watched_ids:
  assumes "list_watched_files client tiers = Inr found"
  shows "distinct (map (\<lambda>x. df_file_id (fst x)) (map snd found))"
proof -
  let ?occ = "occurrences client tiers"
  have found: "found = foldl add_occurrence [] ?occ" using listed assms by (simp add: list_watched_files_def)
  have "\<forall>(t, fo, it)\<in>set ?occ. df_mime_type it \<noteq> FOLDER_MIME" using occurrence_iff [of _ _ _ client tiers] by auto
  note all = add_occurrences [OF this, folded found]
  have "df_file_id (fst (snd x)) = fst x" if "x \<in> set found" for x
  proof -
    obtain i it t fo where x: "x = (i, it, t, fo)" by (cases x)
    have "map_of found i = Some (it, t, fo)" using that [unfolded x] by (rule map_of_is_SomeI [OF all [THEN conjunct1]])
    then have "df_file_id it = i" using all [of i, THEN conjunct2] by (simp only: option.case prod.case)
    then show ?thesis by (simp add: x)
  qed
  then have "map (\<lambda>x. df_file_id (fst x)) (map snd found) = map fst found" by (simp add: comp_def)
  then show ?thesis using all [THEN conjunct1] by (simp only:)
qed

lemma first_items_distinct:
  "distinct (map h xs) \<Longrightarrow> distinct (map h (first_items limit (sort_key k xs)))"
proof -
  assume d: "distinct (map h xs)"
  then have s: "distinct (map h (sort_key k xs))" by (simp add: distinct_map)
  have "distinct (map h (take n ys))" if "distinct (map h ys)" for n ys using that by (simp add: take_map [symmetric])
  then show ?thesis using s by (auto simp: first_items_def split: option.split)
qed

lemma foldl_keeps: "(\<And>s x. Q s \<Longrightarrow> Q (f s x)) \<Longrightarrow> Q s \<Longrightarrow> Q (foldl f s xs)"
  by (induction xs arbitrary: s) simp_all

lemma wf_retire_row: "wf_drive s \<Longrightarrow> wf_drive (retire_row env dry s row)"
proof -
  assume wf: "wf_drive s"
  have one: "wf_drive (retire_doc env row s i)" if wf: "wf_drive s" for s i
  proof -
    have "wf_drive (on_world (\<lambda>w. w\<lparr> documents := snd (pg_soft_delete t i (documents (ds_world s))) \<rparr>) s)" for t
      by (rule wf_docs_step [OF wf]) (use wf in \<open>simp_all add: postgres_soft_delete_keeps wf_drive_def\<close>)
    then show ?thesis by (simp add: retire_doc_def Let_def case_prod_unfold)
  qed
  let ?h = "\<lambda>v. v\<lparr> dv_state := V_REMOVED, dv_settled_at := Some (sy_now env) \<rparr>"
  let ?k = "\<lambda>r. r\<lparr> dr_state := FILE_REMOVED, dr_skip_reason := Some ''no longer in a watched Drive folder'' \<rparr>"
  have "wf_drive (s\<lparr> ds_versions := update_where P ?h (ds_versions s), ds_rows := update_where Q ?k (ds_rows s) \<rparr>)"
    if "wf_drive s" for s P Q
    using wf_row_update [OF wf_set_version [OF that, of ?h P], of ?k Q] by simp
  moreover have "wf_drive (foldl (retire_doc env row) s' xs)" if "wf_drive s'" for s' xs
    using that by (rule foldl_keeps [where Q = wf_drive, rotated]) (rule one)
  ultimately show ?thesis using wf by (simp add: retire_row_def Let_def)
qed

lemma wf_retire_vanished: "wf_drive s \<Longrightarrow> wf_drive (retire_vanished env dry partial found s)"
  unfolding retire_vanished_def by (auto intro: foldl_keeps wf_retire_row)

lemma wf_reconcile_file:
  assumes wf: "wf_drive s" and ne: "f \<in> dv_file_id ` set (ds_versions s)"
  shows "\<exists>s'. reconcile_file env False f s = (None, s') \<and> wf_drive s'
    \<and> dv_file_id ` set (ds_versions s') = dv_file_id ` set (ds_versions s)"
proof -
  obtain x where "x \<in> set (ds_versions s)" "dv_file_id x = f" using ne by auto
  then have "versions_by_import f s \<noteq> []" using file_version_mem [of x f s] by auto
  then obtain olds v where vs: "versions_by_import f s = olds @ [v]" by (metis append_butlast_last_id)
  let ?h1 = "\<lambda>x. if dv_file_id x = f then settled_version env (ds_world s) x else x"
  have wv: "wf_versions (ds_versions s)" using wf by (simp add: wf_drive_def)
  show ?thesis
  proof (cases "dv_state v = V_PENDING \<and> doc_is_live (dv_document_id v) (ds_world s)")
    case False
    obtain s' where s': "reconcile_file env False f s = (None, s')" "ds_world s' = ds_world s" "ds_rows s' = ds_rows s"
      "ds_versions s' = map ?h1 (ds_versions s)" using reconcile_waits [OF wf vs False, of env] by blast
    have "wf_drive s'"
      by (rule wf_drive_step [OF wf _ _ _ _ s'(4)])
         (use s' wf in \<open>auto simp: wf_drive_def doc_ids_def row_ids_def settled_current split: if_splits\<close>)
    moreover have "map dv_file_id (ds_versions s') = map dv_file_id (ds_versions s)" by (simp add: s'(4))
    then have "dv_file_id ` set (ds_versions s') = dv_file_id ` set (ds_versions s)" by (metis list.set_map)
    ultimately show ?thesis using s'(1) by blast
  next
    case True
    obtain s' where s': "reconcile_file env False f s = (None, s')" "wf_docs (documents (ds_world s'))"
      "map doc_id (documents (ds_world s')) = map doc_id (documents (ds_world s))" "ds_rows s' = ds_rows s"
      "ds_versions s' = become_current env (dv_version_id v)
         (mark_superseded env (map (settled_version env (ds_world s)) olds) (map ?h1 (ds_versions s)))"
      using reconcile_live [OF wf vs, of env] True by blast
    have keys: "map dv_version_id (ds_versions s') = map dv_version_id (ds_versions s)"
      "map dv_document_id (ds_versions s') = map dv_document_id (ds_versions s)"
      "map dv_file_id (ds_versions s') = map dv_file_id (ds_versions s)"
      by (simp_all add: s'(5) become_current_def mark_superseded_def map_update_where comp_def if_distrib cong: if_cong)
    have cur: "x = y" if "x \<in> set (ds_versions s')" "y \<in> set (ds_versions s')" "dv_state x = V_CURRENT" "dv_state y = V_CURRENT"
        "dv_file_id x = dv_file_id y" for x y
    proof -
      note xy = that
      obtain a b where ab: "a \<in> set (ds_versions s)" "b \<in> set (ds_versions s)"
        "dv_version_id x = dv_version_id a" "dv_version_id y = dv_version_id b"
        "dv_file_id x = dv_file_id a" "dv_file_id y = dv_file_id b"
        "if dv_file_id a \<noteq> f then x = a else if a = v then dv_state x = V_CURRENT else \<not> visible_state x"
        "if dv_file_id b \<noteq> f then y = b else if b = v then dv_state y = V_CURRENT else \<not> visible_state y"
        using taken_over_states [OF wf vs, of x env] taken_over_states [OF wf vs, of y env] xy(1,2) unfolding s'(5) by blast
      have "dv_version_id x = dv_version_id y"
      proof (cases "dv_file_id a = f")
        case True
        then have "a = v" "b = v" using ab(5-8) xy(3-5) by (auto simp: visible_state_def split: if_splits)
        then show ?thesis using ab(3,4) by simp
      next
        case False
        then have "x = a" "y = b" using ab(5-8) xy(5) by (auto split: if_splits)
        then show ?thesis using xy wv ab(1,2) by (auto simp: wf_versions_def)
      qed
      then show "x = y" using distinct_key_unique [of dv_version_id "ds_versions s'", OF _ xy(1,2)] keys(1) wv by (simp add: wf_versions_def)
    qed
    have "wf_versions (ds_versions s')" using wv cur keys unfolding wf_versions_def by simp
    moreover have "dv_document_id ` set (ds_versions s') = dv_document_id ` set (ds_versions s)"
      "dv_file_id ` set (ds_versions s') = dv_file_id ` set (ds_versions s)"
      "doc_id ` set (documents (ds_world s')) = doc_id ` set (documents (ds_world s))"
      using keys s'(3) by (metis list.set_map)+
    ultimately have "wf_drive s'" using wf s'(2,4) by (simp add: wf_drive_def)
    then show ?thesis using s'(1) \<open>dv_file_id ` set (ds_versions s') = _\<close> by blast
  qed
qed

lemma wf_reconcile:
  assumes "wf_drive s"
  shows "\<exists>s'. reconcile env False s = (None, s') \<and> wf_drive s'"
proof -
  have "\<exists>s'. reconcile_files env False fs s = (None, s') \<and> wf_drive s'"
    if "wf_drive s" "set fs \<subseteq> dv_file_id ` set (ds_versions s)" for fs s
    using that
  proof (induction fs arbitrary: s)
    case (Cons f fs)
    obtain s1 where s1: "reconcile_file env False f s = (None, s1)" "wf_drive s1"
        "dv_file_id ` set (ds_versions s1) = dv_file_id ` set (ds_versions s)"
      using wf_reconcile_file [OF Cons.prems(1), of f env] Cons.prems(2) by auto
    then show ?case using Cons.IH [of s1] Cons.prems(2) by simp
  qed simp
  moreover have "set (remdups (map dv_file_id (filter (\<lambda>v. dv_state v = V_PENDING) (ds_versions s))))
      \<subseteq> dv_file_id ` set (ds_versions s)" by auto
  ultimately show ?thesis using assms unfolding reconcile_def by blast
qed

lemma wf_untouched: "wf_drive s \<Longrightarrow> untouched s s' \<Longrightarrow> wf_drive s'"
  by (simp add: wf_drive_def untouched_def)

lemma sync_items_stop: "fst (sync_items env dry items s) = Some x \<Longrightarrow> \<exists>y. x = SyncError y"
proof (induction items arbitrary: s)
  case (Cons a rest)
  obtain item t fo where a: "a = (item, t, fo)" by (cases a)
  obtain e s1 where one: "sync_one env dry item t fo s = (e, s1)" by fastforce
  show ?case using Cons by (auto simp: a one Let_def split: option.splits sync_exn.splits drive_error.splits)
qed simp

lemma sync_items_stop_pair: "sync_items env dry items s = (Some x, s') \<Longrightarrow> \<exists>y. x = SyncError y"
  using sync_items_stop [of env dry items s x] by simp

lemma dry_reconcile_runs: "fst (reconcile env True s) = None"
proof -
  have older: "fst (retire_older env True f name i vs s) = None" for f name i vs s
    by (induction vs arbitrary: s) (simp_all add: Let_def)
  have one: "fst (reconcile_file env True f s) = None" for f s
    using reconcile_file_cases [OF refl refl, of f env True s] older by (metis fst_conv)
  have "fst (reconcile_files env True fs s) = None" for fs s
  proof (induction fs arbitrary: s)
    case (Cons f fs)
    obtain e s1 where "reconcile_file env True f s = (e, s1)" by fastforce
    then show ?case using Cons one [of f s] by simp
  qed simp
  then show ?thesis by (simp add: reconcile_def)
qed

lemma dry_reconcile_pair [simp]: "reconcile env True s \<noteq> (Some x, s')"
  using dry_reconcile_runs [of env s] by auto


section \<open>Witnesses\<close>

definition sample_item :: drive_file where
  "sample_item = \<lparr> df_file_id = ''f'', df_name = ''n.pdf'', df_mime_type = PDF_MIME, df_modified_time = ''m2'', df_size = Some 14,
     df_owner_email = None, df_md5 = None \<rparr>"

definition sample_client :: drive_client where
  "sample_client = \<lparr> dc_subfolders = (\<lambda>f. Inr []), dc_children = (\<lambda>f. Inr (if f = ''P'' then [sample_item] else [])),
     dc_download = (\<lambda>i. Inr ''%PDF-1.7 %%EOF''), dc_export = (\<lambda>i m. Inl ''403'') \<rparr>"

definition sample_sync :: sync_env where
  "sample_sync =
     \<lparr> sy_client = sample_client, public_folder_id = ''P'', restricted_folder_id = ''R'', fallback_owner_email = ''root@apag.org'',
       sy_max_bytes = 1000, sy_users = [sample_admin\<lparr> u_email := ''root@apag.org'' \<rparr>], sy_toolkit = sample_toolkit, sy_now = 9,
       sy_upload = (\<lambda>i. \<lparr> up_document_id = CHR ''d'' # i, up_correlation_id = ''k'', up_job_id = CHR ''j'' # i, up_now = 9,
         put_fails = False, audit_fails = False \<rparr>),
       sy_version_id = (\<lambda>i. CHR ''v'' # i), sy_audit_fails = False, sy_locked = False \<rparr>"

definition live_document :: "uuid \<Rightarrow> string \<Rightarrow> document" where
  "live_document i h = (new_document i ''n.pdf'' 14 0)\<lparr> status := LIVE, checksum := Some h, classification := Some PUBLIC \<rparr>"

definition sample_version :: "uuid \<Rightarrow> uuid \<Rightarrow> VersionState \<Rightarrow> time \<Rightarrow> drive_version" where
  "sample_version i dc st t =
     \<lparr> dv_version_id = i, dv_file_id = ''f'', dv_document_id = dc, dv_modified_time = None, dv_md5 = None, dv_state = st,
       dv_note = None, dv_imported_at = t, dv_settled_at = None \<rparr>"

text \<open>A file edited once: the first version is current, the second has just become live.\<close>

definition edited_file :: drive_state where
  "edited_file =
     \<lparr> ds_world = empty_world\<lparr> documents := [live_document ''a'' ''h1'', live_document ''c'' ''h2''] \<rparr>,
       ds_rows = [(blank_row ''f'')\<lparr> dr_document_id := Some ''c'', dr_modified_time := Some ''m2'', dr_classification := Some PUBLIC \<rparr>],
       ds_versions = [sample_version ''1'' ''a'' V_CURRENT 1, sample_version ''2'' ''c'' V_PENDING 2],
       ds_owners = [], ds_outcome = new_outcome \<rparr>"

lemma edited_file_facts:
  "wf_drive edited_file"
  "versions_by_import ''f'' edited_file = [sample_version ''1'' ''a'' V_CURRENT 1] @ [sample_version ''2'' ''c'' V_PENDING 2]"
  "find_doc ''a'' (documents (ds_world edited_file)) = Some (live_document ''a'' ''h1'')"
  "find_doc ''c'' (documents (ds_world edited_file)) = Some (live_document ''c'' ''h2'')"
  "fresh_version sample_sync i edited_file" "inj (sy_version_id sample_sync)"
  by (auto simp: edited_file_def wf_drive_def wf_docs_def wf_versions_def active_checksum_def active_status_def live_document_def
      new_document_def empty_world_def sample_version_def versions_by_import_def file_versions_def find_doc_def blank_row_def
      fresh_version_def sample_sync_def inj_def)

theorem newest_live_version_takes_over_witness:
  "\<exists>s' u t. reconcile_file sample_sync False ''f'' edited_file = (None, s')
     \<and> find_doc ''a'' (documents (ds_world s'))
         = Some ((live_document ''a'' ''h1'')\<lparr> status := SUPERSEDED, updated_at := u, deleted_at := t \<rparr>) \<and> t \<noteq> None"
proof -
  have "dv_state (sample_version ''2'' ''c'' V_PENDING 2) = V_PENDING"
    "find_doc (dv_document_id (sample_version ''2'' ''c'' V_PENDING 2)) (documents (ds_world edited_file)) = Some (live_document ''c'' ''h2'')"
    "status (live_document ''c'' ''h2'') = LIVE"
    using edited_file_facts by (simp_all add: sample_version_def live_document_def new_document_def)
  from newest_live_version_takes_over [OF edited_file_facts(1,2) this, of sample_sync]
  have "\<exists>s'. reconcile_file sample_sync False ''f'' edited_file = (None, s')
    \<and> (\<forall>x\<in>set [sample_version ''1'' ''a'' V_CURRENT 1]. \<forall>r. dv_state x = V_CURRENT
        \<and> find_doc (dv_document_id x) (documents (ds_world edited_file)) = Some r \<and> purged_at r = None \<longrightarrow>
          (\<exists>u t. t \<noteq> None \<and> find_doc (dv_document_id x) (documents (ds_world s'))
             = Some (r\<lparr> status := SUPERSEDED, updated_at := u, deleted_at := t \<rparr>)))" by blast
  moreover have "purged_at (live_document ''a'' ''h1'') = None" by (simp add: live_document_def new_document_def)
  ultimately show ?thesis using edited_file_facts(3) by (auto simp: sample_version_def)
qed

theorem reconciling_keeps_a_file_findable_witness:
  "\<exists>s'. reconcile_file sample_sync False ''f'' edited_file = (None, s') \<and> shown ''f'' s'"
proof (rule reconciling_keeps_a_file_findable [OF edited_file_facts(1)])
  show "shown ''f'' edited_file"
    using edited_file_facts(3) by (simp add: shown_def searchable_def visible_state_def)
      (simp add: edited_file_def sample_version_def live_document_def new_document_def)
next
  fix d v
  assume v: "v = last (versions_by_import ''f'' edited_file)"
    and d: "find_doc (dv_document_id v) (documents (ds_world edited_file)) = Some d"
  have "dv_document_id v = ''c''" using v edited_file_facts(2) by (simp add: sample_version_def)
  then have "d = live_document ''c'' ''h2''" using d edited_file_facts(4) by simp
  then show "deleted_at d = None \<and> purged_at d = None" by (simp add: live_document_def new_document_def)
qed


end
