(* ===== verification/DriveFiles.thy ===== *)
theory DriveFiles
  imports DrivePass
begin

text \<open>One Drive file over time: looking again, editing, moving, removing and putting back, and the histories in which the
connector does not do what it is described to do.\<close>

section \<open>Looking again\<close>

lemma row_after [simp]:
  "find_row (df_file_id item) (ds_rows (record_row env item st t fo dc r s))
     = Some (written_row env item st t fo dc r
         (case find_row (df_file_id item) (ds_rows s) of None \<Rightarrow> blank_row (df_file_id item) | Some x \<Rightarrow> x))"
proof (cases "find_row (df_file_id item) (ds_rows s)")
  case None
  then show ?thesis by (simp add: record_row_def find_row_def find_append written_row_def blank_row_def)
next
  case (Some x)
  then have x: "x \<in> set (ds_rows s)" "dr_file_id x = df_file_id item" by (auto simp: find_row_def dest: find_Some_mem)
  let ?w = "written_row env item st t fo dc r x"
  have id: "dr_file_id ?w = df_file_id item" by (simp add: written_row_def x(2))
  have "dr_file_id ?w \<in> dr_file_id ` set (ds_rows s)" using x id by (metis imageI)
  then show ?thesis using find_replace_same [of dr_file_id ?w "ds_rows s"] Some id
    by (simp add: record_row_def find_row_def)
qed

lemma written_unchanged: "\<not> content_changed (written_row env item st t fo dc r x) item"
  by (auto simp: content_changed_def written_row_def split: option.split list.split)

lemma written_fields [simp]:
  "dr_state (written_row env item st t fo dc r x) = st" "dr_classification (written_row env item st t fo dc r x) = t"
  "dr_document_id (written_row env item st t fo dc r x) = (case dc of None \<Rightarrow> dr_document_id x | Some i \<Rightarrow> Some i)"
  "dr_file_id (written_row env item st t fo dc r x) = dr_file_id x"
  by (simp_all add: written_row_def)

text \<open>Once a file is recorded as imported at its tier, looking again changes its bookkeeping only.\<close>

lemma imported_is_left_alone:
  assumes "find_row (df_file_id item) (ds_rows s) = Some row" "dr_document_id row \<noteq> None" "dr_state row = FILE_IMPORTED"
    and "dr_classification row = Some tier" "\<not> content_changed row item"
  shows "\<exists>s2. sync_one env False item tier fo s = (None, s2) \<and> ds_world s2 = ds_world s \<and> ds_versions s2 = ds_versions s"
  using assms by (simp add: sync_one_def unchanged_content_def Let_def)

definition keeps_sources :: "sync_env \<Rightarrow> sync_env \<Rightarrow> bool" where
  "keeps_sources env env2 =
     (sy_client env2 = sy_client env \<and> sy_toolkit env2 = sy_toolkit env \<and> sy_max_bytes env2 = sy_max_bytes env)"

lemma restored_row [simp]: "ds_rows (restore_file env row s) = ds_rows s"
  by (simp add: restore_file_def Let_def case_prod_unfold split: option.split list.split)

lemma reclassified_row [simp]: "ds_rows (reclassify_file env row t s) = ds_rows s"
proof -
  have "ds_rows (foldl (reclassify_one env row t) s is) = ds_rows s" for s "is"
    by (induction "is" arbitrary: s) (simp_all add: reclassify_one_def split: option.split)
  then show ?thesis by (simp add: reclassify_file_def)
qed

definition unreadable :: "drive_client \<Rightarrow> toolkit \<Rightarrow> drive_file \<Rightarrow> bool" where
  "unreadable client tk item =
     (\<exists>data name. fetch_bytes client item = Inr (data, name) \<and> (data = [] \<or> detect_format tk data = None))"

lemma import_unreadable:
  assumes "unreadable (sy_client env) (sy_toolkit env) item"
  shows "\<exists>r. import_file env row ed item tier fo s = (None, skip_file env False item tier fo r s)"
proof -
  obtain data name where "fetch_bytes (sy_client env) item = Inr (data, name)" "data = [] \<or> detect_format (sy_toolkit env) data = None"
    using assms by (auto simp: unreadable_def)
  then show ?thesis by (cases "data = []") (auto simp: import_file_def)
qed

text \<open>Looking again changes nothing. If a pass dealt with a file without an error, then the next pass over the same
file, with Drive as it was, imports nothing, downloads nothing into the pipeline and leaves documents, jobs, objects,
audit log and versions exactly as they are, however much time has passed.\<close>

theorem looking_again_changes_nothing:
  assumes "sync_one env False item tier fo s = (None, s1)" "keeps_sources env env2"
  shows "\<exists>s2. sync_one env2 False item tier fo s1 = (None, s2) \<and> ds_world s2 = ds_world s1 \<and> ds_versions s2 = ds_versions s1"
proof -
  note src = assms(2) [unfolded keeps_sources_def]
  have skipped: ?thesis
    if s1: "s1 = skip_file env False item tier fo reason s"
      and again: "\<And>s e. find_row (df_file_id item) (ds_rows s) = Some e \<Longrightarrow> dr_state e = FILE_SKIPPED \<Longrightarrow>
                   \<exists>r. sync_one env2 False item tier fo s = (None, skip_file env2 False item tier fo r s)" for reason
  proof -
    have row: "\<exists>e. find_row (df_file_id item) (ds_rows s1) = Some e \<and> dr_state e = FILE_SKIPPED"
      by (simp add: s1 skip_file_def Let_def)
    then obtain r where "sync_one env2 False item tier fo s1 = (None, skip_file env2 False item tier fo r s1)"
      using again by blast
    then show ?thesis by (simp add: skip_file_def Let_def)
  qed
  show ?thesis
  proof (cases "\<exists>row. find_row (df_file_id item) (ds_rows s) = Some row \<and> dr_document_id row \<noteq> None
      \<and> dr_state row \<in> {FILE_IMPORTED, FILE_REMOVED} \<and> \<not> content_changed row item")
    case True
    then obtain row where row: "find_row (df_file_id item) (ds_rows s) = Some row" "dr_document_id row \<noteq> None"
        "dr_state row \<in> {FILE_IMPORTED, FILE_REMOVED} \<and> \<not> content_changed row item" by blast
    then have s1: "s1 = unchanged_content env False row item tier fo s" using assms(1) by (simp add: sync_one_def Let_def)
    have "\<exists>e. find_row (df_file_id item) (ds_rows s1)
        = Some (written_row env item FILE_IMPORTED (Some tier) (Some fo) None None e) \<and> dr_document_id e \<noteq> None"
      by (rule exI [of _ row]) (use row(1,2) in \<open>simp add: s1 unchanged_content_def Let_def\<close>)
    then show ?thesis using written_unchanged by (elim exE conjE) (rule imported_is_left_alone, assumption, simp_all)
  next
    case fresh: False
    show ?thesis
    proof (cases "unexportable_reason (df_mime_type item)")
      case (Some reason)
      then have "s1 = skip_file env False item tier fo reason s" using assms(1) fresh
        by (auto simp: sync_one_def Let_def split: option.splits if_splits)
      then show ?thesis by (rule skipped) (auto simp: sync_one_def Let_def Some)
    next
      case exportable: None
      show ?thesis
      proof (cases "case df_size item of None \<Rightarrow> False | Some n \<Rightarrow> sy_max_bytes env < n")
        case True
        then have "\<exists>r. s1 = skip_file env False item tier fo r s" using assms(1) fresh exportable
          by (auto simp: sync_one_def Let_def split: option.splits if_splits)
        then obtain r where "s1 = skip_file env False item tier fo r s" by blast
        then show ?thesis by (rule skipped) (use True exportable src in \<open>auto simp: sync_one_def Let_def split: option.splits\<close>)
      next
        case small: False
        then have imp: "import_file env (find_row (df_file_id item) (ds_rows s)) (is_edit (find_row (df_file_id item) (ds_rows s)))
            item tier fo s = (None, s1)"
          using assms(1) fresh exportable by (auto simp: sync_one_def Let_def split: option.splits if_splits)
        have small2: "\<not> (case df_size item of None \<Rightarrow> False | Some n \<Rightarrow> sy_max_bytes env2 < n)"
          using small src by (simp split: option.splits)
        show ?thesis
        proof (cases "unreadable (sy_client env) (sy_toolkit env) item")
          case unread: True
          then obtain r where "s1 = skip_file env False item tier fo r s"
            using import_unreadable [of env item] imp by (metis prod.inject)
          then show ?thesis
            by (rule skipped)
               (use unread exportable small2 src import_unreadable [of env2 item] in \<open>auto simp: sync_one_def Let_def\<close>)
        next
          case False
          then have "\<exists>s0 ed i. s1 = note_import env item tier fo ed i s0"
            using imp by (auto simp: import_file_def unreadable_def Let_def split: sum.splits option.splits if_splits prod.splits)
          then obtain s0 ed i where s1: "s1 = note_import env item tier fo ed i s0" by blast
          have "\<exists>e. find_row (df_file_id item) (ds_rows s1)
              = Some (written_row env item FILE_IMPORTED (Some tier) (Some fo) (Some i) None e)"
            by (simp add: s1 note_import_def Let_def) (rule exI, rule refl)
          then show ?thesis using written_unchanged by (elim exE) (rule imported_is_left_alone, assumption, simp_all)
        qed
      qed
    qed
  qed
qed

definition unseen_file :: drive_state where
  "unseen_file = edited_file\<lparr> ds_rows := [], ds_versions := [] \<rparr>"

theorem looking_again_changes_nothing_witness:
  "\<exists>s1 s2. sync_one sample_sync False sample_item PUBLIC ''P'' unseen_file = (None, s1)
     \<and> sync_one (sample_sync\<lparr> sy_now := 99 \<rparr>) False sample_item PUBLIC ''P'' s1 = (None, s2) \<and> ds_world s2 = ds_world s1"
proof -
  have "fst (sync_one sample_sync False sample_item PUBLIC ''P'' unseen_file) = None" by code_simp
  then obtain s1 where s1: "sync_one sample_sync False sample_item PUBLIC ''P'' unseen_file = (None, s1)"
    by (metis prod.collapse)
  show ?thesis
    using looking_again_changes_nothing [OF s1, of "sample_sync\<lparr> sy_now := 99 \<rparr>"] s1 by (auto simp: keeps_sources_def)
qed


section \<open>The tier of what is imported\<close>

text \<open>The tier an import gets: the folder's, unless the row is still \<open>imported\<close> from a folder of that tier and its
document was made \<open>RESTRICTED\<close> since.\<close>

definition expected_tier :: "drive_row option \<Rightarrow> Classification \<Rightarrow> document list \<Rightarrow> Classification" where
  "expected_tier existing tier docs =
     (case existing of None \<Rightarrow> tier
      | Some row \<Rightarrow>
          if dr_state row = FILE_IMPORTED \<and> dr_classification row = Some tier
             \<and> (case dr_document_id row of None \<Rightarrow> False
                | Some i \<Rightarrow> (case find_doc i docs of None \<Rightarrow> False | Some p \<Rightarrow> classification p = Some RESTRICTED))
          then RESTRICTED else tier)"

lemma import_tier_expected:
  "(case existing of Some row \<Rightarrow> if is_edit existing then inherited_tier row tier docs else tier | None \<Rightarrow> tier)
     = expected_tier existing tier docs"
proof (cases existing)
  case (Some row)
  show ?thesis
    by (cases tier; cases "dr_document_id row")
       (auto simp: Some is_edit_def inherited_tier_def expected_tier_def is_stricter_def pg_get_by_id_def tier_rank_def
         split: option.splits Classification.splits)
qed (simp add: expected_tier_def)

lemma imported_document:
  assumes "import_file env existing (is_edit existing) item tier fo s = (None, s1)" "ds_versions s1 \<noteq> ds_versions s"
  shows "\<exists>d. documents (ds_world s1) = documents (ds_world s) @ [d] \<and> doc_id d \<notin> doc_id ` set (documents (ds_world s))
    \<and> ds_versions s1 = ds_versions s @ [new_version env item (doc_id d)]
    \<and> classification d = Some (expected_tier existing tier (documents (ds_world s)))"
proof -
  have other: "ds_versions (skip_file env False item tier fo r s) = ds_versions s" for r by (simp add: skip_file_def Let_def)
  then have "\<not> unreadable (sy_client env) (sy_toolkit env) item"
    using assms import_unreadable [of env item existing "is_edit existing" tier fo s] by auto
  then obtain data name spec where f: "fetch_bytes (sy_client env) item = Inr (data, name)" "data \<noteq> []"
      "detect_format (sy_toolkit env) data = Some spec"
    using assms(1) by (cases "fetch_bytes (sy_client env) item") (auto simp: unreadable_def import_file_def)
  obtain owner fb cache where o1: "resolve_owner env (df_owner_email item) (ds_owners s) = (Inr (owner, fb), cache)"
    using assms(1) f by (auto simp: import_file_def split: prod.splits sum.splits)
  obtain r w where r: "receive (sy_upload env (df_file_id item)) name data
      (sync_request (expected_tier existing tier (documents (ds_world s))) owner) (spec_mime spec) (ds_world s) = (r, w)"
    by fastforce
  have run: "(case r of Inl e \<Rightarrow> (Some (OtherError e), s2\<lparr> ds_world := w \<rparr>)
      | Inr rc \<Rightarrow> (None, note_import env item tier fo (is_edit existing) (resp_document_id rc) (s2\<lparr> ds_world := w \<rparr>))) = (None, s1)
    \<Longrightarrow> ds_versions s2 = ds_versions s \<Longrightarrow> ?thesis" for s2
    using received [OF r] by (cases r) (auto simp: note_import_def Let_def sync_request_def)
  show ?thesis
    by (rule run [of "if fb then report (\<lambda>out. out\<lparr> o_owner_fallbacks := o_owner_fallbacks out
              @ [(df_name item, case df_owner_email item of None \<Rightarrow> ''unknown'' | Some [] \<Rightarrow> ''unknown'' | Some e \<Rightarrow> e)] \<rparr>)
            (s\<lparr> ds_owners := cache \<rparr>) else s\<lparr> ds_owners := cache \<rparr>"])
       (use assms(1) f o1 r in \<open>cases fb; simp add: import_file_def import_tier_expected Let_def split: sum.splits\<close>)+
qed

lemma unchanged_length: "length (ds_versions (unchanged_content env dry row item t fo s)) = length (ds_versions s)"
proof -
  have "ds_versions (reclassify_one env row t s i) = ds_versions s" for s i by (simp add: reclassify_one_def split: option.split)
  then have "ds_versions (reclassify_file env row t s) = ds_versions s" for s
    unfolding reclassify_file_def by (intro foldl_keeps [where Q = "\<lambda>x. ds_versions x = ds_versions s"]) simp_all
  moreover have "length (ds_versions (set_version i h s)) = length (ds_versions s)" for i h s by (simp add: set_version_def)
  then have "length (ds_versions (restore_file env row s)) = length (ds_versions s)" for s
    by (simp add: restore_file_def Let_def case_prod_unfold split: option.split list.split)
  ultimately show ?thesis by (simp add: unchanged_content_def Let_def)
qed

text \<open>C32: The folder sets the tier of what is imported, and an edit never lowers it. A pass that imports a file adds one
pending version and one document, at the folder's tier; except when the file's previous document was made
\<open>RESTRICTED\<close> by hand since: then the new one is \<open>RESTRICTED\<close> too, provided the row still says \<open>imported\<close>. After an
attempt that failed or was skipped it does not, and the retry imports at the folder's tier whatever was decided.\<close>

theorem edit_keeps_the_stricter_tier:
  assumes "sync_one env False item tier fo s = (None, s1)" "length (ds_versions s1) \<noteq> length (ds_versions s)"
  shows "\<exists>d. documents (ds_world s1) = documents (ds_world s) @ [d] \<and> doc_id d \<notin> doc_id ` set (documents (ds_world s))
    \<and> ds_versions s1 = ds_versions s @ [new_version env item (doc_id d)]
    \<and> classification d = Some (expected_tier (find_row (df_file_id item) (ds_rows s)) tier (documents (ds_world s)))"
proof -
  have "ds_versions (skip_file env False item tier fo r s) = ds_versions s" for r by (simp add: skip_file_def Let_def)
  then have "import_file env (find_row (df_file_id item) (ds_rows s)) (is_edit (find_row (df_file_id item) (ds_rows s)))
      item tier fo s = (None, s1)"
    using assms unchanged_length by (auto simp: sync_one_def Let_def split: option.splits if_splits)
  from imported_document [OF this] show ?thesis using assms(2) by metis
qed

text \<open>A document raised to \<open>RESTRICTED\<close> by hand while its file stayed in the public folder, and then edited: imported at once,
or after a failed attempt.\<close>

definition raised_file :: "DriveFileState \<Rightarrow> drive_state" where
  "raised_file st = edited_file
     \<lparr> ds_world := empty_world\<lparr> documents := [(live_document ''c'' ''h2'')\<lparr> classification := Some RESTRICTED \<rparr>] \<rparr>,
       ds_versions := [sample_version ''2'' ''c'' V_CURRENT 2],
       ds_rows := [(blank_row ''f'')\<lparr> dr_document_id := Some ''c'', dr_modified_time := Some ''m1'',
         dr_classification := Some PUBLIC, dr_state := st \<rparr>] \<rparr>"

theorem edit_keeps_the_stricter_tier_witness:
  "(\<exists>d. documents (ds_world (snd (sync_one sample_sync False sample_item PUBLIC ''P'' (raised_file FILE_IMPORTED))))
         = documents (ds_world (raised_file FILE_IMPORTED)) @ [d] \<and> classification d = Some RESTRICTED)
   \<and> (\<exists>d. documents (ds_world (snd (sync_one sample_sync False sample_item PUBLIC ''P'' (raised_file FILE_FAILED))))
         = documents (ds_world (raised_file FILE_FAILED)) @ [d] \<and> classification d = Some PUBLIC)"
proof -
  let ?r = "\<lambda>st. sync_one sample_sync False sample_item PUBLIC ''P'' (raised_file st)"
  have run: "fst (?r FILE_IMPORTED) = None" "fst (?r FILE_FAILED) = None"
    "length (ds_versions (snd (?r FILE_IMPORTED))) \<noteq> length (ds_versions (raised_file FILE_IMPORTED))"
    "length (ds_versions (snd (?r FILE_FAILED))) \<noteq> length (ds_versions (raised_file FILE_FAILED))"
    by code_simp+
  have tiers: "expected_tier (find_row (df_file_id sample_item) (ds_rows (raised_file FILE_IMPORTED))) PUBLIC
      (documents (ds_world (raised_file FILE_IMPORTED))) = RESTRICTED"
    "expected_tier (find_row (df_file_id sample_item) (ds_rows (raised_file FILE_FAILED))) PUBLIC
      (documents (ds_world (raised_file FILE_FAILED))) = PUBLIC" by code_simp+
  have imp: "\<exists>d. documents (ds_world (snd (?r FILE_IMPORTED))) = documents (ds_world (raised_file FILE_IMPORTED)) @ [d]
      \<and> classification d = Some RESTRICTED"
    using edit_keeps_the_stricter_tier [of sample_sync sample_item PUBLIC "''P''" "raised_file FILE_IMPORTED"] run tiers
    by (metis prod.collapse)
  have retry: "\<exists>d. documents (ds_world (snd (?r FILE_FAILED))) = documents (ds_world (raised_file FILE_FAILED)) @ [d]
      \<and> classification d = Some PUBLIC"
    using edit_keeps_the_stricter_tier [of sample_sync sample_item PUBLIC "''P''" "raised_file FILE_FAILED"] run tiers
    by (metis prod.collapse)
  show ?thesis using imp retry by blast
qed

section \<open>Files that vanished\<close>

definition hidden_at :: "time \<Rightarrow> document \<Rightarrow> document" where
  "hidden_at t d = (if deleted_at d = None \<and> purged_at d = None then d\<lparr> deleted_at := Some t, updated_at := t \<rparr> else d)"

lemma hidden_at_twice [simp]: "hidden_at t (hidden_at t d) = hidden_at t d"
  by (simp add: hidden_at_def)

lemma retire_doc_frames [simp]:
  "ds_rows (retire_doc env row s i) = ds_rows s" "ds_versions (retire_doc env row s i) = ds_versions s"
  "documents (ds_world (retire_doc env row s i)) = snd (pg_soft_delete (sy_now env) i (documents (ds_world s)))"
  by (simp_all add: retire_doc_def Let_def case_prod_unfold)

lemma retire_docs:
  assumes "distinct (map doc_id (documents (ds_world s)))"
  shows "ds_rows (foldl (retire_doc env row) s is) = ds_rows s \<and> ds_versions (foldl (retire_doc env row) s is) = ds_versions s
    \<and> map doc_id (documents (ds_world (foldl (retire_doc env row) s is))) = map doc_id (documents (ds_world s))
    \<and> (\<forall>j. find_doc j (documents (ds_world (foldl (retire_doc env row) s is)))
         = (if j \<in> set is then map_option (hidden_at (sy_now env)) (find_doc j (documents (ds_world s)))
            else find_doc j (documents (ds_world s))))"
  using assms
proof (induction "is" arbitrary: s)
  case (Cons i "is")
  have one: "find_doc j (documents (ds_world (retire_doc env row s i)))
      = (if j = i then map_option (hidden_at (sy_now env)) (find_doc i (documents (ds_world s)))
         else find_doc j (documents (ds_world s)))" for j
    using soft_delete_find [OF Cons.prems] by (simp add: hidden_at_def [abs_def])
  show ?case
    using Cons.IH [of "retire_doc env row s i"] Cons.prems one by (auto simp: option.map_comp comp_def)
qed simp

definition no_longer_watched :: "drive_row \<Rightarrow> drive_row" where
  "no_longer_watched r = r\<lparr> dr_state := FILE_REMOVED, dr_skip_reason := Some ''no longer in a watched Drive folder'' \<rparr>"

lemma filter_update_where_other:
  "(\<And>x. Q x \<Longrightarrow> \<not> P x \<and> \<not> P (h x)) \<Longrightarrow> filter P (update_where Q h xs) = filter P xs"
  by (induction xs) (auto simp: update_where_def)

lemma retire_row_exact:
  assumes "distinct (map doc_id (documents (ds_world s)))"
  shows "map doc_id (documents (ds_world (retire_row env False s row))) = map doc_id (documents (ds_world s))"
    "find_doc j (documents (ds_world (retire_row env False s row)))
      = (if j \<in> set (live_targets row s) then map_option (hidden_at (sy_now env)) (find_doc j (documents (ds_world s)))
         else find_doc j (documents (ds_world s)))"
    "ds_rows (retire_row env False s row) = map (\<lambda>r. if dr_file_id r = dr_file_id row then no_longer_watched r else r) (ds_rows s)"
    "f \<noteq> dr_file_id row \<Longrightarrow> file_versions f (retire_row env False s row) = file_versions f s"
proof -
  have targets: "live_targets row (report h s) = live_targets row s" for h
    by (simp add: live_targets_def live_versions_def file_versions_def)
  note docs = retire_docs [of "report h s" env row "live_targets row s" for h, simplified drive_frames, OF assms]
  show "map doc_id (documents (ds_world (retire_row env False s row))) = map doc_id (documents (ds_world s))"
    "find_doc j (documents (ds_world (retire_row env False s row)))
      = (if j \<in> set (live_targets row s) then map_option (hidden_at (sy_now env)) (find_doc j (documents (ds_world s)))
         else find_doc j (documents (ds_world s)))"
    "ds_rows (retire_row env False s row) = map (\<lambda>r. if dr_file_id r = dr_file_id row then no_longer_watched r else r) (ds_rows s)"
    using docs by (simp_all add: retire_row_def Let_def targets update_where_def no_longer_watched_def)
  show "file_versions f (retire_row env False s row) = file_versions f s" if "f \<noteq> dr_file_id row"
    using docs that by (simp add: retire_row_def Let_def targets file_versions_def) (rule filter_update_where_other, auto)
qed

lemma retire_rows_exact:
  assumes "distinct (map doc_id (documents (ds_world s)))" "distinct (map dr_file_id rs)"
  shows "(\<forall>j. find_doc j (documents (ds_world (foldl (retire_row env False) s rs)))
      = (if j \<in> (\<Union>r\<in>set rs. set (live_targets r s)) then map_option (hidden_at (sy_now env)) (find_doc j (documents (ds_world s)))
         else find_doc j (documents (ds_world s))))
    \<and> ds_rows (foldl (retire_row env False) s rs)
      = map (\<lambda>r. if dr_file_id r \<in> dr_file_id ` set rs then no_longer_watched r else r) (ds_rows s)"
  using assms
proof (induction rs arbitrary: s)
  case (Cons r rs)
  note one = retire_row_exact [OF Cons.prems(1), where env = env and row = r]
  have d: "distinct (map doc_id (documents (ds_world (retire_row env False s r))))" using one(1) Cons.prems(1) by simp
  have "live_targets x (retire_row env False s r) = live_targets x s" if "x \<in> set rs" for x
  proof -
    have "dr_file_id x \<noteq> dr_file_id r" using that Cons.prems(2) by (metis distinct.simps(2) image_eqI list.set_map list.simps(9))
    then show ?thesis by (simp add: live_targets_def live_versions_def one(4))
  qed
  then have t: "(\<Union>x\<in>set rs. set (live_targets x (retire_row env False s r))) = (\<Union>x\<in>set rs. set (live_targets x s))" by simp
  have twice: "no_longer_watched (no_longer_watched x) = no_longer_watched x" "dr_file_id (no_longer_watched x) = dr_file_id x" for x
    by (simp_all add: no_longer_watched_def)
  note ih = Cons.IH [OF d, unfolded t one(2,3)]
  have "find_doc j (documents (ds_world (foldl (retire_row env False) s (r # rs))))
      = (if j \<in> (\<Union>x\<in>set (r # rs). set (live_targets x s))
         then map_option (hidden_at (sy_now env)) (find_doc j (documents (ds_world s)))
         else find_doc j (documents (ds_world s)))" for j
    using ih Cons.prems(2) by (auto simp: option.map_comp comp_def)
  moreover have "ds_rows (foldl (retire_row env False) s (r # rs))
      = map (\<lambda>x. if dr_file_id x \<in> dr_file_id ` set (r # rs) then no_longer_watched x else x) (ds_rows s)"
    using ih Cons.prems(2) by (auto simp: twice)
  ultimately show ?case by blast
qed simp

text \<open>The rows a pass takes for vanished: \<open>imported\<close>, and not in the listing.\<close>

definition vanished_rows :: "watched \<Rightarrow> drive_state \<Rightarrow> drive_row list" where
  "vanished_rows found s = filter (\<lambda>r. dr_state r = FILE_IMPORTED \<and> map_of found (dr_file_id r) = None) (ds_rows s)"

text \<open>C33: A file that left the watched folders leaves search. After a full pass looked for vanished files, no document of
a file that was imported and is not listed any more can be found, current or still processing, and its row says so;
every other document and row is exactly as before. That holds for files in state \<open>imported\<close> only: the document of a
file whose last attempt failed or was skipped stays searchable after the file is gone.\<close>

theorem vanished_files_leave_search:
  assumes "wf_drive s"
  shows "(\<forall>r\<in>set (vanished_rows found s). \<forall>j\<in>set (live_targets r s).
         \<not> searchable (ds_world (retire_vanished env False False found s)) j)
    \<and> (\<forall>j. j \<notin> (\<Union>r\<in>set (vanished_rows found s). set (live_targets r s)) \<longrightarrow>
         find_doc j (documents (ds_world (retire_vanished env False False found s))) = find_doc j (documents (ds_world s)))
    \<and> ds_rows (retire_vanished env False False found s)
        = map (\<lambda>r. if dr_state r = FILE_IMPORTED \<and> map_of found (dr_file_id r) = None then no_longer_watched r else r) (ds_rows s)"
proof -
  let ?gone = "vanished_rows found s" and ?s' = "retire_vanished env False False found s"
  have d: "distinct (map doc_id (documents (ds_world s)))" "distinct (map dr_file_id (ds_rows s))"
    using assms by (simp_all add: wf_drive_def wf_docs_def)
  have run: "?s' = foldl (retire_row env False) s ?gone" by (simp add: retire_vanished_def vanished_rows_def)
  have "distinct (map dr_file_id ?gone)" unfolding vanished_rows_def by (rule distinct_map_filter [OF d(2)])
  note ex = retire_rows_exact [OF d(1) this, of env, folded run]
  have "\<not> searchable (ds_world ?s') j" if "r \<in> set ?gone" "j \<in> set (live_targets r s)" for r j
  proof -
    have "find_doc j (documents (ds_world ?s')) = map_option (hidden_at (sy_now env)) (find_doc j (documents (ds_world s)))"
      using ex that by auto
    then show ?thesis by (auto simp: searchable_def hidden_at_def split: option.split)
  qed
  moreover have "dr_file_id r \<in> dr_file_id ` set ?gone \<longleftrightarrow> dr_state r = FILE_IMPORTED \<and> map_of found (dr_file_id r) = None"
    if "r \<in> set (ds_rows s)" for r
    using distinct_key_unique [OF d(2)] that by (auto simp: vanished_rows_def image_iff)
  then have "ds_rows ?s' = map (\<lambda>r. if dr_state r = FILE_IMPORTED \<and> map_of found (dr_file_id r) = None
      then no_longer_watched r else r) (ds_rows s)"
    using ex by (auto intro: map_cong)
  ultimately show ?thesis using ex by simp
qed

text \<open>Two files that are gone; the last attempt at the second had failed.\<close>

definition two_gone :: drive_state where
  "two_gone = edited_file
     \<lparr> ds_rows := [(blank_row ''f'')\<lparr> dr_document_id := Some ''a'' \<rparr>,
         (blank_row ''g'')\<lparr> dr_document_id := Some ''c'', dr_state := FILE_FAILED \<rparr>],
       ds_versions := [sample_version ''1'' ''a'' V_CURRENT 1,
         (sample_version ''2'' ''c'' V_CURRENT 2)\<lparr> dv_file_id := ''g'' \<rparr>] \<rparr>"

theorem vanished_files_leave_search_witness:
  "\<not> searchable (ds_world (retire_vanished sample_sync False False [] two_gone)) ''a''
   \<and> find_doc ''c'' (documents (ds_world (retire_vanished sample_sync False False [] two_gone))) = Some (live_document ''c'' ''h2'')"
proof -
  have wf: "wf_drive two_gone"
    by (auto simp: two_gone_def edited_file_def wf_drive_def wf_docs_def wf_versions_def active_checksum_def active_status_def
        live_document_def new_document_def empty_world_def sample_version_def blank_row_def)
  have gone: "vanished_rows [] two_gone = [(blank_row ''f'')\<lparr> dr_document_id := Some ''a'' \<rparr>]"
    "live_targets ((blank_row ''f'')\<lparr> dr_document_id := Some ''a'' \<rparr>) two_gone = [''a'']" by code_simp+
  have "find_doc ''c'' (documents (ds_world two_gone)) = Some (live_document ''c'' ''h2'')"
    by (simp add: two_gone_def edited_file_def find_doc_def live_document_def new_document_def)
  then show ?thesis using vanished_files_leave_search [OF wf, of "[]" sample_sync] by (simp add: gone)
qed

section \<open>A version that never settles\<close>

text \<open>When the newest version failed or was a duplicate, nothing earlier is settled any more: an older version that
became live meanwhile stays pending, and the one before it stays current and searchable, in this pass and, nothing
having changed, in every later one; both are in search for as long as the file is not edited again.\<close>

theorem failed_edit_leaves_two_versions:
  assumes "wf_drive s" "versions_by_import f s = olds @ [v]" "dv_state v \<noteq> V_PENDING"
    and "x \<in> set olds" "dv_state x = V_PENDING" "doc_is_live (dv_document_id x) (ds_world s)"
  shows "\<exists>s'. reconcile_file env False f s = (None, s') \<and> ds_world s' = ds_world s \<and> x \<in> set (ds_versions s')
    \<and> (\<forall>y\<in>set olds. dv_state y = V_CURRENT \<longrightarrow> y \<in> set (ds_versions s'))
    \<and> (\<exists>olds'. versions_by_import f s' = olds' @ [v] \<and> x \<in> set olds')"
proof -
  let ?sv = "settled_version env (ds_world s)"
  obtain s' where s': "reconcile_file env False f s = (None, s')" "ds_world s' = ds_world s"
      "ds_versions s' = map (\<lambda>x. if dv_file_id x = f then ?sv x else x) (ds_versions s)"
    using reconcile_waits [OF assms(1,2), of env] assms(3) by blast
  have kept: "?sv y = y" if "dv_state y = V_CURRENT" for y using that by (simp add: settled_version_def)
  have sx: "?sv x = x" and v: "?sv v = v"
    using live_is_settled [of x "ds_world s" _ env] assms(3,6)
    by (auto simp: doc_is_live_def pg_get_by_id_def settled_version_def split: option.splits)
  have mem: "y \<in> set (ds_versions s') " if "y \<in> set olds" "?sv y = y" for y
    using that file_version_mem [of y f s] assms(2) by (force simp: s'(3))
  have "versions_by_import f s' = map ?sv (versions_by_import f s)"
  proof -
    have "file_versions f s' = map ?sv (file_versions f s)"
      by (simp add: file_versions_def s'(3) filter_map comp_def)
    then show ?thesis by (simp add: versions_by_import_def sort_key_map_same)
  qed
  then have "versions_by_import f s' = map ?sv olds @ [v]" using assms(2) v by simp
  moreover have "x \<in> set (map ?sv olds)" using assms(4) sx by force
  ultimately show ?thesis using s'(1,2) mem [OF assms(4) sx] mem kept by blast
qed


text \<open>The same file, edited once more; the third version failed in the pipeline.\<close>

definition failed_edit :: drive_state where
  "failed_edit = edited_file
     \<lparr> ds_world := empty_world\<lparr> documents := [live_document ''a'' ''h1'', live_document ''c'' ''h2'',
         (live_document ''e'' ''h3'')\<lparr> status := DocumentStatus.EXTRACTION_FAILED \<rparr>] \<rparr>,
       ds_versions := [sample_version ''1'' ''a'' V_CURRENT 1, sample_version ''2'' ''c'' V_PENDING 2,
         sample_version ''3'' ''e'' V_FAILED 3] \<rparr>"

theorem failed_edit_leaves_two_versions_witness:
  "\<exists>s'. reconcile_file sample_sync False ''f'' failed_edit = (None, s')
     \<and> sample_version ''1'' ''a'' V_CURRENT 1 \<in> set (ds_versions s') \<and> sample_version ''2'' ''c'' V_PENDING 2 \<in> set (ds_versions s')
     \<and> doc_is_live ''a'' (ds_world s') \<and> doc_is_live ''c'' (ds_world s')"
proof -
  have wf: "wf_drive failed_edit"
    by (auto simp: failed_edit_def edited_file_def wf_drive_def wf_docs_def wf_versions_def active_checksum_def active_status_def
        live_document_def new_document_def empty_world_def sample_version_def blank_row_def)
  have vs: "versions_by_import ''f'' failed_edit
      = [sample_version ''1'' ''a'' V_CURRENT 1, sample_version ''2'' ''c'' V_PENDING 2] @ [sample_version ''3'' ''e'' V_FAILED 3]"
    by (simp add: versions_by_import_def file_versions_def failed_edit_def sample_version_def)
  have live: "doc_is_live ''a'' (ds_world failed_edit)" "doc_is_live ''c'' (ds_world failed_edit)"
    by (simp_all add: failed_edit_def doc_is_live_def pg_get_by_id_def find_doc_def live_document_def new_document_def)
  have "dv_state (sample_version ''3'' ''e'' V_FAILED 3) \<noteq> V_PENDING"
    "sample_version ''2'' ''c'' V_PENDING 2 \<in> set [sample_version ''1'' ''a'' V_CURRENT 1, sample_version ''2'' ''c'' V_PENDING 2]"
    "dv_state (sample_version ''2'' ''c'' V_PENDING 2) = V_PENDING"
    "doc_is_live (dv_document_id (sample_version ''2'' ''c'' V_PENDING 2)) (ds_world failed_edit)"
    using live by (simp_all add: sample_version_def)
  from failed_edit_leaves_two_versions [OF wf vs this, of sample_sync] live
  show ?thesis by (auto simp: sample_version_def)
qed

end
