(* ===== verification/PyNumber.thy ===== *)
theory PyNumber
  imports PyText "HOL-Library.AList"
begin

text \<open>Python's numbers and dates as text: \<open>int\<close> and \<open>float\<close> of a string, the formats \<open>.<p>g\<close> and \<open>isoformat\<close> of a
date, and lists of operations that may raise. A float is the exact rational its decimal text denotes, or one of the
three special values; what double precision would round away is kept.\<close>

section \<open>Operations that raise\<close>

primrec map_result :: "('a \<Rightarrow> ('e, 'b) result) \<Rightarrow> 'a list \<Rightarrow> ('e, 'b list) result" where
  "map_result f [] = Inr []"
| "map_result f (x # xs) =
     (case f x of
        Inl e \<Rightarrow> Inl e
      | Inr y \<Rightarrow> (case map_result f xs of Inl e \<Rightarrow> Inl e | Inr ys \<Rightarrow> Inr (y # ys)))"

definition bind_result :: "('e, 'a) result \<Rightarrow> ('a \<Rightarrow> ('e, 'b) result) \<Rightarrow> ('e, 'b) result" where
  "bind_result r f = (case r of Inl e \<Rightarrow> Inl e | Inr x \<Rightarrow> f x)"

lemma bind_result_Inr [simp]: "bind_result r f = Inr y \<longleftrightarrow> (\<exists>x. r = Inr x \<and> f x = Inr y)"
  by (cases r) (simp_all add: bind_result_def)

lemma map_result_Inr: "map_result f xs = Inr ys \<longleftrightarrow> list_all2 (\<lambda>x y. f x = Inr y) xs ys"
proof (induction xs arbitrary: ys)
  case (Cons x xs)
  show ?case by (cases "f x"; cases "map_result f xs") (auto simp: list_all2_Cons1 Cons.IH [symmetric])
qed auto

lemma map_result_nth:
  "map_result f xs = Inr ys \<Longrightarrow> length ys = length xs \<and> (\<forall>i<length xs. f (xs ! i) = Inr (ys ! i))"
  by (auto simp: map_result_Inr list_all2_conv_all_nth)

section \<open>Integers\<close>

text \<open>\<open>int(s)\<close>: blanks around, a sign, decimal digits with single underscores between.\<close>

fun digits_value :: "int \<Rightarrow> bool \<Rightarrow> string \<Rightarrow> int option" where
  "digits_value n after_digit [] = (if after_digit then Some n else None)"
| "digits_value n after_digit (c # cs) =
     (if is_decimal c then digits_value (10 * n + (int (code c) - 48)) True cs
      else if c = CHR ''_'' \<and> after_digit then digits_value n False cs
      else None)"

definition signed :: "string \<Rightarrow> bool \<times> string" where
  "signed s =
     (case s of [] \<Rightarrow> (False, [])
      | c # cs \<Rightarrow> if c = CHR ''-'' then (True, cs) else if c = CHR ''+'' then (False, cs) else (False, c # cs))"

definition py_int :: "string \<Rightarrow> int option" where
  "py_int s =
     (let (neg, ds) = signed (strip s) in
      map_option (\<lambda>n. if neg then - n else n) (digits_value 0 False ds))"

section \<open>Floats\<close>

datatype pyfloat = Finite rat | Infinite bool | NotANumber

definition plain_digits :: "string \<Rightarrow> nat" where
  "plain_digits ds = length (filter is_decimal ds)"

text \<open>\<open>digits [. digits] [e sign digits]\<close>, one of the two runs of digits possibly empty.\<close>

definition mantissa :: "string \<Rightarrow> rat option" where
  "mantissa s =
     (case split_on (CHR ''.'') s of
        [a] \<Rightarrow> map_option of_int (digits_value 0 False a)
      | [a, b] \<Rightarrow>
          (if a = [] \<and> b = [] then None
           else case (if a = [] then Some 0 else digits_value 0 False a, if b = [] then Some 0 else digits_value 0 False b) of
             (Some m, Some n) \<Rightarrow> Some (of_int m + of_int n / 10 ^ plain_digits b)
           | _ \<Rightarrow> None)
      | _ \<Rightarrow> None)"

definition power_of_ten :: "int \<Rightarrow> rat" where
  "power_of_ten k = (if 0 \<le> k then 10 ^ nat k else 1 / 10 ^ nat (- k))"

definition decimal :: "string \<Rightarrow> rat option" where
  "decimal s =
     (case split_on (CHR ''e'') (replace_char (CHR ''E'') (CHR ''e'') s) of
        [m] \<Rightarrow> mantissa m
      | [m, e] \<Rightarrow>
          (let (neg, ds) = signed e in
           case (mantissa m, digits_value 0 False ds) of
             (Some x, Some k) \<Rightarrow> Some (x * power_of_ten (if neg then - k else k))
           | _ \<Rightarrow> None)
      | _ \<Rightarrow> None)"

definition py_float :: "string \<Rightarrow> pyfloat option" where
  "py_float s =
     (let (neg, t) = signed (strip s) in
      if lower t = ''inf'' \<or> lower t = ''infinity'' then Some (Infinite neg)
      else if lower t = ''nan'' then Some NotANumber
      else map_option (\<lambda>x. Finite (if neg then - x else x)) (decimal t))"

section \<open>Formats\<close>

text \<open>Round half to even of a non-negative rational, and the digits of a non-negative integer.\<close>

definition round_even :: "rat \<Rightarrow> int" where
  "round_even x =
     (let (n, d) = quotient_of x; q = n div d; r = n mod d in
      if 2 * r < d \<or> (2 * r = d \<and> even q) then q else q + 1)"

function int_digits :: "int \<Rightarrow> string" where
  "int_digits n = (if n < 10 then [digit_char (nat n)] else int_digits (n div 10) @ [digit_char (nat (n mod 10))])"
  by pat_completeness auto
termination by (relation "measure nat") auto

declare int_digits.simps [simp del]

definition signed_digits :: "int \<Rightarrow> string" where
  "signed_digits n = (if n < 0 then CHR ''-'' # int_digits (- n) else int_digits n)"

text \<open>The decimal exponent: \<open>10 ^ e \<le> x < 10 ^ (e + 1)\<close> for positive \<open>x\<close>.\<close>

definition exponent10 :: "rat \<Rightarrow> int" where
  "exponent10 x =
     (if 1 \<le> x then int (length (int_digits \<lfloor>x\<rfloor>)) - 1
      else case find (\<lambda>k. 1 \<le> x * 10 ^ k) [1..<Suc (length (int_digits (snd (quotient_of x))))] of
             Some k \<Rightarrow> - int k | None \<Rightarrow> 0)"

definition drop_zeros :: "string \<Rightarrow> string" where
  "drop_zeros s = rev (dropWhile (\<lambda>c. c = CHR ''0'') (rev s))"

definition with_fraction :: "string \<Rightarrow> string \<Rightarrow> string" where
  "with_fraction whole digits = (let f = drop_zeros digits in if f = [] then whole else whole @ ''.'' @ f)"

text \<open>\<open>f"{x:.<p>g}"\<close> for positive \<open>x\<close>: \<open>p\<close> significant digits, fixed or scientific, without trailing zeros.\<close>

definition format_general_pos :: "nat \<Rightarrow> rat \<Rightarrow> string" where
  "format_general_pos p x =
     (let e0 = exponent10 x;
          m0 = round_even (x * power_of_ten (int p - 1 - e0));
          (m, e) = (if m0 = 10 ^ p then (10 ^ (p - 1), e0 + 1) else (m0, e0));
          ds = int_digits m
      in if e < -4 \<or> int p \<le> e
         then with_fraction (take 1 ds) (drop 1 ds) @ ''e'' @ (if e < 0 then ''-'' else ''+'') @ pad_left 2 (int_digits (abs e))
         else if e < 0 then with_fraction ''0'' (replicate (nat (- e) - 1) (CHR ''0'') @ ds)
         else with_fraction (take (nat e + 1) ds) (drop (nat e + 1) ds))"

definition format_general :: "nat \<Rightarrow> pyfloat \<Rightarrow> string" where
  "format_general p v =
     (case v of
        NotANumber \<Rightarrow> ''nan''
      | Infinite neg \<Rightarrow> if neg then ''-inf'' else ''inf''
      | Finite x \<Rightarrow> if x = 0 then ''0''
                    else if x < 0 then CHR ''-'' # format_general_pos p (- x) else format_general_pos p x)"

section \<open>Dates\<close>

text \<open>The proleptic Gregorian calendar: the date that is \<open>n\<close> days after 1899-12-30.\<close>

definition civil :: "int \<Rightarrow> int \<times> int \<times> int" where
  "civil n =
     (let z = n + 693899;
          era = z div 146097;
          doe = z mod 146097;
          yoe = (doe - doe div 1460 + doe div 36524 - doe div 146096) div 365;
          doy = doe - (365 * yoe + yoe div 4 - yoe div 100);
          mp = (5 * doy + 2) div 153;
          d = doy - (153 * mp + 2) div 5 + 1;
          m = (if mp < 10 then mp + 3 else mp - 9)
      in (yoe + era * 400 + (if m \<le> 2 then 1 else 0), m, d))"

definition iso_date :: "int \<times> int \<times> int \<Rightarrow> string" where
  "iso_date ymd =
     (case ymd of (y, m, d) \<Rightarrow>
        pad_left 4 (int_digits y) @ ''-'' @ pad_left 2 (int_digits m) @ ''-'' @ pad_left 2 (int_digits d))"

lemma civil_days:
  "civil 0 = (1899, 12, 30)" "civil 2 = (1900, 1, 1)" "civil 25569 = (1970, 1, 1)" "civil 36585 = (2000, 2, 29)"
  "iso_date (civil 45292) = ''2024-01-01''"
  by code_simp+

lemma numbers_read:
  "py_float ''1.2.3'' = None" "py_float ''Total'' = None" "py_int ''+1_0'' = Some 10" "py_int ''1.0'' = None"
  by code_simp+

lemma numbers_shown:
  "format_general 10 (Finite (57/10)) = ''5.7''" "format_general 4 (Finite 12345) = ''1.234e+04''"
  "format_general 10 (Finite (- 1 / 10000000)) = ''-1e-07''"
  by code_simp+

end
