(* ===== verification/DriveWorker.thy ===== *)
theory DriveWorker
  imports DrivePass PyNumber
begin

text \<open>\<open>workers/drive_sync_worker.py\<close>: when the Drive sync runs. The schedule is a time of day in a time zone, kept in the
\<open>drive_sync_state\<close> table; a run that is due goes through \<open>sync_once\<close> and records how it ended. The heartbeat file, the
signal handlers and the thread that keeps the heartbeat fresh only talk to the operating system.\<close>

section \<open>The schedule\<close>

definition parse_at :: "string \<Rightarrow> (string, nat \<times> nat) result" where
  "parse_at v =
     (let refusal = ''GDRIVE_SYNC_AT must be HH:MM, got '' @ py_repr v in
      case split_on (CHR '':'') (strip v) of
        [h, m] \<Rightarrow>
          (case (py_int h, py_int m) of
             (Some hour, Some minute) \<Rightarrow>
               if 0 \<le> hour \<and> hour < 24 \<and> 0 \<le> minute \<and> minute < 60 then Inr (nat hour, nat minute) else Inl refusal
           | _ \<Rightarrow> Inl refusal)
      | _ \<Rightarrow> Inl refusal)"

text \<open>A \<open>ZoneInfo\<close>: the wall clock at a moment, as seconds, which of two equal readings it is (\<open>fold\<close>), and the moment a
reading stands for.\<close>

record zone =
  zone_wall :: "time \<Rightarrow> int"
  zone_fold :: "time \<Rightarrow> bool"
  zone_instant :: "int \<Rightarrow> bool \<Rightarrow> time"

definition next_slot_after :: "time \<Rightarrow> string \<Rightarrow> zone \<Rightarrow> (string, time) result" where
  "next_slot_after moment at_time z =
     (case parse_at at_time of
        Inl e \<Rightarrow> Inl e
      | Inr (hour, minute) \<Rightarrow>
          let wall = zone_wall z moment;
              slot = wall - wall mod 86400 + int hour * 3600 + int minute * 60
          in Inr (if slot \<le> wall then zone_instant z (slot + 86400) False
                  else zone_instant z slot (zone_fold z moment)))"

definition compute_due ::
  "time \<Rightarrow> time option \<Rightarrow> time option \<Rightarrow> bool \<Rightarrow> string \<Rightarrow> zone \<Rightarrow> int \<Rightarrow> int \<Rightarrow> (string, time) result" where
  "compute_due moment last_success last_attempt last_failed at_time z interval_seconds retry_seconds =
     (case (last_failed, last_attempt) of
        (True, Some a) \<Rightarrow> Inr (a + retry_seconds)
      | _ \<Rightarrow>
          (case last_success of
             None \<Rightarrow> Inr moment
           | Some t \<Rightarrow> if at_time = [] then Inr (t + interval_seconds) else next_slot_after t at_time z))"

section \<open>The state table\<close>

type_synonym state_table = "(string \<times> string option) list"

text \<open>\<open>session.merge\<close> of one row per value.\<close>

definition write_state :: "(string \<times> string option) list \<Rightarrow> state_table \<Rightarrow> state_table" where
  "write_state values table = foldl (\<lambda>t (k, v). AList.update k v t) table values"

definition read_state :: "string \<Rightarrow> state_table \<Rightarrow> string option" where
  "read_state k table = Option.bind (map_of table k) id"

text \<open>What the worker is given: its settings, the clock's text form, whether Drive can be connected to (credentials that
load), how an exception's type is called, and faults of the state table.\<close>

record worker_env =
  wk_sync :: sync_env
  wk_enabled :: bool
  wk_at :: string
  wk_zone :: zone
  wk_interval :: int
  wk_retry :: int
  wk_to_iso :: "time \<Rightarrow> string"
  wk_from_iso :: "string \<Rightarrow> time option"
  wk_connect_fails :: "string option"
  wk_type_name :: "sync_exn \<Rightarrow> string"
  wk_read_fails :: bool
  wk_write_fails :: bool

text \<open>The constructor strips \<open>GDRIVE_SYNC_AT\<close> and refuses to start on a malformed schedule.\<close>

definition started_worker :: "string \<Rightarrow> worker_env \<Rightarrow> (string, worker_env) result" where
  "started_worker setting env =
     (let at_time = strip setting in
      if at_time = [] then Inr (env\<lparr> wk_at := at_time \<rparr>)
      else case parse_at at_time of Inl e \<Rightarrow> Inl e | Inr hm \<Rightarrow> Inr (env\<lparr> wk_at := at_time \<rparr>))"

definition parse_time :: "worker_env \<Rightarrow> string option \<Rightarrow> time option" where
  "parse_time env v = (case v of None \<Rightarrow> None | Some s \<Rightarrow> if s = [] then None else wk_from_iso env s)"

definition due_at :: "worker_env \<Rightarrow> time \<Rightarrow> state_table \<Rightarrow> (string, time) result" where
  "due_at env moment table =
     (let last_success = parse_time env (read_state ''last_success_at'' table);
          last_attempt = parse_time env (read_state ''last_attempt_at'' table);
          last_failed =
            ((case read_state ''last_error'' table of None \<Rightarrow> False | Some e \<Rightarrow> e \<noteq> [])
             \<and> (case last_success of None \<Rightarrow> True
                | Some t \<Rightarrow> (case last_attempt of None \<Rightarrow> False | Some a \<Rightarrow> a > t)))
      in compute_due moment last_success last_attempt last_failed (wk_at env) (wk_zone env) (wk_interval env) (wk_retry env))"

section \<open>A run\<close>

definition summarise :: "sync_outcome \<Rightarrow> (string \<times> nat) list" where
  "summarise out =
     [(''files_found'', o_files_found out), (''imported'', length (o_imported out)), (''edited'', length (o_edited out)),
      (''unchanged'', o_unchanged out), (''skipped'', length (o_skipped out)), (''failed'', length (o_failed out)),
      (''removed'', length (o_removed out)), (''restored'', length (o_restored out)),
      (''reclassified'', length (o_reclassified out)), (''owner_fallbacks'', length (o_owner_fallbacks out)),
      (''superseded'', length (o_superseded out)), (''duplicates'', length (o_duplicates out)),
      (''escalated'', length (o_escalated out)), (''pipeline_failed'', length (o_pipeline_failed out)),
      (''still_processing'', o_still_processing out)]"

text \<open>\<open>json.dumps\<close> of a flat dictionary of numbers.\<close>

definition dump_counts :: "(string \<times> nat) list \<Rightarrow> string" where
  "dump_counts xs =
     ''{'' @ join '', '' (map (\<lambda>(k, n). [CHR 0x22] @ k @ [CHR 0x22] @ '': '' @ nat_str n) xs) @ ''}''"

definition default_sync :: "worker_env \<Rightarrow> drive_state \<Rightarrow> sync_exn option \<times> drive_state" where
  "default_sync env s =
     (case wk_connect_fails env of
        Some m \<Rightarrow> (Some (OtherError m), s)
      | None \<Rightarrow> sync_once (wk_sync env) False None s)"

text \<open>\<open>run_once\<close> reads the clock three times before it starts: for the schedule, for the comparison and as the start of
the run. \<open>Inl\<close> is an exception that leaves it.\<close>

definition run_once ::
  "worker_env \<Rightarrow> time \<Rightarrow> time \<Rightarrow> time \<Rightarrow> drive_state \<times> state_table \<Rightarrow> (string, bool) result \<times> drive_state \<times> state_table" where
  "run_once env moment check started st =
     (let (s, table) = st in
      if wk_read_fails env then (Inl ''OperationalError'', st)
      else case due_at env moment table of
        Inl e \<Rightarrow> (Inl e, st)
      | Inr due \<Rightarrow>
          if check < due then (Inr False, st)
          else case default_sync env s of
            (Some e, s1) \<Rightarrow>
              (case e of
                 SyncError (SyncAlreadyRunning m) \<Rightarrow> (Inr False, s1, table)
               | _ \<Rightarrow>
                   if wk_write_fails env then (Inl ''OperationalError'', s1, table)
                   else (Inr True, s1, write_state
                          [(''last_attempt_at'', Some (wk_to_iso env started)),
                           (''last_error'', Some (take 1000 (wk_type_name env e @ '': '' @ exn_text e)))] table))
          | (None, s1) \<Rightarrow>
              if wk_write_fails env then (Inl ''OperationalError'', s1, table)
              else (Inr True, s1, write_state
                     [(''last_attempt_at'', Some (wk_to_iso env started)), (''last_success_at'', Some (wk_to_iso env started)),
                      (''last_error'', None), (''last_summary'', Some (dump_counts (summarise (ds_outcome s1))))] table))"

text \<open>The body of the loop: nothing that happens in a run ends it.\<close>

definition worker_tick :: "worker_env \<Rightarrow> time \<times> time \<times> time \<Rightarrow> drive_state \<times> state_table \<Rightarrow> drive_state \<times> state_table" where
  "worker_tick env clocks st =
     (case clocks of (moment, check, started) \<Rightarrow> if wk_enabled env then snd (run_once env moment check started st) else st)"

definition worker_loop :: "worker_env \<Rightarrow> (time \<times> time \<times> time) list \<Rightarrow> drive_state \<times> state_table \<Rightarrow> drive_state \<times> state_table" where
  "worker_loop env ticks st = foldl (\<lambda>st clocks. worker_tick env clocks st) st ticks"

section \<open>When the next run is due\<close>

text \<open>A zone without changes of the clock, as the configured \<open>Asia/Kolkata\<close>.\<close>

definition fixed_offset :: "int \<Rightarrow> zone \<Rightarrow> bool" where
  "fixed_offset off z = ((\<forall>t. zone_wall z t = t + off) \<and> (\<forall>w b. zone_instant z w b = w - off))"

lemma parse_at_range: "parse_at v = Inr (h, m) \<Longrightarrow> h < 24 \<and> m < 60"
  by (auto simp: parse_at_def Let_def split: list.splits option.splits if_splits prod.splits)

lemma slot_shape:
  assumes "fixed_offset off z" "parse_at a = Inr (h, m)"
  shows "\<exists>s. next_slot_after t a z = Inr s \<and> t < s \<and> s \<le> t + 86400 \<and> (s + off) mod 86400 = int h * 3600 + int m * 60"
proof -
  define w where "w = t + off"
  define day where "day = w - w mod 86400"
  define tod where "tod = int h * 3600 + int m * 60"
  have hm: "0 \<le> tod" "tod < 86400" using parse_at_range [OF assms(2)] by (auto simp: tod_def)
  have d: "day \<le> w" "w < day + 86400" "day mod 86400 = 0" by (auto simp: day_def mod_diff_eq [symmetric])
  have n: "next_slot_after t a z = Inr ((if day + tod \<le> w then day + tod + 86400 else day + tod) - off)"
    using assms by (simp add: next_slot_after_def fixed_offset_def day_def tod_def w_def Let_def add.assoc)
  have "(day + tod) mod 86400 = tod" "(day + tod + 86400) mod 86400 = tod"
    using d(3) hm mod_add_left_eq [of day 86400 tod] by simp_all
  then show ?thesis using d hm by (auto simp: n w_def tod_def)
qed

text \<open>The next slot is the next time the wall clock shows the configured time of day: strictly later than the moment
given, and no later than any other such moment. (In a zone whose clock does not change.)\<close>

theorem next_slot_is_the_next_time_of_day:
  assumes "fixed_offset off z" "parse_at a = Inr (h, m)"
  shows "\<exists>s. next_slot_after t a z = Inr s \<and> t < s \<and> (s + off) mod 86400 = int h * 3600 + int m * 60
    \<and> (\<forall>u. t < u \<and> (u + off) mod 86400 = int h * 3600 + int m * 60 \<longrightarrow> s \<le> u)"
proof -
  obtain s where s: "next_slot_after t a z = Inr s" "t < s" "s \<le> t + 86400" "(s + off) mod 86400 = int h * 3600 + int m * 60"
    using slot_shape [OF assms, of t] by blast
  have "s \<le> u" if u: "t < u" "(u + off) mod 86400 = int h * 3600 + int m * 60" for u
  proof (rule ccontr)
    assume "\<not> s \<le> u"
    then have lt: "0 < s - u" "s - u < 86400" using u(1) s(3) by auto
    have "(s - u) mod 86400 = 0" using mod_diff_cong [of "s + off" 86400 "u + off" "u + off" "u + off"] s(4) u(2) by simp
    then show False using lt by simp
  qed
  then show ?thesis using s by blast
qed

definition india :: zone where
  "india = \<lparr> zone_wall = (\<lambda>t. t + 19800), zone_fold = (\<lambda>t. False), zone_instant = (\<lambda>w b. w - 19800) \<rparr>"

theorem next_slot_is_the_next_time_of_day_witness:
  "next_slot_after 1000000 ''00:00'' india = Inr 1017000 \<and> (1017000 + 19800) mod 86400 = (0 :: int)"
proof -
  have "fixed_offset 19800 india" by (simp add: fixed_offset_def india_def)
  moreover have p: "parse_at ''00:00'' = Inr (0, 0)" by code_simp
  ultimately obtain s where s: "next_slot_after 1000000 ''00:00'' india = Inr s" "(s + 19800) mod 86400 = 0"
    using next_slot_is_the_next_time_of_day [of 19800 india "''00:00''" 0 0 1000000] by auto
  moreover have "next_slot_after 1000000 ''00:00'' india = Inr 1017000" by (simp add: next_slot_after_def p india_def)
  ultimately show ?thesis by simp
qed


section \<open>Which runs are refused\<close>

text \<open>Only the advisory lock makes a pass say that another one is running.\<close>

abbreviation (input) not_busy :: "sync_exn option \<Rightarrow> bool" where
  "not_busy e \<equiv> (\<forall>m. e \<noteq> Some (SyncError (SyncAlreadyRunning m)))"

lemma owner_not_busy: "resolve_owner env email cache = (Inl e, c) \<Longrightarrow> not_busy (Some e)"
  by (auto simp: resolve_owner_def Let_def split: if_splits option.splits)

lemma one_not_busy: "not_busy (fst (sync_one env dry item t fo s))"
proof -
  have "not_busy (fst (import_file env ex ed item t fo s))" for ex ed
  proof (cases "fetch_bytes (sy_client env) item")
    case (Inr y)
    then show ?thesis using owner_not_busy
      by (auto simp: import_file_def Let_def split: option.split sum.split prod.split)
  qed (simp add: import_file_def)
  then show ?thesis by (simp add: sync_one_def Let_def split: option.split)
qed

lemma items_not_busy: "not_busy (fst (sync_items env dry items s))"
proof (induction items arbitrary: s)
  case (Cons x rest)
  obtain item t fo where x: "x = (item, t, fo)" by (cases x)
  obtain e s1 where one: "sync_one env dry item t fo s = (e, s1)" by fastforce
  then have "not_busy e" using one_not_busy [of env dry item t fo s] by simp
  then show ?case using Cons by (auto simp: x one Let_def split: option.split sync_exn.split drive_error.split)
qed simp

lemma supersede_not_busy: "not_busy (fst (supersede env old new f s))"
  by (simp add: supersede_def write_doc_def Let_def split: option.split sum.split prod.split)

lemma older_not_busy: "not_busy (fst (retire_older env dry f name new vs s))"
proof (induction vs arbitrary: s)
  case (Cons v vs)
  obtain e s2 where up: "supersede env (dv_document_id v) new f (report (\<lambda>out. out\<lparr> o_superseded := o_superseded out @ [name] \<rparr>) s) = (e, s2)"
    by fastforce
  have "not_busy e" using supersede_not_busy [of env "dv_document_id v" new f
      "report (\<lambda>out. out\<lparr> o_superseded := o_superseded out @ [name] \<rparr>) s"] unfolding up fst_conv .
  then show ?case using Cons.IH by (cases e; cases dry) (simp_all add: Let_def up)
qed simp

lemma reconcile_not_busy: "not_busy (fst (reconcile env dry s))"
proof -
  have one: "not_busy (fst (reconcile_file env dry f s))" for f s
    using reconcile_file_cases [OF refl refl, of f env dry s] older_not_busy by (elim disjE conjE exE) (metis fst_conv, simp)
  have "not_busy (fst (reconcile_files env dry fs s))" for fs s
  proof (induction fs arbitrary: s)
    case (Cons f fs)
    obtain e s1 where "reconcile_file env dry f s = (e, s1)" by fastforce
    then show ?case using Cons one [of f s] by (cases e) simp_all
  qed simp
  then show ?thesis by (simp add: reconcile_def)
qed


lemma pass_not_busy: "\<not> sy_locked env \<Longrightarrow> not_busy (fst (sync_once env dry limit s))"
proof -
  assume unlocked: "\<not> sy_locked env"
  have tree: "tree_tiers client f t tiers \<noteq> Inl (SyncAlreadyRunning m)" for client f t tiers m
    by (simp add: tree_tiers_def split: sum.split)
  have listed: "list_watched_from client tiers found \<noteq> Inl (SyncAlreadyRunning m)" for client tiers found m
    by (induction client tiers found rule: list_watched_from.induct) (auto split: sum.split)
  have folders: "resolve_folder_tiers client a b \<noteq> Inl (SyncAlreadyRunning m)" for client a b m
    using tree by (auto simp: resolve_folder_tiers_def split: sum.split)
  show ?thesis
  proof (cases "resolve_folder_tiers (sy_client env) (public_folder_id env) (restricted_folder_id env)")
    case (Inl e)
    then show ?thesis using folders unlocked by (auto simp: sync_once_def sync_pass_def Let_def)
  next
    case (Inr tiers)
    show ?thesis
    proof (cases "list_watched_files (sy_client env) tiers")
      case (Inl e)
      then show ?thesis using listed Inr unlocked by (auto simp: sync_once_def sync_pass_def Let_def list_watched_files_def)
    next
      case listing: (Inr found)
      let ?s1 = "report (\<lambda>out. out\<lparr> o_files_found := length found \<rparr>) (s\<lparr> ds_outcome := new_outcome \<rparr>)"
      let ?items = "first_items limit (sort_key (\<lambda>x. df_name (fst x)) (map snd found))"
      obtain e s2 where items: "sync_items env dry ?items ?s1 = (e, s2)" by fastforce
      have "not_busy e" using items_not_busy [of env dry ?items ?s1] unfolding items fst_conv .
      then show ?thesis using reconcile_not_busy items Inr listing unlocked
        by (cases e) (simp_all add: sync_once_def sync_pass_def Let_def)
    qed
  qed
qed


section \<open>A run decides the next one\<close>

definition well_scheduled :: "int \<Rightarrow> worker_env \<Rightarrow> bool" where
  "well_scheduled off env =
     (fixed_offset off (wk_zone env) \<and> 0 \<le> wk_retry env
      \<and> (if wk_at env = [] then 0 < wk_interval env else \<exists>hm. parse_at (wk_at env) = Inr hm))"

definition after_success :: "worker_env \<Rightarrow> time \<Rightarrow> (string, time) result" where
  "after_success env t = (if wk_at env = [] then Inr (t + wk_interval env) else next_slot_after t (wk_at env) (wk_zone env))"

lemma after_success_later:
  assumes "well_scheduled off env"
  shows "\<exists>d. after_success env t = Inr d \<and> t < d"
proof (cases "wk_at env = []")
  case False
  then obtain h m where "parse_at (wk_at env) = Inr (h, m)" using assms by (auto simp: well_scheduled_def)
  then show ?thesis using slot_shape [of off "wk_zone env" "wk_at env" h m t] assms False
    by (auto simp: after_success_def well_scheduled_def)
qed (use assms in \<open>auto simp: after_success_def well_scheduled_def\<close>)

lemma read_written [simp]:
  "read_state k (write_state [] tb) = read_state k tb"
  "read_state k (write_state ((k', v) # kvs) tb) = read_state k (write_state kvs (AList.update k' v tb))"
  "read_state k (AList.update k' v tb) = (if k' = k then v else read_state k tb)"
  by (simp_all add: write_state_def read_state_def update_conv')

lemma due_after_last_success:
  assumes "well_scheduled off env" "due_at env c tb = Inr due" "parse_time env (read_state ''last_success_at'' tb) = Some t"
  shows "t < due"
proof -
  obtain d where d: "after_success env t = Inr d" "t < d" using after_success_later [OF assms(1)] by blast
  show ?thesis using assms d
    by (auto simp: due_at_def compute_due_def Let_def after_success_def well_scheduled_def split: option.splits bool.splits if_splits)
qed

text \<open>How a run that counts ends, and what it leaves in the table.\<close>

lemma run_once_ran:
  assumes "run_once env c1 c2 c3 (s, tb) = (Inr True, s1, tb1)"
  shows "\<not> wk_read_fails env \<and> \<not> wk_write_fails env \<and> (\<exists>due. due_at env c1 tb = Inr due \<and> due \<le> c2)
    \<and> read_state ''last_attempt_at'' tb1 = Some (wk_to_iso env c3)
    \<and> ((read_state ''last_error'' tb1 = None \<and> read_state ''last_success_at'' tb1 = Some (wk_to_iso env c3))
       \<or> ((\<exists>e. e \<noteq> [] \<and> read_state ''last_error'' tb1 = Some e)
          \<and> read_state ''last_success_at'' tb1 = read_state ''last_success_at'' tb))"
  using assms by (auto simp: run_once_def Let_def split: if_splits sum.splits prod.splits option.splits sync_exn.splits drive_error.splits)

lemma run_once_due:
  assumes "due_at env d1 tb = Inr due" "\<not> wk_read_fails env"
  shows "d2 < due \<Longrightarrow> run_once env d1 d2 d3 (s, tb) = (Inr False, s, tb)"
    "due \<le> d2 \<Longrightarrow> \<not> sy_locked (wk_sync env) \<Longrightarrow> \<not> wk_write_fails env \<Longrightarrow> fst (run_once env d1 d2 d3 (s, tb)) = Inr True"
proof -
  show "run_once env d1 d2 d3 (s, tb) = (Inr False, s, tb)" if "d2 < due" using assms that by (simp add: run_once_def)
  assume a: "due \<le> d2" "\<not> sy_locked (wk_sync env)" "\<not> wk_write_fails env"
  obtain e s1 where run: "default_sync env s = (e, s1)" by fastforce
  have "not_busy (fst (default_sync env s))" using pass_not_busy [OF a(2)] by (simp add: default_sync_def split: option.split)
  then have "not_busy e" unfolding run fst_conv .
  then show "fst (run_once env d1 d2 d3 (s, tb)) = Inr True"
    using assms a by (simp add: run_once_def run split: option.split sync_exn.split drive_error.split)
qed

text \<open>A run decides when the next one is, and nothing else does. Once a run has gone through, successfully or not, the
worker leaves everything alone until the first scheduled slot after it started, or, when it failed, until the retry
time has passed since it started; and the first time it looks at or after that moment, however late, it runs again,
unless another process is running the sync.\<close>

theorem run_decides_the_next_one:
  assumes "\<And>t. wk_from_iso env (wk_to_iso env t) = Some t" "\<And>t. wk_to_iso env t \<noteq> []" "well_scheduled off env"
    and "run_once env c1 c2 c3 (s, tb) = (Inr True, s1, tb1)" "c2 \<le> c3"
  shows "\<exists>due. (if read_state ''last_error'' tb1 = None then after_success env c3 = Inr due else due = c3 + wk_retry env)
    \<and> (\<forall>sy cf d1 d2 d3 s2. let later = env\<lparr> wk_sync := sy, wk_connect_fails := cf \<rparr> in
        (d2 < due \<longrightarrow> run_once later d1 d2 d3 (s2, tb1) = (Inr False, s2, tb1))
        \<and> (due \<le> d2 \<and> \<not> sy_locked sy \<longrightarrow> fst (run_once later d1 d2 d3 (s2, tb1)) = Inr True))"
proof -
  note ran = run_once_ran [OF assms(4)]
  have iso: "parse_time env (Some (wk_to_iso env t)) = Some t" for t using assms(1,2) by (simp add: parse_time_def)
  have same: "due_at (env\<lparr> wk_sync := sy, wk_connect_fails := cf \<rparr>) d tb1 = due_at env d tb1" for sy cf d
  proof -
    have "parse_time (env\<lparr> wk_sync := sy, wk_connect_fails := cf \<rparr>) = parse_time env"
      by (rule ext) (simp add: parse_time_def split: option.split)
    then show ?thesis by (simp add: due_at_def)
  qed
  obtain due where due: "if read_state ''last_error'' tb1 = None then after_success env c3 = Inr due else due = c3 + wk_retry env"
      "due_at env d tb1 = Inr due" for d
  proof (cases "read_state ''last_error'' tb1")
    case None
    then have "read_state ''last_success_at'' tb1 = Some (wk_to_iso env c3)" using ran by auto
    then have "due_at env d tb1 = after_success env c3" for d
      using None by (simp add: due_at_def compute_due_def iso after_success_def)
    then show ?thesis using that None after_success_later [OF assms(3), of c3] by auto
  next
    case (Some e)
    then have r: "e \<noteq> []" "read_state ''last_success_at'' tb1 = read_state ''last_success_at'' tb"
        "read_state ''last_attempt_at'' tb1 = Some (wk_to_iso env c3)" using ran by auto
    have "t < c3" if "parse_time env (read_state ''last_success_at'' tb) = Some t" for t
      using due_after_last_success [OF assms(3) _ that] ran assms(5) by fastforce
    then have "due_at env d tb1 = Inr (c3 + wk_retry env)" for d
      by (cases "parse_time env (read_state ''last_success_at'' tb)") (use Some r in \<open>simp_all add: due_at_def compute_due_def iso\<close>)
    then show ?thesis using that Some by auto
  qed
  have "let later = env\<lparr> wk_sync := sy, wk_connect_fails := cf \<rparr> in
        (d2 < due \<longrightarrow> run_once later d1 d2 d3 (s2, tb1) = (Inr False, s2, tb1))
        \<and> (due \<le> d2 \<and> \<not> sy_locked sy \<longrightarrow> fst (run_once later d1 d2 d3 (s2, tb1)) = Inr True)" for sy cf d1 d2 d3 s2
    using run_once_due [of "env\<lparr> wk_sync := sy, wk_connect_fails := cf \<rparr>" d1 tb1 due] ran by (simp add: same due(2) Let_def)
  then show ?thesis using due(1) by blast
qed


text \<open>The worker of the witness keeps times in unary and knows no other text.\<close>

definition sample_worker :: worker_env where
  "sample_worker =
     \<lparr> wk_sync = sample_sync, wk_enabled = True, wk_at = ''00:00'', wk_zone = india, wk_interval = 900, wk_retry = 3600,
       wk_to_iso = (\<lambda>t. (if t < 0 then CHR ''-'' else CHR ''+'') # replicate (nat \<bar>t\<bar>) (CHR ''1'')),
       wk_from_iso = (\<lambda>s. case s of [] \<Rightarrow> None | c # cs \<Rightarrow>
          if c = CHR ''-'' then Some (- int (length cs)) else if c = CHR ''+'' then Some (int (length cs)) else None),
       wk_connect_fails = None, wk_type_name = (\<lambda>e. ''DriveSyncError''), wk_read_fails = False, wk_write_fails = False \<rparr>"

theorem run_decides_the_next_one_witness:
  "\<exists>s1 tb1 due. run_once sample_worker 100 100 100 (edited_file, []) = (Inr True, s1, tb1)
     \<and> (\<forall>d s2. d < due \<longrightarrow> run_once sample_worker d d d (s2, tb1) = (Inr False, s2, tb1))"
proof -
  have "fst (run_once sample_worker 100 100 100 (edited_file, [])) = Inr True"
    by (rule run_once_due(2) [where due = 100]) (simp_all add: sample_worker_def due_at_def compute_due_def read_state_def parse_time_def sample_sync_def)
  then obtain s1 tb1 where run: "run_once sample_worker 100 100 100 (edited_file, []) = (Inr True, s1, tb1)"
    by (metis prod.collapse)
  have p: "parse_at ''00:00'' = Inr (0, 0)" by code_simp
  have "well_scheduled 19800 sample_worker"
    by (simp add: well_scheduled_def sample_worker_def p) (simp add: fixed_offset_def india_def)
  moreover have "wk_from_iso sample_worker (wk_to_iso sample_worker t) = Some t" "wk_to_iso sample_worker t \<noteq> []" for t
    by (auto simp: sample_worker_def)
  ultimately obtain due where "\<forall>sy cf d1 d2 d3 s2. let later = sample_worker\<lparr> wk_sync := sy, wk_connect_fails := cf \<rparr> in
        (d2 < due \<longrightarrow> run_once later d1 d2 d3 (s2, tb1) = (Inr False, s2, tb1))
        \<and> (due \<le> d2 \<and> \<not> sy_locked sy \<longrightarrow> fst (run_once later d1 d2 d3 (s2, tb1)) = Inr True)"
    using run_decides_the_next_one [OF _ _ _ run, of 19800] by blast
  then have "d < due \<longrightarrow> run_once (sample_worker\<lparr> wk_sync := wk_sync sample_worker, wk_connect_fails := wk_connect_fails sample_worker \<rparr>)
      d d d (s2, tb1) = (Inr False, s2, tb1)" for d s2 unfolding Let_def by blast
  then show ?thesis using run by auto
qed

end
