(* ===== verification/PictureTables.thy ===== *)
theory PictureTables
  imports Artifacts PyNumber
begin

text \<open>\<open>extraction/picture_tables.py\<close>: reading a table, and the text around it, out of a picture of one. The OCR engine, the
grid finder and the pixel operations of OpenCV are third-party: they are the fields of a record, over an abstract type
of images. Everything the module does with what they return is modelled, with coordinates and scores as exact
rationals. An engine that raises ends the reading of the picture; its caller takes that as a picture not read.\<close>

section \<open>What the engines hand back\<close>

type_synonym box = "int \<times> int \<times> int \<times> int"

record ocr_word =
  w_text :: string
  w_score :: rat
  w_x1 :: rat
  w_y1 :: rat
  w_x2 :: rat
  w_y2 :: rat

record grid =
  gr_box :: box
  gr_cells :: "box list list"

record image_table =
  it_rows :: "string list list"
  it_box :: box
  it_title :: string

record image_reading =
  ir_tables :: "image_table list"
  ir_lines :: "string list"
  ir_unreadable :: nat

text \<open>\<open>vi_detect\<close> is the engine with its detector: text, score and corner points; \<open>vi_recognise\<close> is the engine on one line.
\<open>vi_crop im y1 y2 x1 x2\<close> is \<open>im[y1:y2, x1:x2]\<close>, \<open>None\<close> when that is empty; \<open>vi_border im v h\<close> adds white, \<open>vi_double\<close>
enlarges twice, \<open>vi_fit\<close> scales to a size, \<open>vi_turn\<close> is a quarter turn, clockwise or not, \<open>vi_gray\<close> the gray values.\<close>

record 'img vision =
  vi_size :: "'img \<Rightarrow> nat \<times> nat"
  vi_grids :: "'img \<Rightarrow> grid list"
  vi_detect :: "'img \<Rightarrow> (string option \<times> rat \<times> (rat \<times> rat) list) list"
  vi_recognise :: "'img \<Rightarrow> (string \<times> rat) list"
  vi_crop :: "'img \<Rightarrow> int \<Rightarrow> int \<Rightarrow> int \<Rightarrow> int \<Rightarrow> 'img option"
  vi_border :: "'img \<Rightarrow> nat \<Rightarrow> nat \<Rightarrow> 'img"
  vi_double :: "'img \<Rightarrow> 'img"
  vi_fit :: "'img \<Rightarrow> nat \<times> nat \<Rightarrow> 'img"
  vi_turn :: "bool \<Rightarrow> 'img \<Rightarrow> 'img"
  vi_gray :: "'img \<Rightarrow> nat list"

record reader_settings =
  min_confidence :: rat
  cell_min_confidence :: rat

definition MIN_CELLS :: nat where "MIN_CELLS = 6"
definition MIN_FILLED :: rat where "MIN_FILLED = 1 / 2"
definition MAX_TABLES :: nat where "MAX_TABLES = 3"
definition UPSCALE_BELOW_PX :: nat where "UPSCALE_BELOW_PX = 900"
definition INK_GRAY :: nat where "INK_GRAY = 110"
definition INK_SHARE :: rat where "INK_SHARE = 1 / 100"
definition DOUBTFUL :: rat where "DOUBTFUL = 9 / 10"
definition DOUBTFUL_FLOOR :: rat where "DOUBTFUL_FLOOR = 3 / 10"
definition MAX_REREADS :: nat where "MAX_REREADS = 6"
definition SOLO_LINE_CONFIDENCE :: rat where "SOLO_LINE_CONFIDENCE = 9 / 10"
definition SOLO_LINE_LETTERS :: nat where "SOLO_LINE_LETTERS = 8"
definition SHORT_WORD_CONFIDENCE :: rat where "SHORT_WORD_CONFIDENCE = 95 / 100"
definition SIDEWAYS_RATIO :: rat where "SIDEWAYS_RATIO = 16 / 10"
definition COLUMN_GAP :: rat where "COLUMN_GAP = 2"
definition STACK_GAP :: rat where "STACK_GAP = 18 / 10"

section \<open>Words\<close>

definition centre_x :: "ocr_word \<Rightarrow> rat" where "centre_x w = (w_x1 w + w_x2 w) / 2"
definition centre_y :: "ocr_word \<Rightarrow> rat" where "centre_y w = (w_y1 w + w_y2 w) / 2"
definition word_height :: "ocr_word \<Rightarrow> rat" where "word_height w = w_y2 w - w_y1 w"

definition words_of :: "'img vision \<Rightarrow> 'img \<Rightarrow> ocr_word list" where
  "words_of v img =
     List.map_filter (\<lambda>(t, score, points).
         let text = strip (case t of None \<Rightarrow> [] | Some s \<Rightarrow> s) in
         if text = [] then None
         else Some \<lparr> w_text = text, w_score = score,
           w_x1 = Min (set (map fst points)), w_y1 = Min (set (map snd points)),
           w_x2 = Max (set (map fst points)), w_y2 = Max (set (map snd points)) \<rparr>)
       (vi_detect v img)"

definition line_of :: "'img vision \<Rightarrow> 'img \<Rightarrow> string \<times> rat" where
  "line_of v img =
     (let found = vi_recognise v img in
      if found = [] then ([], 0)
      else (strip (join '' '' (map (\<lambda>(t, s). strip t) found)), sum_list (map snd found) / of_nat (length found)))"

text \<open>\<open>int(v)\<close> of a float, and Python's \<open>round\<close>.\<close>

definition trunc :: "rat \<Rightarrow> int" where "trunc x = (if 0 \<le> x then \<lfloor>x\<rfloor> else - \<lfloor>- x\<rfloor>)"
definition py_round :: "rat \<Rightarrow> int" where "py_round x = (if 0 \<le> x then round_even x else - round_even (- x))"

definition inside_box :: "box \<Rightarrow> ocr_word \<Rightarrow> bool" where
  "inside_box b w =
     (case b of (x1, y1, x2, y2) \<Rightarrow>
        of_int x1 - 2 \<le> centre_x w \<and> centre_x w \<le> of_int x2 + 2 \<and> of_int y1 - 2 \<le> centre_y w \<and> centre_y w \<le> of_int y2 + 2)"

definition box_covers :: "box \<Rightarrow> ocr_word \<Rightarrow> bool" where
  "box_covers b w =
     (case b of (x1, y1, x2, y2) \<Rightarrow>
        let width = w_x2 w - w_x1 w; height = w_y2 w - w_y1 w;
            across = min (of_int x2) (w_x2 w) - max (of_int x1) (w_x1 w);
            down = min (of_int y2) (w_y2 w) - max (of_int y1) (w_y1 w)
        in 0 < width \<and> 0 < height \<and> 8 / 10 * width \<le> across \<and> 1 / 2 * height \<le> down)"

definition has_ink :: "'img vision \<Rightarrow> 'img \<Rightarrow> box \<Rightarrow> bool" where
  "has_ink v img b =
     (case b of (x1, y1, x2, y2) \<Rightarrow>
        case vi_crop v img (y1 + 3) (y2 - 3) (x1 + 3) (x2 - 3) of
          None \<Rightarrow> False
        | Some crop \<Rightarrow>
            (let (h, w) = vi_size v crop; gray = vi_gray v crop in
             150 \<le> h * w \<and> INK_SHARE < of_nat (length (filter (\<lambda>g. g < INK_GRAY) gray)) / of_nat (length gray)))"

section \<open>Lines\<close>

text \<open>The height of a typical word: the middle one, and one when that is zero.\<close>

definition typical_height :: "ocr_word list \<Rightarrow> rat" where
  "typical_height ws = (let h = sort (map word_height ws) ! (length ws div 2) in if h = 0 then 1 else h)"

definition mean_y :: "ocr_word list \<Rightarrow> rat" where
  "mean_y ws = sum_list (map centre_y ws) / of_nat (length ws)"

text \<open>Words into rows, top to bottom: a word joins the last row when its centre is near that row's mean.\<close>

definition add_to_rows :: "rat \<Rightarrow> ocr_word list list \<Rightarrow> ocr_word \<Rightarrow> ocr_word list list" where
  "add_to_rows typical rows w =
     (if rows \<noteq> [] \<and> \<bar>centre_y w - mean_y (last rows)\<bar> \<le> 6 / 10 * typical
      then butlast rows @ [last rows @ [w]] else rows @ [[w]])"

definition word_rows :: "ocr_word list \<Rightarrow> ocr_word list list" where
  "word_rows ws =
     map (sort_key w_x1)
       (foldl (add_to_rows (typical_height ws)) [] (sort_key centre_y (sort_key w_x1 ws)))"

record text_line =
  tl_text :: string
  tl_y :: rat
  tl_left :: rat
  tl_right :: rat
  tl_score :: rat

definition joined :: "ocr_word list \<Rightarrow> string" where
  "joined ws = join '' '' (map w_text ws)"

definition lowest_score :: "ocr_word list \<Rightarrow> rat" where
  "lowest_score ws = Min (set (map w_score ws))"

definition group_lines :: "ocr_word list \<Rightarrow> text_line list" where
  "group_lines ws =
     map (\<lambda>row. \<lparr> tl_text = joined row, tl_y = mean_y row, tl_left = w_x1 (hd row), tl_right = w_x2 (last row),
                  tl_score = lowest_score row \<rparr>) (word_rows ws)"

section \<open>Blocks of text\<close>

text \<open>A row is cut where the gap between two words is wide.\<close>

definition add_to_pieces :: "rat \<Rightarrow> ocr_word list list \<Rightarrow> ocr_word \<Rightarrow> ocr_word list list" where
  "add_to_pieces typical pieces w =
     (if pieces = [] \<or> COLUMN_GAP * typical < w_x1 w - w_x2 (last (last pieces))
      then pieces @ [[w]] else butlast pieces @ [last pieces @ [w]])"

definition pieces_of :: "rat \<Rightarrow> ocr_word list \<Rightarrow> ocr_word list list" where
  "pieces_of typical row = foldl (add_to_pieces typical) [] row"

record text_block =
  tb_parts :: "string list"
  tb_top :: rat
  tb_bottom :: rat
  tb_left :: rat
  tb_right :: rat
  tb_score :: rat

text \<open>A piece goes under a block it is close to and lines up with.\<close>

definition stacks_under :: "rat \<Rightarrow> ocr_word list \<Rightarrow> text_block \<Rightarrow> bool" where
  "stacks_under typical piece b =
     (let left = w_x1 (hd piece); right = w_x2 (last piece); gap = mean_y piece - tb_bottom b in
      0 < gap \<and> gap \<le> STACK_GAP * typical
      \<and> (3 / 10 * min (right - left) (tb_right b - tb_left b) \<le> min right (tb_right b) - max left (tb_left b)
         \<or> \<bar>left - tb_left b\<bar> \<le> 15 / 10 * typical))"

definition put_under :: "ocr_word list \<Rightarrow> text_block \<Rightarrow> text_block" where
  "put_under piece b =
     b\<lparr> tb_parts := tb_parts b @ [joined piece], tb_bottom := mean_y piece,
        tb_score := min (tb_score b) (lowest_score piece),
        tb_left := min (tb_left b) (w_x1 (hd piece)), tb_right := max (tb_right b) (w_x2 (last piece)) \<rparr>"

definition new_block :: "ocr_word list \<Rightarrow> text_block" where
  "new_block piece =
     \<lparr> tb_parts = [joined piece], tb_top = mean_y piece, tb_bottom = mean_y piece, tb_left = w_x1 (hd piece),
       tb_right = w_x2 (last piece), tb_score = lowest_score piece \<rparr>"

text \<open>The newest block that fits takes the piece; blocks are kept newest first here.\<close>

fun place_piece :: "rat \<Rightarrow> ocr_word list \<Rightarrow> text_block list \<Rightarrow> text_block list option" where
  "place_piece typical piece [] = None"
| "place_piece typical piece (b # bs) =
     (if stacks_under typical piece b then Some (put_under piece b # bs) else map_option (Cons b) (place_piece typical piece bs))"

definition add_piece :: "rat \<Rightarrow> text_block list \<Rightarrow> ocr_word list \<Rightarrow> text_block list" where
  "add_piece typical blocks piece =
     (case place_piece typical piece blocks of Some bs \<Rightarrow> bs | None \<Rightarrow> new_block piece # blocks)"

definition line_of_block :: "text_block \<Rightarrow> text_line" where
  "line_of_block b =
     \<lparr> tl_text = join [NL] (tb_parts b), tl_y = tb_bottom b, tl_left = tb_left b, tl_right = tb_right b, tl_score = tb_score b \<rparr>"

definition text_blocks :: "ocr_word list \<Rightarrow> text_line list" where
  "text_blocks ws =
     (let typical = typical_height ws;
          blocks = foldl (add_piece typical) [] (concat (map (pieces_of typical) (word_rows ws)))
      in if ws = [] then []
         else map line_of_block
           (sort_key (\<lambda>b. py_round (tb_top b / (3 * typical))) (sort_key tb_left (rev blocks))))"

text \<open>The line just above a table and over it; the lowest such line is its title.\<close>

definition title_above :: "text_line list \<Rightarrow> box \<Rightarrow> text_line option" where
  "title_above lines b =
     (case b of (x1, y1, x2, y2) \<Rightarrow>
        let reach = 12 / 100 * of_int (max (y2 - y1) 1) + 60;
            above = filter (\<lambda>l. tl_y l < of_int y1 \<and> of_int y1 - tl_y l \<le> reach \<and> of_int x1 \<le> tl_right l \<and> tl_left l \<le> of_int x2) lines
        in case sort_key (\<lambda>l. - tl_y l) above of [] \<Rightarrow> None | l # _ \<Rightarrow> Some l)"

definition one_confident_line :: "text_line list \<Rightarrow> bool" where
  "one_confident_line lines =
     (case lines of [l] \<Rightarrow> SOLO_LINE_CONFIDENCE \<le> tl_score l \<and> SOLO_LINE_LETTERS \<le> length (filter is_alpha (tl_text l)) | _ \<Rightarrow> False)"

definition n_columns :: "grid \<Rightarrow> nat" where
  "n_columns g = foldr max (map length (gr_cells g)) 0"

definition is_table_grid :: "grid \<Rightarrow> bool" where
  "is_table_grid g =
     (2 \<le> length (gr_cells g) \<and> 2 \<le> n_columns g \<and> MIN_CELLS \<le> length (gr_cells g) * n_columns g)"

definition drop_empty :: "string list list \<Rightarrow> string list list" where
  "drop_empty rows =
     (let kept = filter (list_ex (\<lambda>c. c \<noteq> [])) rows in
      case kept of [] \<Rightarrow> []
      | first # _ \<Rightarrow> map (\<lambda>r. map ((!) r) (filter (\<lambda>c. list_ex (\<lambda>r. r ! c \<noteq> []) kept) [0..<length first])) kept)"

section \<open>Similar strings\<close>

text \<open>\<open>difflib.SequenceMatcher\<close> on short strings: the longest common block, the first in \<open>a\<close> and then in \<open>b\<close>, and the same on
either side of it. \<open>ratio\<close> is twice the matched length over the two lengths.\<close>

fun common_prefix :: "string \<Rightarrow> string \<Rightarrow> nat" where
  "common_prefix (x # xs) (y # ys) = (if x = y then Suc (common_prefix xs ys) else 0)"
| "common_prefix xs ys = 0"

definition longest_match :: "string \<Rightarrow> string \<Rightarrow> nat \<times> nat \<times> nat" where
  "longest_match a b =
     foldl (\<lambda>(i0, j0, k0) (i, j). let k = common_prefix (drop i a) (drop j b) in if k0 < k then (i, j, k) else (i0, j0, k0))
       (0, 0, 0) (List.product [0..<length a] [0..<length b])"

lemma common_prefix_le: "common_prefix a b \<le> length a" "common_prefix a b \<le> length b"
  by (induction a b rule: common_prefix.induct) auto

lemma longest_match_within:
  assumes "longest_match a b = (i, j, k)"
  shows "i + k \<le> length a" "j + k \<le> length b"
proof -
  let ?f = "\<lambda>(i0, j0, k0) (i, j). let k = common_prefix (drop i a) (drop j b) in if k0 < k then (i, j, k) else (i0, j0, k0)"
  let ?ok = "\<lambda>(i, j, k). i + k \<le> length a \<and> j + k \<le> length b"
  have "?ok (foldl ?f st xs)" if "?ok st" "\<forall>(i, j)\<in>set xs. i < length a \<and> j < length b" for st xs
    using that
  proof (induction xs arbitrary: st)
    case (Cons x xs)
    obtain i j where x: "x = (i, j)" by (cases x)
    obtain i0 j0 k0 where st: "st = (i0, j0, k0)" by (cases st)
    have "i < length a" "j < length b" using Cons.prems(2) x by auto
    then have "?ok (?f st x)"
      using Cons.prems(1) common_prefix_le [of "drop i a" "drop j b"] by (auto simp: x st Let_def)
    then show ?case using Cons by (simp add: x)
  qed simp
  from this [of "(0, 0, 0)" "List.product [0..<length a] [0..<length b]"] assms
  show "i + k \<le> length a" "j + k \<le> length b" by (auto simp: longest_match_def)
qed

function matched_length :: "string \<Rightarrow> string \<Rightarrow> nat" where
  "matched_length a b =
     (case longest_match a b of (i, j, k) \<Rightarrow>
        if k = 0 then 0
        else k + matched_length (take i a) (take j b) + matched_length (drop (i + k) a) (drop (j + k) b))"
  by pat_completeness auto
termination
  by (relation "measure (\<lambda>(a, b). length a)") (auto dest!: longest_match_within(1) [OF sym])

declare matched_length.simps [simp del]

definition ratio :: "string \<Rightarrow> string \<Rightarrow> rat" where
  "ratio a b =
     (if length a + length b = 0 then 1 else 2 * of_nat (matched_length a b) / of_nat (length a + length b))"

lemma ratios: "ratio ''aprii'' ''april'' = 8 / 10" "ratio ''au'' ''aug'' = 8 / 10" "ratio ''abxcd'' ''abcd'' = 8 / 9"
  by code_simp+

section \<open>Month headers\<close>

definition MONTHS :: "string list" where
  "MONTHS = [''january'', ''february'', ''march'', ''april'', ''may'', ''june'', ''july'', ''august'',
             ''september'', ''october'', ''november'', ''december'']"

definition MAX_DAMAGED_LETTERS :: nat where "MAX_DAMAGED_LETTERS = 6"

text \<open>What is left after \<open>[-'\s]*\<close>: two digits at most, or four, and blanks to the end. The group before it is the
shortest one of at most twelve characters that leaves such a rest.\<close>

definition month_tail :: "string \<Rightarrow> string option" where
  "month_tail t =
     (let u = dropWhile (\<lambda>c. c = CHR ''-'' \<or> c = CHR 0x27 \<or> is_space c) t; d = takeWhile is_decimal u in
      if length d \<in> {1, 2, 4} \<and> list_all is_space (dropWhile is_decimal u) then Some d else None)"

definition month_cell :: "string \<Rightarrow> (string \<times> string) option" where
  "month_cell s =
     (let t = lstrip s in
      case find (\<lambda>k. k \<le> length t \<and> NL \<notin> set (take k t) \<and> month_tail (drop k t) \<noteq> None) [0..<13] of
        None \<Rightarrow> None
      | Some k \<Rightarrow> map_option (\<lambda>d. (take k t, d)) (month_tail (drop k t)))"

definition as_letters :: "string \<Rightarrow> string" where
  "as_letters letters = map (\<lambda>c. if c = CHR ''0'' then CHR ''o'' else c) (lower letters)"

definition month_candidates :: "(nat \<times> string) list" where
  "month_candidates = concat (map (\<lambda>(i, name). [(i, name), (i, take 3 name)]) (zip [0..<12] MONTHS))"

definition month_index :: "string \<Rightarrow> nat option" where
  "month_index letters =
     (let text = as_letters letters;
          (best, r) = foldl (\<lambda>(best, r) (i, name). if r < ratio text name then (Some i, ratio text name) else (best, r))
                        (None, 0) month_candidates
      in if length text < 2 then None else if 75 / 100 \<le> r then best else None)"

definition capitalize :: "string \<Rightarrow> string" where
  "capitalize s = (case s of [] \<Rightarrow> [] | c # cs \<Rightarrow> (if is_lower_ascii c then char_of (code c - 32) else c) # cs)"

definition month_label :: "string \<Rightarrow> nat \<Rightarrow> int \<Rightarrow> string" where
  "month_label letters month year =
     (let full = MONTHS ! month; short = take 3 full; text = as_letters letters in
      capitalize (if text \<noteq> [] \<and> ratio text full \<le> ratio text short then short else full)
      @ ''-'' @ pad_left 2 (int_digits (year mod 100)))"

text \<open>A month-shaped cell: what survives of its letters, the month they are close to, and its year.\<close>

definition month_reading :: "string \<Rightarrow> (string \<times> nat option \<times> int option) option" where
  "month_reading s =
     (case month_cell s of
        None \<Rightarrow> None
      | Some (name, digits) \<Rightarrow>
          let letters = filter (\<lambda>c. is_upper_ascii c \<or> is_lower_ascii c \<or> is_decimal c) name in
          if MAX_DAMAGED_LETTERS < length letters then None
          else Some (letters, month_index letters,
            if length digits = 2 then map_option (\<lambda>n. 2000 + n) (digits_value 0 False digits) else None))"

text \<open>The run of month-shaped columns around \<open>[first, last]\<close>.\<close>

fun month_run_left :: "(nat \<Rightarrow> bool) \<Rightarrow> nat \<Rightarrow> nat" where
  "month_run_left shaped 0 = 0"
| "month_run_left shaped (Suc c) = (if shaped c then month_run_left shaped c else Suc c)"

fun month_run_right :: "(nat \<Rightarrow> bool) \<Rightarrow> nat \<Rightarrow> nat \<Rightarrow> nat" where
  "month_run_right shaped 0 c = c"
| "month_run_right shaped (Suc fuel) c = (if shaped (Suc c) then month_run_right shaped fuel (Suc c) else c)"

text \<open>The cells that read and have a year vote for the month the first column would be; ties go to the first.\<close>

definition month_votes :: "(nat \<times> nat \<times> int) list \<Rightarrow> (int \<times> nat) list" where
  "month_votes readings =
     foldl (\<lambda>votes (c, month, year).
         let offset = year * 12 + int month - int c in
         AList.update offset (case map_of votes offset of None \<Rightarrow> 1 | Some n \<Rightarrow> n + 1) votes)
       [] readings"

definition repaired_cell :: "(string \<times> nat option \<times> int option) option \<Rightarrow> int \<Rightarrow> string \<Rightarrow> string" where
  "repaired_cell reading absolute old =
     (let year = absolute div 12; month = nat (absolute mod 12);
          letters = (case reading of None \<Rightarrow> [] | Some (l, _) \<Rightarrow> l)
      in if (case reading of None \<Rightarrow> False
             | Some (l, _, y) \<Rightarrow> lower l \<in> {MONTHS ! month, take 3 (MONTHS ! month)} \<and> y = Some year)
         then old else month_label letters month year)"

type_synonym reading = "(string \<times> nat option \<times> int option) option"

definition known_months :: "reading list \<Rightarrow> nat list" where
  "known_months readings =
     filter (\<lambda>c. case readings ! c of Some (l, Some m, y) \<Rightarrow> True | _ \<Rightarrow> False) [0..<length readings]"

definition shaped :: "reading list \<Rightarrow> nat \<Rightarrow> bool" where
  "shaped readings c = (c < length readings \<and> readings ! c \<noteq> None)"

text \<open>Where the run starts, if at least four readable cells and three quarters of those with a year agree on it.\<close>

definition ballots :: "reading list \<Rightarrow> (nat \<times> nat \<times> int) list" where
  "ballots readings =
     List.map_filter (\<lambda>c. case readings ! c of Some (l, Some m, Some y) \<Rightarrow> Some (c, m, y) | _ \<Rightarrow> None) (known_months readings)"

definition agreed_offset :: "reading list \<Rightarrow> int option" where
  "agreed_offset readings =
     (let votes = month_votes (ballots readings) in
      case sort_key (\<lambda>(offset, n). - int n) votes of
        [] \<Rightarrow> None
      | (offset, support) # _ \<Rightarrow> if support < 4 \<or> 4 * support < 3 * sum_list (map snd votes) then None else Some offset)"

definition run_is_broken :: "string list \<Rightarrow> reading list \<Rightarrow> bool" where
  "run_is_broken row readings =
     (let known = known_months readings in
      length known < 4 \<or> list_ex (\<lambda>c. readings ! c = None \<and> strip (row ! c) \<noteq> []) [hd known..<Suc (last known)])"

definition repair_month_headers :: "string list \<Rightarrow> string list" where
  "repair_month_headers row =
     (let readings = map month_reading row in
      if run_is_broken row readings then row
      else case agreed_offset readings of
          None \<Rightarrow> row
        | Some offset \<Rightarrow>
            let first = month_run_left (shaped readings) (hd (known_months readings));
                final = month_run_right (shaped readings) (length row) (last (known_months readings))
            in map (\<lambda>(c, old, reading). if first \<le> c \<and> c \<le> final then repaired_cell reading (offset + int c) old else old)
                 (zip [0..<length row] (zip row readings)))"

lemma months_repaired:
  "repair_month_headers [''Plant'', ''APriI-9'', ''May-19'', ''n-9'', ''y-19'', ''Aug-19'', ''Sep-19'', ''Oct-19'', ''Total'']
   = [''Plant'', ''April-19'', ''May-19'', ''Jun-19'', ''July-19'', ''Aug-19'', ''Sep-19'', ''Oct-19'', ''Total'']"
  by code_simp

text \<open>A month of more than six letters, written out, does not count as month-shaped and stops the repair of its row.\<close>

lemma long_months_stop_the_repair:
  "repair_month_headers [''l--19'', ''May-19'', ''June-19'', ''July-19'', ''August-19'', ''September-19'', ''Oct-19'']
   = [''l--19'', ''May-19'', ''June-19'', ''July-19'', ''August-19'', ''September-19'', ''Oct-19'']"
  "repair_month_headers [''l--19'', ''May-19'', ''June-19'', ''July-19'', ''August-19'', ''Sep-19'', ''Oct-19'']
   = [''April-19'', ''May-19'', ''June-19'', ''July-19'', ''August-19'', ''Sep-19'', ''Oct-19'']"
  by code_simp+

section \<open>A header run into the first row of figures\<close>

definition is_figure :: "string \<Rightarrow> bool" where
  "is_figure s =
     (let ended = (\<lambda>t. t = [] \<or> t = [NL]); rest = dropWhile is_decimal s in
      takeWhile is_decimal s \<noteq> []
      \<and> (ended rest \<or> (case rest of [] \<Rightarrow> False
           | c # cs \<Rightarrow> (c = CHR ''.'' \<or> c = CHR '','') \<and> takeWhile is_decimal cs \<noteq> [] \<and> ended (dropWhile is_decimal cs))))"

definition fused_label :: "string \<Rightarrow> string option" where
  "fused_label s =
     (let name = takeWhile (\<lambda>c. \<not> is_space c) s; rest = dropWhile (\<lambda>c. \<not> is_space c) s in
      if 1 \<le> length name \<and> length name \<le> 10 \<and> rest \<noteq> [] \<and> is_figure (lstrip rest)
         \<and> list_ex (\<lambda>c. is_upper_ascii c \<or> is_lower_ascii c) name
      then Some name else None)"

definition split_fused_header :: "string list list \<Rightarrow> string list list" where
  "split_fused_header rows =
     (case rows of
        [] \<Rightarrow> rows
      | first # rest \<Rightarrow>
          let fused = (\<lambda>c. if 1 \<le> c \<and> c < length first - 1 then fused_label (first ! c) else None);
              n = length (filter (\<lambda>c. fused c \<noteq> None) [0..<length first])
          in if length rows < 3 \<or> length first < 5 \<or> n < 4 \<or> 10 * n < 6 * (length first - 2) then rows
             else map (\<lambda>c. case fused c of Some name \<Rightarrow> name | None \<Rightarrow> first ! c) [0..<length first] # rest)"

section \<open>Second readings\<close>

text \<open>The pixels around a word, by \<open>margin\<close>.\<close>

definition crop_around :: "'img vision \<Rightarrow> 'img \<Rightarrow> rat \<Rightarrow> ocr_word \<Rightarrow> 'img option" where
  "crop_around v img margin w =
     vi_crop v img (max (trunc (w_y1 w - margin)) 0) (trunc (w_y2 w + margin))
       (max (trunc (w_x1 w - margin)) 0) (trunc (w_x2 w + margin))"

definition second_opinion :: "'img vision \<Rightarrow> 'img \<Rightarrow> ocr_word \<Rightarrow> ocr_word" where
  "second_opinion v img w =
     (if DOUBTFUL \<le> w_score w then w
      else case crop_around v img 4 w of
          None \<Rightarrow> w
        | Some crop \<Rightarrow>
            (let (t, score) = line_of v (vi_border v crop 8 8) in
             if t \<noteq> [] \<and> w_score w < score then w\<lparr> w_text := t, w_score := score \<rparr> else w))"

definition mean_score :: "ocr_word list \<Rightarrow> rat" where
  "mean_score ws = sum_list (map w_score ws) / of_nat (length ws)"

definition reread_word :: "'img vision \<Rightarrow> reader_settings \<Rightarrow> 'img \<Rightarrow> ocr_word \<Rightarrow> ocr_word" where
  "reread_word v cfg img w =
     (case crop_around v img 6 w of
        None \<Rightarrow> w
      | Some crop \<Rightarrow>
          let found = words_of v (vi_border v (vi_double v crop) 12 12) in
          (case group_lines found of
             [l] \<Rightarrow> if min_confidence cfg \<le> mean_score found then w\<lparr> w_text := tl_text l, w_score := mean_score found \<rparr> else w
           | _ \<Rightarrow> w))"

definition half_read :: "reader_settings \<Rightarrow> ocr_word \<Rightarrow> bool" where
  "half_read cfg w =
     (DOUBTFUL_FLOOR \<le> w_score w \<and> w_score w < min_confidence cfg \<and> 2 * (w_y2 w - w_y1 w) \<le> w_x2 w - w_x1 w)"

text \<open>The six best of the half-read words are read again, in place.\<close>

definition reread_doubtful_lines :: "'img vision \<Rightarrow> reader_settings \<Rightarrow> 'img \<Rightarrow> ocr_word list \<Rightarrow> ocr_word list" where
  "reread_doubtful_lines v cfg img ws =
     (let numbered = zip [0..<length ws] ws;
          chosen = map fst (take MAX_REREADS (sort_key (\<lambda>(i, w). - w_score w) (filter (\<lambda>(i, w). half_read cfg w) numbered)))
      in map (\<lambda>(i, w). if i \<in> set chosen then reread_word v cfg img w else w) numbered)"

definition padded_to :: "'img vision \<Rightarrow> nat \<Rightarrow> 'img \<Rightarrow> 'img" where
  "padded_to v least img = (let (h, w) = vi_size v img in vi_border v img ((least - h) div 2 + 8) ((least - w) div 2 + 8))"

text \<open>One cell read on its own; a sideways one both ways round, the first reading winning a tie.\<close>

definition read_crop :: "'img vision \<Rightarrow> reader_settings \<Rightarrow> 'img \<Rightarrow> box \<Rightarrow> bool \<Rightarrow> rat \<Rightarrow> string" where
  "read_crop v cfg img b sideways line_height =
     (case b of (x1, y1, x2, y2) \<Rightarrow>
        case vi_crop v img (y1 + 2) (y2 - 2) (x1 + 2) (x2 - 2) of
          None \<Rightarrow> []
        | Some crop \<Rightarrow>
            let (t, score) =
              (if sideways
               then (let a = line_of v (padded_to v 0 (vi_turn v True crop)); b = line_of v (padded_to v 0 (vi_turn v False crop))
                     in if snd a < snd b then b else a)
               else if of_nat (fst (vi_size v crop)) \<le> 22 / 10 * line_height then line_of v (padded_to v 0 crop)
               else (let found = filter (\<lambda>w. cell_min_confidence cfg \<le> w_score w) (words_of v (padded_to v 160 crop)) in
                     if found = [] then ([], cell_min_confidence cfg)
                     else (join '' '' (map tl_text (group_lines found)), mean_score found)))
            in if cell_min_confidence cfg \<le> score then t else [])"

section \<open>One table\<close>

definition grid_boxes :: "grid \<Rightarrow> box list list" where
  "grid_boxes g = map (\<lambda>row. row @ replicate (n_columns g - length row) (last row)) (gr_cells g)"

text \<open>The blocks, by first appearance, and the positions of each.\<close>

definition places_of :: "box list list \<Rightarrow> box \<Rightarrow> (nat \<times> nat) list" where
  "places_of boxes b =
     filter (\<lambda>(r, c). c < length (boxes ! r) \<and> boxes ! r ! c = b)
       (List.product [0..<length boxes] [0..<(case boxes of [] \<Rightarrow> 0 | row # _ \<Rightarrow> length row)])"

definition blocks_of :: "box list list \<Rightarrow> box list" where
  "blocks_of boxes = rev (remdups (rev (concat boxes)))"

definition block_span :: "box list list \<Rightarrow> box \<Rightarrow> span" where
  "block_span boxes b =
     (let rs = set (map fst (places_of boxes b)); cs = set (map snd (places_of boxes b)) in
      (Min rs, Min cs, Max rs - Min rs + 1, Max cs - Min cs + 1))"

definition box_spans :: "box list list \<Rightarrow> span option list list" where
  "box_spans boxes =
     map (map (\<lambda>b. if 1 < length (places_of boxes b) then Some (block_span boxes b) else None)) boxes"

text \<open>The block a word belongs to: the only one that covers it or, when none does, the first that holds its centre.\<close>

definition holds_centre :: "ocr_word \<Rightarrow> box \<Rightarrow> bool" where
  "holds_centre w b =
     (case b of (x1, y1, x2, y2) \<Rightarrow> of_int x1 \<le> centre_x w \<and> centre_x w \<le> of_int x2 \<and> of_int y1 \<le> centre_y w \<and> centre_y w \<le> of_int y2)"

definition owner :: "box list \<Rightarrow> ocr_word \<Rightarrow> box option" where
  "owner blocks w =
     (case filter (\<lambda>b. box_covers b w) blocks of
        [b] \<Rightarrow> Some b
      | [] \<Rightarrow> find (holds_centre w) blocks
      | _ \<Rightarrow> None)"

definition straddled :: "box list \<Rightarrow> ocr_word list \<Rightarrow> box \<Rightarrow> bool" where
  "straddled blocks inside b =
     list_ex (\<lambda>w. 2 \<le> length (filter (\<lambda>x. box_covers x w) blocks) \<and> box_covers b w) inside"

definition block_text ::
  "'img vision \<Rightarrow> reader_settings \<Rightarrow> 'img \<Rightarrow> box list list \<Rightarrow> ocr_word list \<Rightarrow> rat \<Rightarrow> (string \<times> rat) list \<Rightarrow> box \<Rightarrow> string" where
  "block_text v cfg img boxes inside line_height labels b =
     (case b of (x1, y1, x2, y2) \<Rightarrow>
        let blocks = blocks_of boxes;
            mine = filter (\<lambda>w. owner blocks w = Some b) inside;
            first_row = Min (set (map fst (places_of boxes b)));
            over = filter (\<lambda>(t, x). of_int x1 \<le> x \<and> x \<le> of_int x2) labels;
            tall = filter (\<lambda>w. 13 / 10 * (w_x2 w - w_x1 w) < w_y2 w - w_y1 w \<and> 2 \<le> length (w_text w)) mine;
            sideways = (SIDEWAYS_RATIO * of_int (x2 - x1) < of_int (y2 - y1) \<and> 8 < x2 - x1 \<and> first_row \<le> 1 \<and> (mine = [] \<or> tall \<noteq> []));
            again = (if straddled blocks inside b \<or> sideways \<or> (mine = [] \<and> has_ink v img b)
                     then read_crop v cfg img b sideways line_height else [])
        in if mine = [] \<and> first_row = 0 \<and> over \<noteq> [] then join '' '' (map fst over)
           else if again \<noteq> [] then again
           else join '' '' (map tl_text (group_lines mine)))"

text \<open>The text of a block in every position it covers, but a block over the whole width only in its first.\<close>

definition drawn_rows :: "box list list \<Rightarrow> (box \<Rightarrow> string) \<Rightarrow> string list list" where
  "drawn_rows boxes text_at =
     (let texts = map (\<lambda>b. (b, text_at b)) (blocks_of boxes) in
      map (\<lambda>(r, row, spans).
        map (\<lambda>(c, b, span).
          case span of
            Some (r0, c0, h, w) \<Rightarrow>
              if 1 < length row \<and> w = length row \<and> (r, c) \<noteq> (r0, c0) then [] else the (map_of texts b)
          | None \<Rightarrow> the (map_of texts b)) (zip [0..<length row] (zip row spans)))
      (zip [0..<length boxes] (zip boxes (box_spans boxes))))"

definition repair_first :: "string list list \<Rightarrow> string list list" where
  "repair_first rows = map repair_month_headers (take 2 rows) @ drop 2 rows"

text \<open>The words of the picture as the second readings leave them, and the table if it is one. An empty row of cells makes
the code raise.\<close>

definition build_table ::
  "'img vision \<Rightarrow> reader_settings \<Rightarrow> 'img \<Rightarrow> grid \<Rightarrow> (string \<times> rat) list \<Rightarrow> ocr_word list
     \<Rightarrow> (string, ocr_word list \<times> image_table option) result" where
  "build_table v cfg img g labels words =
     (if \<not> is_table_grid g then Inr (words, None)
      else if [] \<in> set (gr_cells g) then Inl ''IndexError''
      else
        let boxes = grid_boxes g;
            chosen = (\<lambda>w. inside_box (gr_box g) w \<and> cell_min_confidence cfg \<le> w_score w);
            words' = map (\<lambda>w. if chosen w then second_opinion v img w else w) words;
            inside = map (second_opinion v img) (filter chosen words);
            line_height = (if inside = [] then 20 else sort (map word_height inside) ! (length inside div 2));
            rows = drawn_rows boxes (block_text v cfg img boxes inside line_height labels);
            cells = concat rows
        in if of_nat (length (filter (\<lambda>c. c \<noteq> []) cells)) < MIN_FILLED * of_nat (length cells) then Inr (words', None)
           else case flatten_header (length rows) rows (box_spans boxes) of
               None \<Rightarrow> Inl ''does not return''
             | Some flat \<Rightarrow>
                 let kept = drop_empty flat in
                 Inr (words',
                   if length kept < 2 \<or> length (hd kept) < 2 then None
                   else Some \<lparr> it_rows = repair_first (split_fused_header kept), it_box = gr_box g, it_title = [] \<rparr>))"

fun build_tables ::
  "'img vision \<Rightarrow> reader_settings \<Rightarrow> 'img \<Rightarrow> (string \<times> rat) list \<Rightarrow> grid list \<Rightarrow> ocr_word list
     \<Rightarrow> (string, ocr_word list \<times> image_table list) result" where
  "build_tables v cfg img labels [] words = Inr (words, [])"
| "build_tables v cfg img labels (g # gs) words =
     bind_result (build_table v cfg img g labels words) (\<lambda>(words', t).
     bind_result (build_tables v cfg img labels gs words') (\<lambda>(words'', ts).
       Inr (words'', (case t of None \<Rightarrow> ts | Some x \<Rightarrow> x # ts))))"

section \<open>One picture\<close>

definition sideways_labels :: "'img vision \<Rightarrow> reader_settings \<Rightarrow> 'img \<Rightarrow> (string \<times> rat) list" where
  "sideways_labels v cfg img =
     sort_key snd (map (\<lambda>w. (w_text w, centre_y w))
       (filter (\<lambda>w. cell_min_confidence cfg \<le> w_score w) (words_of v (vi_turn v True img))))"

definition is_alnum :: "char \<Rightarrow> bool" where "is_alnum c = (is_word c \<and> c \<noteq> CHR ''_'')"

definition sure_word :: "reader_settings \<Rightarrow> ocr_word \<Rightarrow> bool" where
  "sure_word cfg w =
     (min_confidence cfg \<le> w_score w
      \<and> (2 < length (strip (w_text w)) \<or> list_ex is_digit (w_text w) \<or> SHORT_WORD_CONFIDENCE \<le> w_score w))"

text \<open>Each table takes the line above it as its title, out of the lines left by the tables before it.\<close>

fun title_tables :: "image_table list \<Rightarrow> text_line list \<Rightarrow> image_table list \<times> text_line list" where
  "title_tables [] lines = ([], lines)"
| "title_tables (t # ts) lines =
     (case title_above lines (it_box t) of
        None \<Rightarrow> (case title_tables ts lines of (us, rest) \<Rightarrow> (t # us, rest))
      | Some l \<Rightarrow> (case title_tables ts (remove1 l lines) of (us, rest) \<Rightarrow> (t\<lparr> it_title := tl_text l \<rparr> # us, rest)))"

definition nothing_read :: image_reading where
  "nothing_read = \<lparr> ir_tables = [], ir_lines = [], ir_unreadable = 0 \<rparr>"

definition read_scaled ::
  "'img vision \<Rightarrow> reader_settings \<Rightarrow> 'img \<Rightarrow> 'img option \<Rightarrow> (string, image_reading) result" where
  "read_scaled v cfg img labels_img =
     bind_result (build_tables v cfg img (case labels_img of None \<Rightarrow> [] | Some l \<Rightarrow> sideways_labels v cfg l)
         (take MAX_TABLES (vi_grids v img)) (words_of v img)) (\<lambda>(words, tables).
       let outside = reread_doubtful_lines v cfg img (filter (\<lambda>w. \<not> list_ex (\<lambda>t. inside_box (it_box t) w) tables) words);
           (titled, lines) = title_tables tables (text_blocks (filter (sure_word cfg) outside));
           texts = (if tables = [] \<and> length lines < 2 \<and> \<not> one_confident_line lines then [] else map tl_text lines);
           missed = length (filter (\<lambda>w. DOUBTFUL_FLOOR \<le> w_score w \<and> w_score w < min_confidence cfg
                      \<and> 3 \<le> length (filter is_alnum (w_text w))) outside)
       in Inr \<lparr> ir_tables = titled, ir_lines = texts, ir_unreadable = (if texts \<noteq> [] \<or> tables \<noteq> [] then missed else 0) \<rparr>)"

definition read_picture ::
  "'img vision \<Rightarrow> reader_settings \<Rightarrow> 'img \<Rightarrow> 'img option \<Rightarrow> bool \<Rightarrow> (string, image_reading) result" where
  "read_picture v cfg img labels_img tables_only =
     (let (height, width) = vi_size v img in
      if min height width < 40 then Inr nothing_read
      else if tables_only \<and> \<not> list_ex is_table_grid (vi_grids v img) then Inr nothing_read
      else if max height width < UPSCALE_BELOW_PX
      then (let big = vi_double v img in read_scaled v cfg big (map_option (\<lambda>l. vi_fit v l (vi_size v big)) labels_img))
      else read_scaled v cfg img labels_img)"


section \<open>No loose word is lost\<close>

lemma rows_keep: "(\<Union>r\<in>set (foldl (add_to_rows typical) rows ws). set r) = (\<Union>r\<in>set rows. set r) \<union> set ws"
proof (induction ws arbitrary: rows)
  case (Cons w ws)
  have "(\<Union>r\<in>set (add_to_rows typical rows w). set r) = (\<Union>r\<in>set rows. set r) \<union> {w}"
    by (cases rows rule: rev_cases) (auto simp: add_to_rows_def)
  then show ?case by (simp add: Cons)
qed simp

lemma word_rows_keep: "(\<Union>r\<in>set (word_rows ws). set r) = set ws"
  using rows_keep [of "typical_height ws" "[]" "sort_key centre_y (sort_key w_x1 ws)"] by (simp add: word_rows_def)

lemma pieces_keep: "(\<Union>p\<in>set (foldl (add_to_pieces typical) pieces row). set p) = (\<Union>p\<in>set pieces. set p) \<union> set row"
proof (induction row arbitrary: pieces)
  case (Cons w row)
  have "(\<Union>p\<in>set (add_to_pieces typical pieces w). set p) = (\<Union>p\<in>set pieces. set p) \<union> {w}"
    by (cases pieces rule: rev_cases) (auto simp: add_to_pieces_def)
  then show ?case by (simp add: Cons)
qed simp

lemma place_piece_parts:
  "place_piece typical piece blocks = Some bs \<Longrightarrow>
     (\<Union>b\<in>set bs. set (tb_parts b)) = insert (joined piece) (\<Union>b\<in>set blocks. set (tb_parts b))"
proof (induction blocks arbitrary: bs)
  case (Cons b blocks)
  show ?case
  proof (cases "stacks_under typical piece b")
    case True
    then show ?thesis using Cons.prems by (auto simp: put_under_def)
  next
    case False
    then obtain cs where cs: "place_piece typical piece blocks = Some cs" "bs = b # cs" using Cons.prems by auto
    show ?thesis using Cons.IH [OF cs(1)] by (simp add: cs(2) Un_left_commute)
  qed
qed simp

lemma add_piece_parts:
  "(\<Union>b\<in>set (add_piece typical blocks piece). set (tb_parts b)) = insert (joined piece) (\<Union>b\<in>set blocks. set (tb_parts b))"
  by (auto simp: add_piece_def new_block_def place_piece_parts split: option.split)

lemma pieces_parts:
  "(\<Union>b\<in>set (foldl (add_piece typical) blocks pieces). set (tb_parts b))
   = joined ` set pieces \<union> (\<Union>b\<in>set blocks. set (tb_parts b))"
  by (induction pieces arbitrary: blocks) (auto simp: add_piece_parts)

lemma text_blocks_keep:
  assumes "w \<in> set ws"
  shows "\<exists>l\<in>set (text_blocks ws). contains (w_text w) (tl_text l)"
proof -
  let ?t = "typical_height ws"
  obtain row where row: "row \<in> set (word_rows ws)" "w \<in> set row" using assms word_rows_keep [of ws] by blast
  then obtain piece where piece: "piece \<in> set (pieces_of ?t row)" "w \<in> set piece"
    using pieces_keep [of ?t "[]" row] by (auto simp: pieces_of_def)
  let ?blocks = "foldl (add_piece ?t) [] (concat (map (pieces_of ?t) (word_rows ws)))"
  have "joined piece \<in> (\<Union>b\<in>set ?blocks. set (tb_parts b))" using row piece by (auto simp: pieces_parts)
  then obtain b where b: "b \<in> set ?blocks" "joined piece \<in> set (tb_parts b)" by blast
  have "contains (w_text w) (joined piece)"
    unfolding joined_def by (rule contains_join) (use piece in simp)
  moreover have "contains (joined piece) (tl_text (line_of_block b))"
    using b(2) by (simp add: line_of_block_def contains_join)
  ultimately have "contains (w_text w) (tl_text (line_of_block b))" by (rule contains_trans)
  moreover have "line_of_block b \<in> set (text_blocks ws)"
    using assms b(1) by (auto simp: text_blocks_def Let_def)
  ultimately show ?thesis by blast
qed

lemma build_table_words:
  assumes "build_table v cfg img g labels words = Inr (words', t)"
  shows "words' = words \<or> (\<exists>P. words' = map (\<lambda>w. if P w then second_opinion v img w else w) words)"
    "t = Some x \<Longrightarrow> it_box x = gr_box g"
proof -
  let ?ws = "map (\<lambda>w. if inside_box (gr_box g) w \<and> cell_min_confidence cfg \<le> w_score w then second_opinion v img w else w) words"
  have "words' = words \<and> t = None \<or> words' = ?ws \<and> (t = None \<or> (\<exists>rows. t = Some \<lparr> it_rows = rows, it_box = gr_box g, it_title = [] \<rparr>))"
    using assms unfolding build_table_def Let_def by (simp split: if_split_asm option.split_asm) blast+
  then show "words' = words \<or> (\<exists>P. words' = map (\<lambda>w. if P w then second_opinion v img w else w) words)"
    "t = Some x \<Longrightarrow> it_box x = gr_box g" by auto
qed

lemma build_tables_keep:
  assumes "build_tables v cfg img labels gs words = Inr (words', ts)" "w \<in> set words" "DOUBTFUL \<le> w_score w"
  shows "w \<in> set words'"
  using assms
proof (induction gs arbitrary: words ts)
  case (Cons g gs)
  obtain words1 t us where step: "build_table v cfg img g labels words = Inr (words1, t)"
      "build_tables v cfg img labels gs words1 = Inr (words', us)" using Cons.prems(1) by auto
  have "w \<in> set words1"
    using build_table_words(1) [OF step(1)]
  proof
    assume "\<exists>P. words1 = map (\<lambda>w. if P w then second_opinion v img w else w) words"
    then obtain P where P: "words1 = map (\<lambda>w. if P w then second_opinion v img w else w) words" by blast
    have "second_opinion v img w = w" using Cons.prems(3) by (simp add: second_opinion_def)
    then show ?thesis unfolding P using Cons.prems(2) by (auto intro!: image_eqI [of _ _ w])
  qed (use Cons.prems in simp)
  then show ?case using Cons.IH [OF step(2)] Cons.prems(3) by simp
qed simp

lemma reread_keeps:
  assumes "w \<in> set ws" "min_confidence cfg \<le> w_score w"
  shows "w \<in> set (reread_doubtful_lines v cfg img ws)"
proof -
  let ?numbered = "zip [0..<length ws] ws"
  obtain i where i: "i < length ws" "ws ! i = w" using assms(1) by (auto simp: in_set_conv_nth)
  have "i \<notin> fst ` {p \<in> set ?numbered. half_read cfg (snd p)}"
    using assms(2) i by (auto simp: half_read_def set_zip)
  then have "i \<notin> set (map fst (take MAX_REREADS (sort_key (\<lambda>(i, w). - w_score w) (filter (\<lambda>(i, w). half_read cfg w) ?numbered))))"
    by (auto dest!: in_set_takeD)
  moreover have "(i, w) \<in> set ?numbered" using i by (force simp: set_zip)
  ultimately show ?thesis 
    unfolding reread_doubtful_lines_def Let_def set_map by (intro image_eqI [of _ _ "(i, w)"]) simp_all
qed

lemma title_tables_keep:
  assumes "title_tables ts lines = (us, rest)"
  shows "map it_box us = map it_box ts"
    "l \<in> set lines \<Longrightarrow> l \<in> set rest \<or> (\<exists>u\<in>set us. it_title u = tl_text l)"
  using assms
proof (induction ts arbitrary: lines us rest)
  case (Cons t ts)
  {
    case 1
    then show ?case using Cons.IH(1) by (auto split: option.splits prod.splits)
  next
    case 2
    show ?case
    proof (cases "title_above lines (it_box t)")
      case None
      then obtain vs where vs: "title_tables ts lines = (vs, rest)" "us = t # vs" using 2 by (auto split: prod.splits)
      show ?thesis using Cons.IH(2) [OF 2(1) vs(1)] vs(2) by auto
    next
      case (Some m)
      then obtain vs where vs: "title_tables ts (remove1 m lines) = (vs, rest)" "us = t\<lparr> it_title := tl_text m \<rparr> # vs"
        using 2 by (auto split: prod.splits)
      show ?thesis
      proof (cases "l = m")
        case False
        then have "l \<in> set (remove1 m lines)" using 2(1) by simp
        then show ?thesis using Cons.IH(2) [OF _ vs(1)] vs(2) by auto
      qed (use vs in simp)
    qed
  }
qed simp_all




section \<open>A picture with a table\<close>

definition plain_word :: "string \<Rightarrow> rat \<Rightarrow> rat \<Rightarrow> ocr_word" where
  "plain_word t x y = \<lparr> w_text = t, w_score = 1, w_x1 = x, w_y1 = y, w_x2 = x + 40, w_y2 = y + 10 \<rparr>"

text \<open>An image is the number of the pass: zero as it is, one enlarged. Crops are blank.\<close>

definition sample_vision :: "nat vision" where
  "sample_vision =
     \<lparr> vi_size = (\<lambda>i. (500, 500)),
       vi_grids = (\<lambda>i. [\<lparr> gr_box = (0, 200, 300, 260),
          gr_cells = [[(0, 200, 100, 230), (100, 200, 200, 230), (200, 200, 300, 230)],
                      [(0, 230, 100, 260), (100, 230, 200, 260), (200, 230, 300, 260)]] \<rparr>]),
       vi_detect = (\<lambda>i. map (\<lambda>(t, x, y). (Some t, 1, [(x, y), (x + 40, y), (x + 40, y + 10), (x, y + 10)]))
          [(''SO2 report'', 20, 180), (''Owner'', 20, 210), (''Plant'', 120, 210), (''SO2'', 220, 210), (''State'', 20, 240),
           (''Dadri'', 120, 240), (''35'', 220, 240), (''Source: CPCB'', 20, 400)]),
       vi_recognise = (\<lambda>i. []), vi_crop = (\<lambda>i y1 y2 x1 x2. None), vi_border = (\<lambda>i a b. i), vi_double = Suc,
       vi_fit = (\<lambda>i s. i), vi_turn = (\<lambda>c i. i), vi_gray = (\<lambda>i. []) \<rparr>"

definition sample_reader :: reader_settings where
  "sample_reader = \<lparr> min_confidence = 8 / 10, cell_min_confidence = 4 / 10 \<rparr>"


text \<open>The grid's words become a table with its title, and the rest a line.\<close>

lemma sample_table_read:
  "map_sum id (\<lambda>(ws, t). map_option it_rows t)
     (build_table sample_vision sample_reader 1 (hd (vi_grids sample_vision 1)) [] (words_of sample_vision 1))
   = Inr (Some [[''Owner'', ''Plant'', ''SO2''], [''State'', ''Dadri'', ''35'']])"
  by code_simp

definition sample_photo :: "nat vision" where
  "sample_photo =
     sample_vision\<lparr> vi_grids := (\<lambda>i. []),
       vi_detect := (\<lambda>i. map (\<lambda>(t, x, y). (Some t, 1, [(x, y), (x + 40, y), (x + 40, y + 10), (x, y + 10)]))
          [(''Stack height'', 20, 20), (''220 m'', 20, 100)]) \<rparr>"

lemma sample_photo_read:
  "read_picture sample_photo sample_reader 0 None False
   = Inr \<lparr> ir_tables = [], ir_lines = [''Stack height'', ''220 m''], ir_unreadable = 0 \<rparr>"
  by code_simp



section \<open>Repairing a run of months\<close>

lemma month_votes_count:
  "map_of (month_votes rs) x = (let n = length (filter (\<lambda>(c, m, y). y * 12 + int m - int c = x) rs) in if n = 0 then None else Some n)"
  "distinct (map fst (month_votes rs))"
proof (induction rs rule: rev_induct)
  case (snoc r rs)
  obtain c m y where r: "r = (c, m, y)" by (metis prod_cases3)
  have step: "month_votes (rs @ [r]) = AList.update (y * 12 + int m - int c)
      (case map_of (month_votes rs) (y * 12 + int m - int c) of None \<Rightarrow> 1 | Some n \<Rightarrow> n + 1) (month_votes rs)"
    by (simp add: month_votes_def r Let_def)
  {
    case 1
    show ?case using snoc.IH(1) unfolding step by (auto simp: update_conv' r Let_def split: if_splits)
  next
    case 2
    show ?case unfolding step using snoc.IH(2) by (simp add: distinct_update)
  }
qed (simp_all add: month_votes_def)

lemma month_run_left_bounds:
  "month_run_left fits c \<le> c" "month_run_left fits c \<le> k \<Longrightarrow> k < c \<Longrightarrow> fits k"
  by (induction c arbitrary: k) (auto split: if_splits elim: less_SucE)

lemma month_run_right_bounds:
  "c \<le> month_run_right fits fuel c" "c < k \<Longrightarrow> k \<le> month_run_right fits fuel c \<Longrightarrow> fits k"
proof (induction fuel arbitrary: c)
  case (Suc fuel)
  {
    case 1
    then show ?case using Suc.IH(1) [of "Suc c"] by simp
  next
    case 2
    then show ?case using Suc.IH(2) [of "Suc c"] by (cases "k = Suc c") (auto split: if_splits)
  }
qed simp_all

text \<open>A cell that reads as the month its column should be.\<close>

definition reads_as_month :: "string \<Rightarrow> int \<Rightarrow> bool" where
  "reads_as_month s absolute =
     (case month_reading s of Some (l, Some m, Some y) \<Rightarrow> y * 12 + int m = absolute | _ \<Rightarrow> False)"

lemma agreed_offset_support:
  assumes "agreed_offset readings = Some offset"
  shows "4 \<le> length (filter (\<lambda>(c, m, y). y * 12 + int m - int c = offset) (ballots readings))"
proof -
  obtain support vs where votes: "sort_key (\<lambda>(offset, n). - int n) (month_votes (ballots readings)) = (offset, support) # vs"
    and enough: "4 \<le> support"
    using assms by (auto simp: agreed_offset_def Let_def split: list.splits prod.splits if_splits)
  have "(offset, support) \<in> set (month_votes (ballots readings))" using arg_cong [OF votes, of set] by auto
  then have "map_of (month_votes (ballots readings)) offset = Some support" using month_votes_count(2) by simp
  then show ?thesis using enough by (auto simp: month_votes_count(1) Let_def split: if_splits)
qed

lemma ballots_read:
  "length (filter (\<lambda>(c, m, y). y * 12 + int m - int c = offset) (ballots (map month_reading row)))
   \<le> card {c. c < length row \<and> reads_as_month (row ! c) (offset + int c)}"
proof -
  let ?known = "known_months (map month_reading row)"
  have "length (filter (\<lambda>(c, m, y). y * 12 + int m - int c = offset)
      (List.map_filter (\<lambda>c. case map month_reading row ! c of Some (l, Some m, Some y) \<Rightarrow> Some (c, m, y) | _ \<Rightarrow> None) cs))
    \<le> length (filter (\<lambda>c. reads_as_month (row ! c) (offset + int c)) cs)" if "set cs \<subseteq> {..<length row}" for cs
    using that by (induction cs) (auto simp: List.map_filter_def reads_as_month_def split: option.splits)
  from this [of ?known]
  have "length (filter (\<lambda>(c, m, y). y * 12 + int m - int c = offset) (ballots (map month_reading row)))
      \<le> length (filter (\<lambda>c. reads_as_month (row ! c) (offset + int c)) ?known)"
    unfolding ballots_def by (auto simp: known_months_def)
  also have "\<dots> = card (set (filter (\<lambda>c. reads_as_month (row ! c) (offset + int c)) ?known))"
    by (rule distinct_card [symmetric]) (simp add: known_months_def)
  also have "\<dots> \<le> card {c. c < length row \<and> reads_as_month (row ! c) (offset + int c)}"
    by (rule card_mono) (auto simp: known_months_def)
  finally show ?thesis .
qed

text \<open>What the repair may do to a cell of the run: nothing, or write the month its column stands for.\<close>

definition month_written :: "string \<Rightarrow> int \<Rightarrow> string \<Rightarrow> bool" where
  "month_written old absolute new =
     (new = old \<or> (\<exists>letters. new = month_label letters (nat (absolute mod 12)) (absolute div 12)))"

text \<open>The repair of a header row either leaves it alone or works on one run of neighbouring columns. Each cell of the
run is month-shaped or blank, and the run stands for consecutive months fixed by at least four cells that read; inside
it a cell is kept or becomes the month of its column, and outside it nothing changes.\<close>

theorem month_repair_is_a_consecutive_run:
  "repair_month_headers row = row
   \<or> (\<exists>offset first final. final < length row \<and> length (repair_month_headers row) = length row
        \<and> 4 \<le> card {c. c < length row \<and> reads_as_month (row ! c) (offset + int c)}
        \<and> (\<forall>c<length row.
             if first \<le> c \<and> c \<le> final
             then (month_reading (row ! c) \<noteq> None \<or> strip (row ! c) = [])
                  \<and> month_written (row ! c) (offset + int c) (repair_month_headers row ! c)
             else repair_month_headers row ! c = row ! c))"
proof (cases "run_is_broken row (map month_reading row) \<or> agreed_offset (map month_reading row) = None")
  case True
  then show ?thesis by (auto simp: repair_month_headers_def Let_def)
next
  case False
  let ?readings = "map month_reading row" and ?known = "known_months (map month_reading row)"
  obtain offset where offset: "agreed_offset ?readings = Some offset" using False by auto
  define first where "first = month_run_left (shaped ?readings) (hd ?known)"
  define final where "final = month_run_right (shaped ?readings) (length row) (last ?known)"
  have result: "repair_month_headers row
      = map (\<lambda>(c, old, reading). if first \<le> c \<and> c \<le> final then repaired_cell reading (offset + int c) old else old)
          (zip [0..<length row] (zip row ?readings))"
    using False offset by (simp add: repair_month_headers_def Let_def first_def final_def)
  have known: "?known \<noteq> []" "\<And>c. hd ?known \<le> c \<Longrightarrow> c \<le> last ?known \<Longrightarrow> ?readings ! c = None \<Longrightarrow> strip (row ! c) = []"
    using False by (auto simp: run_is_broken_def Let_def list_ex_iff)
  have last: "last ?known < length row" using last_in_set [OF known(1)] by (simp add: known_months_def)
  have shape: "month_reading (row ! c) \<noteq> None \<or> strip (row ! c) = []" if c: "first \<le> c" "c \<le> final" "c < length row" for c
  proof -
    consider "c < hd ?known" | "hd ?known \<le> c" "c \<le> last ?known" | "last ?known < c" by linarith
    then show ?thesis
    proof cases
      case 1
      then have "shaped ?readings c" using month_run_left_bounds(2) c(1) unfolding first_def by blast
      then show ?thesis using c(3) by (simp add: shaped_def)
    next
      case 2
      then show ?thesis using known(2) [of c] c(3) by (cases "month_reading (row ! c)") simp_all
    next
      case 3
      then have "shaped ?readings c" using month_run_right_bounds(2) c(2) unfolding final_def by blast
      then show ?thesis using c(3) by (simp add: shaped_def)
    qed
  qed
  have "final < length row"
  proof (cases "final = last ?known")
    case False
    then have "last ?known < final"
      using month_run_right_bounds(1) [of "last ?known" "shaped ?readings" "length row"] by (simp add: final_def)
    then have "shaped ?readings final" using month_run_right_bounds(2) unfolding final_def by blast
    then show ?thesis by (simp add: shaped_def)
  qed (use last in simp)
  moreover have "4 \<le> card {c. c < length row \<and> reads_as_month (row ! c) (offset + int c)}"
    using agreed_offset_support [OF offset] ballots_read [of offset row] by linarith
  moreover have "\<forall>c<length row. if first \<le> c \<and> c \<le> final
      then (month_reading (row ! c) \<noteq> None \<or> strip (row ! c) = []) \<and> month_written (row ! c) (offset + int c) (repair_month_headers row ! c)
      else repair_month_headers row ! c = row ! c"
    using shape by (auto simp: result repaired_cell_def month_written_def Let_def)
  moreover have "length (repair_month_headers row) = length row" by (simp add: result)
  ultimately show ?thesis by blast
qed

definition sample_months :: "string list" where
  "sample_months = [''Plant'', ''APriI-9'', ''May-19'', ''n-9'', ''y-19'', ''Aug-19'', ''Sep-19'', ''Oct-19'', ''Total'']"

theorem month_repair_is_a_consecutive_run_witness:
  "\<exists>offset. 4 \<le> card {c. c < length sample_months \<and> reads_as_month (sample_months ! c) (offset + int c)}"
proof -
  have "repair_month_headers sample_months \<noteq> sample_months"
    unfolding sample_months_def months_repaired by simp
  then show ?thesis using month_repair_is_a_consecutive_run [of sample_months] by blast
qed

end
