(* ===== verification/Charts.thy ===== *)
theory Charts
  imports PyNumber PyRegex "HOL-Library.List_Lexorder" "HOL-Library.Char_ord"
begin

text \<open>\<open>extraction/charts.py\<close>: the charts, flow diagrams and SmartArt an Office file states exactly. The XML parser and the
zip reader are third-party; an element is the tree they hand back. The arrows of a diagram, which are outside the
model's characters, are written \<open>->\<close>, \<open><->\<close> and \<open>--\<close>. \<open>Inl\<close> is an exception that leaves the function.\<close>

section \<open>Elements\<close>

type_synonym qname = "string \<times> string"

datatype xml = Element (tag: qname) (attributes: "(qname \<times> string) list") (text_of: "string option") (children: "xml list")
  (tail_of: "string option")

definition C_NS :: string where "C_NS = ''http://schemas.openxmlformats.org/drawingml/2006/chart''"
definition A_NS :: string where "A_NS = ''http://schemas.openxmlformats.org/drawingml/2006/main''"
definition DGM_NS :: string where "DGM_NS = ''http://schemas.openxmlformats.org/drawingml/2006/diagram''"
definition R_NS :: string where "R_NS = ''http://schemas.openxmlformats.org/officeDocument/2006/relationships''"
definition P_NS :: string where "P_NS = ''http://schemas.openxmlformats.org/presentationml/2006/main''"
definition MAIN_NS :: string where "MAIN_NS = ''http://schemas.openxmlformats.org/spreadsheetml/2006/main''"

definition or_empty :: "string option \<Rightarrow> string" where
  "or_empty s = (case s of None \<Rightarrow> [] | Some x \<Rightarrow> x)"

text \<open>\<open>el.get(name)\<close>, \<open>el.iter()\<close> in document order, \<open>el.itertext()\<close>, \<open>el.find("a")\<close>, \<open>el.findall("a")\<close> and \<open>el.find(".//a")\<close>.\<close>

definition get_attr :: "xml \<Rightarrow> qname \<Rightarrow> string option" where
  "get_attr el name = map_of (attributes el) name"

definition attr :: "string \<Rightarrow> xml \<Rightarrow> string option" where
  "attr name el = get_attr el ([], name)"

fun descendants :: "xml \<Rightarrow> xml list" where
  "descendants (Element t a x cs tx) = Element t a x cs tx # concat (map descendants cs)"

fun inner_text :: "xml \<Rightarrow> string" where
  "inner_text (Element t a x cs tx) =
     or_empty x @ concat (map (\<lambda>c. inner_text c @ or_empty (tail_of c)) cs)"

definition iter :: "qname \<Rightarrow> xml \<Rightarrow> xml list" where
  "iter name el = filter (\<lambda>e. tag e = name) (descendants el)"

definition find_child :: "qname \<Rightarrow> xml \<Rightarrow> xml option" where
  "find_child name el = find (\<lambda>e. tag e = name) (children el)"

definition find_children :: "qname \<Rightarrow> xml \<Rightarrow> xml list" where
  "find_children name el = filter (\<lambda>e. tag e = name) (children el)"

definition find_below :: "qname \<Rightarrow> xml \<Rightarrow> xml option" where
  "find_below name el = find (\<lambda>e. tag e = name) (concat (map descendants (children el)))"

definition find_path :: "qname list \<Rightarrow> xml \<Rightarrow> xml option" where
  "find_path names el =
     (let step = (\<lambda>els name. concat (map (find_children name) els)) in
      case foldl step [el] names of [] \<Rightarrow> None | e # _ \<Rightarrow> Some e)"

section \<open>Labels and numbers\<close>

definition CHART_NOTICE :: string where "CHART_NOTICE = ''values read from the chart's own data''"

definition KINDS :: "(string \<times> string) list" where
  "KINDS =
     [(''barChart'', ''bar''), (''bar3DChart'', ''bar''), (''lineChart'', ''line''), (''line3DChart'', ''line''),
      (''pieChart'', ''pie''), (''pie3DChart'', ''pie''), (''ofPieChart'', ''pie''), (''doughnutChart'', ''doughnut''),
      (''areaChart'', ''area''), (''area3DChart'', ''area''), (''scatterChart'', ''scatter''),
      (''bubbleChart'', ''bubble''), (''radarChart'', ''radar''), (''stockChart'', ''stock''),
      (''surfaceChart'', ''surface''), (''surface3DChart'', ''surface'')]"

definition label_text :: "xml option \<Rightarrow> string" where
  "label_text el =
     (case el of None \<Rightarrow> []
      | Some e \<Rightarrow> strip (join '' '' (map (\<lambda>t. strip (inner_text t)) (iter (A_NS, ''t'') e))))"

text \<open>\<open>re.sub(r'"[^"]*"|\[[^\]]*\]', "", code.lower())\<close>, and then \<open>yy|d.*m|m.*d\<close> on one line of it.\<close>

definition quoted_or_bracketed :: re where
  "quoted_or_bracketed =
     Or (cat [Cls (\<lambda>c. c = CHR 0x22), Rep 0 None (Cls (\<lambda>c. c \<noteq> CHR 0x22)), Cls (\<lambda>c. c = CHR 0x22)])
        (cat [Cls (\<lambda>c. c = CHR ''[''), Rep 0 None (Cls (\<lambda>c. c \<noteq> CHR '']'')), Cls (\<lambda>c. c = CHR '']'')])"

definition date_parts :: re where
  "date_parts =
     Or (cat [Cls (\<lambda>c. c = CHR ''y''), Cls (\<lambda>c. c = CHR ''y'')])
       (Or (cat [Cls (\<lambda>c. c = CHR ''d''), Rep 0 None (Cls (\<lambda>c. c \<noteq> NL)), Cls (\<lambda>c. c = CHR ''m'')])
           (cat [Cls (\<lambda>c. c = CHR ''m''), Rep 0 None (Cls (\<lambda>c. c \<noteq> NL)), Cls (\<lambda>c. c = CHR ''d'')]))"

definition is_date_format :: "string \<Rightarrow> bool" where
  "is_date_format fmt =
     (let lowered = sub quoted_or_bracketed (\<lambda>m. []) (lower fmt) in
      CHR ''%'' \<notin> set lowered \<and> finditer date_parts lowered \<noteq> [])"

text \<open>\<open>(datetime(1899, 12, 30) + timedelta(days=x)).date()\<close>, to the microsecond, in the years a date can have.\<close>

definition day_of :: "pyfloat \<Rightarrow> (int \<times> int \<times> int) option" where
  "day_of v =
     (case v of
        Finite x \<Rightarrow>
          (let us = x * 86400000000;
               n = (if 0 \<le> us then round_even us else - round_even (- us)) div 86400000000
           in if -693593 \<le> n \<and> n \<le> 2958465 then Some (civil n) else None)
      | _ \<Rightarrow> None)"

definition is_integer :: "pyfloat \<Rightarrow> bool" where
  "is_integer v = (case v of Finite x \<Rightarrow> of_int \<lfloor>x\<rfloor> = x | _ \<Rightarrow> False)"

definition number_text :: "string \<Rightarrow> bool \<Rightarrow> bool \<Rightarrow> string" where
  "number_text value percent date =
     (case py_float value of
        None \<Rightarrow> strip value
      | Some x \<Rightarrow>
          (case (if date then day_of x else None) of
             Some ymd \<Rightarrow> iso_date ymd
           | None \<Rightarrow>
               if percent
               then format_general 4 (case x of Finite y \<Rightarrow> Finite (y * 100) | _ \<Rightarrow> x) @ ''%''
               else (case x of
                   Finite y \<Rightarrow> (if is_integer x \<and> \<bar>y\<bar> < 10 ^ 15 then signed_digits \<lfloor>y\<rfloor> else format_general 10 x)
                 | _ \<Rightarrow> format_general 10 x)))"

section \<open>Stored values\<close>

text \<open>The points of a cache by index; the text of a point without a value is empty.\<close>

definition points_of :: "xml \<Rightarrow> (string, (int \<times> string) list) result" where
  "points_of found =
     map_result (\<lambda>pt.
         case py_int (case attr ''idx'' pt of None \<Rightarrow> ''0'' | Some i \<Rightarrow> i) of
           None \<Rightarrow> Inl ''ValueError''
         | Some i \<Rightarrow> Inr (i, case find_child (C_NS, ''v'') pt of None \<Rightarrow> [] | Some v \<Rightarrow> or_empty (text_of v)))
       (find_children (C_NS, ''pt'') found)"

definition cache_values :: "int \<Rightarrow> (int \<times> string) list \<Rightarrow> string list" where
  "cache_values declared points =
     (let size = max declared (if points = [] then 0 else Max (set (map fst points)) + 1) in
      map (\<lambda>i. or_empty (map_of (rev points) (int i))) [0..<nat size])"

definition cache_of :: "xml option \<Rightarrow> (string, string list \<times> string) result" where
  "cache_of el =
     (case el of
        None \<Rightarrow> Inr ([], [])
      | Some e \<Rightarrow>
          (case List.map_filter (\<lambda>t. find_below (C_NS, t) e) [''numCache'', ''strCache'', ''numLit'', ''strLit''] of
             [] \<Rightarrow> Inr ([], [])
           | found # _ \<Rightarrow>
               bind_result (points_of found) (\<lambda>points.
                 bind_result
                   (case find_child (C_NS, ''ptCount'') found of
                      None \<Rightarrow> Inr 0
                    | Some c \<Rightarrow>
                        (case py_int (case attr ''val'' c of None \<Rightarrow> ''0'' | Some v \<Rightarrow> v) of
                           None \<Rightarrow> Inl ''ValueError'' | Some n \<Rightarrow> Inr n))
                   (\<lambda>declared. Inr (cache_values declared points,
                      case find_child (C_NS, ''formatCode'') found of None \<Rightarrow> [] | Some c \<Rightarrow> or_empty (text_of c))))))"

definition reference_of :: "xml option \<Rightarrow> string option" where
  "reference_of el =
     (case Option.bind el (find_below (C_NS, ''f'')) of
        None \<Rightarrow> None
      | Some f \<Rightarrow> (case text_of f of None \<Rightarrow> None | Some [] \<Rightarrow> None | Some t \<Rightarrow> Some t))"

section \<open>A chart as a table\<close>

text \<open>\<open>resolve\<close> is given for a spreadsheet only; it may raise.\<close>

type_synonym resolver = "string \<Rightarrow> (string, string list option) result"

record chart_series =
  ser_name :: string
  ser_kind :: string
  ser_cat :: "string list"
  ser_cat_date :: bool
  ser_val :: "string list"
  ser_val_pct :: bool
  ser_x :: "string list"
  ser_x_pct :: bool
  ser_x_date :: bool
  ser_y :: "string list"
  ser_y_pct :: bool

definition chart_kind :: "xml \<Rightarrow> string" where
  "chart_kind el =
     (let name = snd (tag el);
          kind = (case map_of KINDS name of Some k \<Rightarrow> k | None \<Rightarrow> lower (take (length name - 5) name))
      in if kind = ''bar''
         then (case find_child (C_NS, ''barDir'') el of
                 None \<Rightarrow> ''column'' | Some d \<Rightarrow> if attr ''val'' d = Some ''bar'' then ''bar'' else ''column'')
         else kind)"

definition resolved :: "resolver option \<Rightarrow> xml option \<Rightarrow> (string, string list) result" where
  "resolved resolve el =
     (case (resolve, reference_of el) of
        (Some f, Some ref) \<Rightarrow> bind_result (f ref) (\<lambda>v. Inr (case v of None \<Rightarrow> [] | Some xs \<Rightarrow> xs))
      | _ \<Rightarrow> Inr [])"

definition series_name :: "resolver option \<Rightarrow> xml \<Rightarrow> (string, string) result" where
  "series_name resolve ser =
     (let tx = find_child (C_NS, ''tx'') ser; name = label_text tx in
      if name \<noteq> [] \<or> tx = None then Inr (strip name)
      else bind_result (cache_of tx) (\<lambda>(cached, fmt).
        case cached of
          c # cs \<Rightarrow> Inr (strip c)
        | [] \<Rightarrow> bind_result (resolved resolve tx) (\<lambda>vs. Inr (strip (join '' '' (filter (\<lambda>v. v \<noteq> []) vs))))))"

text \<open>One of the four value lists of a series, whether its format is a percentage, and whether it is a date.\<close>

definition series_values :: "resolver option \<Rightarrow> string \<Rightarrow> xml \<Rightarrow> (string, string list \<times> bool \<times> bool) result" where
  "series_values resolve name ser =
     (let node = find_child (C_NS, name) ser in
      bind_result (cache_of node) (\<lambda>(values, fmt).
        bind_result (if values = [] then resolved resolve node else Inr values) (\<lambda>vs.
          Inr (vs, CHR ''%'' \<in> set fmt, is_date_format fmt))))"

definition read_series :: "resolver option \<Rightarrow> string \<Rightarrow> xml \<Rightarrow> (string, chart_series) result" where
  "read_series resolve kind ser =
     bind_result (series_name resolve ser) (\<lambda>name.
     bind_result (series_values resolve ''cat'' ser) (\<lambda>(cat, cat_pct, cat_date).
     bind_result (series_values resolve ''val'' ser) (\<lambda>(val, val_pct, val_date).
     bind_result (series_values resolve ''xVal'' ser) (\<lambda>(x, x_pct, x_date).
     bind_result (series_values resolve ''yVal'' ser) (\<lambda>(y, y_pct, y_date).
       Inr \<lparr> ser_name = name, ser_kind = kind, ser_cat = cat, ser_cat_date = cat_date, ser_val = val,
             ser_val_pct = val_pct, ser_x = x, ser_x_pct = x_pct, ser_x_date = x_date, ser_y = y, ser_y_pct = y_pct \<rparr>)))))"

definition plots_of :: "xml \<Rightarrow> xml list" where
  "plots_of plot = filter (\<lambda>el. endswith (snd (tag el)) ''Chart'') (children plot)"

definition all_series :: "resolver option \<Rightarrow> xml \<Rightarrow> (string, chart_series list) result" where
  "all_series resolve plot =
     map_result (\<lambda>(kind, ser). read_series resolve kind ser)
       (concat (map (\<lambda>el. map (\<lambda>ser. (chart_kind el, ser)) (find_children (C_NS, ''ser'') el)) (plots_of plot)))"

definition axis_title :: "xml \<Rightarrow> string \<Rightarrow> nat \<Rightarrow> string" where
  "axis_title plot kind index =
     (let axes = find_children (C_NS, kind) plot in
      if index < length axes then label_text (find_child (C_NS, ''title'') (axes ! index)) else [])"

definition caption_of :: "string \<Rightarrow> string list \<Rightarrow> string" where
  "caption_of title kinds =
     (if title = [] then ''Chart'' else ''Chart: '' @ title) @ '' ('' @ join '', '' kinds @ ''; '' @ CHART_NOTICE @ '')''"

definition or_else :: "string \<Rightarrow> string \<Rightarrow> string" where
  "or_else a b = (if a = [] then b else a)"

definition scatter_rows :: "xml \<Rightarrow> chart_series list \<Rightarrow> string list list" where
  "scatter_rows plot series =
     [''Series'', or_else (axis_title plot ''valAx'' 0) ''X'', or_else (axis_title plot ''valAx'' 1) ''Y'']
     # concat (map (\<lambda>s. map (\<lambda>(x, y). [ser_name s, number_text x (ser_x_pct s) (ser_x_date s), number_text y (ser_y_pct s) False])
                 (zip (ser_x s) (ser_y s))) series)"

definition category_labels :: "chart_series list \<Rightarrow> string list" where
  "category_labels series =
     (case find (\<lambda>s. ser_cat s \<noteq> []) series of
        None \<Rightarrow> []
      | Some lead \<Rightarrow> map (\<lambda>v. number_text v False (ser_cat_date lead)) (ser_cat lead))"

definition value_at :: "chart_series \<Rightarrow> nat \<Rightarrow> string" where
  "value_at s i = (if i < length (ser_val s) then number_text (ser_val s ! i) (ser_val_pct s) False else [])"

definition category_rows :: "xml \<Rightarrow> chart_series list \<Rightarrow> string list list" where
  "category_rows plot series =
     (let first = category_labels series;
          len = Max (set (length first # map (\<lambda>s. length (ser_val s)) series));
          names = map (\<lambda>(i, s). or_else (ser_name s) (''Series '' @ nat_str i)) (zip [1..<Suc (length series)] series)
      in (or_else (axis_title plot ''catAx'' 0) (axis_title plot ''dateAx'' 0) # names)
         # map (\<lambda>i. (if i < length first then first ! i else nat_str (i + 1)) # map (\<lambda>s. value_at s i) series) [0..<len])"

definition padded :: "nat \<Rightarrow> string list \<Rightarrow> string list" where
  "padded width r = r @ replicate (width - length r) []"

text \<open>\<open>parse_xml\<close> is \<open>etree.fromstring\<close>: \<open>None\<close> when the bytes are not XML.\<close>

definition chart_rows :: "(bytes \<Rightarrow> xml option) \<Rightarrow> resolver option \<Rightarrow> bytes \<Rightarrow> (string, string list list option) result" where
  "chart_rows parse_xml resolve data =
     (case parse_xml data of
        None \<Rightarrow> Inr None
      | Some doc \<Rightarrow>
          (case find_path [(C_NS, ''chart''), (C_NS, ''plotArea'')] doc of
             None \<Rightarrow> Inr None
           | Some plot \<Rightarrow>
               bind_result (all_series resolve plot) (\<lambda>series.
                 if list_all (\<lambda>s. ser_val s = [] \<and> ser_y s = []) series then Inr None
                 else
                   let caption = caption_of (label_text (find_path [(C_NS, ''chart''), (C_NS, ''title'')] doc))
                                   (rev (remdups (rev (map chart_kind (plots_of plot)))));
                       rows = (if list_ex (\<lambda>s. ser_x s \<noteq> []) series then scatter_rows plot series else category_rows plot series);
                       width = Max (set (map length rows))
                   in Inr (Some (padded width [caption] # map (padded width) rows)))))"

section \<open>Where charts and diagrams are\<close>

definition rids_of :: "qname \<Rightarrow> string \<Rightarrow> xml \<Rightarrow> string list" where
  "rids_of name key el =
     List.map_filter (\<lambda>e. case get_attr e (R_NS, key) of None \<Rightarrow> None | Some [] \<Rightarrow> None | Some i \<Rightarrow> Some i) (iter name el)"

definition chart_rids :: "xml \<Rightarrow> string list" where
  "chart_rids el = rids_of (C_NS, ''chart'') ''id'' el"

definition smartart_rids :: "xml \<Rightarrow> string list" where
  "smartart_rids el = rids_of (DGM_NS, ''relIds'') ''dm'' el"

section \<open>SmartArt\<close>

definition smart_nodes :: "xml \<Rightarrow> (string option \<times> string) list" where
  "smart_nodes doc =
     foldl (\<lambda>found pt.
         let label = label_text (find_child (DGM_NS, ''t'') pt) in
         if (case attr ''type'' pt of None \<Rightarrow> True | Some k \<Rightarrow> k \<in> {''node'', ''asst''}) \<and> label \<noteq> []
         then AList.update (attr ''modelId'' pt) label found else found)
       [] (concat (map (find_children (DGM_NS, ''pt'')) (find_children (DGM_NS, ''ptLst'') doc)))"

definition smart_document :: "xml \<Rightarrow> string option" where
  "smart_document doc =
     foldl (\<lambda>i pt. if attr ''type'' pt = Some ''doc'' then attr ''modelId'' pt else i)
       None (concat (map (find_children (DGM_NS, ''pt'')) (find_children (DGM_NS, ''ptLst'') doc)))"

text \<open>The parent-of connections between labelled nodes: parent, order, child.\<close>

definition smart_links :: "xml \<Rightarrow> (string option \<times> string) list \<Rightarrow> (string, (string option \<times> int \<times> string option) list) result" where
  "smart_links doc nodes =
     map_result (\<lambda>c.
         case py_int (case attr ''srcOrd'' c of None \<Rightarrow> ''0'' | Some v \<Rightarrow> v) of
           None \<Rightarrow> Inl ''ValueError''
         | Some k \<Rightarrow> Inr (attr ''srcId'' c, k, attr ''destId'' c))
       (filter (\<lambda>c. (case attr ''type'' c of None \<Rightarrow> True | Some k \<Rightarrow> k = ''parOf'') \<and> map_of nodes (attr ''destId'' c) \<noteq> None)
         (concat (map (find_children (DGM_NS, ''cxn'')) (find_children (DGM_NS, ''cxnLst'') doc))))"

text \<open>A node's children are sorted by order and, for equal orders, by identifier.\<close>

definition smart_kids ::
  "(string option \<times> string) list \<Rightarrow> (string option \<times> int \<times> string option) list \<Rightarrow> string option \<Rightarrow> string list" where
  "smart_kids nodes links parent =
     map (\<lambda>(p, k, d). or_empty (map_of nodes d))
       (sort_key (\<lambda>(p, k, d). k) (sort_key (\<lambda>(p, k, d). or_empty d) (filter (\<lambda>(p, k, d). p = parent) links)))"

definition smartart_lines :: "(bytes \<Rightarrow> xml option) \<Rightarrow> bytes \<Rightarrow> (string, string list) result" where
  "smartart_lines parse_xml data =
     (case parse_xml data of
        None \<Rightarrow> Inr []
      | Some doc \<Rightarrow>
          let nodes = smart_nodes doc in
          bind_result (smart_links doc nodes) (\<lambda>links.
            let top = (case smart_document doc of
                  None \<Rightarrow> map snd nodes | Some [] \<Rightarrow> map snd nodes | Some i \<Rightarrow> smart_kids nodes links (Some i))
            in Inr ((case top of [] \<Rightarrow> [] | [x] \<Rightarrow> [x] | _ \<Rightarrow> [join '' -> '' top])
                 @ List.map_filter (\<lambda>(i, label).
                     case smart_kids nodes links i of [] \<Rightarrow> None
                     | below \<Rightarrow> Some (label @ '': '' @ join ''; '' below)) nodes)))"

section \<open>Arrows between shapes\<close>

definition shape_labels :: "xml \<Rightarrow> (string option \<times> string) list" where
  "shape_labels slide =
     foldl (\<lambda>found sp.
         case find_path [(P_NS, ''nvSpPr''), (P_NS, ''cNvPr'')] sp of
           None \<Rightarrow> found
         | Some c \<Rightarrow>
             let paragraphs = map (\<lambda>p. strip (concat (map (\<lambda>t. or_empty (text_of t)) (iter (A_NS, ''t'') p)))) (iter (A_NS, ''p'') sp);
                 label = strip (join '' '' (filter (\<lambda>p. p \<noteq> []) paragraphs))
             in if label = [] then found else AList.update (attr ''id'' c) label found)
       [] (iter (P_NS, ''sp'') slide)"

definition brief :: "string \<Rightarrow> string" where
  "brief label = (if length label \<le> 160 then label else rstrip (take 157 label) @ ''...'')"

definition has_arrow :: "xml \<Rightarrow> string \<Rightarrow> bool" where
  "has_arrow cxn name =
     (case concat (map (find_children (A_NS, name))
             (filter (\<lambda>e. tag e = (A_NS, ''ln'')) (concat (map descendants (children cxn))))) of
        [] \<Rightarrow> False
      | e # _ \<Rightarrow> (case attr ''type'' e of None \<Rightarrow> False | Some k \<Rightarrow> k \<noteq> ''none''))"

definition connector_line :: "(string option \<times> string) list \<Rightarrow> xml \<Rightarrow> string option" where
  "connector_line labels cxn =
     (case (find_below (A_NS, ''stCxn'') cxn, find_below (A_NS, ''endCxn'') cxn) of
        (Some s, Some e) \<Rightarrow>
          (let a = attr ''id'' s; b = attr ''id'' e in
           case (map_of labels a, map_of labels b) of
             (Some la, Some lb) \<Rightarrow>
               if a = b then None
               else Some
                 (if has_arrow cxn ''headEnd'' \<and> has_arrow cxn ''tailEnd'' then brief la @ '' <-> '' @ brief lb
                  else if has_arrow cxn ''headEnd'' then brief lb @ '' -> '' @ brief la
                  else if has_arrow cxn ''tailEnd'' then brief la @ '' -> '' @ brief lb
                  else brief la @ '' -- '' @ brief lb)
           | _ \<Rightarrow> None)
      | _ \<Rightarrow> None)"

definition slide_connections :: "xml \<Rightarrow> string list" where
  "slide_connections slide =
     foldl (\<lambda>lines cxn.
         case connector_line (shape_labels slide) cxn of
           None \<Rightarrow> lines
         | Some l \<Rightarrow> if l \<in> set lines then lines else lines @ [l])
       [] (iter (P_NS, ''cxnSp'') slide)"

section \<open>The charts of a workbook\<close>

text \<open>\<open>posixpath\<close>: \<open>split\<close>, \<open>join\<close> and \<open>normpath\<close>.\<close>

definition strip_slashes_right :: "string \<Rightarrow> string" where
  "strip_slashes_right s = rev (dropWhile (\<lambda>c. c = CHR ''/'') (rev s))"

definition path_split :: "string \<Rightarrow> string \<times> string" where
  "path_split p =
     (let name = after_last (CHR ''/'') p; head = take (length p - length name) p in
      (if strip_slashes_right head = [] then head else strip_slashes_right head, name))"

definition path_join :: "string \<Rightarrow> string \<Rightarrow> string" where
  "path_join a b =
     (if startswith b ''/'' then b else if a = [] \<or> endswith a ''/'' then a @ b else a @ ''/'' @ b)"

definition norm_parts :: "bool \<Rightarrow> string list \<Rightarrow> string list" where
  "norm_parts rooted comps =
     foldl (\<lambda>acc c.
         if c = [] \<or> c = ''.'' then acc
         else if c \<noteq> ''..'' \<or> (\<not> rooted \<and> acc = []) \<or> (acc \<noteq> [] \<and> last acc = ''..'') then acc @ [c]
         else butlast acc)
       [] comps"

definition normpath :: "string \<Rightarrow> string" where
  "normpath p =
     (if p = [] then ''.''
      else
        let slashes = (if startswith p ''//'' \<and> \<not> startswith p ''///'' then ''//'' else if startswith p ''/'' then ''/'' else []);
            q = slashes @ join ''/'' (norm_parts (slashes \<noteq> []) (split_on (CHR ''/'') p))
        in if q = [] then ''.'' else q)"

text \<open>A zip archive is its entries; \<open>parse_xml\<close> raises on a part that is not XML.\<close>

type_synonym archive = "(string \<times> bytes) list"

definition rels_of :: "(bytes \<Rightarrow> xml option) \<Rightarrow> archive \<Rightarrow> string \<Rightarrow> (string, (string option \<times> string) list) result" where
  "rels_of parse_xml zf part =
     (let (folder, name) = path_split part; path = path_join (path_join folder ''_rels'') (name @ ''.rels'') in
      case map_of zf path of
        None \<Rightarrow> Inr []
      | Some data \<Rightarrow>
          (case parse_xml data of
             None \<Rightarrow> Inl ''XMLSyntaxError''
           | Some doc \<Rightarrow>
               Inr (foldl (\<lambda>found rel.
                   let target = or_empty (attr ''Target'' rel) in
                   AList.update (attr ''Id'' rel)
                     (if startswith target ''/'' then dropWhile (\<lambda>c. c = CHR ''/'') target
                      else normpath (path_join folder target)) found)
                 [] (children doc))))"

definition charts_of_drawing :: "(bytes \<Rightarrow> xml option) \<Rightarrow> archive \<Rightarrow> string \<Rightarrow> (string, bytes list) result" where
  "charts_of_drawing parse_xml zf drawing =
     (if map_of zf drawing = None \<or> endswith drawing ''.rels'' then Inr []
      else bind_result (rels_of parse_xml zf drawing) (\<lambda>rels.
        Inr (List.map_filter (\<lambda>(i, t).
            if contains ''/charts/'' t \<or> startswith t ''xl/charts/'' then map_of zf t else None) rels)))"

definition charts_of_sheet :: "(bytes \<Rightarrow> xml option) \<Rightarrow> archive \<Rightarrow> (string option \<times> string) list \<Rightarrow> xml \<Rightarrow> (string, bytes list) result" where
  "charts_of_sheet parse_xml zf wb_rels sheet =
     (case map_of wb_rels (get_attr sheet (R_NS, ''id'')) of
        None \<Rightarrow> Inr []
      | Some path \<Rightarrow>
          if path = [] \<or> map_of zf path = None then Inr []
          else bind_result (rels_of parse_xml zf path) (\<lambda>rels.
            bind_result (map_result (charts_of_drawing parse_xml zf)
                (filter (\<lambda>t. contains ''/drawings/'' t \<or> startswith t ''xl/drawings/'') (map snd rels)))
              (\<lambda>found. Inr (concat found))))"

definition xlsx_chart_parts :: "(bytes \<Rightarrow> xml option) \<Rightarrow> archive \<Rightarrow> (string, (string option \<times> bytes list) list) result" where
  "xlsx_chart_parts parse_xml zf =
     (case map_of zf ''xl/workbook.xml'' of
        None \<Rightarrow> Inr []
      | Some data \<Rightarrow>
          (case parse_xml data of
             None \<Rightarrow> Inl ''XMLSyntaxError''
           | Some wb \<Rightarrow>
               bind_result (rels_of parse_xml zf ''xl/workbook.xml'') (\<lambda>wb_rels.
               bind_result (map_result (\<lambda>sheet.
                   bind_result (charts_of_sheet parse_xml zf wb_rels sheet) (\<lambda>cs. Inr (attr ''name'' sheet, cs)))
                 (iter (MAIN_NS, ''sheet'') wb)) (\<lambda>found.
                 Inr (foldl (\<lambda>acc (n, cs). if cs = [] then acc
                        else AList.update n ((case map_of acc n of None \<Rightarrow> [] | Some old \<Rightarrow> old) @ cs) acc) [] found)))))"

end
