(* ===== verification/Slides.thy ===== *)
theory Slides
  imports Artifacts Charts
begin

text \<open>The PowerPoint extractor of \<open>extraction/extractors.py\<close>. What python-pptx hands back of a slide (its shapes with their
frames, texts, tables and charts, the title placeholder, the notes) is a record; what the extractor makes of it is
modelled in full: groups, timelines, colour keys, labels laid over a table, merged cells, titles and diagrams.\<close>

section \<open>What python-pptx hands back\<close>

datatype fill = NoFill | SolidRgb string | SolidTheme | OtherFill

record slide_cell =
  sc_text :: string
  sc_fill :: fill
  sc_merge_origin :: bool
  sc_span_height :: nat
  sc_span_width :: nat

record slide_table =
  st_cells :: "slide_cell list list"
  st_column_widths :: "int list"
  st_row_heights :: "int list"

text \<open>A leaf shape; \<open>lf_element\<close> is its XML element, \<open>lf_id\<close> the element's identity.\<close>

record leaf =
  lf_id :: nat
  lf_left :: "int option"
  lf_top :: "int option"
  lf_width :: "int option"
  lf_height :: "int option"
  lf_text :: "string option"
  lf_table :: "slide_table option"
  lf_chart :: "bytes option"
  lf_element :: xml

record group_frame =
  off_x :: int
  off_y :: int
  ext_cx :: int
  ext_cy :: int
  ch_off_x :: int
  ch_off_y :: int
  ch_ext_cx :: int
  ch_ext_cy :: int

datatype shape = Leaf leaf | Grouped "group_frame option" "shape list"

record slide =
  sl_hidden :: bool
  sl_shapes :: "shape list"
  sl_title :: "leaf option"
  sl_notes :: "string option"
  sl_element :: xml
  sl_parts :: "string \<Rightarrow> bytes option"

section \<open>Where a shape sits\<close>

record placed =
  pl_shape :: leaf
  pl_left :: rat
  pl_top :: rat
  pl_width :: rat
  pl_height :: rat
  pl_group :: "nat option"

definition or_zero :: "int option \<Rightarrow> int" where
  "or_zero v = (case v of None \<Rightarrow> 0 | Some n \<Rightarrow> n)"

definition out_of_group :: "group_frame option \<Rightarrow> placed \<Rightarrow> placed" where
  "out_of_group g p =
     (case g of
        None \<Rightarrow> p
      | Some x \<Rightarrow>
          if ch_ext_cx x = 0 \<or> ch_ext_cy x = 0 then p
          else
            let sx = of_int (ext_cx x) / of_int (ch_ext_cx x); sy = of_int (ext_cy x) / of_int (ch_ext_cy x)
            in p\<lparr> pl_left := of_int (off_x x) + (pl_left p - of_int (ch_off_x x)) * sx,
                  pl_top := of_int (off_y x) + (pl_top p - of_int (ch_off_y x)) * sy,
                  pl_width := pl_width p * sx, pl_height := pl_height p * sy \<rparr>)"

text \<open>\<open>chain\<close> lists the enclosing groups from the outside in; the innermost is undone first.\<close>

definition place_leaf :: "group_frame option list \<Rightarrow> nat option \<Rightarrow> leaf \<Rightarrow> placed" where
  "place_leaf chain grp l =
     foldr out_of_group chain
       \<lparr> pl_shape = l, pl_left = of_int (or_zero (lf_left l)), pl_top = of_int (or_zero (lf_top l)),
         pl_width = of_int (or_zero (lf_width l)), pl_height = of_int (or_zero (lf_height l)), pl_group = grp \<rparr>"

fun placed_shapes :: "group_frame option list \<Rightarrow> nat option \<Rightarrow> nat \<Rightarrow> shape list \<Rightarrow> placed list \<times> nat" where
  "placed_shapes chain grp n [] = ([], n)"
| "placed_shapes chain grp n (Leaf l # rest) =
     (case placed_shapes chain grp n rest of (ps, m) \<Rightarrow> (place_leaf chain grp l # ps, m))"
| "placed_shapes chain grp n (Grouped x inner # rest) =
     (case placed_shapes (chain @ [x]) (Some (n + 1)) (n + 1) inner of
        (ps, m) \<Rightarrow> (case placed_shapes chain grp m rest of (qs, k) \<Rightarrow> (ps @ qs, k)))"

section \<open>Timelines\<close>

definition is_year_label :: "string \<Rightarrow> bool" where
  "is_year_label t = (length t = 4 \<and> list_all is_decimal t \<and> take 2 t \<in> {''19'', ''20''})"

definition year_first :: "string list \<Rightarrow> string list" where
  "year_first block =
     (case (filter is_year_label block, filter (\<lambda>t. \<not> is_year_label t) block) of
        ([year], t # rest) \<Rightarrow> (year @ '': '' @ t) # rest
      | _ \<Rightarrow> block)"

function timeline_order :: "(nat option \<times> string) list \<Rightarrow> string list" where
  "timeline_order [] = []"
| "timeline_order ((g, t) # items) =
     (let same = (if g = None then [] else takeWhile (\<lambda>x. fst x = g) items)
      in year_first (t # map snd same) @ timeline_order (drop (length same) items))"
  by pat_completeness auto
termination by (relation "measure length") auto

section \<open>Colour keys\<close>

definition clean_cell :: "string option \<Rightarrow> string" where
  "clean_cell v = (case v of None \<Rightarrow> [] | Some s \<Rightarrow> strip s)"

definition cell_fill :: "slide_cell \<Rightarrow> string option" where
  "cell_fill c = (case sc_fill c of SolidRgb rgb \<Rightarrow> Some rgb | _ \<Rightarrow> None)"

definition cell_text :: "slide_cell \<Rightarrow> string" where
  "cell_text c = clean_cell (Some (sc_text c))"

text \<open>Every fill of a table with the labels it carries.\<close>

definition fills_of :: "slide_table \<Rightarrow> (string \<times> string list) list" where
  "fills_of t =
     foldl (\<lambda>found c.
         case cell_fill c of
           None \<Rightarrow> found
         | Some f \<Rightarrow>
             if cell_text c = [] then found
             else AList.update f (case map_of found f of None \<Rightarrow> [cell_text c]
                    | Some ts \<Rightarrow> if cell_text c \<in> set ts then ts else ts @ [cell_text c]) found)
       [] (concat (st_cells t))"

fun colour_legend :: "slide_table list \<Rightarrow> (string \<times> string) list" where
  "colour_legend [] = []"
| "colour_legend (t # ts) =
     (let found = fills_of t; labels = map hd (filter (\<lambda>v. length v = 1) (map snd found)) in
      if 8 < length (st_cells t) \<or> 3 < length (st_column_widths t) then colour_legend ts
      else if 2 \<le> length found \<and> length labels = length found \<and> distinct labels
      then map (\<lambda>(f, v). (f, hd v)) found
      else colour_legend ts)"

section \<open>Merged cells and labels laid over them\<close>

definition cell_at :: "slide_table \<Rightarrow> nat \<Rightarrow> nat \<Rightarrow> slide_cell" where
  "cell_at t r c = st_cells t ! r ! c"

definition n_rows_of :: "slide_table \<Rightarrow> nat" where "n_rows_of t = length (st_cells t)"
definition n_cols_of :: "slide_table \<Rightarrow> nat" where "n_cols_of t = length (st_column_widths t)"

text \<open>The merge origins in reading order; a later block overwrites an earlier one.\<close>

definition merge_origins :: "slide_table \<Rightarrow> span list" where
  "merge_origins t =
     List.map_filter (\<lambda>(r, c). if sc_merge_origin (cell_at t r c)
         then Some (r, c, sc_span_height (cell_at t r c), sc_span_width (cell_at t r c)) else None)
       (List.product [0..<n_rows_of t] [0..<n_cols_of t])"

definition covers :: "span \<Rightarrow> nat \<Rightarrow> nat \<Rightarrow> bool" where
  "covers b r c = (case b of (r0, c0, h, w) \<Rightarrow> r0 \<le> r \<and> r < r0 + h \<and> c0 \<le> c \<and> c < c0 + w)"

definition grid_spans :: "slide_table \<Rightarrow> span option list list" where
  "grid_spans t =
     map (\<lambda>r. map (\<lambda>c. find (\<lambda>b. covers b r c) (rev (merge_origins t))) [0..<n_cols_of t]) [0..<n_rows_of t]"

text \<open>The empty merged blocks of column \<open>c\<close>, one column wide and at least two rows high, by their first cell.\<close>

definition empty_blocks :: "slide_table \<Rightarrow> nat \<Rightarrow> (nat \<times> nat) list" where
  "empty_blocks t c =
     map (\<lambda>r. (r, c)) (filter (\<lambda>r.
         (case block_at (grid_spans t) r c of None \<Rightarrow> False
          | Some (r0, c0, h, w) \<Rightarrow> r0 = r \<and> c0 = c \<and> 2 \<le> h \<and> w = 1)
         \<and> cell_text (cell_at t r c) = []) [0..<n_rows_of t])"

definition label_boxes :: "placed list \<Rightarrow> placed list" where
  "label_boxes ps =
     filter (\<lambda>p. lf_table (pl_shape p) = None
       \<and> (case lf_text (pl_shape p) of None \<Rightarrow> False
          | Some t \<Rightarrow> 0 < length (strip t) \<and> length (strip t) \<le> 40 \<and> length (split_ws t) \<le> 3)) ps"

definition middle_y :: "placed \<Rightarrow> rat" where
  "middle_y p = pl_top p + pl_height p / 2"

definition boxes_over :: "placed list \<Rightarrow> nat list \<Rightarrow> placed \<Rightarrow> slide_table \<Rightarrow> rat \<Rightarrow> rat \<Rightarrow> placed list" where
  "boxes_over boxes used item t left right =
     sort_key middle_y (filter (\<lambda>p. lf_id (pl_shape p) \<notin> set used
       \<and> left - 91440 \<le> pl_left p + pl_width p / 2 \<and> pl_left p + pl_width p / 2 \<le> right + 91440
       \<and> pl_top item - 91440 \<le> middle_y p \<and> middle_y p \<le> pl_top item + 2 * of_int (sum_list (st_row_heights t))) boxes)"

type_synonym cell_labels = "((nat \<times> (nat \<times> nat)) \<times> string) list"

definition label_column ::
  "placed list \<Rightarrow> placed \<Rightarrow> slide_table \<Rightarrow> rat \<times> cell_labels \<times> nat list \<Rightarrow> nat \<times> int \<Rightarrow> rat \<times> cell_labels \<times> nat list" where
  "label_column boxes item t st col =
     (let (x, labels, used) = st; (c, width) = col;
          right = x + of_int width; slots = empty_blocks t c;
          over = boxes_over boxes used item t (right - of_int width) right
      in if slots = [] \<or> length over \<noteq> length slots then (right, labels, used)
         else (right,
               labels @ map (\<lambda>(slot, p). ((lf_id (pl_shape item), slot), clean_cell (lf_text (pl_shape p)))) (zip slots over),
               used @ map (\<lambda>p. lf_id (pl_shape p)) over))"

definition label_table :: "placed list \<Rightarrow> cell_labels \<times> nat list \<Rightarrow> placed \<Rightarrow> cell_labels \<times> nat list" where
  "label_table boxes st item =
     (case lf_table (pl_shape item) of
        None \<Rightarrow> st
      | Some t \<Rightarrow>
          snd (foldl (label_column boxes item t) (pl_left item, st) (zip [0..<n_cols_of t] (st_column_widths t))))"

definition overlay_labels :: "placed list \<Rightarrow> cell_labels \<times> nat list" where
  "overlay_labels ps = foldl (label_table (label_boxes ps)) ([], []) ps"

section \<open>A table as rows\<close>

text \<open>The text of a cell before its block's is filled in: the overlay label when it has one.\<close>

definition own_text :: "slide_table \<Rightarrow> ((nat \<times> nat) \<times> string) list \<Rightarrow> nat \<Rightarrow> nat \<Rightarrow> string" where
  "own_text t labels r c =
     (case map_of labels (r, c) of Some l \<Rightarrow> l | None \<Rightarrow> cell_text (cell_at t r c))"

definition grid_text :: "slide_table \<Rightarrow> (string \<times> string) list \<Rightarrow> ((nat \<times> nat) \<times> string) list \<Rightarrow> nat \<Rightarrow> nat \<Rightarrow> string" where
  "grid_text t legend labels r c =
     (let text =
        (case block_at (grid_spans t) r c of
           None \<Rightarrow> own_text t labels r c
         | Some (r0, c0, h, w) \<Rightarrow>
             if 1 < n_cols_of t \<and> w = n_cols_of t \<and> (r, c) \<noteq> (r0, c0) then [] else own_text t labels r0 c0)
      in if text \<noteq> [] then text
         else case Option.bind (cell_fill (cell_at t r c)) (map_of legend) of
                None \<Rightarrow> [] | Some meaning \<Rightarrow> ''('' @ meaning @ '')'')"

definition grid_rows :: "slide_table \<Rightarrow> (string \<times> string) list \<Rightarrow> ((nat \<times> nat) \<times> string) list \<Rightarrow> string list list" where
  "grid_rows t legend labels =
     map (\<lambda>r. map (grid_text t legend labels r) [0..<n_cols_of t]) [0..<n_rows_of t]"

definition pptx_table_rows ::
  "slide_table \<Rightarrow> (string \<times> string) list \<Rightarrow> ((nat \<times> nat) \<times> string) list \<Rightarrow> string list list option" where
  "pptx_table_rows t legend labels =
     flatten_header (n_rows_of t) (grid_rows t legend labels) (grid_spans t)"

definition table_has_content :: "string list list \<Rightarrow> bool" where
  "table_has_content rows = list_ex (list_ex (\<lambda>c. c \<noteq> [])) rows"

section \<open>Titles and notes\<close>

definition HEADING_MAX_CHARS :: nat where "HEADING_MAX_CHARS = 120"

definition top_level :: "shape list \<Rightarrow> leaf list" where
  "top_level shapes = List.map_filter (\<lambda>s. case s of Leaf l \<Rightarrow> Some l | Grouped x inner \<Rightarrow> None) shapes"

definition first_line :: "string \<Rightarrow> string" where
  "first_line t = (case filter (\<lambda>l. l \<noteq> []) (map strip (splitlines t)) of [] \<Rightarrow> [] | l # _ \<Rightarrow> l)"

definition title_candidates :: "shape list \<Rightarrow> (leaf \<times> string) list" where
  "title_candidates shapes =
     List.map_filter (\<lambda>l. case lf_text l of None \<Rightarrow> None
       | Some t \<Rightarrow> (let first = first_line t in
           if 4 \<le> length first \<and> length first \<le> HEADING_MAX_CHARS then Some (l, first) else None)) (top_level shapes)"

definition or_far :: "int option \<Rightarrow> int" where
  "or_far v = (case v of None \<Rightarrow> 1000000000000 | Some n \<Rightarrow> n)"

text \<open>\<open>min\<close> by top, left and drawing order.\<close>

definition slide_title :: "slide \<Rightarrow> leaf option \<times> string" where
  "slide_title s =
     (case (case sl_title s of None \<Rightarrow> None
              | Some l \<Rightarrow> (case lf_text l of None \<Rightarrow> None | Some t \<Rightarrow> if strip t = [] then None else Some (l, strip t))) of
        Some (l, t) \<Rightarrow> (Some l, t)
      | None \<Rightarrow>
          (case sort_key (\<lambda>(l, t). or_far (lf_top l)) (sort_key (\<lambda>(l, t). or_far (lf_left l)) (title_candidates (sl_shapes s))) of
             [] \<Rightarrow> (None, [])
           | (l, t) # _ \<Rightarrow> (Some l, t)))"

definition notes_of :: "slide \<Rightarrow> string" where
  "notes_of s = (case sl_notes s of None \<Rightarrow> [] | Some t \<Rightarrow> strip t)"

section \<open>The extractor\<close>

definition lines_text :: "string list \<Rightarrow> string" where
  "lines_text ls = join [NL] ls"

definition new_table :: "nat \<Rightarrow> string list list \<Rightarrow> string \<Rightarrow> extracted_table" where
  "new_table index rows name =
     \<lparr> et_unit_index = index, et_rows = rows, et_heading = (if name = [] then None else Some name) \<rparr>"

text \<open>What one shape adds: a table, or lines of text with the group they were drawn in.\<close>

definition shape_content ::
  "(bytes \<Rightarrow> xml option) \<Rightarrow> slide \<Rightarrow> (string \<times> string) list \<Rightarrow> cell_labels \<Rightarrow> placed
     \<Rightarrow> (string, string list list option \<times> (nat option \<times> string) list) result" where
  "shape_content parse_xml s legend labels item =
     (let l = pl_shape item in
      case lf_table l of
        Some t \<Rightarrow>
          (case pptx_table_rows t legend (map (\<lambda>((i, slot), v). (slot, v)) (filter (\<lambda>((i, slot), v). i = lf_id l) labels)) of
             None \<Rightarrow> Inl ''the table header never ends''
           | Some rows \<Rightarrow> Inr (if table_has_content rows then Some rows else None, []))
      | None \<Rightarrow>
          (case lf_chart l of
             Some data \<Rightarrow>
               bind_result (chart_rows parse_xml None data) (\<lambda>rows. Inr (case rows of Some (r # rs) \<Rightarrow> Some (r # rs) | _ \<Rightarrow> None, []))
           | None \<Rightarrow>
               (case lf_text l of
                  Some t \<Rightarrow> Inr (None, if strip t = [] then [] else [(pl_group item, strip t)])
                | None \<Rightarrow>
                    bind_result (map_result (\<lambda>rid. case sl_parts s rid of
                          None \<Rightarrow> Inl ''KeyError'' | Some data \<Rightarrow> smartart_lines parse_xml data) (smartart_rids (lf_element l)))
                      (\<lambda>ls. Inr (None, map (\<lambda>x. (None, x)) (concat ls))))))"

text \<open>The shapes that are read as content: not the title's own, and no label used in a table.\<close>

definition content_shapes :: "slide \<Rightarrow> placed list \<Rightarrow> placed list" where
  "content_shapes s ps =
     filter (\<lambda>p. Some (lf_id (pl_shape p)) \<noteq> map_option lf_id (fst (slide_title s))
       \<and> lf_id (pl_shape p) \<notin> set (snd (overlay_labels ps))) ps"

record slide_content =
  sp_unit :: extracted_unit
  sp_heading :: "heading option"
  sp_tables :: "extracted_table list"

definition read_slide :: "(bytes \<Rightarrow> xml option) \<Rightarrow> nat \<Rightarrow> slide \<Rightarrow> (string, slide_content) result" where
  "read_slide parse_xml index s =
     (let (title_shape, name) = slide_title s;
          ps = fst (placed_shapes [] None 0 (sl_shapes s));
          legend = colour_legend (List.map_filter (\<lambda>p. lf_table (pl_shape p)) ps)
      in bind_result (map_result (shape_content parse_xml s legend (fst (overlay_labels ps))) (content_shapes s ps)) (\<lambda>found.
        let head = (case title_shape of None \<Rightarrow> [] | Some l \<Rightarrow> [strip (or_empty (lf_text l))]);
            body = timeline_order (concat (map snd found));
            links = slide_connections (sl_element s);
            texts = head @ body
              @ (if links = [] then [] else [''Diagram connections:'' @ [NL] @ lines_text links])
              @ (if notes_of s = [] then [] else [''Notes:'' @ [NL] @ notes_of s])
        in Inr \<lparr> sp_unit = \<lparr> eu_index = index, eu_label = ''Slide '' @ nat_str index, eu_text = lines_text texts,
                   eu_method = METHOD_NATIVE, eu_text_is_table = False \<rparr>,
                 sp_heading = (if name = [] then None else Some \<lparr> h_text = name, h_level = 1, h_unit_index = index \<rparr>),
                 sp_tables = map (\<lambda>rows. new_table index rows name) (List.map_filter fst found) \<rparr>))"

text \<open>\<open>presentation\<close> is what python-pptx makes of the bytes, or the text of its exception.\<close>

definition extract_pptx ::
  "(bytes \<Rightarrow> (string, slide list) result) \<Rightarrow> (bytes \<Rightarrow> xml option) \<Rightarrow> bytes \<Rightarrow> (extraction_failure, extracted_content) result" where
  "extract_pptx presentation parse_xml data =
     (case bind_result (presentation data) (\<lambda>slides.
             map_result (\<lambda>(i, s). read_slide parse_xml i s)
               (filter (\<lambda>(i, s). \<not> sl_hidden s) (zip [1..<Suc (length slides)] slides))) of
        Inl e \<Rightarrow> Inl (ExtractionError (''Could not read PowerPoint content: '' @ e))
      | Inr found \<Rightarrow>
          Inr \<lparr> ec_units = map sp_unit found, ec_headings = List.map_filter sp_heading found,
                ec_tables = concat (map sp_tables found), ec_ocr_pages = [], ec_ocr_skipped_pages = [],
                ec_ocr_unreadable_lines = [], ec_figures = [] \<rparr>)"

section \<open>Nothing is lost: timelines and merged headers\<close>

lemma year_first_keeps: "t \<in> set block \<Longrightarrow> \<exists>l\<in>set (year_first block). contains t l"
proof -
  assume t: "t \<in> set block"
  show ?thesis
  proof (cases "\<exists>year x rest. filter is_year_label block = [year] \<and> filter (\<lambda>t. \<not> is_year_label t) block = x # rest")
    case True
    then obtain year x rest where b: "filter is_year_label block = [year]" "filter (\<lambda>t. \<not> is_year_label t) block = x # rest"
      by blast
    then have y: "year_first block = (year @ '': '' @ x) # rest" by (simp add: year_first_def)
    have "t = year \<or> t = x \<or> t \<in> set rest"
    proof (cases "is_year_label t")
      case True
      then have "t \<in> set (filter is_year_label block)" using t by simp
      then show ?thesis unfolding b(1) by simp
    next
      case False
      then have "t \<in> set (filter (\<lambda>t. \<not> is_year_label t) block)" using t by simp
      then show ?thesis unfolding b(2) by simp
    qed
    moreover have "contains year (year @ '': '' @ x)"
      unfolding contains_iff by (intro exI [of _ "[]"] exI [of _ "'': '' @ x"]) simp
    moreover have "contains x (year @ '': '' @ x)"
      unfolding contains_iff by (intro exI [of _ "year @ '': ''"] exI [of _ "[]"]) simp
    ultimately show ?thesis unfolding y by (auto intro: contains_refl)
  next
    case False
    moreover have "year_first block = block \<or> (\<exists>year x rest. filter is_year_label block = [year]
        \<and> filter (\<lambda>t. \<not> is_year_label t) block = x # rest)"
      unfolding year_first_def by (cases "filter is_year_label block"; cases "filter (\<lambda>t. \<not> is_year_label t) block")
        (simp_all split: list.split)
    ultimately have "year_first block = block" by blast
    then show ?thesis using t by (auto intro: contains_refl)
  qed
qed

lemma timeline_keeps: "t \<in> snd ` set items \<Longrightarrow> \<exists>l\<in>set (timeline_order items). contains t l"
proof (induction items rule: timeline_order.induct)
  case (2 g x items)
  let ?same = "if g = None then [] else takeWhile (\<lambda>y. fst y = g) items"
  have "takeWhile P xs @ drop (length (takeWhile P xs)) xs = xs" for P and xs :: "(nat option \<times> string) list"
    by (induction xs) simp_all
  then have items: "items = ?same @ drop (length ?same) items" by simp
  then have "t = x \<or> t \<in> snd ` set ?same \<or> t \<in> snd ` set (drop (length ?same) items)"
  proof -
    have "snd ` set items = snd ` (set ?same \<union> set (drop (length ?same) items))"
      by (rule arg_cong [of _ _ "\<lambda>xs. snd ` set xs", OF items, unfolded set_append])
    moreover have "t = x \<or> t \<in> snd ` set items" using "2.prems" by simp
    ultimately show ?thesis by (simp only: image_Un Un_iff)
  qed
  then consider "t \<in> set (x # map snd ?same)" | "t \<in> snd ` set (drop (length ?same) items)" by auto
  moreover have run: "timeline_order ((g, x) # items)
      = year_first (x # map snd ?same) @ timeline_order (drop (length ?same) items)"
    by (simp only: timeline_order.simps Let_def)
  ultimately show ?case
  proof cases
    case 1
    then show ?thesis using year_first_keeps [OF 1] unfolding run set_append by blast
  next
    case 2
    then show ?thesis using "2.IH" [OF refl] unfolding run set_append by blast
  qed
qed simp

section \<open>Nothing is lost: tables\<close>

lemma column_name_keeps:
  assumes "start \<le> r" "r < start + depth" "cell [] rows r c \<noteq> []"
  shows "contains (cell [] rows r c) (column_name rows start depth c)"
proof -
  let ?f = "\<lambda>parts r. let t = cell [] rows r c in if t \<noteq> [] \<and> (parts = [] \<or> last parts \<noteq> t) then parts @ [t] else parts"
  have mono: "t \<in> set parts \<Longrightarrow> t \<in> set (foldl ?f parts rs)" for t parts rs
    by (induction rs arbitrary: parts) (simp_all add: Let_def)
  have "cell [] rows r c \<in> set (foldl ?f parts rs)" if "r \<in> set rs" for parts rs
    using that
  proof (induction rs arbitrary: parts)
    case (Cons a rs)
    show ?case
    proof (cases "r = a")
      case True
      have "cell [] rows r c \<in> set (?f parts r)" using assms(3) by (auto simp: Let_def) (metis last_in_set)
      then show ?thesis using mono [of "cell [] rows r c" "?f parts r" rs] by (simp only: True foldl_Cons)
    qed (use Cons in simp)
  qed simp
  then show ?thesis unfolding column_name_def by (intro contains_join) (use assms in simp)
qed

declare skip_titles.simps [simp del]

lemma flatten_header_keeps:
  assumes "flatten_header fuel rows spans = Some out" "r < length rows" "c < length (rows ! r)" "rows ! r ! c \<noteq> []"
    and "\<forall>row\<in>set rows. length row = length (rows ! 0)"
  shows "\<exists>row\<in>set out. \<exists>x\<in>set row. contains (rows ! r ! c) x"
proof -
  have n: "length (rows ! r) = length (rows ! 0)" using assms(2,5) by simp
  have same: ?thesis if "rows ! r \<in> set out" using that assms(3) by (intro bexI [of _ "rows ! r"] bexI [of _ "rows ! r ! c"]) simp_all
  obtain start where s: "skip_titles fuel (length rows) (case rows of [] \<Rightarrow> 0 | r # _ \<Rightarrow> length r) spans 0 = Some start"
    using assms(1) by (auto simp: flatten_header_def Let_def split: option.splits)
  define depth where "depth = header_depth (length rows) (case rows of [] \<Rightarrow> 0 | r # _ \<Rightarrow> length r) spans start"
  have out: "out = (if \<not> (1 < depth \<and> depth \<le> 3 \<and> start + depth < length rows) then rows
      else take start rows @ [map (column_name rows start depth) [0..<(case rows of [] \<Rightarrow> 0 | r # _ \<Rightarrow> length r)]]
           @ drop (start + depth) rows)"
    using assms(1) unfolding flatten_header_def Let_def s option.case depth_def [symmetric] by (auto split: if_splits)
  show ?thesis
  proof (cases "\<not> (1 < depth \<and> depth \<le> 3 \<and> start + depth < length rows)")
    case True
    then show ?thesis using same out assms(2) by simp
  next
    case False
    consider "r < start" | "start \<le> r" "r < start + depth" | "start + depth \<le> r" by linarith
    then show ?thesis
    proof cases
      case 1
      then have "rows ! r \<in> set (take start rows)" using assms(2) by (auto simp: in_set_conv_nth intro!: exI [of _ r])
      then show ?thesis using same out False by simp
    next
      case 2
      have w: "(case rows of [] \<Rightarrow> 0 | r # _ \<Rightarrow> length r) = length (rows ! r)" using n assms(2) by (cases rows) simp_all
      have "cell [] rows r c = rows ! r ! c" using assms(2,3) by (simp add: cell_def)
      then have "contains (rows ! r ! c) (column_name rows start depth c)"
        using column_name_keeps [OF 2, of rows c] assms(4) by simp
      then show ?thesis unfolding out w using False assms(3)
        by (intro bexI [of _ "map (column_name rows start depth) [0..<length (rows ! r)]"] bexI [of _ "column_name rows start depth c"])
          simp_all
    next
      case 3
      then have "rows ! r \<in> set (drop (start + depth) rows)" using assms(2)
        by (auto simp: in_set_conv_nth intro!: exI [of _ "r - (start + depth)"])
      then show ?thesis using same out False by simp
    qed
  qed
qed

text \<open>Every block covers the cell it is read at, so the header of a slide's table always ends.\<close>

lemma grid_span:
  assumes "block_at (grid_spans t) r c = Some b"
  shows "covers b r c \<and> b \<in> set (merge_origins t)"
proof -
  have rc: "r < n_rows_of t" "c < n_cols_of t"
    using assms by (auto simp: block_at_def cell_def grid_spans_def split: if_splits)
  then have "find (\<lambda>b. covers b r c) (rev (merge_origins t)) = Some b"
    using assms by (simp add: block_at_def cell_def grid_spans_def)
  then show ?thesis by (auto simp: find_Some_iff in_set_conv_nth rev_nth) (metis diff_Suc_less length_greater_0_conv list.size(3) not_less_zero)
qed

lemma skip_titles_ends:
  assumes "\<And>r c b. block_at spans r c = Some b \<Longrightarrow> covers b r c" "n \<le> start + fuel"
  shows "skip_titles fuel n m spans start \<noteq> None"
  using assms(2)
proof (induction fuel arbitrary: start)
  case (Suc fuel)
  show ?case
  proof (cases "block_at spans start 0")
    case (Some b)
    obtain r c h w where b: "b = (r, c, h, w)" by (cases b)
    have "start < r + h" using assms(1) [OF Some] by (simp add: b covers_def)
    then show ?thesis using Suc.IH [of "r + h"] Suc.prems by (simp add: skip_titles.simps [of "Suc fuel"] Some b)
  qed (simp add: skip_titles.simps [of "Suc fuel"])
qed (simp add: skip_titles.simps [of 0])

lemma slide_table_reads: "\<exists>rows. pptx_table_rows t legend labels = Some rows"
proof -
  let ?rows = "grid_rows t legend labels"
  have "skip_titles (n_rows_of t) (length ?rows) (case ?rows of [] \<Rightarrow> 0 | r # _ \<Rightarrow> length r) (grid_spans t) 0 \<noteq> None"
    by (rule skip_titles_ends) (use grid_span in \<open>auto simp: grid_rows_def\<close>)
  then show ?thesis by (auto simp: pptx_table_rows_def flatten_header_def Let_def split: option.split)
qed

section \<open>Nothing is lost: labels over tables\<close>

text \<open>The label of a used box stands in an empty merged block of some table.\<close>

definition label_placed :: "placed list \<Rightarrow> placed list \<Rightarrow> cell_labels \<Rightarrow> nat \<Rightarrow> bool" where
  "label_placed ps boxes labels i =
     (\<exists>p\<in>set boxes. lf_id (pl_shape p) = i \<and> (\<exists>item\<in>set ps. \<exists>t r c. lf_table (pl_shape item) = Some t \<and> c < n_cols_of t
        \<and> (r, c) \<in> set (empty_blocks t c) \<and> ((lf_id (pl_shape item), (r, c)), clean_cell (lf_text (pl_shape p))) \<in> set labels))"

lemma label_placed_mono: "label_placed ps boxes labels i \<Longrightarrow> set labels \<subseteq> set labels' \<Longrightarrow> label_placed ps boxes labels' i"
  unfolding label_placed_def by blast

lemma empty_blocks_col: "slot \<in> set (empty_blocks t c) \<Longrightarrow> snd slot = c"
  and empty_blocks_distinct: "distinct (empty_blocks t c)"
  by (auto simp: empty_blocks_def distinct_map inj_on_def)

definition labels_ok :: "placed list \<Rightarrow> placed list \<Rightarrow> nat \<Rightarrow> nat \<Rightarrow> cell_labels \<times> nat list \<Rightarrow> bool" where
  "labels_ok ps boxes i k st =
     (distinct (map fst (fst st)) \<and> (\<forall>key\<in>fst ` set (fst st). fst key = i \<longrightarrow> snd (snd key) < k)
      \<and> (\<forall>j\<in>set (snd st). label_placed ps boxes (fst st) j))"

lemma label_column_ok:
  assumes item: "item \<in> set ps" "lf_table (pl_shape item) = Some t" and k: "k < n_cols_of t"
    and ok: "labels_ok ps boxes (lf_id (pl_shape item)) k st"
  shows "labels_ok ps boxes (lf_id (pl_shape item)) (k + 1) (snd (label_column boxes item t (x, st) (k, w)))"
proof -
  obtain labels used where st: "st = (labels, used)" by (cases st)
  let ?i = "lf_id (pl_shape item)" and ?slots = "empty_blocks t k"
  define over where "over = boxes_over boxes used item t (x + of_int w - of_int w) (x + of_int w)"
  show ?thesis
  proof (cases "?slots = [] \<or> length over \<noteq> length ?slots")
    case True
    then show ?thesis using ok by (auto simp: st label_column_def Let_def over_def labels_ok_def)
  next
    case False
    define new where "new = map (\<lambda>(slot, p). ((?i, slot), clean_cell (lf_text (pl_shape p)))) (zip ?slots over)"
    have run: "snd (label_column boxes item t (x, st) (k, w)) = (labels @ new, used @ map (\<lambda>p. lf_id (pl_shape p)) over)"
      using False by (simp add: st label_column_def Let_def over_def new_def)
    have keys: "map fst new = map (Pair ?i) ?slots"
    proof -
      have "map fst new = map (\<lambda>z. (?i, fst z)) (zip ?slots over)" by (simp add: new_def case_prod_unfold comp_def)
      also have "\<dots> = map (Pair ?i) (map fst (zip ?slots over))" by (simp only: map_map comp_def)
      moreover have "map fst (zip ?slots over) = ?slots" using False by simp
      ultimately show ?thesis by (simp only:)
    qed
    have col: "snd slot = k" if "slot \<in> set ?slots" for slot using empty_blocks_col [OF that] .
    have old: "distinct (map fst labels)" "\<And>key. key \<in> fst ` set labels \<Longrightarrow> fst key = ?i \<Longrightarrow> snd (snd key) < k"
      using ok by (auto simp: labels_ok_def st)
    have nk: "fst ` set new = Pair ?i ` set ?slots" using keys by (metis list.set_map)
    have "distinct (map fst (labels @ new))"
    proof -
      have "distinct (map fst new)" unfolding keys by (simp add: distinct_map empty_blocks_distinct inj_on_def)
      moreover have "fst ` set labels \<inter> fst ` set new = {}" unfolding nk using old(2) col by fastforce
      ultimately show ?thesis using old(1) by simp
    qed
    moreover have "snd (snd key) < k + 1" if "key \<in> fst ` set (labels @ new)" "fst key = ?i" for key
    proof (cases "key \<in> fst ` set labels")
      case True
      then show ?thesis using old(2) that(2) by fastforce
    next
      case False
      then have "key \<in> Pair ?i ` set ?slots" using that(1) nk by auto
      then obtain slot where "slot \<in> set ?slots" "key = (?i, slot)" by blast
      then show ?thesis using col [of slot] by simp
    qed
    moreover have "label_placed ps boxes (labels @ new) (lf_id (pl_shape p))" if p: "p \<in> set over" for p
    proof -
      obtain j where j: "j < length over" "over ! j = p" using p by (auto simp: in_set_conv_nth)
      then have "j < length ?slots" using False by simp
      then have z: "(?slots ! j, p) \<in> set (zip ?slots over)" using j by (metis in_set_zip fst_conv snd_conv)
      obtain r where r: "?slots ! j = (r, k)" using col [of "?slots ! j"] \<open>j < length ?slots\<close> by (metis nth_mem prod.collapse)
      have "((?i, (r, k)), clean_cell (lf_text (pl_shape p))) \<in> set new" unfolding new_def set_map
        using z by (intro image_eqI [of _ _ "(?slots ! j, p)"]) (simp_all add: r)
      moreover have "p \<in> set boxes" using p by (simp add: over_def boxes_over_def)
      moreover have "(r, k) \<in> set ?slots" using \<open>j < length ?slots\<close> r by (metis nth_mem)
      ultimately show ?thesis unfolding label_placed_def using item k by force
    qed
    ultimately show ?thesis
      unfolding run using ok label_placed_mono [of ps boxes labels _ "labels @ new"] by (auto simp: labels_ok_def st)
  qed
qed


lemma label_columns_ok:
  assumes "item \<in> set ps" "lf_table (pl_shape item) = Some t"
    and "labels_ok ps boxes (lf_id (pl_shape item)) k st" "k + length ws \<le> n_cols_of t"
  shows "labels_ok ps boxes (lf_id (pl_shape item)) (k + length ws)
    (snd (foldl (label_column boxes item t) (x, st) (zip [k..<k + length ws] ws)))"
  using assms(3,4)
proof (induction ws arbitrary: k x st)
  case (Cons w ws)
  obtain y st2 where step: "label_column boxes item t (x, st) (k, w) = (y, st2)" by (rule prod.exhaust)
  have "labels_ok ps boxes (lf_id (pl_shape item)) (k + 1) st2"
    using label_column_ok [OF assms(1,2) _ Cons.prems(1), of x w] Cons.prems(2) by (simp add: step)
  from Cons.IH [OF this, of y] Cons.prems(2)
  have "labels_ok ps boxes (lf_id (pl_shape item)) (k + 1 + length ws)
      (snd (foldl (label_column boxes item t) (y, st2) (zip [k + 1..<k + 1 + length ws] ws)))" by simp
  moreover have "[k..<k + length (w # ws)] = k # [k + 1..<k + 1 + length ws]" by (simp add: upt_conv_Cons del: upt_Suc)
  ultimately show ?case by (simp add: step del: upt_Suc)
qed simp

lemma label_tables_ok:
  assumes "set items \<subseteq> set ps" "distinct (map (\<lambda>p. lf_id (pl_shape p)) items)"
    and "distinct (map fst (fst st))" "\<forall>key\<in>fst ` set (fst st). \<forall>p\<in>set items. fst key \<noteq> lf_id (pl_shape p)"
    and "\<forall>j\<in>set (snd st). label_placed ps boxes (fst st) j"
  shows "distinct (map fst (fst (foldl (label_table boxes) st items)))
    \<and> (\<forall>j\<in>set (snd (foldl (label_table boxes) st items)). label_placed ps boxes (fst (foldl (label_table boxes) st items)) j)"
  using assms
proof (induction items arbitrary: st)
  case (Cons item items)
  show ?case
  proof (cases "lf_table (pl_shape item)")
    case None
    then show ?thesis using Cons by (simp add: label_table_def)
  next
    case (Some t)
    define st2 where "st2 = label_table boxes st item"
    have run: "st2 = snd (foldl (label_column boxes item t) (pl_left item, st) (zip [0..<0 + length (st_column_widths t)] (st_column_widths t)))"
      by (simp add: st2_def label_table_def Some n_cols_of_def)
    have start: "labels_ok ps boxes (lf_id (pl_shape item)) 0 st" using Cons.prems by (auto simp: labels_ok_def)
    have ok: "labels_ok ps boxes (lf_id (pl_shape item)) (0 + length (st_column_widths t)) st2"
      unfolding run by (rule label_columns_ok) (use Cons.prems Some start in \<open>simp_all add: n_cols_of_def\<close>)
    have keys: "fst ` set (fst st2) \<subseteq> fst ` set (fst st) \<union> {key. fst key = lf_id (pl_shape item)}"
    proof -
      have "fst ` set (fst (snd (foldl (label_column boxes item t) (x, st) cols)))
          \<subseteq> fst ` set (fst st) \<union> {key. fst key = lf_id (pl_shape item)}" for cols x st
      proof (induction cols arbitrary: x st)
        case (Cons col cols)
        obtain y st3 where step: "label_column boxes item t (x, st) col = (y, st3)" by (rule prod.exhaust)
        have "fst ` set (fst st3) \<subseteq> fst ` set (fst st) \<union> {key. fst key = lf_id (pl_shape item)}"
          using step by (auto simp: label_column_def Let_def split: prod.splits if_splits)
        then show ?case using Cons [of y st3] by (simp add: step) blast
      qed simp
      then show ?thesis unfolding run .
    qed
    have "\<forall>key\<in>fst ` set (fst st2). \<forall>p\<in>set items. fst key \<noteq> lf_id (pl_shape p)"
    proof (intro ballI)
      fix key p assume key: "key \<in> fst ` set (fst st2)" and p: "p \<in> set items"
      have "lf_id (pl_shape item) \<notin> (\<lambda>p. lf_id (pl_shape p)) ` set items" using Cons.prems(2) by simp
      then have "lf_id (pl_shape p) \<noteq> lf_id (pl_shape item)" using imageI [OF p, of "\<lambda>p. lf_id (pl_shape p)"] by metis
      moreover have "key \<in> fst ` set (fst st) \<or> fst key = lf_id (pl_shape item)" using keys key by blast
      moreover have "key \<in> fst ` set (fst st) \<Longrightarrow> fst key \<noteq> lf_id (pl_shape p)"
        using bspec [OF Cons.prems(4), of key] p by simp
      ultimately show "fst key \<noteq> lf_id (pl_shape p)" by metis
    qed
    moreover have "distinct (map fst (fst st2))" "\<forall>j\<in>set (snd st2). label_placed ps boxes (fst st2) j"
      using ok by (simp_all add: labels_ok_def)
    moreover have "set items \<subseteq> set ps" "distinct (map (\<lambda>p. lf_id (pl_shape p)) items)" using Cons.prems(1,2) by simp_all
    ultimately show ?thesis unfolding foldl_Cons st2_def [symmetric] by (intro Cons.IH)
  qed
qed simp


section \<open>Nothing is lost: slides\<close>

definition all_placed :: "slide \<Rightarrow> placed list" where
  "all_placed s = fst (placed_shapes [] None 0 (sl_shapes s))"

text \<open>Elements are distinct, the title is a shape of the slide, and a shape with a table has no text of its own.\<close>

definition wf_slide :: "slide \<Rightarrow> bool" where
  "wf_slide s =
     (distinct (map (\<lambda>p. lf_id (pl_shape p)) (all_placed s))
      \<and> (case sl_title s of None \<Rightarrow> True | Some l \<Rightarrow> l \<in> pl_shape ` set (all_placed s))
      \<and> list_all (\<lambda>p. lf_table (pl_shape p) = None \<or> lf_text (pl_shape p) = None) (all_placed s))"

lemma place_leaf_shape [simp]: "pl_shape (place_leaf chain grp l) = l"
proof -
  have "pl_shape (foldr out_of_group chain p) = pl_shape p" for p
    by (induction chain) (auto simp: out_of_group_def Let_def split: option.split)
  then show ?thesis by (simp add: place_leaf_def)
qed

lemma top_level_placed: "l \<in> set (top_level shapes) \<Longrightarrow> l \<in> pl_shape ` set (fst (placed_shapes chain grp n shapes))"
proof (induction chain grp n shapes rule: placed_shapes.induct)
  case (2 chain grp n a rest)
  obtain ps m where "placed_shapes chain grp n rest = (ps, m)" by (rule prod.exhaust)
  then show ?case using 2 by (auto simp: top_level_def List.map_filter_simps)
next
  case (3 chain grp n x inner rest)
  obtain ps m where i: "placed_shapes (chain @ [x]) (Some (n + 1)) (n + 1) inner = (ps, m)" by (rule prod.exhaust)
  obtain qs k where "placed_shapes chain grp m rest = (qs, k)" by (rule prod.exhaust)
  then show ?case using 3 i by (auto simp: top_level_def List.map_filter_simps)
qed (simp add: top_level_def List.map_filter_simps)

lemma slide_title_shape:
  assumes "wf_slide s" "fst (slide_title s) = Some l"
  shows "l \<in> pl_shape ` set (all_placed s) \<and> lf_text l \<noteq> None"
proof -
  have cand: "l \<in> pl_shape ` set (all_placed s) \<and> lf_text l \<noteq> None" if "(l, t) \<in> set (title_candidates (sl_shapes s))" for l t
  proof -
    have "l \<in> set (top_level (sl_shapes s)) \<and> lf_text l \<noteq> None"
      using that by (auto simp: title_candidates_def List.map_filter_def Let_def split: option.splits if_splits)
    then show ?thesis using top_level_placed unfolding all_placed_def by blast
  qed
  let ?sorted = "sort_key (\<lambda>(l, t). or_far (lf_top l)) (sort_key (\<lambda>(l, t). or_far (lf_left l)) (title_candidates (sl_shapes s)))"
  have sorted: "set ?sorted = set (title_candidates (sl_shapes s))" by simp
  show ?thesis
  proof (cases "case sl_title s of None \<Rightarrow> None
      | Some l \<Rightarrow> (case lf_text l of None \<Rightarrow> None | Some t \<Rightarrow> if strip t = [] then None else Some (l, strip t))")
    case None
    then have "fst (case ?sorted of [] \<Rightarrow> (None, []) | (l, t) # _ \<Rightarrow> (Some l, t)) = Some l"
      using assms(2) by (simp add: slide_title_def)
    then obtain t rest where "?sorted = (l, t) # rest" by (cases ?sorted) (auto split: prod.splits)
    then show ?thesis using sorted cand [of l t] by (metis list.set_intros(1))
  next
    case (Some y)
    then have "fst (slide_title s) = Some (fst y)" by (simp add: slide_title_def case_prod_unfold)
    then show ?thesis using Some assms by (auto simp: wf_slide_def split: option.splits if_splits)
  qed
qed

lemma labelled_cell:
  assumes "(r, c) \<in> set (empty_blocks t c)" "c < n_cols_of t" "map_of labels (r, c) = Some v" "v \<noteq> []"
  shows "r < length (grid_rows t legend labels) \<and> c < length (grid_rows t legend labels ! r)
    \<and> grid_rows t legend labels ! r ! c = v"
proof -
  obtain h where b: "block_at (grid_spans t) r c = Some (r, c, h, 1)" and r: "r < n_rows_of t"
    using assms(1) by (auto simp: empty_blocks_def split: option.splits)
  then have "grid_text t legend labels r c = v" using assms(3,4) by (simp add: grid_text_def own_text_def Let_def)
  then show ?thesis using r assms(2) by (simp add: grid_rows_def)
qed

lemma labelled_table_keeps:
  assumes "pptx_table_rows t legend labels = Some rows" "(r, c) \<in> set (empty_blocks t c)" "c < n_cols_of t"
    and "map_of labels (r, c) = Some v" "v \<noteq> []"
  shows "table_has_content rows \<and> (\<exists>row\<in>set rows. \<exists>x\<in>set row. contains v x)"
proof -
  note at_cell = labelled_cell [OF assms(2-5), of legend]
  have "\<forall>row\<in>set (grid_rows t legend labels). length row = length (grid_rows t legend labels ! 0)"
    by (auto simp: grid_rows_def)
  then have "\<exists>row\<in>set rows. \<exists>x\<in>set row. contains (grid_rows t legend labels ! r ! c) x"
    using flatten_header_keeps [OF assms(1) [unfolded pptx_table_rows_def], of r c] at_cell assms(5) by metis
  then have keeps: "\<exists>row\<in>set rows. \<exists>x\<in>set row. contains v x" using at_cell by simp
  moreover have "contains v x \<Longrightarrow> x \<noteq> []" for x using assms(5) by (auto simp: contains_iff)
  ultimately show ?thesis by (fastforce simp: table_has_content_def list_ex_iff)
qed


text \<open>The labels written into one table, and where the text of a used label ends up.\<close>

definition own_labels :: "nat \<Rightarrow> cell_labels \<Rightarrow> ((nat \<times> nat) \<times> string) list" where
  "own_labels i labels = map (\<lambda>((i, slot), v). (slot, v)) (filter (\<lambda>((j, slot), v). j = i) labels)"

lemma own_label:
  assumes "distinct (map fst labels)" "((i, slot), v) \<in> set labels"
  shows "map_of (own_labels i labels) slot = Some v"
proof -
  let ?own = "filter (\<lambda>((j, slot), v). j = i) labels"
  have "distinct (map fst ?own)" by (rule distinct_map_filter [OF assms(1)])
  then have "distinct (map (snd \<circ> fst) ?own)" by (auto simp: distinct_map inj_on_def)
  then have "distinct (map fst (own_labels i labels))" by (simp add: own_labels_def comp_def case_prod_unfold)
  moreover have "(slot, v) \<in> set (own_labels i labels)" using assms(2) by (force simp: own_labels_def)
  ultimately show ?thesis by simp
qed

lemma used_label_in_table:
  assumes unique: "\<And>a b. a \<in> set ps \<Longrightarrow> b \<in> set ps \<Longrightarrow> lf_id (pl_shape a) = lf_id (pl_shape b) \<Longrightarrow> a = b"
    and p: "p \<in> set ps" "lf_text (pl_shape p) = Some t" "strip t \<noteq> []"
    and label: "label_placed ps (label_boxes ps) labels (lf_id (pl_shape p))" "distinct (map fst labels)"
  shows "\<exists>item tb rows. item \<in> set ps \<and> lf_table (pl_shape item) = Some tb
    \<and> pptx_table_rows tb legend (own_labels (lf_id (pl_shape item)) labels) = Some rows
    \<and> table_has_content rows \<and> (\<exists>row\<in>set rows. \<exists>x\<in>set row. contains (strip t) x)"
proof -
  obtain b item tb r c where b: "b \<in> set (label_boxes ps)" "lf_id (pl_shape b) = lf_id (pl_shape p)" "item \<in> set ps"
      "lf_table (pl_shape item) = Some tb" "c < n_cols_of tb" "(r, c) \<in> set (empty_blocks tb c)"
      "((lf_id (pl_shape item), (r, c)), clean_cell (lf_text (pl_shape b))) \<in> set labels"
    using label(1) by (auto simp: label_placed_def)
  have "b \<in> set ps" using b(1) by (simp add: label_boxes_def)
  then have "b = p" using unique p(1) b(2) by blast
  then have "((lf_id (pl_shape item), (r, c)), strip t) \<in> set labels" using b(7) p(2) by (simp add: clean_cell_def)
  note own = own_label [OF label(2) this]
  obtain rows where rows: "pptx_table_rows tb legend (own_labels (lf_id (pl_shape item)) labels) = Some rows"
    using slide_table_reads by blast
  show ?thesis using labelled_table_keeps [OF rows b(6,5) own p(3)] b(3,4) rows by blast
qed

lemma shape_text_kept:
  assumes s: "read_slide parse_xml index s = Inr out" "wf_slide s"
    and p: "p \<in> set (all_placed s)" "lf_text (pl_shape p) = Some t" "strip t \<noteq> []" "lf_chart (pl_shape p) = None"
  shows "contains (strip t) (eu_text (sp_unit out))
    \<or> (\<exists>tab\<in>set (sp_tables out). et_unit_index tab = index \<and> (\<exists>row\<in>set (et_rows tab). \<exists>x\<in>set row. contains (strip t) x))"
proof -
  let ?ps = "all_placed s" and ?ids = "map (\<lambda>p. lf_id (pl_shape p)) (all_placed s)"
  let ?legend = "colour_legend (List.map_filter (\<lambda>p. lf_table (pl_shape p)) ?ps)"
  obtain labels used where ov: "overlay_labels ?ps = (labels, used)" by (rule prod.exhaust)
  have ids: "distinct ?ids" and noboth: "\<And>p. p \<in> set ?ps \<Longrightarrow> lf_table (pl_shape p) = None \<or> lf_text (pl_shape p) = None"
    using s(2) by (auto simp: wf_slide_def list_all_iff)
  have same: "a = b" if "a \<in> set ?ps" "b \<in> set ?ps" "lf_id (pl_shape a) = lf_id (pl_shape b)" for a b
    using distinct_key_unique [OF ids that(1,2)] that(3) by simp
  obtain found where found: "map_result (shape_content parse_xml s ?legend labels) (content_shapes s ?ps) = Inr found"
    and said: "eu_text (sp_unit out) = lines_text
        ((case fst (slide_title s) of None \<Rightarrow> [] | Some l \<Rightarrow> [strip (or_empty (lf_text l))])
         @ timeline_order (concat (map snd found))
         @ (if slide_connections (sl_element s) = [] then []
            else [''Diagram connections:'' @ [NL] @ lines_text (slide_connections (sl_element s))])
         @ (if notes_of s = [] then [] else [''Notes:'' @ [NL] @ notes_of s]))"
    and tables: "sp_tables out = map (\<lambda>rows. new_table index rows (snd (slide_title s))) (List.map_filter fst found)"
    using s(1) ov by (auto simp: read_slide_def all_placed_def case_prod_unfold Let_def)
  have line: "contains x (eu_text (sp_unit out))"
    if "x \<in> set (case fst (slide_title s) of None \<Rightarrow> [] | Some l \<Rightarrow> [strip (or_empty (lf_text l))])
      \<or> x \<in> set (timeline_order (concat (map snd found)))" for x
    unfolding said lines_text_def by (rule contains_join) (use that in auto)
  have shape: "\<exists>y\<in>set found. shape_content parse_xml s ?legend labels q = Inr y" if "q \<in> set (content_shapes s ?ps)" for q
    using map_result_nth [OF found] that by (metis in_set_conv_nth)
  have used: "label_placed ?ps (label_boxes ?ps) labels i" "distinct (map fst labels)" if "i \<in> set used" for i
    using label_tables_ok [of ?ps ?ps "([], [])" "label_boxes ?ps"] ids ov that by (auto simp: overlay_labels_def)
  have not_title: "Some (lf_id (pl_shape q)) \<noteq> map_option lf_id (fst (slide_title s))" if "q \<in> set ?ps" "lf_text (pl_shape q) = None" for q
  proof
    assume "Some (lf_id (pl_shape q)) = map_option lf_id (fst (slide_title s))"
    then obtain l where l: "fst (slide_title s) = Some l" "lf_id l = lf_id (pl_shape q)" by (cases "fst (slide_title s)") simp_all
    then obtain a where a: "a \<in> set ?ps" "pl_shape a = l" "lf_text l \<noteq> None" using slide_title_shape [OF s(2) l(1)] by blast
    have "a = q" by (rule same [OF a(1) that(1)]) (simp only: a(2) l(2))
    then show False using a(2,3) that(2) by simp
  qed
  consider (heading) l where "fst (slide_title s) = Some l" "lf_id l = lf_id (pl_shape p)"
    | (label) "lf_id (pl_shape p) \<in> set used"
    | (body) "p \<in> set (content_shapes s ?ps)"
  proof (cases "fst (slide_title s)")
    case None
    then show ?thesis using that p(1) ov by (auto simp: content_shapes_def)
  next
    case (Some l)
    then show ?thesis using that p(1) ov by (cases "lf_id l = lf_id (pl_shape p)") (auto simp: content_shapes_def)
  qed
  then show ?thesis
  proof cases
    case heading
    then obtain a where a: "a \<in> set ?ps" "pl_shape a = l" using slide_title_shape [OF s(2) heading(1)] by blast
    have "a = p" by (rule same [OF a(1) p(1)]) (simp only: a(2) heading(2))
    then have "l = pl_shape p" using a(2) by simp
    then show ?thesis using line [of "strip t"] heading(1) p(2) by (simp add: or_empty_def)
  next
    case label
    obtain item tb rows where b: "item \<in> set ?ps" "lf_table (pl_shape item) = Some tb"
        "pptx_table_rows tb ?legend (own_labels (lf_id (pl_shape item)) labels) = Some rows"
      and keeps: "table_has_content rows \<and> (\<exists>row\<in>set rows. \<exists>x\<in>set row. contains (strip t) x)"
      using used_label_in_table [OF same p(1-3) used [OF label], of ?legend] by blast
    have "lf_text (pl_shape item) = None" using noboth [OF b(1)] b(2) by simp
    moreover have "lf_id (pl_shape item) \<notin> set used"
    proof
      assume "lf_id (pl_shape item) \<in> set used"
      then obtain q where "q \<in> set (label_boxes ?ps)" "lf_id (pl_shape q) = lf_id (pl_shape item)"
        using used(1) by (auto simp: label_placed_def)
      moreover then have "q = item" using same b(1) by (simp add: label_boxes_def)
      ultimately show False using b(2) by (simp add: label_boxes_def)
    qed
    ultimately have "item \<in> set (content_shapes s ?ps)" using not_title b(1) ov by (simp add: content_shapes_def)
    from shape [OF this] obtain y where "y \<in> set found" "fst y = Some rows"
      using b(2,3) keeps by (auto simp: shape_content_def Let_def own_labels_def)
    then have "new_table index rows (snd (slide_title s)) \<in> set (sp_tables out)"
      unfolding tables by (force simp: List.map_filter_def)
    then show ?thesis using keeps by (intro disjI2 bexI [of _ "new_table index rows (snd (slide_title s))"]) (simp_all add: new_table_def)
  next
    case body
    from shape [OF body] obtain y where "y \<in> set found" "snd y = [(pl_group p, strip t)]"
      using noboth [OF p(1)] p by (auto simp: shape_content_def Let_def)
    then have "strip t \<in> snd ` set (concat (map snd found))" by force
    then obtain l where "l \<in> set (timeline_order (concat (map snd found)))" "contains (strip t) l" using timeline_keeps by blast
    then show ?thesis using line [of l] contains_trans by blast
  qed
qed

text \<open>C34: No text of a visible slide is lost. For every slide that is not hidden the extractor produces a unit under the
slide's own number, and every text box on it, at any depth of groups, is found again, whole, in the unit's text or in
a cell of a table of that slide: as title, as body, behind the year of its timeline, or as the label of the merged
rows it was laid over, even where header rows are folded into one.\<close>

theorem no_slide_text_is_lost:
  assumes "extract_pptx presentation parse_xml data = Inr content" "presentation data = Inr slides"
    and "i < length slides" "\<not> sl_hidden (slides ! i)" "wf_slide (slides ! i)"
    and "p \<in> set (all_placed (slides ! i))" "lf_text (pl_shape p) = Some t" "strip t \<noteq> []" "lf_chart (pl_shape p) = None"
  shows "\<exists>u\<in>set (ec_units content). eu_index u = i + 1 \<and>
    (contains (strip t) (eu_text u)
     \<or> (\<exists>tab\<in>set (ec_tables content). et_unit_index tab = i + 1 \<and> (\<exists>row\<in>set (et_rows tab). \<exists>x\<in>set row. contains (strip t) x)))"
proof -
  let ?visible = "filter (\<lambda>(i, s). \<not> sl_hidden s) (zip [1..<Suc (length slides)] slides)"
  obtain found where found: "map_result (\<lambda>(i, s). read_slide parse_xml i s) ?visible = Inr found"
      "ec_units content = map sp_unit found" "ec_tables content = concat (map sp_tables found)"
    using assms(1,2) by (auto simp: extract_pptx_def bind_result_def split: sum.splits)
  have "(i + 1, slides ! i) \<in> set ?visible"
    using assms(3,4) by (auto simp: in_set_zip intro!: exI [of _ i] simp del: upt_Suc)
  then obtain k where k: "k < length ?visible" "?visible ! k = (i + 1, slides ! i)" unfolding in_set_conv_nth by blast
  have nth: "length found = length ?visible" "(\<lambda>(i, s). read_slide parse_xml i s) (?visible ! k) = Inr (found ! k)"
    using map_result_nth [OF found(1)] k(1) by blast+
  define out where "out = found ! k"
  have out: "out \<in> set found" "read_slide parse_xml (i + 1) (slides ! i) = Inr out"
    using nth k unfolding out_def k(2) prod.case by simp_all
  have "eu_index (sp_unit out) = i + 1" using out(2) by (auto simp: read_slide_def case_prod_unfold Let_def)
  moreover have "sp_unit out \<in> set (ec_units content)" "set (sp_tables out) \<subseteq> set (ec_tables content)"
    using out(1) by (auto simp: found(2,3))
  moreover note shape_text_kept [OF out(2) assms(5-9)]
  ultimately show ?thesis by (intro bexI [of _ "sp_unit out"] conjI) (assumption, blast, assumption)
qed

text \<open>A hidden slide, and a slide with a title, a year in a group and a table whose two rows are named by a label.\<close>

definition text_box :: "nat \<Rightarrow> int \<Rightarrow> int \<Rightarrow> string \<Rightarrow> leaf" where
  "text_box i x y t =
     \<lparr> lf_id = i, lf_left = Some x, lf_top = Some y, lf_width = Some 10, lf_height = Some 10, lf_text = Some t, lf_table = None,
       lf_chart = None, lf_element = Element (P_NS, ''sp'') [] None [] None \<rparr>"

definition plain_cell :: "string \<Rightarrow> slide_cell" where
  "plain_cell t = \<lparr> sc_text = t, sc_fill = NoFill, sc_merge_origin = False, sc_span_height = 1, sc_span_width = 1 \<rparr>"

definition owners_table :: slide_table where
  "owners_table =
     \<lparr> st_cells = [[plain_cell ''Owner'', plain_cell ''Plant''],
         [(plain_cell [])\<lparr> sc_merge_origin := True, sc_span_height := 2 \<rparr>, plain_cell ''Dadri''], [plain_cell [], plain_cell ''Rihand'']],
       st_column_widths = [100, 100], st_row_heights = [10, 10, 10] \<rparr>"

definition sample_slide :: slide where
  "sample_slide =
     \<lparr> sl_hidden = False,
       sl_shapes = [Grouped None [Leaf (text_box 1 0 900000 '' units closed ''), Leaf (text_box 2 0 900000 ''2015'')],
         Leaf ((text_box 3 0 0 [])\<lparr> lf_text := None, lf_table := Some owners_table \<rparr>), Leaf (text_box 4 40 20 ''State''),
         Leaf (text_box 5 0 (- 200000) ''Plants'')],
       sl_title = Some (text_box 5 0 (- 200000) ''Plants''), sl_notes = None, sl_element = Element (P_NS, ''sld'') [] None [] None, sl_parts = (\<lambda>r. None) \<rparr>"

theorem no_slide_text_is_lost_witness:
  "case extract_pptx (\<lambda>d. Inr [sample_slide\<lparr> sl_hidden := True \<rparr>, sample_slide]) (\<lambda>d. None) [] of
     Inl e \<Rightarrow> False
   | Inr content \<Rightarrow> \<exists>u\<in>set (ec_units content). eu_index u = 2 \<and>
       (contains ''units closed'' (eu_text u)
        \<or> (\<exists>tab\<in>set (ec_tables content). et_unit_index tab = 2 \<and> (\<exists>row\<in>set (et_rows tab). \<exists>x\<in>set row. contains ''units closed'' x)))"
proof -
  let ?slides = "[sample_slide\<lparr> sl_hidden := True \<rparr>, sample_slide]"
  obtain content where run: "extract_pptx (\<lambda>d. Inr ?slides) (\<lambda>d. None) [] = Inr content"
  proof -
    have "(case extract_pptx (\<lambda>d. Inr ?slides) (\<lambda>d. None) [] of Inl e \<Rightarrow> False | Inr c \<Rightarrow> True)" by code_simp
    then show ?thesis using that by (cases "extract_pptx (\<lambda>d. Inr ?slides) (\<lambda>d. None) []") simp_all
  qed
  have slide: "1 < length ?slides" "\<not> sl_hidden (?slides ! 1)" by (simp_all add: sample_slide_def)
  have wf: "wf_slide (?slides ! 1)" by code_simp
  have p: "place_leaf [None] (Some 1) (text_box 1 0 900000 '' units closed '') \<in> set (all_placed (?slides ! 1))"
    by (simp add: all_placed_def sample_slide_def)
  have "lf_text (pl_shape (place_leaf [None] (Some 1) (text_box 1 0 900000 '' units closed ''))) = Some '' units closed ''"
    "lf_chart (pl_shape (place_leaf [None] (Some 1) (text_box 1 0 900000 '' units closed ''))) = None"
    by (simp_all add: text_box_def)
  moreover have "strip '' units closed '' = ''units closed''" by code_simp
  ultimately show ?thesis
    using no_slide_text_is_lost [OF run refl slide wf p, of "'' units closed ''"] by (simp add: run numeral_2_eq_2)
qed

text \<open>On that slide the year stands before what happened in it, and the label has moved into the table.\<close>

lemma sample_slide_read:
  "map_sum id (\<lambda>c. (map eu_text (ec_units c), map et_rows (ec_tables c)))
     (extract_pptx (\<lambda>d. Inr [sample_slide]) (\<lambda>d. None) [])
   = Inr ([''Plants'' @ [NL] @ ''2015: units closed''], [[[''Owner'', ''Plant''], [''State'', ''Dadri''], [''State'', ''Rihand'']]])"
  by code_simp

end
