(* ===== verification/WordDocs.thy ===== *)
theory WordDocs
  imports Slides
begin

text \<open>The Word extractor of \<open>extraction/extractors.py\<close>: paragraphs, tables, drawn charts, SmartArt, text boxes and notes in
document order, each table under the heading it stands under. What python-docx hands back of the body is a list of
blocks.\<close>

section \<open>What python-docx hands back\<close>

text \<open>A table cell is its element's identity and its text: a cell merged across columns comes back once per column.\<close>

datatype word_block =
    Paragraph (para_text: string) (para_style: "string option") (para_element: xml)
  | WordTable (word_cells: "(nat \<times> string) list list") (table_element: xml)

record word_document =
  wd_blocks :: "word_block list"
  wd_related :: "string \<Rightarrow> bytes option"
  wd_notes :: "bytes list"

definition block_element :: "word_block \<Rightarrow> xml" where
  "block_element b = (case b of Paragraph t s e \<Rightarrow> e | WordTable cs e \<Rightarrow> e)"

section \<open>Headings, rows, boxes, notes\<close>

text \<open>A style \<open>Heading\<close> with a digit that is not a decimal one makes \<open>int\<close> raise.\<close>

definition heading_level :: "string option \<Rightarrow> (string, nat option) result" where
  "heading_level style =
     (let name = strip (or_empty style); rest = strip (drop 7 name) in
      if lower name = ''title'' then Inr (Some 1)
      else if \<not> startswith (lower name) ''heading'' then Inr None
      else if rest \<noteq> [] \<and> list_all is_digit rest
      then (case py_int rest of None \<Rightarrow> Inl ''ValueError'' | Some n \<Rightarrow> Inr (Some (nat n)))
      else Inr (Some 1))"

fun docx_row :: "nat option \<Rightarrow> (nat \<times> string) list \<Rightarrow> string list" where
  "docx_row previous [] = []"
| "docx_row previous ((i, t) # cs) =
     (if previous = Some i then docx_row previous cs else clean_cell (Some t) # docx_row (Some i) cs)"

definition docx_rows :: "(nat \<times> string) list list \<Rightarrow> string list list" where
  "docx_rows cells = map (docx_row None) cells"

definition W_NS :: string where "W_NS = ''http://schemas.openxmlformats.org/wordprocessingml/2006/main''"
definition MC_FALLBACK :: qname where
  "MC_FALLBACK = (''http://schemas.openxmlformats.org/markup-compatibility/2006'', ''Fallback'')"

text \<open>The text boxes with no \<open>mc:Fallback\<close> above them.\<close>

fun live_boxes :: "xml \<Rightarrow> xml list" where
  "live_boxes (Element t a x cs tx) =
     (if t = (W_NS, ''txbxContent'') then [Element t a x cs tx] else [])
     @ (if t = MC_FALLBACK then [] else concat (map live_boxes cs))"

definition runs_text :: "xml \<Rightarrow> string" where
  "runs_text p = concat (map (\<lambda>t. or_empty (text_of t)) (iter (W_NS, ''t'') p))"

definition docx_text_boxes :: "xml \<Rightarrow> string list" where
  "docx_text_boxes el =
     foldl (\<lambda>found p. let t = strip (runs_text p) in if t \<noteq> [] \<and> t \<notin> set found then found @ [t] else found)
       [] (concat (map (iter (W_NS, ''p'')) (live_boxes el)))"

definition note_furniture :: "string set" where
  "note_furniture = {''separator'', ''continuationSeparator'', ''continuationNotice''}"

definition notes_in :: "(bytes \<Rightarrow> xml option) \<Rightarrow> bytes \<Rightarrow> (string, string list) result" where
  "notes_in parse_xml data =
     (case parse_xml data of
        None \<Rightarrow> Inl ''XMLSyntaxError''
      | Some doc \<Rightarrow>
          Inr (filter (\<lambda>t. t \<noteq> [])
            (map (\<lambda>n. strip (join '' '' (map (\<lambda>p. strip (runs_text p)) (iter (W_NS, ''p'') n))))
              (filter (\<lambda>n. case get_attr n (W_NS, ''type'') of None \<Rightarrow> True | Some k \<Rightarrow> k \<notin> note_furniture) (children doc)))))"

section \<open>The extractor\<close>

record word_content =
  wc_paragraphs :: "string list"
  wc_headings :: "heading list"
  wc_tables :: "extracted_table list"
  wc_current :: "string option"

definition under_heading :: "word_content \<Rightarrow> string list list \<Rightarrow> extracted_table" where
  "under_heading w rows = \<lparr> et_unit_index = 1, et_rows = rows, et_heading = wc_current w \<rparr>"

text \<open>The charts and SmartArt a block refers to, in that order.\<close>

definition block_charts :: "(bytes \<Rightarrow> xml option) \<Rightarrow> word_document \<Rightarrow> xml \<Rightarrow> (string, string list list list) result" where
  "block_charts parse_xml doc el =
     bind_result (map_result (\<lambda>rid. case wd_related doc rid of None \<Rightarrow> Inr None | Some data \<Rightarrow> chart_rows parse_xml None data) (chart_rids el))
       (\<lambda>found. Inr (List.map_filter (\<lambda>f. case f of Some (r # rs) \<Rightarrow> Some (r # rs) | _ \<Rightarrow> None) found))"

definition block_smartart :: "(bytes \<Rightarrow> xml option) \<Rightarrow> word_document \<Rightarrow> xml \<Rightarrow> (string, string list) result" where
  "block_smartart parse_xml doc el =
     bind_result (map_result (\<lambda>rid. case wd_related doc rid of None \<Rightarrow> Inr [] | Some data \<Rightarrow> smartart_lines parse_xml data) (smartart_rids el))
       (\<lambda>found. Inr (concat found))"

definition read_paragraph :: "string \<Rightarrow> nat option \<Rightarrow> xml \<Rightarrow> word_content \<Rightarrow> word_content" where
  "read_paragraph t level el w =
     (let w1 =
        (if t = [] then w
         else case level of
             None \<Rightarrow> w\<lparr> wc_paragraphs := wc_paragraphs w @ [t] \<rparr>
           | Some k \<Rightarrow> w\<lparr> wc_paragraphs := wc_paragraphs w @ [t],
                 wc_headings := wc_headings w @ [\<lparr> h_text = t, h_level = k, h_unit_index = 1 \<rparr>], wc_current := Some t \<rparr>)
      in w1\<lparr> wc_paragraphs := wc_paragraphs w1 @ docx_text_boxes el \<rparr>)"

definition read_block :: "(bytes \<Rightarrow> xml option) \<Rightarrow> word_document \<Rightarrow> word_content \<Rightarrow> word_block \<Rightarrow> (string, word_content) result" where
  "read_block parse_xml doc w b =
     bind_result (block_charts parse_xml doc (block_element b)) (\<lambda>charts.
     bind_result (block_smartart parse_xml doc (block_element b)) (\<lambda>smart.
       let w1 = w\<lparr> wc_tables := wc_tables w @ map (under_heading w) charts, wc_paragraphs := wc_paragraphs w @ smart \<rparr> in
       case b of
         WordTable cells el \<Rightarrow>
           let rows = docx_rows cells in
           Inr (if table_has_content rows then w1\<lparr> wc_tables := wc_tables w1 @ [under_heading w1 rows] \<rparr> else w1)
       | Paragraph t style el \<Rightarrow>
           if strip t = [] then Inr (read_paragraph [] None el w1)
           else bind_result (heading_level style) (\<lambda>level. Inr (read_paragraph (strip t) level el w1))))"

fun read_blocks :: "(bytes \<Rightarrow> xml option) \<Rightarrow> word_document \<Rightarrow> word_block list \<Rightarrow> word_content \<Rightarrow> (string, word_content) result" where
  "read_blocks parse_xml doc [] w = Inr w"
| "read_blocks parse_xml doc (b # bs) w = bind_result (read_block parse_xml doc w b) (read_blocks parse_xml doc bs)"

definition extract_docx ::
  "(bytes \<Rightarrow> (string, word_document) result) \<Rightarrow> (bytes \<Rightarrow> xml option) \<Rightarrow> bytes \<Rightarrow> (extraction_failure, extracted_content) result" where
  "extract_docx open_docx parse_xml data =
     (case bind_result (open_docx data) (\<lambda>doc.
             bind_result (read_blocks parse_xml doc (wd_blocks doc)
                 \<lparr> wc_paragraphs = [], wc_headings = [], wc_tables = [], wc_current = None \<rparr>) (\<lambda>w.
             bind_result (map_result (notes_in parse_xml) (wd_notes doc)) (\<lambda>notes.
               Inr (if concat notes = [] then w
                    else w\<lparr> wc_paragraphs := wc_paragraphs w @ [''Notes:'' @ [NL] @ join [NL] (concat notes)] \<rparr>)))) of
        Inl e \<Rightarrow> Inl (ExtractionError (''Could not read Word document content: '' @ e))
      | Inr w \<Rightarrow>
          Inr \<lparr> ec_units = [\<lparr> eu_index = 1, eu_label = ''Document'', eu_text = join [NL] (wc_paragraphs w),
                  eu_method = METHOD_NATIVE, eu_text_is_table = False \<rparr>],
                ec_headings = wc_headings w, ec_tables = wc_tables w, ec_ocr_pages = [], ec_ocr_skipped_pages = [],
                ec_ocr_unreadable_lines = [], ec_figures = [] \<rparr>)"

section \<open>Tables sit under their heading\<close>

text \<open>The last heading of a run of blocks, and the paragraphs that are headings.\<close>

definition is_heading :: "word_block \<Rightarrow> string option" where
  "is_heading b =
     (case b of
        WordTable cells el \<Rightarrow> None
      | Paragraph t style el \<Rightarrow>
          (case heading_level style of Inr (Some k) \<Rightarrow> if strip t = [] then None else Some (strip t) | _ \<Rightarrow> None))"

definition last_heading :: "word_block list \<Rightarrow> string option" where
  "last_heading bs = (case rev (List.map_filter is_heading bs) of [] \<Rightarrow> None | h # _ \<Rightarrow> Some h)"

lemma read_paragraph_grows:
  "set (wc_tables (read_paragraph t level el w)) = set (wc_tables w)"
  "set (wc_paragraphs w) \<subseteq> set (wc_paragraphs (read_paragraph t level el w))"
  "t \<noteq> [] \<Longrightarrow> t \<in> set (wc_paragraphs (read_paragraph t level el w))"
  "wc_current (read_paragraph t level el w) = (if t = [] then wc_current w else case level of None \<Rightarrow> wc_current w | Some k \<Rightarrow> Some t)"
  by (auto simp: read_paragraph_def Let_def split: option.splits)

text \<open>A block read is either a table or a paragraph, and what it leaves.\<close>

lemma read_block_cases:
  assumes "read_block parse_xml doc w b = Inr w'"
  obtains (table) w1 cells el where "b = WordTable cells el" "wc_current w1 = wc_current w"
      "set (wc_tables w) \<subseteq> set (wc_tables w1)" "set (wc_paragraphs w) \<subseteq> set (wc_paragraphs w1)"
      "w' = (if table_has_content (docx_rows cells) then w1\<lparr> wc_tables := wc_tables w1 @ [under_heading w1 (docx_rows cells)] \<rparr> else w1)"
    | (text_block) w1 t style el level where "b = Paragraph t style el" "wc_current w1 = wc_current w"
      "set (wc_tables w) \<subseteq> set (wc_tables w1)" "set (wc_paragraphs w) \<subseteq> set (wc_paragraphs w1)"
      "strip t = [] \<and> level = None \<or> heading_level style = Inr level" "w' = read_paragraph (strip t) level el w1"
proof -
  obtain charts smart where parts: "block_charts parse_xml doc (block_element b) = Inr charts"
      "block_smartart parse_xml doc (block_element b) = Inr smart"
    using assms unfolding read_block_def by auto
  let ?w1 = "w\<lparr> wc_tables := wc_tables w @ map (under_heading w) charts, wc_paragraphs := wc_paragraphs w @ smart \<rparr>"
  show thesis
  proof (cases b)
    case (WordTable cells el)
    show thesis
      by (rule table [OF WordTable, of ?w1]) (use assms parts in \<open>simp_all add: WordTable read_block_def Let_def bind_result_def split: if_splits\<close>)
  next
    case (Paragraph t style el)
    show thesis
    proof (cases "strip t = []")
      case True
      show thesis
        by (rule text_block [OF Paragraph, of ?w1 None]) (use assms parts True in \<open>simp_all add: Paragraph read_block_def Let_def bind_result_def\<close>)
    next
      case False
      then obtain level where level: "heading_level style = Inr level" "w' = read_paragraph (strip t) level el ?w1"
        using assms parts by (auto simp: Paragraph read_block_def Let_def bind_result_def split: sum.splits)
      show thesis by (rule text_block [OF Paragraph, of ?w1 level]) (use level in simp_all)
    qed
  qed
qed

lemma read_block_current:
  assumes "read_block parse_xml doc w b = Inr w'"
  shows "wc_current w' = (case is_heading b of None \<Rightarrow> wc_current w | Some h \<Rightarrow> Some h)"
    "set (wc_tables w) \<subseteq> set (wc_tables w')" "set (wc_paragraphs w) \<subseteq> set (wc_paragraphs w')"
  by (rule read_block_cases [OF assms]; auto simp: is_heading_def read_paragraph_grows split: option.splits sum.splits if_splits
        dest: subsetD [OF read_paragraph_grows(2)])+

lemma read_blocks_current:
  assumes "read_blocks parse_xml doc bs w = Inr w'" "wc_current w = last_heading pre"
  shows "wc_current w' = last_heading (pre @ bs) \<and> set (wc_tables w) \<subseteq> set (wc_tables w')
    \<and> set (wc_paragraphs w) \<subseteq> set (wc_paragraphs w')"
  using assms
proof (induction bs arbitrary: w pre)
  case (Cons b bs)
  obtain w1 where w1: "read_block parse_xml doc w b = Inr w1" "read_blocks parse_xml doc bs w1 = Inr w'"
    using Cons.prems(1) by auto
  have "wc_current w1 = last_heading (pre @ [b])"
    using read_block_current(1) [OF w1(1)] Cons.prems(2)
    by (auto simp: last_heading_def List.map_filter_def split: option.splits)
  from Cons.IH [OF w1(2) this] read_block_current(2,3) [OF w1(1)] show ?case by auto
qed simp

lemma read_blocks_append:
  "read_blocks parse_xml doc (as @ bs) w = bind_result (read_blocks parse_xml doc as w) (read_blocks parse_xml doc bs)"
proof (induction as arbitrary: w)
  case Nil
  then show ?case by (simp add: bind_result_def)
next
  case (Cons a as)
  then show ?case by (cases "read_block parse_xml doc w a") (simp_all add: bind_result_def)
qed

lemma extract_docx_reads:
  assumes "extract_docx open_docx parse_xml data = Inr content" "open_docx data = Inr doc"
  obtains w where
    "read_blocks parse_xml doc (wd_blocks doc) \<lparr> wc_paragraphs = [], wc_headings = [], wc_tables = [], wc_current = None \<rparr> = Inr w"
    "ec_tables content = wc_tables w"
    "\<exists>ps. ec_units content = [\<lparr> eu_index = 1, eu_label = ''Document'', eu_text = join [NL] ps,
        eu_method = METHOD_NATIVE, eu_text_is_table = False \<rparr>] \<and> set (wc_paragraphs w) \<subseteq> set ps"
proof -
  obtain w ends where read: "read_blocks parse_xml doc (wd_blocks doc)
        \<lparr> wc_paragraphs = [], wc_headings = [], wc_tables = [], wc_current = None \<rparr> = Inr w"
      "map_result (notes_in parse_xml) (wd_notes doc) = Inr ends"
    using assms unfolding extract_docx_def by (auto simp: bind_result_def split: sum.splits)
  show thesis
    by (rule that [OF read(1)];
      use assms read in \<open>cases "concat ends = []"; auto simp: extract_docx_def bind_result_def intro: exI [of _ "wc_paragraphs w"]\<close>)
qed

text \<open>A Word file is read in document order: every table with any content is kept, under the last heading that stands
before it in the document, and every paragraph's text is in the text of the one unit.\<close>

theorem tables_sit_under_their_heading:
  assumes "extract_docx open_docx parse_xml data = Inr content" "open_docx data = Inr doc" "wd_blocks doc = pre @ b # post"
  shows "case b of
      WordTable cells el \<Rightarrow> table_has_content (docx_rows cells) \<longrightarrow>
        \<lparr> et_unit_index = 1, et_rows = docx_rows cells, et_heading = last_heading pre \<rparr> \<in> set (ec_tables content)
    | Paragraph t style el \<Rightarrow> \<exists>u. ec_units content = [u] \<and> contains (strip t) (eu_text u)"
proof -
  let ?w0 = "\<lparr> wc_paragraphs = [], wc_headings = [], wc_tables = [], wc_current = None \<rparr>"
  obtain w where w: "read_blocks parse_xml doc (wd_blocks doc) ?w0 = Inr w" "ec_tables content = wc_tables w"
    and u: "\<exists>ps. ec_units content = [\<lparr> eu_index = 1, eu_label = ''Document'', eu_text = join [NL] ps,
                  eu_method = METHOD_NATIVE, eu_text_is_table = False \<rparr>] \<and> set (wc_paragraphs w) \<subseteq> set ps"
    by (rule extract_docx_reads [OF assms(1,2)])
  obtain w1 w2 where w12: "read_blocks parse_xml doc pre ?w0 = Inr w1" "read_block parse_xml doc w1 b = Inr w2"
      "read_blocks parse_xml doc post w2 = Inr w"
    using w(1) unfolding assms(3) read_blocks_append by auto
  have cur: "wc_current w1 = last_heading pre"
    using read_blocks_current [OF w12(1), of "[]"] by (simp add: last_heading_def List.map_filter_def)
  then have cur2: "wc_current w2 = last_heading (pre @ [b])"
    using read_block_current(1) [OF w12(2)] by (auto simp: last_heading_def List.map_filter_def split: option.splits)
  note later = read_blocks_current [OF w12(3) cur2]
  show ?thesis
  proof (cases b)
    case (Paragraph t style el)
    have "strip t = [] \<or> strip t \<in> set (wc_paragraphs w2)"
      using w12(2) by (rule read_block_cases) (auto simp: Paragraph dest: read_paragraph_grows(3))
    then have "strip t = [] \<or> strip t \<in> set (wc_paragraphs w)" using later by auto
    moreover have "contains [] x" for x by (cases x) (simp_all add: startswith_def)
    ultimately show ?thesis using u contains_join [of "strip t"] by (auto simp: Paragraph)
  next
    case (WordTable cells el)
    have "table_has_content (docx_rows cells) \<Longrightarrow> under_heading w1 (docx_rows cells) \<in> set (wc_tables w2)"
      using w12(2) by (rule read_block_cases) (auto simp: WordTable under_heading_def)
    then show ?thesis using later cur w(2) by (auto simp: WordTable under_heading_def)
  qed
qed

definition sample_element :: xml where "sample_element = Element (W_NS, ''p'') [] None [] None"

definition sample_word :: word_document where
  "sample_word =
     \<lparr> wd_blocks =
         [WordTable [[(1, ''No heading'')]] sample_element, Paragraph '' Plants '' (Some ''Heading 2'') sample_element,
          WordTable [[(2, ''Owner''), (3, ''Plant'')], [(4, ''State''), (4, ''State'')]] sample_element],
       wd_related = (\<lambda>r. None), wd_notes = [] \<rparr>"

lemma sample_word_read:
  "map_sum id (\<lambda>c. (map eu_text (ec_units c), map et_heading (ec_tables c), map et_rows (ec_tables c)))
     (extract_docx (\<lambda>d. Inr sample_word) (\<lambda>d. None) [])
   = Inr ([''Plants''], [None, Some ''Plants''], [[[''No heading'']], [[''Owner'', ''Plant''], [''State'']]])"
  by code_simp

theorem tables_sit_under_their_heading_witness:
  "case extract_docx (\<lambda>d. Inr sample_word) (\<lambda>d. None) [] of
     Inl e \<Rightarrow> False
   | Inr content \<Rightarrow>
       \<lparr> et_unit_index = 1, et_rows = [[''Owner'', ''Plant''], [''State'']], et_heading = Some ''Plants'' \<rparr> \<in> set (ec_tables content)"
proof -
  obtain content where run: "extract_docx (\<lambda>d. Inr sample_word) (\<lambda>d. None) [] = Inr content"
    using sample_word_read by (cases "extract_docx (\<lambda>d. Inr sample_word) (\<lambda>d. None) []") simp_all
  let ?pre = "take 2 (wd_blocks sample_word)" and ?b = "wd_blocks sample_word ! 2"
  have split: "wd_blocks sample_word = ?pre @ ?b # []" by (simp add: sample_word_def numeral_2_eq_2)
  have rows: "docx_rows [[(2, ''Owner''), (3, ''Plant'')], [(4, ''State''), (4, ''State'')]] = [[''Owner'', ''Plant''], [''State'']]"
    "table_has_content [[''Owner'', ''Plant''], [''State'']]" "last_heading ?pre = Some ''Plants''" by code_simp+
  have b: "?b = WordTable [[(2, ''Owner''), (3, ''Plant'')], [(4, ''State''), (4, ''State'')]] sample_element"
    by (simp add: sample_word_def numeral_2_eq_2)
  show ?thesis
    using tables_sit_under_their_heading [OF run refl split] by (simp add: run b rows)
qed

end
