(* ===== verification/Pictures.thy ===== *)
theory Pictures
  imports PictureTables Slides WordDocs
begin

text \<open>\<open>extraction/picture_source.py\<close> and \<open>extraction/pictures.py\<close>: finding the pictures of a file, drawing the vector ones,
reading each once, and filing what they say under the section they stand in. The libraries that open a file, decode a
picture and convert a metafile are parameters.\<close>

section \<open>Pictures found in a file\<close>

record found_picture =
  fp_unit :: nat
  fp_heading :: "string option"
  fp_blob :: bytes
  fp_extension :: string
  fp_tables_only :: bool

definition RASTER_EXTENSIONS :: "string list" where
  "RASTER_EXTENSIONS = [''png'', ''jpg'', ''jpeg'', ''gif'', ''bmp'', ''tif'', ''tiff'', ''webp'']"

definition VECTOR_EXTENSIONS :: "string list" where "VECTOR_EXTENSIONS = [''emf'', ''wmf'']"

definition PDF_MIN_PICTURE_PT :: rat where "PDF_MIN_PICTURE_PT = 108"

text \<open>A page of a PDF as pypdfium2 hands it over: how many characters it has, and its image objects with their bounds
(left, bottom, right, top) and, unless drawing one fails, its PNG.\<close>

record pdf_objects =
  po_chars :: nat
  po_images :: "((rat \<times> rat \<times> rat \<times> rat) \<times> bytes option) list"

definition pdf_pictures :: "nat \<Rightarrow> pdf_objects list \<Rightarrow> found_picture list" where
  "pdf_pictures min_chars pages =
     concat (map (\<lambda>(i, page).
         if po_chars page < min_chars then []
         else List.map_filter (\<lambda>((left, bottom, right, top), png).
             if right - left < PDF_MIN_PICTURE_PT \<or> top - bottom < PDF_MIN_PICTURE_PT then None
             else map_option (\<lambda>data. \<lparr> fp_unit = i, fp_heading = None, fp_blob = data, fp_extension = ''png'', fp_tables_only = True \<rparr>) png)
           (po_images page))
       (zip [1..<Suc (length pages)] pages))"

text \<open>\<open>os.path.splitext(path)[1].lstrip(".").lower()\<close>: what follows the last dot of the last component, unless only dots
come before it.\<close>

definition file_extension :: "string \<Rightarrow> string" where
  "file_extension path =
     (let name = after_last (CHR ''/'') path; ext = after_last (CHR ''.'') name; stem = take (length name - length ext) name in
      if CHR ''.'' \<notin> set name \<or> list_all (\<lambda>c. c = CHR ''.'') stem then [] else lower ext)"

definition drawing_pictures ::
  "(bytes \<Rightarrow> xml option) \<Rightarrow> archive \<Rightarrow> nat \<Rightarrow> string option \<Rightarrow> string \<Rightarrow> (string, found_picture list) result" where
  "drawing_pictures parse_xml zf i name drawing =
     (if \<not> contains ''/drawings/'' drawing \<or> map_of zf drawing = None then Inr []
      else bind_result (rels_of parse_xml zf drawing) (\<lambda>rels.
        Inr (List.map_filter (\<lambda>(k, t).
            if \<not> contains ''/media/'' t then None
            else map_option (\<lambda>data. \<lparr> fp_unit = i, fp_heading = name, fp_blob = data, fp_extension = file_extension t, fp_tables_only = False \<rparr>)
                   (map_of zf t)) rels)))"

definition sheet_pictures ::
  "(bytes \<Rightarrow> xml option) \<Rightarrow> archive \<Rightarrow> (string option \<times> string) list \<Rightarrow> nat \<times> xml \<Rightarrow> (string, found_picture list) result" where
  "sheet_pictures parse_xml zf book_rels numbered =
     (let (i, sheet) = numbered in
      case map_of book_rels (get_attr sheet (R_NS, ''id'')) of
        None \<Rightarrow> Inr []
      | Some part \<Rightarrow>
          if part = [] \<or> map_of zf part = None then Inr []
          else bind_result (rels_of parse_xml zf part) (\<lambda>rels.
            bind_result (map_result (drawing_pictures parse_xml zf i (attr ''name'' sheet)) (map snd rels)) (\<lambda>found. Inr (concat found))))"

definition xlsx_pictures :: "(bytes \<Rightarrow> xml option) \<Rightarrow> archive \<Rightarrow> (string, found_picture list) result" where
  "xlsx_pictures parse_xml zf =
     (case map_of zf ''xl/workbook.xml'' of
        None \<Rightarrow> Inr []
      | Some data \<Rightarrow>
          (case parse_xml data of
             None \<Rightarrow> Inl ''XMLSyntaxError''
           | Some wb \<Rightarrow>
               bind_result (rels_of parse_xml zf ''xl/workbook.xml'') (\<lambda>book_rels.
                 let sheets = iter (MAIN_NS, ''sheet'') wb in
                 bind_result (map_result (sheet_pictures parse_xml zf book_rels) (zip [1..<Suc (length sheets)] sheets))
                   (\<lambda>found. Inr (concat found)))))"

text \<open>\<open>image_of\<close> is \<open>shape.image\<close>, \<open>None\<close> where python-pptx raises. Pictures go top to bottom, then left to right.\<close>

definition slide_pictures :: "(leaf \<Rightarrow> (bytes \<times> string) option) \<Rightarrow> nat \<times> slide \<Rightarrow> found_picture list" where
  "slide_pictures image_of numbered =
     (let (i, s) = numbered in
      if sl_hidden s then []
      else map (\<lambda>(p, data, ext). \<lparr> fp_unit = i, fp_heading = None, fp_blob = data, fp_extension = lower ext, fp_tables_only = False \<rparr>)
        (sort_key (\<lambda>(p, x). pl_top p) (sort_key (\<lambda>(p, x). pl_left p)
          (List.map_filter (\<lambda>p. map_option (Pair p) (image_of (pl_shape p))) (fst (placed_shapes [] None 0 (sl_shapes s)))))))"

definition pptx_pictures :: "(leaf \<Rightarrow> (bytes \<times> string) option) \<Rightarrow> slide list \<Rightarrow> found_picture list" where
  "pptx_pictures image_of slides = concat (map (slide_pictures image_of) (zip [1..<Suc (length slides)] slides))"

text \<open>\<open>part_name\<close> is the name of a related part. The heading is tracked with the rule of the Word extractor.\<close>

definition block_pictures :: "(string \<Rightarrow> string) \<Rightarrow> word_document \<Rightarrow> string option \<Rightarrow> xml \<Rightarrow> found_picture list" where
  "block_pictures part_name doc heading el =
     List.map_filter (\<lambda>b.
         case get_attr b (R_NS, ''embed'') of
           None \<Rightarrow> None
         | Some rid \<Rightarrow>
             map_option (\<lambda>data. \<lparr> fp_unit = 1, fp_heading = heading, fp_blob = data, fp_extension = file_extension (part_name rid),
                 fp_tables_only = False \<rparr>) (wd_related doc rid))
       (filter (\<lambda>e. tag e = (A_NS, ''blip'')) (concat (map descendants (children el))))"

fun docx_pictures_from ::
  "(string \<Rightarrow> string) \<Rightarrow> word_document \<Rightarrow> string option \<Rightarrow> word_block list \<Rightarrow> (string, found_picture list) result" where
  "docx_pictures_from part_name doc heading [] = Inr []"
| "docx_pictures_from part_name doc heading (b # bs) =
     bind_result
       (case b of
          WordTable cells el \<Rightarrow> Inr heading
        | Paragraph t style el \<Rightarrow>
            if strip t = [] then Inr heading
            else bind_result (heading_level style) (\<lambda>level. Inr (if level = None then heading else Some (strip t))))
       (\<lambda>h. bind_result (docx_pictures_from part_name doc h bs) (\<lambda>rest. Inr (block_pictures part_name doc h (block_element b) @ rest)))"

definition docx_pictures :: "(string \<Rightarrow> string) \<Rightarrow> word_document \<Rightarrow> (string, found_picture list) result" where
  "docx_pictures part_name doc = docx_pictures_from part_name doc None (wd_blocks doc)"

record picture_files =
  pf_slides :: "bytes \<Rightarrow> (string, slide list) result"
  pf_image :: "leaf \<Rightarrow> (bytes \<times> string) option"
  pf_pages :: "bytes \<Rightarrow> (string, pdf_objects list) result"
  pf_zip :: "bytes \<Rightarrow> (string, archive) result"
  pf_word :: "bytes \<Rightarrow> (string, word_document) result"
  pf_part_name :: "string \<Rightarrow> string"
  pf_parse :: "bytes \<Rightarrow> xml option"

definition find_pictures :: "picture_files \<Rightarrow> nat \<Rightarrow> bytes \<Rightarrow> string \<Rightarrow> (string, found_picture list) result" where
  "find_pictures lib min_chars data mime =
     (if mime = PPTX_MIME then bind_result (pf_slides lib data) (\<lambda>slides. Inr (pptx_pictures (pf_image lib) slides))
      else if mime = PDF_MIME then bind_result (pf_pages lib data) (\<lambda>pages. Inr (pdf_pictures min_chars pages))
      else if mime = XLSX_MIME then bind_result (pf_zip lib data) (xlsx_pictures (pf_parse lib))
      else bind_result (pf_word lib data) (docx_pictures (pf_part_name lib)))"

section \<open>Vector pictures\<close>

definition SVG_NS :: string where "SVG_NS = ''http://www.w3.org/2000/svg''"

definition is_emf :: "bytes \<Rightarrow> bool" where "is_emf blob = (take 4 (drop 40 blob) = '' EMF'')"

text \<open>\<open>rotate\(\s*-?(?:90|270)\b\<close>, anywhere in the transform.\<close>

definition quarter_turn :: re where
  "quarter_turn =
     cat (map (\<lambda>c. Cls (\<lambda>x. x = c)) ''rotate(''
       @ [star (Cls is_space), opt (lit (CHR ''-'')),
          Or (cat [lit (CHR ''9''), lit (CHR ''0'')]) (cat [lit (CHR ''2''), lit (CHR ''7''), lit (CHR ''0'')]), WordBoundary])"

definition rotated :: "xml \<Rightarrow> bool" where
  "rotated el = (tag el = (SVG_NS, ''text'') \<and> finditer quarter_turn (or_empty (attr ''transform'' el)) \<noteq> [])"

text \<open>The drawing without its sideways text, and that text with its groups and definitions. Removing an element removes
the text after it.\<close>

fun without_labels :: "xml \<Rightarrow> xml" where
  "without_labels (Element t a x cs tx) = Element t a x (map without_labels (filter (\<lambda>c. \<not> rotated c) cs)) tx"

fun only_labels :: "xml \<Rightarrow> xml" where
  "only_labels (Element t a x cs tx) =
     Element t a x
       (map (\<lambda>c. if tag c = (SVG_NS, ''defs'') \<or> rotated c then c else only_labels c)
         (filter (\<lambda>c. tag c = (SVG_NS, ''defs'') \<or> list_ex rotated (descendants c)) cs)) tx"

record vector_tools =
  vt_available :: bool
  vt_to_svg :: "bytes \<Rightarrow> bytes option"
  vt_draw :: "bytes \<Rightarrow> bytes option"
  vt_parse :: "bytes \<Rightarrow> xml option"
  vt_print :: "xml \<Rightarrow> bytes"

definition split_rotated_labels :: "vector_tools \<Rightarrow> bytes \<Rightarrow> (string, bytes \<times> bytes option) result" where
  "split_rotated_labels tools svg =
     (case vt_parse tools svg of
        None \<Rightarrow> Inl ''XMLSyntaxError''
      | Some doc \<Rightarrow>
          if \<not> list_ex rotated (descendants doc) then Inr (svg, None)
          else if rotated doc then Inl ''AttributeError''
          else Inr (vt_print tools (without_labels doc), Some (vt_print tools (only_labels doc))))"

text \<open>One picture drawn: \<open>Inr None\<close> when it is not an enhanced metafile or a tool fails on it. An SVG that does not
parse raises, which nothing here catches.\<close>

definition draw_vector :: "vector_tools \<Rightarrow> bytes \<Rightarrow> (string, (bytes \<times> bytes option) option) result" where
  "draw_vector tools blob =
     (if \<not> is_emf blob then Inr None
      else case vt_to_svg tools blob of
          None \<Rightarrow> Inr None
        | Some svg \<Rightarrow>
            bind_result (split_rotated_labels tools svg) (\<lambda>(drawing, labels).
              Inr (case (vt_draw tools drawing, case labels of None \<Rightarrow> Some None | Some l \<Rightarrow> map_option Some (vt_draw tools l)) of
                     (Some png, Some labels_png) \<Rightarrow> if png = [] then None else Some (png, labels_png)
                   | _ \<Rightarrow> None)))"

definition rasterise_vectors ::
  "vector_tools \<Rightarrow> (nat \<times> bytes) list \<Rightarrow> (string, (nat \<times> (bytes \<times> bytes option)) list) result" where
  "rasterise_vectors tools items =
     (if items = [] \<or> \<not> vt_available tools then Inr []
      else bind_result (map_result (\<lambda>(i, blob). bind_result (draw_vector tools blob) (\<lambda>d. Inr (map_option (Pair i) d))) items)
        (\<lambda>drawn. Inr (List.map_filter id drawn)))"

section \<open>Reading the pictures of a file\<close>

record picture_text =
  pt_unit :: nat
  pt_text :: string
  pt_caption :: "string option"
  pt_heading :: "string option"
  pt_tables :: "string list list list"

definition REPEATED :: nat where "REPEATED = 3"

definition TABLE_NOTICE :: string where
  "TABLE_NOTICE = ''table read from a picture by OCR; check against the original before citing''"

definition PICTURE_FORMATS :: "string list" where "PICTURE_FORMATS = [PPTX_MIME, DOCX_MIME, XLSX_MIME, PDF_MIME]"

definition unreadable_notice :: "nat \<Rightarrow> string \<Rightarrow> string" where
  "unreadable_notice n place =
     ''['' @ nat_str n @ '' '' @ (if n = 1 then ''line'' else ''lines'') @ '' '' @ place
     @ '' could not be read reliably by OCR; check the original]''"

definition with_ocr_notice :: "string list list \<Rightarrow> string \<Rightarrow> string list list" where
  "with_ocr_notice rows name =
     (let width = (if rows = [] then 1 else Max (set (map length rows)));
          caption = (if strip name = [] then ''('' @ TABLE_NOTICE @ '')'' else strip name @ '' ('' @ TABLE_NOTICE @ '')'')
      in (caption # replicate (width - 1) []) # rows)"

record 'img picture_reader =
  pr_files :: picture_files
  pr_tools :: vector_tools
  pr_digest :: "bytes \<Rightarrow> string"
  pr_decode :: "bytes \<Rightarrow> 'img option"
  pr_vision :: "'img vision"
  pr_confidence :: reader_settings
  pr_min_native_chars :: nat
  pr_min_edge :: nat
  pr_max_pictures :: nat

text \<open>The first copy of every picture that occurs fewer than three times and has a known extension.\<close>

definition is_vector :: "found_picture \<Rightarrow> bool" where
  "is_vector p = (fp_extension p \<in> set VECTOR_EXTENSIONS)"

fun first_copies :: "(bytes \<Rightarrow> string) \<Rightarrow> string set \<Rightarrow> found_picture list \<Rightarrow> found_picture list" where
  "first_copies digest seen [] = []"
| "first_copies digest seen (p # ps) =
     (if digest (fp_blob p) \<in> seen then first_copies digest seen ps
      else p # first_copies digest (insert (digest (fp_blob p)) seen) ps)"

definition wanted_pictures :: "(bytes \<Rightarrow> string) \<Rightarrow> found_picture list \<Rightarrow> found_picture list" where
  "wanted_pictures digest found =
     filter (\<lambda>p. fp_extension p \<in> set (RASTER_EXTENSIONS @ VECTOR_EXTENSIONS))
       (first_copies digest {}
         (filter (\<lambda>p. length (filter (\<lambda>q. digest (fp_blob q) = digest (fp_blob p)) found) < REPEATED) found))"

text \<open>The pixels of a picture and, for a vector one with sideways text, of that text alone.\<close>

definition pixels_of :: "'img picture_reader \<Rightarrow> (nat \<times> (bytes \<times> bytes option)) list \<Rightarrow> nat \<times> found_picture \<Rightarrow> (bytes \<times> bytes option) option" where
  "pixels_of rd drawn numbered =
     (let (i, p) = numbered in if is_vector p then map_of drawn i else Some (fp_blob p, None))"

definition picture_text_of :: "found_picture \<Rightarrow> image_reading \<Rightarrow> picture_text option" where
  "picture_text_of p reading =
     (let tables = map (\<lambda>t. with_ocr_notice (it_rows t) (it_title t)) (ir_tables reading);
          said = join [NL] (ir_lines reading);
          text = (if said \<noteq> [] \<and> 0 < ir_unreadable reading then said @ [NL] @ unreadable_notice (ir_unreadable reading) ''in this picture'' else said)
      in if tables = [] \<and> text = [] then None
         else Some \<lparr> pt_unit = fp_unit p, pt_text = text, pt_caption = None, pt_heading = fp_heading p, pt_tables = tables \<rparr>)"

text \<open>One more picture; a picture that is too small, past the limit or cannot be read adds nothing.\<close>

definition read_one ::
  "'img picture_reader \<Rightarrow> (nat \<times> (bytes \<times> bytes option)) list \<Rightarrow> picture_text list \<Rightarrow> nat \<times> found_picture \<Rightarrow> picture_text list" where
  "read_one rd drawn results numbered =
     (case pixels_of rd drawn numbered of
        None \<Rightarrow> results
      | Some (blob, labels_blob) \<Rightarrow>
          (case pr_decode rd blob of
             None \<Rightarrow> results
           | Some img \<Rightarrow>
               let (height, width) = vi_size (pr_vision rd) img in
               if min height width < pr_min_edge rd \<or> pr_max_pictures rd \<le> length results then results
               else
                 let labels = (case labels_blob of None \<Rightarrow> None | Some [] \<Rightarrow> None | Some l \<Rightarrow> pr_decode rd l) in
                 (case read_picture (pr_vision rd) (pr_confidence rd) img labels (fp_tables_only (snd numbered)) of
                    Inl e \<Rightarrow> results
                  | Inr reading \<Rightarrow>
                      (case picture_text_of (snd numbered) reading of None \<Rightarrow> results | Some t \<Rightarrow> results @ [t]))))"

definition read_office_pictures :: "'img picture_reader \<Rightarrow> bytes \<Rightarrow> string \<Rightarrow> (string, picture_text list) result" where
  "read_office_pictures rd data mime =
     bind_result (find_pictures (pr_files rd) (pr_min_native_chars rd) data mime) (\<lambda>found.
       let wanted = zip [0..<length (wanted_pictures (pr_digest rd) found)] (wanted_pictures (pr_digest rd) found) in
       bind_result (rasterise_vectors (pr_tools rd) (List.map_filter (\<lambda>(i, p). if is_vector p then Some (i, fp_blob p) else None) wanted))
         (\<lambda>drawn. Inr (foldl (read_one rd drawn) [] wanted)))"

section \<open>Filing what pictures said\<close>

text \<open>The first heading of a unit, the number of its headings, and a heading by its stripped text.\<close>

definition title_of_unit :: "heading list \<Rightarrow> nat \<Rightarrow> string option" where
  "title_of_unit hs u = map_option h_text (find (\<lambda>h. h_unit_index h = u) hs)"

definition headings_in :: "heading list \<Rightarrow> nat \<Rightarrow> nat" where
  "headings_in hs u = length (filter (\<lambda>h. h_unit_index h = u) hs)"

definition own_heading :: "heading list \<Rightarrow> string \<Rightarrow> string option" where
  "own_heading hs t = map_of (rev (map (\<lambda>h. (strip (h_text h), h_text h)) hs)) (strip t)"

definition picture_unit :: "extracted_content \<Rightarrow> picture_text \<Rightarrow> nat option" where
  "picture_unit content p =
     (let known = map eu_index (ec_units content) in
      if pt_unit p \<in> set known then Some (pt_unit p) else if known = [] then None else Some (Min (set known)))"

definition picture_section :: "heading list \<Rightarrow> nat \<Rightarrow> picture_text \<Rightarrow> string option" where
  "picture_section hs u p =
     (let seen = (case pt_heading p of
            None \<Rightarrow> None | Some [] \<Rightarrow> None
          | Some h \<Rightarrow> Some (case own_heading hs h of Some t \<Rightarrow> t | None \<Rightarrow> h))
      in if 1 < headings_in hs u then seen
         else case title_of_unit hs u of None \<Rightarrow> seen | Some [] \<Rightarrow> seen | Some t \<Rightarrow> Some t)"

definition merge_picture :: "extracted_content \<Rightarrow> picture_text \<Rightarrow> extracted_content" where
  "merge_picture content p =
     (case picture_unit content p of
        None \<Rightarrow> content
      | Some u \<Rightarrow>
          let place = picture_section (ec_headings content) u p;
              figure = \<lparr> ef_unit_index = u, ef_text = strip (pt_text p), ef_caption = pt_caption p, ef_heading = place \<rparr>
          in content\<lparr>
               ec_tables := ec_tables content @ map (\<lambda>rows. \<lparr> et_unit_index = u, et_rows = rows, et_heading = place \<rparr>) (pt_tables p),
               ec_figures := ec_figures content
                 @ (if strip (pt_text p) \<noteq> [] \<or> (case pt_caption p of None \<Rightarrow> False | Some c \<Rightarrow> c \<noteq> []) then [figure] else []) \<rparr>)"

definition merge_pictures :: "extracted_content \<Rightarrow> picture_text list \<Rightarrow> extracted_content" where
  "merge_pictures content pictures = foldl merge_picture content pictures"

text \<open>What the extraction service is given: reading and filing, or nothing when the file cannot be read.\<close>

definition add_office_pictures :: "'img picture_reader \<Rightarrow> bytes \<Rightarrow> string \<Rightarrow> extracted_content \<Rightarrow> extracted_content option" where
  "add_office_pictures rd data mime content =
     (case read_office_pictures rd data mime of Inl e \<Rightarrow> None | Inr pictures \<Rightarrow> Some (merge_pictures content pictures))"

section \<open>The process's reader\<close>

text \<open>\<open>installed\<close>: the three libraries import. The reader is built once; a failure is remembered.\<close>

record reader_cache =
  rc_reader :: bool
  rc_failed :: bool

definition get_picture_reader :: "bool \<Rightarrow> bool \<Rightarrow> bool \<Rightarrow> reader_cache \<Rightarrow> bool \<times> reader_cache" where
  "get_picture_reader pictures_enabled ocr_enabled installed st =
     (if \<not> pictures_enabled \<or> \<not> ocr_enabled \<or> rc_failed st then (False, st)
      else if rc_reader st then (True, st)
      else if installed then (True, st\<lparr> rc_reader := True \<rparr>)
      else (False, st\<lparr> rc_failed := True \<rparr>))"

definition reset_picture_reader :: reader_cache where
  "reset_picture_reader = \<lparr> rc_reader = False, rc_failed = False \<rparr>"


section \<open>What a merge may do\<close>

lemma first_row_says_so:
  "contains TABLE_NOTICE (hd (hd (with_ocr_notice rows name)))"
proof -
  have "\<exists>a b. hd (hd (with_ocr_notice rows name)) = a @ TABLE_NOTICE @ b"
  proof (cases "strip name = []")
    case True
    then have "hd (hd (with_ocr_notice rows name)) = ''('' @ TABLE_NOTICE @ '')''" by (simp add: with_ocr_notice_def Let_def)
    then show ?thesis by blast
  next
    case False
    then have "hd (hd (with_ocr_notice rows name)) = (strip name @ '' ('') @ TABLE_NOTICE @ '')''" by (simp add: with_ocr_notice_def Let_def)
    then show ?thesis by blast
  qed
  then show ?thesis by (simp add: contains_iff)
qed

lemma picture_text_says_so:
  "picture_text_of p reading = Some t \<Longrightarrow> rows \<in> set (pt_tables t) \<Longrightarrow> contains TABLE_NOTICE (hd (hd rows))"
  by (auto simp: picture_text_of_def Let_def first_row_says_so split: if_splits)

definition marked :: "'img picture_reader \<Rightarrow> picture_text list \<Rightarrow> bool" where
  "marked rd results =
     ((\<forall>t\<in>set results. \<forall>rows\<in>set (pt_tables t). contains TABLE_NOTICE (hd (hd rows))) \<and> length results \<le> pr_max_pictures rd)"

lemma read_one_keeps: "marked rd results \<Longrightarrow> marked rd (read_one rd drawn results n)"
  by (auto simp: marked_def read_one_def Let_def picture_text_says_so split: option.splits prod.splits sum.splits if_splits)

lemma read_all_keep: "marked rd results \<Longrightarrow> marked rd (foldl (read_one rd drawn) results ns)"
  by (induction ns arbitrary: results) (simp_all add: read_one_keeps)

lemma read_office_pictures_marked:
  assumes "read_office_pictures rd data mime = Inr pictures"
  shows "marked rd pictures"
proof -
  obtain drawn ns where "pictures = foldl (read_one rd drawn) [] ns"
    using assms unfolding read_office_pictures_def Let_def bind_result_Inr by blast
  moreover have "marked rd []" by (simp add: marked_def)
  ultimately show ?thesis by (simp add: read_all_keep)
qed

text \<open>What filing adds: tables and figures behind the ones that are there, in units that are there.\<close>

definition filed :: "extracted_content \<Rightarrow> picture_text list \<Rightarrow> extracted_table list \<Rightarrow> extracted_figure list \<Rightarrow> bool" where
  "filed content pictures tables figures =
     ((\<forall>t\<in>set tables. et_unit_index t \<in> eu_index ` set (ec_units content) \<and> (\<exists>p\<in>set pictures. et_rows t \<in> set (pt_tables p)))
      \<and> (\<forall>f\<in>set figures. ef_unit_index f \<in> eu_index ` set (ec_units content))
      \<and> length figures \<le> length pictures)"

lemma picture_unit_known:
  "picture_unit content p = Some u \<Longrightarrow> u \<in> eu_index ` set (ec_units content)"
  using Min_in [of "eu_index ` set (ec_units content)"] by (auto simp: picture_unit_def Let_def split: if_splits)

lemma merge_pictures_adds:
  "\<exists>tables figures. merge_pictures content pictures
     = content\<lparr> ec_tables := ec_tables content @ tables, ec_figures := ec_figures content @ figures \<rparr>
     \<and> filed content pictures tables figures"
proof (induction pictures rule: rev_induct)
  case Nil
  show ?case by (intro exI [of _ "[]"]) (simp add: merge_pictures_def filed_def)
next
  case (snoc p pictures)
  then obtain tables figures where ih: "merge_pictures content pictures
      = content\<lparr> ec_tables := ec_tables content @ tables, ec_figures := ec_figures content @ figures \<rparr>"
    "filed content pictures tables figures" by blast
  let ?mid = "content\<lparr> ec_tables := ec_tables content @ tables, ec_figures := ec_figures content @ figures \<rparr>"
  have run: "merge_pictures content (pictures @ [p]) = merge_picture ?mid p" using ih(1) by (simp add: merge_pictures_def)
  have same: "picture_unit ?mid p = picture_unit content p" by (simp add: picture_unit_def)
  show ?case
  proof (cases "picture_unit content p")
    case None
    then show ?thesis using ih same unfolding run
      by (intro exI [of _ tables] exI [of _ figures]) (auto simp: merge_picture_def filed_def)
  next
    case (Some u)
    define new_tables where "new_tables = map (\<lambda>rows. \<lparr> et_unit_index = u, et_rows = rows,
      et_heading = picture_section (ec_headings content) u p \<rparr>) (pt_tables p)"
    define new_figures where "new_figures = (if strip (pt_text p) \<noteq> [] \<or> (case pt_caption p of None \<Rightarrow> False | Some c \<Rightarrow> c \<noteq> [])
      then [\<lparr> ef_unit_index = u, ef_text = strip (pt_text p), ef_caption = pt_caption p,
              ef_heading = picture_section (ec_headings content) u p \<rparr>] else [])"
    have "merge_picture ?mid p = content\<lparr> ec_tables := ec_tables content @ (tables @ new_tables),
        ec_figures := ec_figures content @ (figures @ new_figures) \<rparr>"
      using Some same by (simp add: merge_picture_def Let_def new_tables_def new_figures_def)
    moreover have "filed content (pictures @ [p]) (tables @ new_tables) (figures @ new_figures)"
      using ih(2) picture_unit_known [OF Some] by (auto simp: filed_def new_tables_def new_figures_def)
    ultimately show ?thesis unfolding run by blast
  qed
qed

text \<open>C36: Reading the pictures of a file only adds to what was extracted: text, headings, OCR record and earlier tables and
figures stay as they are. Every table that is added stands in a unit of the document and says in its first cell that it
was read from a picture; every figure stands in a unit; there are no more figures than pictures may be read.\<close>

theorem pictures_only_add_marked_content:
  assumes "add_office_pictures rd data mime content = Some merged"
  shows "\<exists>tables figures. merged = content\<lparr> ec_tables := ec_tables content @ tables, ec_figures := ec_figures content @ figures \<rparr>
    \<and> (\<forall>t\<in>set tables. et_unit_index t \<in> eu_index ` set (ec_units content) \<and> contains TABLE_NOTICE (hd (hd (et_rows t))))
    \<and> (\<forall>f\<in>set figures. ef_unit_index f \<in> eu_index ` set (ec_units content)) \<and> length figures \<le> pr_max_pictures rd"
proof -
  obtain pictures where read: "read_office_pictures rd data mime = Inr pictures" "merged = merge_pictures content pictures"
    using assms by (auto simp: add_office_pictures_def split: sum.splits)
  obtain tables figures where merged: "merge_pictures content pictures
      = content\<lparr> ec_tables := ec_tables content @ tables, ec_figures := ec_figures content @ figures \<rparr>"
    "filed content pictures tables figures" using merge_pictures_adds by blast
  note marked = read_office_pictures_marked [OF read(1)]
  have "\<forall>t\<in>set tables. et_unit_index t \<in> eu_index ` set (ec_units content) \<and> contains TABLE_NOTICE (hd (hd (et_rows t)))"
    using merged(2) marked unfolding filed_def marked_def by blast
  moreover have "\<forall>f\<in>set figures. ef_unit_index f \<in> eu_index ` set (ec_units content)" "length figures \<le> pr_max_pictures rd"
    using merged(2) marked unfolding filed_def marked_def by (blast, linarith)
  ultimately show ?thesis using read(2) merged(1) by blast
qed

section \<open>Sideways labels\<close>

text \<open>The drawing holds no sideways text, and the labels hold all of it.\<close>

lemma drawing_has_no_labels: "\<not> rotated el \<Longrightarrow> \<not> list_ex rotated (descendants (without_labels el))"
proof (induction el rule: without_labels.induct)
  case (1 t a x cs tx)
  have "rotated (Element t a x (map without_labels (filter (\<lambda>c. \<not> rotated c) cs)) tx) = rotated (Element t a x cs tx)"
    by (simp add: rotated_def attr_def get_attr_def)
  then show ?case using 1 by (auto simp: list_ex_iff)
qed

lemma labels_hold_all: "\<not> rotated el \<Longrightarrow> filter rotated (descendants (only_labels el)) = filter rotated (descendants el)"
proof (induction el rule: only_labels.induct)
  case (1 t a x cs tx)
  let ?keep = "\<lambda>c. tag c = (SVG_NS, ''defs'') \<or> list_ex rotated (descendants c)"
  let ?f = "\<lambda>c. if tag c = (SVG_NS, ''defs'') \<or> rotated c then c else only_labels c"
  have "concat (map (filter rotated \<circ> descendants \<circ> ?f) (filter ?keep ds)) = concat (map (filter rotated \<circ> descendants) ds)"
    if "set ds \<subseteq> set cs" for ds
    using that
  proof (induction ds)
    case (Cons d ds)
    have "?keep d \<Longrightarrow> filter rotated (descendants (?f d)) = filter rotated (descendants d)"
      using "1.IH" [of d] Cons.prems by auto
    moreover have "\<not> ?keep d \<Longrightarrow> filter rotated (descendants d) = []" by (simp add: list_ex_iff filter_empty_conv)
    ultimately show ?case using Cons by (cases "?keep d") (simp_all del: if_split)
  qed simp
  from this [of cs] have "filter rotated (concat (map descendants (map ?f (filter ?keep cs)))) = filter rotated (concat (map descendants cs))"
    by (simp add: filter_concat comp_def)
  moreover have "\<not> rotated (Element t a x cs' tx)" for cs' using 1(2) by (simp add: rotated_def attr_def get_attr_def)
  ultimately show ?case using 1(2) by simp
qed

text \<open>A metafile whose SVG does not parse ends the reading of every picture of its file.\<close>

lemma bad_svg_ends_the_reading:
  assumes "vt_available tools" "is_emf blob" "vt_to_svg tools blob = Some svg" "vt_parse tools svg = None"
    "find_pictures (pr_files rd) (pr_min_native_chars rd) data mime
       = Inr [\<lparr> fp_unit = 1, fp_heading = None, fp_blob = png, fp_extension = ''png'', fp_tables_only = False \<rparr>,
              \<lparr> fp_unit = 2, fp_heading = None, fp_blob = blob, fp_extension = ''emf'', fp_tables_only = False \<rparr>]"
    "pr_digest rd png \<noteq> pr_digest rd blob" "pr_tools rd = tools"
  shows "read_office_pictures rd data mime = Inl ''XMLSyntaxError''"
proof -
  let ?found = "[\<lparr> fp_unit = 1, fp_heading = None, fp_blob = png, fp_extension = ''png'', fp_tables_only = False \<rparr>,
    \<lparr> fp_unit = 2, fp_heading = None, fp_blob = blob, fp_extension = ''emf'', fp_tables_only = False \<rparr>]"
  have "wanted_pictures (pr_digest rd) ?found = ?found"
    using assms(6) by (simp add: wanted_pictures_def REPEATED_def RASTER_EXTENSIONS_def VECTOR_EXTENSIONS_def)
  moreover have "[0..<length ?found] = [0, 1]" by (simp add: upt_conv_Cons)
  moreover have "draw_vector tools blob = Inl ''XMLSyntaxError''"
    using assms(2-4) by (simp add: draw_vector_def split_rotated_labels_def bind_result_def)
  ultimately show ?thesis
    using assms(1,5,7) by (simp add: read_office_pictures_def Let_def bind_result_def is_vector_def VECTOR_EXTENSIONS_def
        rasterise_vectors_def List.map_filter_def del: upt.simps)
qed

section \<open>A slide with a photograph\<close>

definition sample_picture_reader :: "nat picture_reader" where
  "sample_picture_reader =
     \<lparr> pr_files = \<lparr> pf_slides = (\<lambda>d. Inr [sample_slide]),
         pf_image = (\<lambda>l. if lf_id l = 5 then Some (''p'', ''PNG'') else None), pf_pages = (\<lambda>d. Inr []), pf_zip = (\<lambda>d. Inr []),
         pf_word = (\<lambda>d. Inl ''not a Word file''), pf_part_name = id, pf_parse = (\<lambda>d. None) \<rparr>,
       pr_tools = \<lparr> vt_available = False, vt_to_svg = (\<lambda>b. None), vt_draw = (\<lambda>b. None), vt_parse = (\<lambda>b. None), vt_print = (\<lambda>x. []) \<rparr>,
       pr_digest = id, pr_decode = (\<lambda>b. Some 0), pr_vision = sample_photo, pr_confidence = sample_reader,
       pr_min_native_chars = 20, pr_min_edge = 80, pr_max_pictures = 40 \<rparr>"

definition sample_content :: extracted_content where
  "sample_content =
     \<lparr> ec_units = [\<lparr> eu_index = 1, eu_label = ''Slide 1'', eu_text = ''Plants'', eu_method = METHOD_NATIVE, eu_text_is_table = False \<rparr>],
       ec_headings = [\<lparr> h_text = ''Plants'', h_level = 1, h_unit_index = 1 \<rparr>], ec_tables = [], ec_ocr_pages = [],
       ec_ocr_skipped_pages = [], ec_ocr_unreadable_lines = [], ec_figures = [] \<rparr>"

lemma sample_pictures_found:
  "find_pictures (pr_files sample_picture_reader) 20 [] PPTX_MIME
   = Inr [\<lparr> fp_unit = 1, fp_heading = None, fp_blob = ''p'', fp_extension = ''png'', fp_tables_only = False \<rparr>]"
  by code_simp

lemma sample_pictures_read:
  "add_office_pictures sample_picture_reader [] PPTX_MIME sample_content
   = Some (sample_content\<lparr> ec_figures := [\<lparr> ef_unit_index = 1, ef_text = ''Stack height'' @ [NL] @ ''220 m'', ef_caption = None,
       ef_heading = Some ''Plants'' \<rparr>] \<rparr>)"
  by code_simp

theorem pictures_only_add_marked_content_witness:
  "\<exists>tables figures. sample_content\<lparr> ec_figures := [\<lparr> ef_unit_index = 1, ef_text = ''Stack height'' @ [NL] @ ''220 m'',
       ef_caption = None, ef_heading = Some ''Plants'' \<rparr>] \<rparr>
     = sample_content\<lparr> ec_tables := tables, ec_figures := figures \<rparr> \<and> length figures \<le> 40"
proof -
  have empty: "ec_tables sample_content = []" "ec_figures sample_content = []" "pr_max_pictures sample_picture_reader = 40"
    by (simp_all add: sample_content_def sample_picture_reader_def)
  show ?thesis using pictures_only_add_marked_content [OF sample_pictures_read] unfolding empty append_Nil by blast
qed


end
