(* ===== verification/Sheets.thy ===== *)
theory Sheets
  imports Artifacts Charts
begin

text \<open>The spreadsheet extractor of \<open>extraction/extractors.py\<close> and the resolver of chart references of
\<open>extraction/charts.py\<close>. What openpyxl hands back of a worksheet (its cells as a grid from A1 and its merged ranges) is a
record. Times of day are whole seconds.\<close>

section \<open>What openpyxl hands back\<close>

datatype xl_value =
    XNone | XBool bool | XInt int | XFloat pyfloat | XText string
  | XDateTime "int \<times> int \<times> int" nat nat nat | XDate "int \<times> int \<times> int" | XTime nat nat nat

record xl_cell =
  xc_value :: xl_value
  xc_format :: string

record worksheet =
  ws_title :: string
  ws_rows :: "xl_cell list list"
  ws_merged :: "(nat \<times> nat \<times> nat \<times> nat) list"

definition blank_cell :: xl_cell where
  "blank_cell = \<lparr> xc_value = XNone, xc_format = ''General'' \<rparr>"

text \<open>\<open>sheet.cell(row, column)\<close>, numbered from one; beyond the grid it is empty.\<close>

definition sheet_cell :: "worksheet \<Rightarrow> nat \<Rightarrow> nat \<Rightarrow> xl_cell" where
  "sheet_cell ws r c = (if 0 < r \<and> 0 < c then cell blank_cell (ws_rows ws) (r - 1) (c - 1) else blank_cell)"

section \<open>A cell as a person reads it\<close>

definition two_digits :: "nat \<Rightarrow> string" where
  "two_digits n = pad_left 2 (nat_str n)"

definition clock_time :: "nat \<Rightarrow> nat \<Rightarrow> nat \<Rightarrow> string" where
  "clock_time h m s = two_digits h @ '':'' @ two_digits m @ '':'' @ two_digits s"

definition xlsx_cell :: "xl_cell \<Rightarrow> string" where
  "xlsx_cell c =
     (case xc_value c of
        XNone \<Rightarrow> []
      | XBool b \<Rightarrow> if b then ''TRUE'' else ''FALSE''
      | XDateTime d h m s \<Rightarrow>
          if h = 0 \<and> m = 0 \<and> s = 0 then iso_date d else iso_date d @ '' '' @ two_digits h @ '':'' @ two_digits m
      | XDate d \<Rightarrow> iso_date d
      | XTime h m s \<Rightarrow> clock_time h m s
      | XFloat v \<Rightarrow>
          if CHR ''%'' \<in> set (xc_format c)
          then format_general 4 (case v of Finite x \<Rightarrow> Finite (x * 100) | _ \<Rightarrow> v) @ ''%''
          else (case v of
              Finite x \<Rightarrow> (if is_integer v \<and> \<bar>x\<bar> < 10 ^ 15 then signed_digits \<lfloor>x\<rfloor> else format_general 12 v)
            | _ \<Rightarrow> format_general 12 v)
      | XInt n \<Rightarrow> signed_digits n
      | XText t \<Rightarrow> strip t)"

section \<open>Labels merged over several rows\<close>

definition vertical_merge_fills :: "worksheet \<Rightarrow> ((nat \<times> nat) \<times> string) list" where
  "vertical_merge_fills ws =
     foldl (\<lambda>fills (min_row, min_col, max_row, max_col).
         let value = xlsx_cell (sheet_cell ws min_row min_col) in
         if max_row = min_row \<or> value = [] then fills
         else foldl (\<lambda>f r. AList.update (r, min_col) value f) fills [min_row + 1..<max_row + 1])
       [] (ws_merged ws)"

definition sheet_text :: "worksheet \<Rightarrow> ((nat \<times> nat) \<times> string) list \<Rightarrow> nat \<Rightarrow> nat \<Rightarrow> string" where
  "sheet_text ws fills r c =
     (case map_of fills (r, c) of Some v \<Rightarrow> v | None \<Rightarrow> xlsx_cell (sheet_cell ws r c))"

definition sheet_rows :: "bool \<Rightarrow> worksheet \<Rightarrow> string list list" where
  "sheet_rows full ws =
     (let fills = (if full then vertical_merge_fills ws else []) in
      filter (list_ex (\<lambda>c. c \<noteq> []))
        (map (\<lambda>r. map (sheet_text ws fills r) [1..<Suc (length (ws_rows ws ! (r - 1)))]) [1..<Suc (length (ws_rows ws))]))"

section \<open>References in charts\<close>

text \<open>\<open>column_index_from_string\<close>: at most three letters.\<close>

definition column_index :: "string \<Rightarrow> (string, nat) result" where
  "column_index s =
     (if length s \<le> 3 then Inr (foldl (\<lambda>n c. 26 * n + (code c - 64)) 0 s) else Inl ''ValueError'')"

definition optional :: "char \<Rightarrow> string \<Rightarrow> string" where
  "optional c s = (case s of x # rest \<Rightarrow> if x = c then rest else s | [] \<Rightarrow> [])"

text \<open>One or more characters of a class, and the rest.\<close>

definition some_of :: "(char \<Rightarrow> bool) \<Rightarrow> string \<Rightarrow> (string \<times> string) option" where
  "some_of P s = (if takeWhile P s = [] then None else Some (takeWhile P s, dropWhile P s))"

definition cell_name :: "string \<Rightarrow> (string \<times> string \<times> string) option" where
  "cell_name s =
     (case some_of is_upper_ascii (optional (CHR ''$'') s) of
        None \<Rightarrow> None
      | Some (col, rest) \<Rightarrow>
          (case some_of is_decimal (optional (CHR ''$'') rest) of
             None \<Rightarrow> None | Some (row, rest2) \<Rightarrow> Some (col, row, rest2)))"

text \<open>\<open>'Sheet 1'!$B$2:$B$6\<close> as sheet, first column and row, last column and row.\<close>

definition parse_reference :: "string \<Rightarrow> (string \<times> (string \<times> string) \<times> (string \<times> string) option) option" where
  "parse_reference s =
     (case some_of (\<lambda>c. c \<noteq> CHR 0x27 \<and> c \<noteq> CHR ''!'') (optional (CHR 0x27) s) of
        None \<Rightarrow> None
      | Some (sheet, rest) \<Rightarrow>
          (case optional (CHR 0x27) rest of
             [] \<Rightarrow> None
           | bang # rest2 \<Rightarrow>
               if bang \<noteq> CHR ''!'' then None
               else case cell_name rest2 of
                 None \<Rightarrow> None
               | Some (c1, r1, []) \<Rightarrow> Some (sheet, (c1, r1), None)
               | Some (c1, r1, colon # rest3) \<Rightarrow>
                   if colon \<noteq> CHR '':'' then None
                   else case cell_name rest3 of
                     Some (c2, r2, []) \<Rightarrow> Some (sheet, (c1, r1), Some (c2, r2))
                   | _ \<Rightarrow> None))"

text \<open>\<open>str(value)\<close> of a cell; how Python prints a float is a parameter.\<close>

definition resolved_text :: "(pyfloat \<Rightarrow> string) \<Rightarrow> xl_cell \<Rightarrow> string" where
  "resolved_text float_str c =
     (case xc_value c of
        XNone \<Rightarrow> []
      | XBool b \<Rightarrow> if b then ''True'' else ''False''
      | XDateTime d h m s \<Rightarrow>
          if h = 0 \<and> m = 0 \<and> s = 0 then iso_date d else iso_date d @ '' '' @ clock_time h m s
      | XDate d \<Rightarrow> iso_date d
      | XTime h m s \<Rightarrow> clock_time h m s
      | XFloat v \<Rightarrow> float_str v
      | XInt n \<Rightarrow> signed_digits n
      | XText t \<Rightarrow> t)"

definition row_number :: "string \<Rightarrow> nat" where
  "row_number ds = nat (case digits_value 0 False ds of None \<Rightarrow> 0 | Some n \<Rightarrow> n)"

definition workbook_resolver :: "(pyfloat \<Rightarrow> string) \<Rightarrow> worksheet list \<Rightarrow> resolver" where
  "workbook_resolver float_str sheets ref =
     (case parse_reference (strip (filter (\<lambda>c. c \<noteq> CHR ''('' \<and> c \<noteq> CHR '')'') ref)) of
        None \<Rightarrow> Inr None
      | Some (name, (c1, r1), corner) \<Rightarrow>
          (case find (\<lambda>ws. ws_title ws = name) sheets of
             None \<Rightarrow> Inr None
           | Some ws \<Rightarrow>
               bind_result (column_index c1) (\<lambda>a.
               bind_result (case corner of None \<Rightarrow> Inr a | Some (c2, r2) \<Rightarrow> column_index c2) (\<lambda>b.
                 let top = max 1 (row_number r1);
                     given = (case corner of None \<Rightarrow> row_number r1 | Some (c2, r2) \<Rightarrow> row_number r2);
                     bottom = (if given = 0 then length (ws_rows ws) else given)
                 in Inr (Some (map (\<lambda>(r, c). resolved_text float_str (sheet_cell ws r c))
                      (List.product [top..<Suc bottom] [a..<Suc b])))))))"

section \<open>The extractor\<close>

definition XLSX_FULL_LOAD_MAX_BYTES :: nat where "XLSX_FULL_LOAD_MAX_BYTES = 8 * 1024 * 1024"

record xlsx_library =
  load_workbook :: "bool \<Rightarrow> bytes \<Rightarrow> (string, worksheet list) result"
  open_zip :: "bytes \<Rightarrow> archive option"
  sheet_xml :: "bytes \<Rightarrow> xml option"
  print_float :: "pyfloat \<Rightarrow> string"

text \<open>A chart that cannot be located costs the sheet nothing.\<close>

definition workbook_charts :: "xlsx_library \<Rightarrow> bytes \<Rightarrow> (string option \<times> bytes list) list" where
  "workbook_charts lib data =
     (case open_zip lib data of
        None \<Rightarrow> []
      | Some zf \<Rightarrow> (case xlsx_chart_parts (sheet_xml lib) zf of Inl e \<Rightarrow> [] | Inr parts \<Rightarrow> parts))"

definition read_sheet ::
  "xlsx_library \<Rightarrow> bool \<Rightarrow> (string option \<times> bytes list) list \<Rightarrow> resolver option \<Rightarrow> nat \<times> worksheet
     \<Rightarrow> (string, extracted_unit \<times> heading \<times> extracted_table list) result" where
  "read_sheet lib full charts resolve numbered =
     (let (index, ws) = numbered; rows = sheet_rows full ws;
          table = (\<lambda>rs. \<lparr> et_unit_index = index, et_rows = rs, et_heading = Some (ws_title ws) \<rparr>)
      in bind_result (map_result (chart_rows (sheet_xml lib) resolve)
            (case map_of charts (Some (ws_title ws)) of None \<Rightarrow> [] | Some cs \<Rightarrow> cs)) (\<lambda>found.
          Inr (\<lparr> eu_index = index, eu_label = ''Sheet: '' @ ws_title ws,
                 eu_text = join [NL] (map (\<lambda>row. rstrip (join [TAB] row)) rows),
                 eu_method = METHOD_NATIVE, eu_text_is_table = (rows \<noteq> []) \<rparr>,
               \<lparr> h_text = ws_title ws, h_level = 1, h_unit_index = index \<rparr>,
               (if rows \<noteq> [] then [table rows] else [])
               @ map table (List.map_filter (\<lambda>f. case f of Some (r # rs) \<Rightarrow> Some (r # rs) | _ \<Rightarrow> None) found))))"

definition extract_xlsx :: "xlsx_library \<Rightarrow> bytes \<Rightarrow> (extraction_failure, extracted_content) result" where
  "extract_xlsx lib data =
     (let full = length data \<le> XLSX_FULL_LOAD_MAX_BYTES in
      case bind_result (load_workbook lib full data) (\<lambda>sheets.
             map_result (read_sheet lib full (workbook_charts lib data)
                 (if full then Some (workbook_resolver (print_float lib) sheets) else None))
               (zip [1..<Suc (length sheets)] sheets)) of
        Inl e \<Rightarrow> Inl (ExtractionError (''Could not read spreadsheet content: '' @ e))
      | Inr found \<Rightarrow>
          Inr \<lparr> ec_units = map fst found, ec_headings = map (\<lambda>(u, h, ts). h) found,
                ec_tables = concat (map (\<lambda>(u, h, ts). ts) found), ec_ocr_pages = [], ec_ocr_skipped_pages = [],
                ec_ocr_unreadable_lines = [], ec_figures = [] \<rparr>)"

end
