(* ===== verification/PdfPages.thy ===== *)
theory PdfPages
  imports Pictures Sheets
begin

text \<open>The PDF extractor of \<open>extraction/extractors.py\<close> and the OCR of \<open>extraction/ocr.py\<close>: the text layer of every page, OCR for
pages without one as far as the budget goes, tables on scanned pages, headings from font sizes and subject lines. What
pdfplumber hands back of a page is a record over an abstract type of images; font sizes are exact rationals, rounded to
tenths the way \<open>round(size, 1)\<close> does.\<close>

section \<open>OCR of a page\<close>

record ocr_page =
  op_lines :: "(string \<times> rat) list"
  op_unreadable :: nat

text \<open>\<open>texts\<close> and \<open>scores\<close> are the engine's \<open>txts\<close> and \<open>scores\<close>; a text without a score has score zero.\<close>

definition filter_page :: "rat \<Rightarrow> string option list \<Rightarrow> rat list \<Rightarrow> ocr_page" where
  "filter_page least texts scores =
     (let scored = map (\<lambda>(i, t). (strip (or_empty t), if i < length scores then scores ! i else 0)) (zip [0..<length texts] texts);
          found = filter (\<lambda>(t, s). t \<noteq> []) scored
      in \<lparr> op_lines = filter (\<lambda>(t, s). least \<le> s) found, op_unreadable = length (filter (\<lambda>(t, s). s < least) found) \<rparr>)"

text \<open>The engine on an image; \<open>None\<close> is \<open>OcrUnavailable\<close>.\<close>

definition read_page :: "('img \<Rightarrow> (string option list \<times> rat list) option) \<Rightarrow> rat \<Rightarrow> 'img \<Rightarrow> ocr_page option" where
  "read_page engine least img = map_option (\<lambda>(texts, scores). filter_page least texts scores) (engine img)"

text \<open>The process's engine: \<open>loads\<close> says whether loading it succeeds; a failure is remembered.\<close>

record engine_cache =
  ce_engine :: bool
  ce_failed :: bool

definition get_ocr_engine :: "bool \<Rightarrow> bool \<Rightarrow> engine_cache \<Rightarrow> bool \<times> engine_cache" where
  "get_ocr_engine ocr_enabled loads st =
     (if \<not> ocr_enabled \<or> ce_failed st then (False, st)
      else if ce_engine st then (True, st)
      else if loads then (True, st\<lparr> ce_engine := True \<rparr>)
      else (False, st\<lparr> ce_failed := True \<rparr>))"

section \<open>What pdfplumber hands back\<close>

text \<open>\<open>Inl\<close> is an exception; \<open>None\<close> is one in a place where the extractor carries on.\<close>

record 'img pdf_page =
  pg_text :: "(string, string option) result"
  pg_has_images :: "bool option"
  pg_image :: "'img option"
  pg_tables :: "(string, string option list list list) result"
  pg_words :: "(string \<times> rat \<times> rat) list option"

text \<open>The settings, the engine when OCR is on, and the reader of tables when there is one.\<close>

record 'img pdf_reader =
  pd_min_native_chars :: nat
  pd_max_pages :: nat
  pd_engine :: "('img \<Rightarrow> ocr_page option) option"
  pd_tables :: "('img \<Rightarrow> (string, image_reading) result) option"

section \<open>Headings\<close>

definition SUBJECT_MAX_CHARS :: nat where "SUBJECT_MAX_CHARS = 200"

text \<open>\<open>^\s*(subject|sub)\s*[.:\-]+\s*\S\<close> without regard to case, on a stripped line: something stands after the first
punctuation mark.\<close>

definition subject_tail :: "string \<Rightarrow> bool" where
  "subject_tail t = (case lstrip t of [] \<Rightarrow> False | p # rest \<Rightarrow> p \<in> {CHR ''.'', CHR '':'', CHR ''-''} \<and> strip rest \<noteq> [])"

definition is_subject_line :: "string \<Rightarrow> bool" where
  "is_subject_line line =
     (let t = lstrip line in
      (startswith (lower t) ''subject'' \<and> subject_tail (drop 7 t)) \<or> (startswith (lower t) ''sub'' \<and> subject_tail (drop 3 t)))"

definition drop_fragment :: "string \<Rightarrow> string" where
  "drop_fragment line =
     (if endswith line ''-'' \<and> CHR '' '' \<in> set line
      then rstrip (take (length line - length (after_last (CHR '' '') line) - 1) line) else line)"

definition subject_headings :: "string \<Rightarrow> nat \<Rightarrow> heading list" where
  "subject_headings text index =
     map (\<lambda>l. \<lparr> h_text = drop_fragment l, h_level = 1, h_unit_index = index \<rparr>)
       (filter (\<lambda>l. is_subject_line l \<and> length l \<le> SUBJECT_MAX_CHARS) (map strip (splitlines text)))"

text \<open>The words of a page by rounded top position, top to bottom; a line has the largest size of its words.\<close>

definition page_lines :: "'img pdf_page \<Rightarrow> nat \<Rightarrow> (string \<times> rat \<times> nat) list" where
  "page_lines page index =
     (case pg_words page of
        None \<Rightarrow> []
      | Some ws \<Rightarrow>
          List.map_filter (\<lambda>k.
              let mine = filter (\<lambda>(t, y, s). py_round y = k) ws;
                  text = strip (join '' '' (map fst mine))
              in if text = [] then None else Some (text, Max (set (map (\<lambda>(t, y, s). s) mine)), index))
            (sort (remdups (map (\<lambda>(t, y, s). py_round y) ws))))"

definition tenths :: "rat \<Rightarrow> int" where "tenths s = py_round (s * 10)"

text \<open>Characters by size, in order of first appearance; the body's size is the first of those with the most.\<close>

definition size_weights :: "(string \<times> rat \<times> nat) list \<Rightarrow> (int \<times> nat) list" where
  "size_weights lines =
     foldl (\<lambda>ws (t, s, i). if 0 < s
         then AList.update (tenths s) ((case map_of ws (tenths s) of None \<Rightarrow> 0 | Some n \<Rightarrow> n) + length t) ws else ws) [] lines"

definition HEADING_SIZE_RATIO :: rat where "HEADING_SIZE_RATIO = 115 / 100"

definition heading_sizes :: "int \<Rightarrow> (string \<times> rat \<times> nat) list \<Rightarrow> int list" where
  "heading_sizes body lines =
     rev (sort (remdups (map (\<lambda>(t, s, i). tenths s) (filter (\<lambda>(t, s, i). of_int body / 10 * HEADING_SIZE_RATIO \<le> s) lines))))"

definition infer_headings :: "(string \<times> rat \<times> nat) list \<Rightarrow> heading list" where
  "infer_headings lines =
     (case sort_key (\<lambda>(k, n). - int n) (size_weights lines) of
        [] \<Rightarrow> []
      | (body, n) # _ \<Rightarrow>
          let sizes = heading_sizes body lines in
          List.map_filter (\<lambda>(t, s, i).
              case find (\<lambda>k. sizes ! k = tenths s) [0..<length sizes] of
                None \<Rightarrow> None
              | Some k \<Rightarrow> if length t \<le> HEADING_MAX_CHARS
                  then Some \<lparr> h_text = t, h_level = k + 1, h_unit_index = i \<rparr> else None) lines)"

section \<open>One page\<close>

definition needs_ocr :: "'img pdf_reader \<Rightarrow> 'img pdf_page \<Rightarrow> string \<Rightarrow> bool" where
  "needs_ocr rd page text = (length (strip text) < pd_min_native_chars rd \<and> pg_has_images page = Some True)"

text \<open>The tables on a scanned page and the text outside them.\<close>

definition scan_tables :: "'img pdf_reader \<Rightarrow> 'img \<Rightarrow> nat \<Rightarrow> extracted_table list \<times> string" where
  "scan_tables rd img index =
     (case pd_tables rd of
        None \<Rightarrow> ([], [])
      | Some reader \<Rightarrow>
          (case reader img of
             Inl e \<Rightarrow> ([], [])
           | Inr reading \<Rightarrow>
               if ir_tables reading = [] then ([], [])
               else (map (\<lambda>t. \<lparr> et_unit_index = index, et_rows = with_ocr_notice (it_rows t) (it_title t), et_heading = None \<rparr>)
                       (ir_tables reading), join [NL] (ir_lines reading))))"

definition ocr_page_of :: "'img pdf_reader \<Rightarrow> 'img pdf_page \<Rightarrow> nat \<Rightarrow> string \<times> nat \<times> extracted_table list" where
  "ocr_page_of rd page index =
     (case (pd_engine rd, pg_image page) of
        (Some engine, Some img) \<Rightarrow>
          (case engine img of
             None \<Rightarrow> ([], 0, [])
           | Some read \<Rightarrow>
               let plain = join [NL] (map fst (op_lines read));
                   (found, rest) = (if plain \<noteq> [] then scan_tables rd img index else ([], []));
                   text = (if found \<noteq> [] then rest else plain);
                   said = (if text \<noteq> [] \<and> 0 < op_unreadable read
                           then text @ [NL] @ unreadable_notice (op_unreadable read) ''on this page'' else text)
               in (said, op_unreadable read, found))
      | _ \<Rightarrow> ([], 0, []))"

section \<open>The extractor\<close>

record pdf_content =
  pc_units :: "extracted_unit list"
  pc_tables :: "extracted_table list"
  pc_ocr_pages :: "nat list"
  pc_skipped :: "nat list"
  pc_unreadable :: "(nat \<times> nat) list"
  pc_subjects :: "heading list"
  pc_lines :: "(string \<times> rat \<times> nat) list"
  pc_budget :: nat

definition start_content :: "nat \<Rightarrow> pdf_content" where
  "start_content budget =
     \<lparr> pc_units = [], pc_tables = [], pc_ocr_pages = [], pc_skipped = [], pc_unreadable = [], pc_subjects = [], pc_lines = [],
       pc_budget = budget \<rparr>"

text \<open>The OCR of a page that needs it: the text and method it ends up with.\<close>

definition ocr_step :: "'img pdf_reader \<Rightarrow> 'img pdf_page \<Rightarrow> nat \<Rightarrow> string \<Rightarrow> pdf_content \<Rightarrow> pdf_content \<times> string \<times> string" where
  "ocr_step rd page index text st =
     (if \<not> needs_ocr rd page text then (st, text, METHOD_NATIVE)
      else if pc_budget st = 0 then (st\<lparr> pc_skipped := pc_skipped st @ [index] \<rparr>, text, METHOD_NATIVE)
      else
        let (read, unreadable, found) = ocr_page_of rd page index;
            st1 = st\<lparr> pc_tables := pc_tables st @ found,
                     pc_unreadable := pc_unreadable st @ (if 0 < unreadable then [(index, unreadable)] else []) \<rparr>
        in if read = [] then (st1, text, METHOD_NATIVE)
           else (st1\<lparr> pc_ocr_pages := pc_ocr_pages st @ [index], pc_budget := pc_budget st - 1,
                      pc_subjects := pc_subjects st @ subject_headings read index \<rparr>, read, METHOD_OCR))"

definition native_tables :: "nat \<Rightarrow> string option list list list \<Rightarrow> extracted_table list" where
  "native_tables index raw =
     map (\<lambda>rows. \<lparr> et_unit_index = index, et_rows = rows, et_heading = None \<rparr>)
       (filter table_has_content (map (map (map clean_cell)) raw))"

definition page_step :: "'img pdf_reader \<Rightarrow> pdf_content \<Rightarrow> nat \<times> 'img pdf_page \<Rightarrow> (string, pdf_content) result" where
  "page_step rd st numbered =
     (let (index, page) = numbered in
      bind_result (pg_text page) (\<lambda>native.
        let (st1, text, how) = ocr_step rd page index (or_empty native) st;
            st2 = st1\<lparr> pc_units := pc_units st1 @ [\<lparr> eu_index = index, eu_label = ''Page '' @ nat_str index, eu_text = text,
                       eu_method = how, eu_text_is_table = False \<rparr>] \<rparr>
        in bind_result (pg_tables page) (\<lambda>raw.
             Inr (st2\<lparr> pc_tables := pc_tables st2 @ native_tables index raw, pc_lines := pc_lines st2 @ page_lines page index \<rparr>))))"

fun read_pages :: "'img pdf_reader \<Rightarrow> pdf_content \<Rightarrow> (nat \<times> 'img pdf_page) list \<Rightarrow> (string, pdf_content) result" where
  "read_pages rd st [] = Inr st"
| "read_pages rd st (p # ps) = bind_result (page_step rd st p) (\<lambda>st1. read_pages rd st1 ps)"

definition content_of_pages :: "pdf_content \<Rightarrow> extracted_content" where
  "content_of_pages st =
     \<lparr> ec_units = pc_units st, ec_headings = sort_key h_unit_index (infer_headings (pc_lines st) @ pc_subjects st),
       ec_tables = pc_tables st, ec_ocr_pages = pc_ocr_pages st, ec_ocr_skipped_pages = pc_skipped st,
       ec_ocr_unreadable_lines = pc_unreadable st, ec_figures = [] \<rparr>"

definition extract_pdf ::
  "(bytes \<Rightarrow> (string, 'img pdf_page list) result) \<Rightarrow> 'img pdf_reader \<Rightarrow> bytes \<Rightarrow> (extraction_failure, extracted_content) result" where
  "extract_pdf open_pdf rd data =
     (case bind_result (open_pdf data) (\<lambda>pages. read_pages rd (start_content (pd_max_pages rd)) (zip [1..<Suc (length pages)] pages)) of
        Inl e \<Rightarrow> Inl (ExtractionError (''Could not read PDF content: '' @ e))
      | Inr st \<Rightarrow> Inr (content_of_pages st))"

section \<open>The budget, and what is read how\<close>

definition native_text :: "'img pdf_page \<Rightarrow> string" where
  "native_text page = (case pg_text page of Inl e \<Rightarrow> [] | Inr t \<Rightarrow> or_empty t)"

text \<open>A unit is its page: read by OCR exactly when its number is recorded, which only a page that needs it is.\<close>

definition unit_of_page :: "'img pdf_reader \<Rightarrow> nat list \<Rightarrow> nat \<Rightarrow> 'img pdf_page \<Rightarrow> extracted_unit \<Rightarrow> bool" where
  "unit_of_page rd recorded index page u =
     (eu_index u = index
      \<and> (if index \<in> set recorded
         then eu_method u = METHOD_OCR \<and> needs_ocr rd page (native_text page) \<and> eu_text u \<noteq> []
         else eu_method u = METHOD_NATIVE \<and> eu_text u = native_text page))"

definition pages_read :: "'img pdf_reader \<Rightarrow> 'img pdf_page list \<Rightarrow> pdf_content \<Rightarrow> bool" where
  "pages_read rd pages st =
     (length (pc_units st) = length pages
      \<and> (\<forall>j<length pages. unit_of_page rd (pc_ocr_pages st) (Suc j) (pages ! j) (pc_units st ! j))
      \<and> set (pc_ocr_pages st) \<subseteq> {1..length pages}
      \<and> length (pc_ocr_pages st) + pc_budget st = pd_max_pages rd
      \<and> (pc_skipped st \<noteq> [] \<longrightarrow> pc_budget st = 0)
      \<and> (\<forall>i\<in>set (pc_skipped st). i \<in> {1..length pages} \<and> needs_ocr rd (pages ! (i - 1)) (native_text (pages ! (i - 1)))))"

lemma ocr_step_cases:
  assumes "ocr_step rd page index text st = (st1, read, how)"
  obtains (kept) "read = text" "how = METHOD_NATIVE" "pc_ocr_pages st1 = pc_ocr_pages st" "pc_budget st1 = pc_budget st"
      "pc_skipped st1 = pc_skipped st \<or> pc_skipped st1 = pc_skipped st @ [index] \<and> pc_budget st = 0 \<and> needs_ocr rd page text"
      "pc_units st1 = pc_units st"
    | (scanned) "read \<noteq> []" "how = METHOD_OCR" "needs_ocr rd page text" "pc_ocr_pages st1 = pc_ocr_pages st @ [index]"
      "0 < pc_budget st" "pc_budget st1 = pc_budget st - 1" "pc_skipped st1 = pc_skipped st" "pc_units st1 = pc_units st"
  using assms by (auto simp: ocr_step_def Let_def split: if_splits prod.splits)

lemma page_step_keeps:
  assumes "page_step rd st (Suc (length pages), page) = Inr st'" "pages_read rd pages st"
  shows "pages_read rd (pages @ [page]) st'"
proof -
  let ?i = "Suc (length pages)"
  obtain native where native_part: "pg_text page = Inr native"
    using assms(1) by (cases "pg_text page") (simp_all add: page_step_def bind_result_def)
  obtain st1 read how where step: "ocr_step rd page ?i (or_empty native) st = (st1, read, how)" by (rule prod_cases3)
  obtain raw where "pg_tables page = Inr raw"
    using assms(1) native_part step by (cases "pg_tables page") (simp_all add: page_step_def bind_result_def)
  note parts = native_part this
  have st': "pc_units st' = pc_units st1 @ [\<lparr> eu_index = ?i, eu_label = ''Page '' @ nat_str ?i, eu_text = read,
        eu_method = how, eu_text_is_table = False \<rparr>]"
    "pc_ocr_pages st' = pc_ocr_pages st1" "pc_budget st' = pc_budget st1" "pc_skipped st' = pc_skipped st1"
    using assms(1) parts step by (auto simp: page_step_def Let_def)
  have native: "native_text page = or_empty native" by (simp add: native_text_def parts(1))
  have len: "length (pc_units st) = length pages" and bound: "set (pc_ocr_pages st) \<subseteq> {1..length pages}"
    using assms(2) by (simp_all add: pages_read_def)
  have fresh: "?i \<notin> set (pc_ocr_pages st)" using bound by auto
  have skipped: "i \<in> {1..length (pages @ [page])} \<and> needs_ocr rd ((pages @ [page]) ! (i - 1)) (native_text ((pages @ [page]) ! (i - 1)))"
    if "i \<in> set (pc_skipped st)" for i
  proof -
    have i: "i \<in> {1..length pages}" "needs_ocr rd (pages ! (i - 1)) (native_text (pages ! (i - 1)))"
      using assms(2) that by (auto simp: pages_read_def)
    then have "i - 1 < length pages" by auto
    then show ?thesis using i by (simp add: nth_append)
  qed
  have before: "length (pc_ocr_pages st) + pc_budget st = pd_max_pages rd" "pc_skipped st \<noteq> [] \<longrightarrow> pc_budget st = 0"
    using assms(2) by (simp_all add: pages_read_def)
  from step show ?thesis
  proof (cases rule: ocr_step_cases)
    case kept
    have "unit_of_page rd (pc_ocr_pages st') (Suc j) ((pages @ [page]) ! j) (pc_units st' ! j)" if "j < ?i" for j
      using that assms(2) kept st' len fresh native
      by (cases "j = length pages") (simp_all add: pages_read_def unit_of_page_def nth_append)
    moreover have "\<forall>i\<in>set (pc_skipped st'). i \<in> {1..length (pages @ [page])}
        \<and> needs_ocr rd ((pages @ [page]) ! (i - 1)) (native_text ((pages @ [page]) ! (i - 1)))"
      using kept(5) skipped native unfolding st' by auto
    moreover have "pc_skipped st' \<noteq> [] \<longrightarrow> pc_budget st' = 0" using kept before st' by auto
    ultimately show ?thesis using kept st' len before bound by (auto simp: pages_read_def)
  next
    case scanned
    have "unit_of_page rd (pc_ocr_pages st') (Suc j) ((pages @ [page]) ! j) (pc_units st' ! j)" if "j < ?i" for j
    proof (cases "j = length pages")
      case True
      then show ?thesis using scanned st' len native by (simp add: unit_of_page_def nth_append)
    next
      case False
      then have j: "j < length pages" using that by simp
      then have "unit_of_page rd (pc_ocr_pages st) (Suc j) (pages ! j) (pc_units st ! j)"
        using assms(2) by (simp add: pages_read_def)
      then show ?thesis using j scanned st' len by (simp add: unit_of_page_def nth_append)
    qed
    moreover have "\<forall>i\<in>set (pc_skipped st'). i \<in> {1..length (pages @ [page])}
        \<and> needs_ocr rd ((pages @ [page]) ! (i - 1)) (native_text ((pages @ [page]) ! (i - 1)))"
      using scanned(7) skipped unfolding st' by auto
    moreover have "pc_skipped st' = []" using scanned before st' by auto
    ultimately show ?thesis using scanned st' len before bound by (auto simp: pages_read_def)
  qed
qed

lemma read_pages_keep:
  assumes "read_pages rd st (zip [Suc (length done_pages)..<Suc (length done_pages + length pages)] pages) = Inr st'"
    "pages_read rd done_pages st"
  shows "pages_read rd (done_pages @ pages) st'"
  using assms
proof (induction pages arbitrary: st done_pages)
  case (Cons page pages)
  have "zip [Suc (length done_pages)..<Suc (length done_pages + length (page # pages))] (page # pages)
      = (Suc (length done_pages), page) # zip [Suc (length (done_pages @ [page]))..<Suc (length (done_pages @ [page]) + length pages)] pages"
    by (subst upt_conv_Cons) simp_all
  then obtain st1 where st1: "page_step rd st (Suc (length done_pages), page) = Inr st1"
      "read_pages rd st1 (zip [Suc (length (done_pages @ [page]))..<Suc (length (done_pages @ [page]) + length pages)] pages) = Inr st'"
    using Cons.prems(1) by auto
  show ?case using Cons.IH [OF st1(2) page_step_keeps [OF st1(1) Cons.prems(2)]] by simp
qed simp

text \<open>C35: OCR of a PDF stays inside its budget and is recorded. There is one unit per page, in order; a unit is OCR text
exactly when its page is recorded as read by OCR, which only a page with almost no text and an image on it is, and
otherwise it is the page's own text; at most the budget of pages is recorded, and pages are skipped only when the budget
is used up.\<close>

theorem ocr_stays_in_budget:
  assumes "extract_pdf open_pdf rd data = Inr content" "open_pdf data = Inr pages"
  shows "length (ec_units content) = length pages
    \<and> (\<forall>j<length pages. unit_of_page rd (ec_ocr_pages content) (Suc j) (pages ! j) (ec_units content ! j))
    \<and> length (ec_ocr_pages content) \<le> pd_max_pages rd
    \<and> (\<forall>i\<in>set (ec_ocr_skipped_pages content). length (ec_ocr_pages content) = pd_max_pages rd
         \<and> i \<in> {1..length pages} \<and> needs_ocr rd (pages ! (i - 1)) (native_text (pages ! (i - 1))))"
proof -
  obtain st where st: "read_pages rd (start_content (pd_max_pages rd)) (zip [1..<Suc (length pages)] pages) = Inr st"
      "content = content_of_pages st"
    using assms by (auto simp: extract_pdf_def bind_result_def split: sum.splits)
  have "pages_read rd [] (start_content (pd_max_pages rd))" by (simp add: pages_read_def start_content_def)
  then have "pages_read rd pages st"
    using read_pages_keep [of rd "start_content (pd_max_pages rd)" "[]" pages st] st(1) by simp
  then show ?thesis using st(2) by (auto simp: pages_read_def content_of_pages_def)
qed


section \<open>A short scan\<close>

text \<open>A typed page, two scanned ones, and a blank one, with a budget of one page. Images are numbers.\<close>

definition sample_page :: "string \<Rightarrow> nat option \<Rightarrow> nat pdf_page" where
  "sample_page t img =
     \<lparr> pg_text = Inr (Some t), pg_has_images = Some (img \<noteq> None), pg_image = img, pg_tables = Inr [], pg_words = Some [] \<rparr>"

definition sample_pages :: "nat pdf_page list" where
  "sample_pages = [sample_page ''A covering letter, typed'' None, sample_page ''4'' (Some 0), sample_page [] (Some 1), sample_page [] None]"

definition sample_pdf_reader :: "nat pdf_reader" where
  "sample_pdf_reader =
     \<lparr> pd_min_native_chars = 20, pd_max_pages = 1,
       pd_engine = Some (read_page (\<lambda>i. Some ([Some '' Sub: Stack height '', Some ''i r ns'', Some ''for FGD''], [99 / 100, 65 / 100, 97 / 100])) (8 / 10)),
       pd_tables = None \<rparr>"

lemma sample_pdf_read:
  "map_sum id (\<lambda>c. (map eu_text (ec_units c), map h_text (ec_headings c), ec_ocr_pages c, ec_ocr_skipped_pages c))
     (extract_pdf (\<lambda>d. Inr sample_pages) sample_pdf_reader [])
   = Inr ([''A covering letter, typed'',
           ''Sub: Stack height'' @ [NL] @ ''for FGD'' @ [NL]
             @ ''[1 line on this page could not be read reliably by OCR; check the original]'', [], []],
          [''Sub: Stack height''], [2], [3])"
  by code_simp

theorem ocr_stays_in_budget_witness:
  "case extract_pdf (\<lambda>d. Inr sample_pages) sample_pdf_reader [] of
     Inl e \<Rightarrow> False
   | Inr content \<Rightarrow> length (ec_ocr_pages content) \<le> 1
       \<and> unit_of_page sample_pdf_reader (ec_ocr_pages content) 2 (sample_pages ! 1) (ec_units content ! 1)"
proof -
  obtain content where run: "extract_pdf (\<lambda>d. Inr sample_pages) sample_pdf_reader [] = Inr content"
    using sample_pdf_read by (cases "extract_pdf (\<lambda>d. Inr sample_pages) sample_pdf_reader []") simp_all
  have "1 < length sample_pages" "pd_max_pages sample_pdf_reader = 1" by (simp_all add: sample_pages_def sample_pdf_reader_def)
  then show ?thesis
    using ocr_stays_in_budget [OF run refl] by (auto simp: run numeral_2_eq_2)
qed

section \<open>Pages that cost nothing\<close>

text \<open>A page on which OCR reads nothing outside a table is not recorded and not charged, so a scan of any length made of
such pages is read in full.\<close>

lemma unread_pages_cost_nothing:
  assumes "\<forall>p\<in>set pages. fst (ocr_page_of rd (snd p) (fst p)) = []" "read_pages rd st pages = Inr st'"
  shows "pc_budget st' = pc_budget st \<and> pc_ocr_pages st' = pc_ocr_pages st"
  using assms
proof (induction pages arbitrary: st)
  case (Cons p pages)
  obtain i page where p: "p = (i, page)" by (cases p)
  obtain st1 where st1: "page_step rd st p = Inr st1" "read_pages rd st1 pages = Inr st'" using Cons.prems(2) by auto
  obtain native where native: "pg_text page = Inr native"
    using st1(1) by (cases "pg_text page") (simp_all add: p page_step_def bind_result_def)
  obtain st2 read how where step: "ocr_step rd page i (or_empty native) st = (st2, read, how)" by (rule prod_cases3)
  have "pc_budget st2 = pc_budget st \<and> pc_ocr_pages st2 = pc_ocr_pages st"
    using step Cons.prems(1) by (auto simp: p ocr_step_def Let_def split: if_splits prod.splits)
  moreover have "pc_budget st1 = pc_budget st2 \<and> pc_ocr_pages st1 = pc_ocr_pages st2"
    using st1(1) native step by (auto simp: p page_step_def bind_result_def Let_def split: sum.splits)
  ultimately show ?case using Cons.IH [OF _ st1(2)] Cons.prems(1) by simp
qed simp

section \<open>The registry of extractors\<close>

text \<open>\<open>EXTRACTORS\<close>, with the libraries each extractor opens its files with; every format the validator accepts has one.\<close>

record 'img file_libraries =
  fl_pdf :: "bytes \<Rightarrow> (string, 'img pdf_page list) result"
  fl_pdf_reader :: "'img pdf_reader"
  fl_word :: "bytes \<Rightarrow> (string, word_document) result"
  fl_xlsx :: xlsx_library
  fl_slides :: "bytes \<Rightarrow> (string, slide list) result"
  fl_xml :: "bytes \<Rightarrow> xml option"

definition EXTRACTORS :: "'img file_libraries \<Rightarrow> (string \<times> (bytes \<Rightarrow> (extraction_failure, extracted_content) result)) list" where
  "EXTRACTORS lib =
     [(PDF_MIME, extract_pdf (fl_pdf lib) (fl_pdf_reader lib)), (DOCX_MIME, extract_docx (fl_word lib) (fl_xml lib)),
      (XLSX_MIME, extract_xlsx (fl_xlsx lib)), (PPTX_MIME, extract_pptx (fl_slides lib) (fl_xml lib))]"

text \<open>The extraction service of a process, with its picture reader when it has one.\<close>

definition office_service :: "'img file_libraries \<Rightarrow> 'img picture_reader option \<Rightarrow> extraction_service" where
  "office_service lib reader =
     \<lparr> extractors = EXTRACTORS lib, picture_formats = PICTURE_FORMATS, read_pictures = map_option add_office_pictures reader \<rparr>"

definition unextractable_formats :: "'img file_libraries \<Rightarrow> string list" where
  "unextractable_formats lib = filter (\<lambda>m. m \<notin> set (map fst (EXTRACTORS lib))) (map fst FORMATS)"

lemma no_unextractable_format: "unextractable_formats lib = []"
  by (simp add: unextractable_formats_def EXTRACTORS_def FORMATS_def)

end
