(* ===== verification/Retrieval.thy ===== *)
theory Retrieval
  imports Repository PyRegex "HOL-Library.List_Lexorder" "HOL-Library.Char_ord" "HOL-Library.Product_Lexorder"
begin

text \<open>\<open>modules/retrieval\<close>: \<open>fusion.py\<close>, \<open>lexical_query.py\<close>, \<open>service.py\<close> and the endpoint \<open>api/v1/retrieval.py\<close>. The
SQL statement of \<open>search\<close> is its meaning on the rows: joins, filters, orders and limits as list operations
over the stored passages. The embedding model, pgvector's distance, pg_search's BM25 score and the
cross-encoder are parameters. Scores are exact rationals where the code has floats, and an \<open>ORDER BY\<close> without
a tie-break is stable.\<close>

section \<open>Rank fusion\<close>

definition RRF_K :: nat where "RRF_K = 60"
definition CANDIDATE_MULTIPLIER :: nat where "CANDIDATE_MULTIPLIER = 5"
definition MAX_CANDIDATES :: nat where "MAX_CANDIDATES = 200"

definition candidate_pool :: "nat \<Rightarrow> nat" where
  "candidate_pool limit = min MAX_CANDIDATES (max limit (limit * CANDIDATE_MULTIPLIER))"

definition rrf_score :: "nat option \<Rightarrow> rat" where
  "rrf_score r = (case r of None \<Rightarrow> 0 | Some n \<Rightarrow> 1 / (of_nat RRF_K + of_nat n))"

section \<open>The lexical query\<close>

definition STOPWORDS :: "string list" where
  "STOPWORDS =
     [''a'', ''an'', ''the'', ''this'', ''that'', ''these'', ''those'',
      ''is'', ''are'', ''was'', ''were'', ''be'', ''been'', ''being'', ''am'', ''do'', ''does'', ''did'', ''done'',
      ''have'', ''has'', ''had'', ''having'',
      ''what'', ''which'', ''who'', ''whom'', ''whose'', ''when'', ''where'', ''why'', ''how'',
      ''of'', ''in'', ''on'', ''at'', ''to'', ''for'', ''from'', ''by'', ''with'', ''within'', ''into'', ''onto'',
      ''about'', ''as'', ''and'', ''or'', ''but'', ''nor'', ''so'', ''then'', ''than'', ''if'', ''else'', ''while'',
      ''during'',
      ''it'', ''its'', ''they'', ''them'', ''their'', ''there'', ''here'', ''i'', ''me'', ''my'', ''we'', ''us'', ''our'',
      ''you'', ''your'', ''he'', ''she'', ''his'', ''her'',
      ''can'', ''could'', ''shall'', ''should'', ''will'', ''would'', ''may'', ''might'', ''must'',
      ''any'', ''some'', ''all'', ''each'', ''both'', ''few'', ''more'', ''most'', ''other'', ''such'', ''not'', ''no'',
      ''only'', ''own'', ''same'',
      ''please'', ''tell'', ''show'', ''give'', ''list'', ''explain'', ''describe'', ''summarise'', ''summarize'']"

text \<open>The three alternatives of \<open>_EDGE_PUNCT\<close>; a token has no line breaks, so \<open>^\<close> and \<open>$\<close> are its two ends.\<close>

definition EDGE_PUNCT :: re where
  "EDGE_PUNCT =
     Or (Cat LineStart (plus (Cls (\<lambda>c. \<not> is_word c \<and> c \<noteq> CHR ''(''))))
     (Or (cat [Behind (\<lambda>p. case p of w # d # _ \<Rightarrow> \<not> (d = CHR ''.'' \<and> is_word w) | _ \<Rightarrow> True),
               plus (Cls (\<lambda>c. \<not> is_word c \<and> c \<noteq> CHR '')'' \<and> c \<noteq> CHR ''.'')), LineEnd])
         (cat [Behind (\<lambda>p. \<not> prev_is is_upper_ascii p), lit (CHR ''.''), LineEnd]))"

definition MIN_TERMS :: nat where "MIN_TERMS = 2"

definition is_upper :: "char \<Rightarrow> bool" where
  "is_upper c = (is_upper_ascii c \<or> (0xC0 \<le> code c \<and> code c \<le> 0xDE \<and> code c \<noteq> 0xD7))"

definition keeps_term :: "string \<Rightarrow> bool" where
  "keeps_term tok = (tok \<noteq> [] \<and> (length tok = 1 \<and> is_upper (hd tok) \<or> lower tok \<notin> set STOPWORDS))"

definition lexical_query :: "string \<Rightarrow> string" where
  "lexical_query question =
     (let kept = filter keeps_term (map (sub EDGE_PUNCT (\<lambda>_. [])) (split_ws question)) in
      if length kept < MIN_TERMS then question else join '' '' kept)"

section \<open>The arms\<close>

datatype SearchMode = HYBRID | SEMANTIC | LEXICAL

text \<open>\<open>chunk_id_of\<close> is the primary key column of a stored passage, which the shared world leaves out.
\<open>bm25\<close> is the score of a passage's body, heading and document title for a query, \<open>None\<close> when nothing
matches. \<open>reranker\<close> is \<open>None\<close> when it is off or could not be loaded; scoring is \<open>None\<close> when it fails.\<close>

record retrieval_env =
  chunk_id_of :: "chunk \<Rightarrow> uuid"
  embed_query :: "string \<Rightarrow> (string, rat list) result"
  cosine_distance :: "rat list \<Rightarrow> rat list \<Rightarrow> rat"
  bm25 :: "string \<Rightarrow> chunk \<Rightarrow> rat option"
  reranker :: "(string \<Rightarrow> string list \<Rightarrow> rat list option) option"
  query_count_tokens :: "string list \<Rightarrow> nat list"
  query_window :: nat
  embedding_model_name :: string
  RERANK_CANDIDATES :: nat
  RERANK_MAX_CHARS :: nat
  SEARCH_MIN_SIMILARITY :: rat

text \<open>The caller and the scope of one search.\<close>

record search_scope =
  viewer :: "uuid option"
  viewer_is_admin :: bool
  scope_ids :: "uuid list"

text \<open>\<open>document_chunks JOIN documents\<close>.\<close>

definition passages :: "world \<Rightarrow> (chunk \<times> document) list" where
  "passages w =
     List.map_filter (\<lambda>c. map_option (Pair c) (find_doc (chunk_document_id c) (documents w))) (chunks w)"

definition in_scope :: "search_scope \<Rightarrow> document \<Rightarrow> bool" where
  "in_scope sc d = (scope_ids sc = [] \<or> doc_id d \<in> set (scope_ids sc))"

definition passage_visible :: "search_scope \<Rightarrow> document \<Rightarrow> bool" where
  "passage_visible sc d = (deleted_at d = None \<and> row_visible (viewer sc) (viewer_is_admin sc) d)"

record arm_row =
  arm_chunk :: uuid
  arm_rank :: nat
  arm_similarity :: rat

definition numbered :: "'a list \<Rightarrow> (nat \<times> 'a) list" where
  "numbered xs = zip [1..<length xs + 1] xs"

definition distance_to :: "retrieval_env \<Rightarrow> rat list \<Rightarrow> chunk \<Rightarrow> rat" where
  "distance_to env v c = (case embedding c of None \<Rightarrow> 0 | Some e \<Rightarrow> cosine_distance env e v)"

definition semantic_hits_for :: "retrieval_env \<Rightarrow> rat list \<Rightarrow> nat \<Rightarrow> search_scope \<Rightarrow> world \<Rightarrow> (chunk \<times> document) list" where
  "semantic_hits_for env v pool sc w =
     take pool (sort_key (\<lambda>(c, d). distance_to env v c)
       (filter (\<lambda>(c, d). embedding c \<noteq> None \<and> passage_visible sc d \<and> in_scope sc d) (passages w)))"

definition semantic_arm :: "retrieval_env \<Rightarrow> rat list \<Rightarrow> nat \<Rightarrow> search_scope \<Rightarrow> world \<Rightarrow> arm_row list" where
  "semantic_arm env v pool sc w =
     map (\<lambda>(n, c, d). \<lparr> arm_chunk = chunk_id_of env c, arm_rank = n, arm_similarity = 1 - distance_to env v c \<rparr>)
       (numbered (semantic_hits_for env v pool sc w))"

text \<open>The scope goes inside the BM25 query as a required term, the visibility beside it.\<close>

definition lexical_matches :: "retrieval_env \<Rightarrow> string \<Rightarrow> search_scope \<Rightarrow> chunk \<Rightarrow> bool" where
  "lexical_matches env q sc c =
     ((scope_ids sc = [] \<or> chunk_document_id c \<in> set (scope_ids sc)) \<and> bm25 env q c \<noteq> None)"

definition lexical_hits_for :: "retrieval_env \<Rightarrow> string \<Rightarrow> nat \<Rightarrow> search_scope \<Rightarrow> world \<Rightarrow> (chunk \<times> document) list" where
  "lexical_hits_for env query pool sc w =
     (let q = lexical_query query in
      take pool (sort_key (\<lambda>(c, d). - (case bm25 env q c of None \<Rightarrow> 0 | Some x \<Rightarrow> x))
        (filter (\<lambda>(c, d). lexical_matches env q sc c \<and> passage_visible sc d) (passages w))))"

definition lexical_arm :: "retrieval_env \<Rightarrow> string \<Rightarrow> nat \<Rightarrow> search_scope \<Rightarrow> world \<Rightarrow> arm_row list" where
  "lexical_arm env query pool sc w =
     map (\<lambda>(n, c, d). \<lparr> arm_chunk = chunk_id_of env c, arm_rank = n, arm_similarity = 0 \<rparr>)
       (numbered (lexical_hits_for env query pool sc w))"

section \<open>Fusion\<close>

record fused_row =
  fr_chunk :: uuid
  fr_score :: rat
  fr_semantic_rank :: "nat option"
  fr_lexical_rank :: "nat option"
  fr_similarity :: "rat option"

definition arm_find :: "uuid \<Rightarrow> arm_row list \<Rightarrow> arm_row option" where
  "arm_find i arm = find (\<lambda>r. arm_chunk r = i) arm"

definition fuse_row :: "arm_row list \<Rightarrow> arm_row list \<Rightarrow> uuid \<Rightarrow> fused_row" where
  "fuse_row sem lexr i =
     (let s = map_option arm_rank (arm_find i sem); l = map_option arm_rank (arm_find i lexr) in
      \<lparr> fr_chunk = i, fr_score = rrf_score s + rrf_score l, fr_semantic_rank = s, fr_lexical_rank = l,
        fr_similarity = map_option arm_similarity (arm_find i sem) \<rparr>)"

text \<open>The full outer join on the chunk id; with one arm the other is empty and contributes nothing.\<close>

definition fused :: "arm_row list \<Rightarrow> arm_row list \<Rightarrow> fused_row list" where
  "fused sem lexr =
     (let in_sem = map arm_chunk sem in
      map (fuse_row sem lexr) (in_sem @ filter (\<lambda>i. i \<notin> set in_sem) (map arm_chunk lexr)))"

record search_row =
  sr_chunk :: chunk
  sr_document :: document
  sr_fused :: fused_row

text \<open>The two inner joins of the final statement, its order and its limit.\<close>

definition joined_rows :: "retrieval_env \<Rightarrow> world \<Rightarrow> fused_row list \<Rightarrow> search_row list" where
  "joined_rows env w fs =
     concat (map (\<lambda>f. map (\<lambda>(c, d). \<lparr> sr_chunk = c, sr_document = d, sr_fused = f \<rparr>)
       (filter (\<lambda>(c, d). chunk_id_of env c = fr_chunk f) (passages w))) fs)"

definition ranked_rows :: "retrieval_env \<Rightarrow> world \<Rightarrow> nat \<Rightarrow> fused_row list \<Rightarrow> search_row list" where
  "ranked_rows env w fetch fs =
     take fetch (sort_key (\<lambda>r. (- fr_score (sr_fused r), chunk_id_of env (sr_chunk r))) (joined_rows env w fs))"

section \<open>Reranking\<close>

text \<open>The kept rows, each with its score and its position before reranking.\<close>

definition rerank ::
  "(string \<Rightarrow> string list \<Rightarrow> rat list option) option \<Rightarrow> nat \<Rightarrow> string \<Rightarrow> search_row list \<Rightarrow> nat
     \<Rightarrow> (search_row \<times> rat option \<times> nat option) list" where
  "rerank model cap query rows limit =
     (let identity = map (\<lambda>r. (r, None, None)) (take limit rows) in
      case model of
        None \<Rightarrow> identity
      | Some score \<Rightarrow>
          if rows = [] then identity
          else case score query (map (\<lambda>r. take cap (chunk_text (sr_chunk r))) rows) of
            None \<Rightarrow> identity
          | Some scores \<Rightarrow>
              if length scores \<noteq> length rows then identity
              else map (\<lambda>i. (rows ! i, Some (scores ! i), Some (i + 1)))
                     (take limit (sort_key (\<lambda>i. (- scores ! i, i)) [0..<length rows])))"

section \<open>Search\<close>

record retrieved_chunk =
  rc_chunk_id :: uuid
  rc_document_id :: uuid
  rc_filename :: string
  rc_text :: string
  rc_page_number :: "nat option"
  rc_section_heading :: "string option"
  rc_is_table :: bool
  rc_score :: rat
  rc_token_count :: nat
  rc_truncated :: bool
  rc_semantic_rank :: "nat option"
  rc_lexical_rank :: "nat option"
  rc_similarity :: "rat option"
  rc_rerank_score :: "rat option"
  rc_fusion_rank :: "nat option"

record token_usage =
  tu_query_tokens :: nat
  tu_context_tokens :: nat
  tu_max_sequence_tokens :: nat
  tu_truncated_results :: nat
  tu_model :: string
  tu_mode :: SearchMode
  tu_semantic_hits :: nat
  tu_lexical_hits :: nat

definition retrieved :: "retrieval_env \<Rightarrow> (search_row \<times> rat option \<times> nat option) \<times> nat \<Rightarrow> retrieved_chunk" where
  "retrieved env x =
     (case x of ((r, score, before), n) \<Rightarrow>
        let c = sr_chunk r; f = sr_fused r in
        \<lparr> rc_chunk_id = chunk_id_of env c, rc_document_id = chunk_document_id c,
          rc_filename = filename (sr_document r), rc_text = chunk_text c, rc_page_number = page_number c,
          rc_section_heading = section_heading c, rc_is_table = is_table c, rc_score = fr_score f,
          rc_token_count = n, rc_truncated = (query_window env < n),
          rc_semantic_rank = fr_semantic_rank f, rc_lexical_rank = fr_lexical_rank f,
          rc_similarity = fr_similarity f, rc_rerank_score = score, rc_fusion_rank = before \<rparr>)"

text \<open>How many rows the statement fetches, and the rows it returns.\<close>

definition fetch_size :: "retrieval_env \<Rightarrow> bool \<Rightarrow> nat \<Rightarrow> nat" where
  "fetch_size env reranking limit = (if reranking then max limit (RERANK_CANDIDATES env) else limit)"

definition search_rows ::
  "retrieval_env \<Rightarrow> SearchMode \<Rightarrow> rat list \<Rightarrow> string \<Rightarrow> nat \<Rightarrow> search_scope \<Rightarrow> world \<Rightarrow> search_row list" where
  "search_rows env mode v query fetch sc w =
     (let pool = candidate_pool fetch;
          sem = (if mode = LEXICAL then [] else semantic_arm env v pool sc w);
          lexr = (if mode = SEMANTIC then [] else lexical_arm env query pool sc w)
      in ranked_rows env w fetch (fused sem lexr))"

text \<open>\<open>rerank\<close> is \<open>None\<close> (the deployment's choice) or the caller's. Exceptions are \<open>Inl\<close>.\<close>

definition search ::
  "retrieval_env \<Rightarrow> string \<Rightarrow> search_scope \<Rightarrow> nat \<Rightarrow> SearchMode \<Rightarrow> bool option \<Rightarrow> world
     \<Rightarrow> (string, retrieved_chunk list \<times> token_usage) result" where
  "search env query sc limit mode wanted w =
     (let rr = (if wanted = None \<or> wanted = Some True then reranker env else None);
          fetch = fetch_size env (rr \<noteq> None) limit
      in case (if mode = LEXICAL then Inr [] else embed_query env query) of
           Inl e \<Rightarrow> Inl e
         | Inr v \<Rightarrow>
             let kept = rerank rr (RERANK_MAX_CHARS env) query (search_rows env mode v query fetch sc w) limit;
                 counts = query_count_tokens env (map (\<lambda>(r, _). chunk_text (sr_chunk r)) kept)
             in if query \<noteq> [] \<and> query_count_tokens env [query] = [] then Inl ''IndexError''
                else if length counts \<noteq> length kept then Inl ''ValueError''
                else
                  let results = map (retrieved env) (zip kept counts) in
                  Inr (results,
                    \<lparr> tu_query_tokens = (if query = [] then 0 else hd (query_count_tokens env [query])),
                      tu_context_tokens = sum_list counts,
                      tu_max_sequence_tokens = query_window env,
                      tu_truncated_results = length (filter rc_truncated results),
                      tu_model = embedding_model_name env, tu_mode = mode,
                      tu_semantic_hits = length (filter (\<lambda>r. rc_semantic_rank r \<noteq> None) results),
                      tu_lexical_hits = length (filter (\<lambda>r. rc_lexical_rank r \<noteq> None) results) \<rparr>))"

section \<open>Was anything found?\<close>

definition UNINFORMATIVE :: "string list" where
  "UNINFORMATIVE =
     [''the'', ''a'', ''an'', ''of'', ''for'', ''and'', ''or'', ''in'', ''on'', ''to'', ''is'', ''are'', ''was'', ''were'',
      ''what'', ''which'', ''who'', ''whom'', ''when'', ''where'', ''why'', ''how'', ''does'', ''do'', ''did'', ''can'',
      ''could'', ''should'', ''would'', ''that'', ''this'', ''these'', ''those'', ''with'', ''from'', ''by'', ''at'',
      ''as'', ''be'', ''been'', ''being'', ''it'', ''its'', ''any'', ''all'', ''best'', ''about'', ''there'', ''their'',
      ''you'', ''your'', ''our'', ''we'', ''they'', ''them'', ''has'', ''have'', ''had'', ''will'', ''may'', ''must'']"

definition WORDS :: re where "WORDS = plus (Cls (\<lambda>c. is_word c \<or> c = CHR ''-''))"

definition informative_terms :: "string \<Rightarrow> string list" where
  "informative_terms query =
     filter (\<lambda>t. 2 < length t \<and> t \<notin> set UNINFORMATIVE) (map snd (finditer WORDS (lower query)))"

definition has_literal_match :: "string \<Rightarrow> retrieved_chunk list \<Rightarrow> bool" where
  "has_literal_match query results =
     (let terms = informative_terms query in
      terms \<noteq> [] \<and> list_ex (\<lambda>r. rc_lexical_rank r \<noteq> None
        \<and> list_all (\<lambda>t. contains t (lower (rc_text r))) terms) results)"

definition best_similarity :: "retrieved_chunk list \<Rightarrow> rat option" where
  "best_similarity results =
     (case List.map_filter rc_similarity results of [] \<Rightarrow> None | x # xs \<Rightarrow> Some (foldl max x xs))"

definition assess :: "retrieval_env \<Rightarrow> retrieved_chunk list \<Rightarrow> string \<Rightarrow> bool \<times> rat option" where
  "assess env results query =
     (let best = best_similarity results in
      if query \<noteq> [] \<and> has_literal_match query results then (True, best)
      else case best of None \<Rightarrow> (False, None) | Some b \<Rightarrow> (SEARCH_MIN_SIMILARITY env \<le> b, best))"

section \<open>The endpoint\<close>

record search_response =
  sp_query :: string
  sp_count :: nat
  sp_results :: "retrieved_chunk list"
  sp_usage :: token_usage
  sp_grounded :: bool
  sp_best_similarity :: "rat option"

definition semantic_search ::
  "retrieval_env \<Rightarrow> string \<Rightarrow> nat \<Rightarrow> SearchMode \<Rightarrow> uuid \<Rightarrow> string option \<Rightarrow> world \<Rightarrow> (http_error, search_response) result" where
  "semantic_search env q limit mode user role w =
     (let query = strip q in
      if query = [] then Inl (HttpError 422 ''EMPTY_QUERY: q is required.'')
      else case search env query \<lparr> viewer = Some user, viewer_is_admin = is_admin role, scope_ids = [] \<rparr>
                  limit mode None w of
        Inl e \<Rightarrow> Inl (Unhandled e)
      | Inr (results, usage) \<Rightarrow>
          let (grounded, best) = assess env results query in
          if \<not> grounded
          then Inr \<lparr> sp_query = query, sp_count = 0, sp_results = [], sp_usage = usage,
                     sp_grounded = False, sp_best_similarity = best \<rparr>
          else Inr \<lparr> sp_query = query, sp_count = length results, sp_results = results, sp_usage = usage,
                     sp_grounded = True, sp_best_similarity = best \<rparr>)"

section \<open>What a search can see\<close>

definition visible_rows :: "search_scope \<Rightarrow> world \<Rightarrow> (chunk \<times> document) list" where
  "visible_rows sc w = filter (\<lambda>(c, d). passage_visible sc d) (passages w)"

definition keyed :: "retrieval_env \<Rightarrow> world \<Rightarrow> bool" where
  "keyed env w = distinct (map (chunk_id_of env) (chunks w))"

lemma passages_iff: "(c, d) \<in> set (passages w) \<longleftrightarrow> c \<in> set (chunks w) \<and> find_doc (chunk_document_id c) (documents w) = Some d"
  by (auto simp: passages_def set_map_filter_Some)

lemma map_filter_distinct: "distinct (map k xs) \<Longrightarrow> (\<And>x y. f x = Some y \<Longrightarrow> g y = k x) \<Longrightarrow> distinct (map g (List.map_filter f xs))"
proof (induction xs)
  case (Cons x xs)
  have "g y \<in> k ` set xs" if "y \<in> set (List.map_filter f xs)" for y
    using that Cons.prems(2) by (auto simp: set_map_filter_Some)
  then show ?case using Cons by (auto simp: List.map_filter_simps split: option.split) 
qed (simp add: List.map_filter_simps)

lemma passages_keyed: "keyed env w \<Longrightarrow> distinct (map (\<lambda>(c, d). chunk_id_of env c) (passages w))"
  unfolding passages_def keyed_def by (rule map_filter_distinct) auto

lemma find_by_key: "\<lbrakk> distinct (map k xs); x \<in> set xs \<rbrakk> \<Longrightarrow> filter (\<lambda>y. k y = k x) xs = [x]"
proof (induction xs)
  case (Cons a xs)
  show ?case
  proof (cases "a = x")
    case True
    then have "filter (\<lambda>y. k y = k x) xs = []" using Cons.prems by (auto simp: filter_empty_conv image_iff)
    then show ?thesis using True by simp
  next
    case False
    then show ?thesis using Cons by (auto simp: image_iff)
  qed
qed simp

lemma keyed_filter:
  assumes "distinct (map k xs)" "i \<in> k ` set (filter P xs)"
  shows "filter (\<lambda>y. k y = i) xs = filter (\<lambda>y. k y = i) (filter P xs)"
proof -
  obtain x where x: "x \<in> set xs" "P x" "i = k x" using assms(2) by auto
  then have "filter (\<lambda>y. k y = i) xs = [x]" using find_by_key [OF assms(1)] by simp
  moreover have "filter (\<lambda>y. k y = i) (filter P xs) = filter P (filter (\<lambda>y. k y = i) xs)"
    by (simp add: conj_commute)
  ultimately show ?thesis using x by simp
qed

lemma semantic_visible:
  "semantic_hits_for env v pool sc w =
     take pool (sort_key (\<lambda>(c, d). distance_to env v c)
       (filter (\<lambda>(c, d). embedding c \<noteq> None \<and> in_scope sc d) (visible_rows sc w)))"
proof -
  have "filter (\<lambda>(c, d). embedding c \<noteq> None \<and> passage_visible sc d \<and> in_scope sc d) (passages w)
      = filter (\<lambda>(c, d). embedding c \<noteq> None \<and> in_scope sc d) (visible_rows sc w)"
    by (simp add: visible_rows_def case_prod_unfold) (rule filter_cong [OF refl], blast)
  then show ?thesis by (simp only: semantic_hits_for_def)
qed

lemma lexical_visible:
  "lexical_hits_for env query pool sc w =
     (let q = lexical_query query in
      take pool (sort_key (\<lambda>(c, d). - (case bm25 env q c of None \<Rightarrow> 0 | Some x \<Rightarrow> x))
        (filter (\<lambda>(c, d). lexical_matches env q sc c) (visible_rows sc w))))"
proof -
  have "filter (\<lambda>(c, d). lexical_matches env q sc c \<and> passage_visible sc d) (passages w)
      = filter (\<lambda>(c, d). lexical_matches env q sc c) (visible_rows sc w)" for q
    by (simp add: visible_rows_def case_prod_unfold conj_commute)
  then show ?thesis by (simp only: lexical_hits_for_def Let_def)
qed

lemma numbered_snd [simp]: "map snd (numbered xs) = xs"
  by (simp add: numbered_def del: upt_Suc)

lemma length_numbered [simp]: "length (numbered xs) = length xs"
  by (simp add: numbered_def del: upt_Suc)

lemma set_numbered: "(n, x) \<in> set (numbered xs) \<Longrightarrow> x \<in> set xs"
  by (auto simp: numbered_def dest: set_zip_rightD)

lemma semantic_hits_mem:
  "(c, d) \<in> set (semantic_hits_for env v pool sc w) \<Longrightarrow> (c, d) \<in> set (visible_rows sc w) \<and> embedding c \<noteq> None \<and> in_scope sc d"
  unfolding semantic_visible by (auto dest: in_set_takeD)

lemma lexical_hits_mem:
  "(c, d) \<in> set (lexical_hits_for env query pool sc w) \<Longrightarrow>
     (c, d) \<in> set (visible_rows sc w) \<and> lexical_matches env (lexical_query query) sc c"
  unfolding lexical_visible Let_def by (auto dest: in_set_takeD)

lemma numbered_map: "map (\<lambda>(n, x). g x) (numbered xs) = map g xs"
proof -
  have "map (\<lambda>(n, x). g x) (numbered xs) = map g (map snd (numbered xs))"
    by (simp only: map_map comp_def case_prod_unfold)
  then show ?thesis by simp
qed

lemma arm_chunks:
  "map arm_chunk (semantic_arm env v pool sc w) = map (\<lambda>(c, d). chunk_id_of env c) (semantic_hits_for env v pool sc w)"
  "map arm_chunk (lexical_arm env query pool sc w) = map (\<lambda>(c, d). chunk_id_of env c) (lexical_hits_for env query pool sc w)"
  using numbered_map [of "\<lambda>(c, d). chunk_id_of env c"]
  by (simp_all add: semantic_arm_def lexical_arm_def comp_def case_prod_unfold)

text \<open>The fused rows only name visible passages of the scope.\<close>

definition search_hits :: "retrieval_env \<Rightarrow> SearchMode \<Rightarrow> rat list \<Rightarrow> string \<Rightarrow> nat \<Rightarrow> search_scope \<Rightarrow> world \<Rightarrow> fused_row list" where
  "search_hits env mode v query fetch sc w =
     fused (if mode = LEXICAL then [] else semantic_arm env v (candidate_pool fetch) sc w)
       (if mode = SEMANTIC then [] else lexical_arm env query (candidate_pool fetch) sc w)"

lemma search_rows_hits: "search_rows env mode v query fetch sc w = ranked_rows env w fetch (search_hits env mode v query fetch sc w)"
  by (simp add: search_rows_def search_hits_def Let_def)

lemma fused_chunks: "set (map fr_chunk (fused sem lexr)) = set (map arm_chunk sem) \<union> set (map arm_chunk lexr)"
  by (auto simp: fused_def fuse_row_def Let_def image_iff)

definition scoped_rows :: "search_scope \<Rightarrow> world \<Rightarrow> (chunk \<times> document) list" where
  "scoped_rows sc w = filter (\<lambda>(c, d). in_scope sc d) (visible_rows sc w)"

lemma scoped_rows_iff:
  "(c, d) \<in> set (scoped_rows sc w) \<longleftrightarrow> c \<in> set (chunks w) \<and> find_doc (chunk_document_id c) (documents w) = Some d
     \<and> passage_visible sc d \<and> in_scope sc d"
  by (auto simp: scoped_rows_def visible_rows_def passages_iff)

lemma hits_scoped:
  assumes "f \<in> set (search_hits env mode v query fetch sc w)"
  shows "fr_chunk f \<in> (\<lambda>(c, d). chunk_id_of env c) ` set (scoped_rows sc w)"
proof -
  have "fr_chunk f \<in> set (map fr_chunk (search_hits env mode v query fetch sc w))" using assms by simp
  then obtain c d where c: "fr_chunk f = chunk_id_of env c" "(c, d) \<in> set (semantic_hits_for env v (candidate_pool fetch) sc w)
      \<union> set (lexical_hits_for env query (candidate_pool fetch) sc w)"
    unfolding search_hits_def fused_chunks arm_chunks by (cases mode) (auto simp: arm_chunks)
  then have "(c, d) \<in> set (visible_rows sc w)" "in_scope sc d"
    using semantic_hits_mem [of c d env v "candidate_pool fetch" sc w] lexical_hits_mem [of c d env query "candidate_pool fetch" sc w]
      find_doc_Some [of "chunk_document_id c" "documents w" d]
    by (auto simp: in_scope_def lexical_matches_def visible_rows_def passages_iff)
  then show ?thesis using c(1) by (force simp: scoped_rows_def)
qed

text \<open>So the final join only meets visible passages of the scope.\<close>

lemma joined_scoped:
  assumes "keyed env w" "\<forall>f\<in>set fs. fr_chunk f \<in> (\<lambda>(c, d). chunk_id_of env c) ` set (scoped_rows sc w)"
  shows "joined_rows env w fs =
     concat (map (\<lambda>f. map (\<lambda>(c, d). \<lparr> sr_chunk = c, sr_document = d, sr_fused = f \<rparr>)
       (filter (\<lambda>(c, d). chunk_id_of env c = fr_chunk f) (scoped_rows sc w))) fs)"
proof -
  let ?P = "\<lambda>(c, d). passage_visible sc d \<and> in_scope sc d"
  have rows: "scoped_rows sc w = filter ?P (passages w)"
    by (simp add: scoped_rows_def visible_rows_def case_prod_unfold conj_commute)
  have "filter (\<lambda>(c, d). chunk_id_of env c = fr_chunk f) (passages w)
      = filter (\<lambda>(c, d). chunk_id_of env c = fr_chunk f) (scoped_rows sc w)" if "f \<in> set fs" for f
    using keyed_filter [OF passages_keyed [OF assms(1)], of "fr_chunk f" ?P] assms(2) that
    unfolding rows by (simp add: case_prod_unfold)
  then show ?thesis unfolding joined_rows_def by (intro arg_cong [of _ _ concat] map_cong refl) simp
qed

lemma search_rows_visible:
  assumes "keyed env w" "keyed env w'" "visible_rows sc w = visible_rows sc w'"
  shows "search_rows env mode v query fetch sc w = search_rows env mode v query fetch sc w'"
proof -
  have "semantic_hits_for env v pool sc w = semantic_hits_for env v pool sc w'"
    "lexical_hits_for env query pool sc w = lexical_hits_for env query pool sc w'" for pool
    unfolding semantic_visible lexical_visible assms(3) by (rule refl)+
  then have hits: "search_hits env mode v query fetch sc w = search_hits env mode v query fetch sc w'"
    unfolding search_hits_def semantic_arm_def lexical_arm_def by simp
  have "joined_rows env w (search_hits env mode v query fetch sc w) = joined_rows env w' (search_hits env mode v query fetch sc w')"
    using joined_scoped [OF assms(1), of _ sc] joined_scoped [OF assms(2), of _ sc] hits_scoped
    unfolding hits scoped_rows_def assms(3) by (metis (no_types, lifting) hits)
  then show ?thesis unfolding search_rows_hits ranked_rows_def by simp
qed


lemma search_rows_scoped:
  assumes "keyed env w" "r \<in> set (search_rows env mode v query fetch sc w)"
  shows "(sr_chunk r, sr_document r) \<in> set (scoped_rows sc w)"
proof -
  have "r \<in> set (joined_rows env w (search_hits env mode v query fetch sc w))"
    using assms(2) by (auto simp: search_rows_hits ranked_rows_def dest: in_set_takeD)
  moreover have "\<forall>f\<in>set (search_hits env mode v query fetch sc w). fr_chunk f \<in> (\<lambda>(c, d). chunk_id_of env c) ` set (scoped_rows sc w)"
    using hits_scoped by blast
  note eq = joined_scoped [OF assms(1) this]
  show ?thesis using calculation unfolding eq by auto
qed

lemma rerank_rows:
  "(r, s, b) \<in> set (rerank model cap query rows limit) \<Longrightarrow> r \<in> set rows"
  "length (rerank model cap query rows limit) = min limit (length rows)"
  by (auto simp: rerank_def Let_def split: option.splits if_splits dest!: in_set_takeD)

text \<open>C20: Search returns only what the caller may see. Every returned passage is a stored passage of an
undeleted document the caller may view and, when the search is scoped, of a document of the scope; its text
and place are those stored, and at most \<open>limit\<close> come back.\<close>

theorem results_are_permitted:
  assumes "keyed env w" "search env query sc limit mode wanted w = Inr (results, usage)" "r \<in> set results"
  shows "(\<exists>c d. c \<in> set (chunks w) \<and> find_doc (chunk_document_id c) (documents w) = Some d
      \<and> deleted_at d = None \<and> can_view (classification d) (owner_id d) (viewer sc) (viewer_is_admin sc)
      \<and> (scope_ids sc \<noteq> [] \<longrightarrow> rc_document_id r \<in> set (scope_ids sc))
      \<and> rc_chunk_id r = chunk_id_of env c \<and> rc_document_id r = chunk_document_id c \<and> rc_text r = chunk_text c
      \<and> rc_filename r = filename d \<and> rc_page_number r = page_number c)
    \<and> length results \<le> limit"
proof -
  obtain rr v fetch counts where k: "results = map (retrieved env)
      (zip (rerank rr (RERANK_MAX_CHARS env) query (search_rows env mode v query fetch sc w) limit) counts)"
    using assms(2) by (auto simp: search_def Let_def split: sum.splits if_splits)
  then obtain row s b n where row: "r = retrieved env ((row, s, b), n)"
      "(row, s, b) \<in> set (rerank rr (RERANK_MAX_CHARS env) query (search_rows env mode v query fetch sc w) limit)"
    using assms(3) by (auto dest!: set_zip_leftD)
  have "(sr_chunk row, sr_document row) \<in> set (scoped_rows sc w)"
    using search_rows_scoped [OF assms(1) rerank_rows(1) [OF row(2)]] .
  then have "sr_chunk row \<in> set (chunks w)" "find_doc (chunk_document_id (sr_chunk row)) (documents w) = Some (sr_document row)"
    "passage_visible sc (sr_document row)" "in_scope sc (sr_document row)"
    by (auto simp: scoped_rows_iff)
  moreover have "doc_id (sr_document row) = chunk_document_id (sr_chunk row)"
    using find_doc_Some [OF calculation(2)] by simp
  ultimately have "\<exists>c d. c \<in> set (chunks w) \<and> find_doc (chunk_document_id c) (documents w) = Some d
      \<and> deleted_at d = None \<and> can_view (classification d) (owner_id d) (viewer sc) (viewer_is_admin sc)
      \<and> (scope_ids sc \<noteq> [] \<longrightarrow> rc_document_id r \<in> set (scope_ids sc))
      \<and> rc_chunk_id r = chunk_id_of env c \<and> rc_document_id r = chunk_document_id c \<and> rc_text r = chunk_text c
      \<and> rc_filename r = filename d \<and> rc_page_number r = page_number c"
    unfolding row(1) by (intro exI [of _ "sr_chunk row"] exI [of _ "sr_document row"])
      (auto simp: passage_visible_def row_visible_iff in_scope_def retrieved_def Let_def)
  moreover have "length results \<le> limit" unfolding k using rerank_rows(2) by (metis length_map length_zip min.cobounded1 min.coboundedI1)
  ultimately show ?thesis by blast
qed

section \<open>Enough results, and the best ones\<close>

lemma fused_length: "max (length sem) (length lexr) \<le> length (fused sem lexr)" if "distinct (map arm_chunk lexr)"
proof -
  have "set (map arm_chunk lexr) \<subseteq> set (map fr_chunk (fused sem lexr))" using fused_chunks by blast
  then have "card (set (map arm_chunk lexr)) \<le> card (set (map fr_chunk (fused sem lexr)))"
    by (intro card_mono) simp_all
  also have "\<dots> \<le> length (fused sem lexr)" by (metis card_length length_map)
  finally have "length lexr \<le> length (fused sem lexr)" using that by (metis distinct_card length_map)
  moreover have "length sem \<le> length (fused sem lexr)" by (simp add: fused_def Let_def)
  ultimately show ?thesis by simp
qed

lemma distinct_take_filter:
  "distinct (map k xs) \<Longrightarrow> distinct (map k (take n (sort_key g (filter P xs))))"
proof -
  assume "distinct (map k xs)"
  then have "distinct (filter P xs)" "inj_on k (set (filter P xs))"
    by (auto simp: distinct_map intro: inj_on_subset)
  then have "distinct (map k (sort_key g (filter P xs)))" by (simp add: distinct_map)
  then show ?thesis by (simp add: take_map [symmetric])
qed

lemma lexical_arm_distinct: "keyed env w \<Longrightarrow> distinct (map arm_chunk (lexical_arm env query pool sc w))"
  unfolding arm_chunks lexical_hits_for_def Let_def by (rule distinct_take_filter [OF passages_keyed])

lemma joined_length:
  assumes "keyed env w" "\<forall>f\<in>set fs. fr_chunk f \<in> (\<lambda>(c, d). chunk_id_of env c) ` set (passages w)"
  shows "length (joined_rows env w fs) = length fs \<and> map sr_fused (joined_rows env w fs) = fs"
  using assms(2)
proof (induction fs)
  case (Cons f fs)
  obtain x where x: "x \<in> set (passages w)" "fr_chunk f = (\<lambda>(c, d). chunk_id_of env c) x" using Cons.prems by auto
  have "filter (\<lambda>(c, d). chunk_id_of env c = fr_chunk f) (passages w) = [x]"
    using find_by_key [OF passages_keyed [OF assms(1)] x(1)] unfolding x(2) by (simp add: case_prod_unfold)
  moreover have "joined_rows env w (f # fs) = map (\<lambda>(c, d). \<lparr> sr_chunk = c, sr_document = d, sr_fused = f \<rparr>)
      (filter (\<lambda>(c, d). chunk_id_of env c = fr_chunk f) (passages w)) @ joined_rows env w fs"
    by (simp add: joined_rows_def)
  ultimately show ?case using Cons by (cases x) simp
qed (simp add: joined_rows_def)

lemma hits_joined:
  assumes "keyed env w"
  shows "length (joined_rows env w (search_hits env mode v query fetch sc w)) = length (search_hits env mode v query fetch sc w)
    \<and> map sr_fused (joined_rows env w (search_hits env mode v query fetch sc w)) = search_hits env mode v query fetch sc w"
proof (rule joined_length [OF assms], rule ballI)
  fix f assume "f \<in> set (search_hits env mode v query fetch sc w)"
  then have "fr_chunk f \<in> (\<lambda>(c, d). chunk_id_of env c) ` set (scoped_rows sc w)" by (rule hits_scoped)
  then show "fr_chunk f \<in> (\<lambda>(c, d). chunk_id_of env c) ` set (passages w)"
    by (auto simp: scoped_rows_def visible_rows_def)
qed

lemma arm_lengths:
  "length (semantic_arm env v pool sc w) = min pool (length (filter (\<lambda>(c, d). embedding c \<noteq> None) (scoped_rows sc w)))"
  "length (lexical_arm env query pool sc w) = min pool (length (filter (\<lambda>(c, d). bm25 env (lexical_query query) c \<noteq> None) (scoped_rows sc w)))"
proof -
  have "filter (\<lambda>(c, d). embedding c \<noteq> None \<and> in_scope sc d) (visible_rows sc w) = filter (\<lambda>(c, d). embedding c \<noteq> None) (scoped_rows sc w)"
    by (simp add: scoped_rows_def case_prod_unfold conj_commute)
  then show "length (semantic_arm env v pool sc w) = min pool (length (filter (\<lambda>(c, d). embedding c \<noteq> None) (scoped_rows sc w)))"
    by (simp add: semantic_arm_def semantic_visible min.commute)
  have "filter (\<lambda>(c, d). lexical_matches env (lexical_query query) sc c) (visible_rows sc w)
      = filter (\<lambda>(c, d). bm25 env (lexical_query query) c \<noteq> None) (scoped_rows sc w)"
    unfolding scoped_rows_def filter_filter
    using find_doc_Some
    by (intro filter_cong refl) (fastforce simp: lexical_matches_def in_scope_def visible_rows_def passages_iff)
  then show "length (lexical_arm env query pool sc w) = min pool (length (filter (\<lambda>(c, d). bm25 env (lexical_query query) c \<noteq> None) (scoped_rows sc w)))"
    by (simp add: lexical_arm_def lexical_visible Let_def min.commute)
qed

lemma candidate_pool_ge: "min MAX_CANDIDATES n \<le> candidate_pool n"
  by (simp add: candidate_pool_def)


lemma take_sort_key_best:
  fixes k :: "'a \<Rightarrow> 'b::linorder"
  assumes "x \<in> set xs" "x \<notin> set (take n (sort_key k xs))" "y \<in> set (take n (sort_key k xs))"
  shows "k y \<le> k x"
proof -
  let ?s = "sort_key k xs"
  have "x \<in> set (drop n ?s)" using assms(1,2) by (metis Un_iff append_take_drop_id set_append set_sort)
  moreover have "sorted (map k (take n ?s @ drop n ?s))" by simp
  ultimately show ?thesis using assms(3) unfolding map_append sorted_append by auto
qed

lemma sorted_take_sort_key: "sorted (map k (take n (sort_key k xs)))" for k :: "'a \<Rightarrow> 'b::linorder"
  by (simp add: take_map [symmetric] sorted_wrt_take)

text \<open>Fusion picks the best. The rows of the statement are in order of their fused score, ties by chunk id,
a row's score being the sum of the reciprocal ranks of the arms that found it; every row is a candidate of one
of the arms, and no candidate left out scores higher than a row that was returned.\<close>

theorem fusion_returns_the_best:
  assumes "keyed env w"
  shows "sorted (map (\<lambda>r. (- fr_score (sr_fused r), chunk_id_of env (sr_chunk r))) (search_rows env mode v query fetch sc w))
    \<and> set (map sr_fused (search_rows env mode v query fetch sc w)) \<subseteq> set (search_hits env mode v query fetch sc w)
    \<and> list_all (\<lambda>f. fr_score f = rrf_score (fr_semantic_rank f) + rrf_score (fr_lexical_rank f))
        (search_hits env mode v query fetch sc w)
    \<and> (\<forall>f\<in>set (search_hits env mode v query fetch sc w) - set (map sr_fused (search_rows env mode v query fetch sc w)).
        \<forall>r\<in>set (search_rows env mode v query fetch sc w). fr_score f \<le> fr_score (sr_fused r))"
proof (intro conjI)
  let ?hits = "search_hits env mode v query fetch sc w" and ?rows = "search_rows env mode v query fetch sc w"
  let ?key = "\<lambda>r. (- fr_score (sr_fused r), chunk_id_of env (sr_chunk r))"
  note rows = search_rows_hits [of env mode v query fetch sc w, unfolded ranked_rows_def]
  have all: "set ?hits = sr_fused ` set (joined_rows env w ?hits)"
    using hits_joined [OF assms, of mode v query fetch sc] by (metis list.set_map)
  show "sorted (map ?key ?rows)" unfolding rows by (rule sorted_take_sort_key)
  show "set (map sr_fused ?rows) \<subseteq> set ?hits" unfolding rows all by (auto dest: in_set_takeD)
  show "list_all (\<lambda>f. fr_score f = rrf_score (fr_semantic_rank f) + rrf_score (fr_lexical_rank f)) ?hits"
    by (auto simp: list_all_iff search_hits_def fused_def fuse_row_def Let_def)
  show "\<forall>f\<in>set ?hits - set (map sr_fused ?rows). \<forall>r\<in>set ?rows. fr_score f \<le> fr_score (sr_fused r)"
  proof (intro ballI)
    fix f r assume f: "f \<in> set ?hits - set (map sr_fused ?rows)" and r: "r \<in> set ?rows"
    then obtain x where x: "x \<in> set (joined_rows env w ?hits)" "f = sr_fused x" unfolding all by auto
    then have "x \<notin> set ?rows" using f by auto
    then have "?key r \<le> ?key x" using take_sort_key_best [OF x(1), of fetch ?key r] r unfolding rows by blast
    then show "fr_score f \<le> fr_score (sr_fused r)" unfolding x(2) by (auto simp: less_eq_prod_def)
  qed
qed

text \<open>Reranking keeps the best. When the model scores every candidate, the kept rows are the \<open>limit\<close>
best-scored candidates, best first and earlier position first among equals, each reported with its own score and
its position before; when the model is off, fails, or returns the wrong number of scores, the first \<open>limit\<close> rows
are kept as they are, without scores.\<close>

theorem reranking_keeps_the_best:
  assumes "score query (map (\<lambda>r. take cap (chunk_text (sr_chunk r))) rows) = Some scores" "length scores = length rows"
  shows "let out = rerank (Some score) cap query rows limit; pos = map (\<lambda>(r, s, b). the b - 1) out in
      length out = min limit (length rows) \<and> distinct pos
      \<and> (rows \<noteq> [] \<longrightarrow> out = map (\<lambda>i. (rows ! i, Some (scores ! i), Some (i + 1))) pos)
      \<and> sorted (map (\<lambda>i. (- scores ! i, i)) pos)
      \<and> (\<forall>i<length rows. i \<notin> set pos \<longrightarrow> (\<forall>j\<in>set pos. rows \<noteq> [] \<longrightarrow> scores ! i \<le> scores ! j))
    \<and> rerank None cap query rows limit = map (\<lambda>r. (r, None, None)) (take limit rows)
    \<and> rerank (Some (\<lambda>q ps. None)) cap query rows limit = map (\<lambda>r. (r, None, None)) (take limit rows)"
proof (cases "rows = []")
  case True
  then show ?thesis by (simp add: rerank_def)
next
  case False
  let ?k = "\<lambda>i. (- scores ! i, i)"
  let ?order = "take limit (sort_key ?k [0..<length rows])"
  have out: "rerank (Some score) cap query rows limit = map (\<lambda>i. (rows ! i, Some (scores ! i), Some (i + 1))) ?order"
    using assms False by (simp add: rerank_def)
  have pos: "map (\<lambda>(r, s, b). the b - 1) (map (\<lambda>i. (rows ! i, Some (scores ! i), Some (i + 1))) ?order) = ?order"
    by (simp add: comp_def)
  have best: "scores ! i \<le> scores ! j" if "i < length rows" "i \<notin> set ?order" "j \<in> set ?order" for i j
    using take_sort_key_best [of i "[0..<length rows]" limit ?k j] that by (auto simp: less_eq_prod_def)
  show ?thesis
    unfolding out Let_def pos
    using best False by (auto simp: sorted_take_sort_key rerank_def Let_def min.commute)
qed

section \<open>Witnesses\<close>

definition sample_passage :: "uuid \<Rightarrow> string \<Rightarrow> rat list \<Rightarrow> chunk" where
  "sample_passage i s v =
     \<lparr> chunk_document_id = i, chunk_scale = ''section'', chunk_index = 0, chunk_text = s, page_number = Some 1,
       section_heading = None, is_table = False, char_count = length s, document_title = None, embedding = Some v \<rparr>"

definition sample_corpus :: "string \<Rightarrow> world" where
  "sample_corpus secret = empty_world\<lparr>
     documents := [(new_document ''p'' ''p.pdf'' 1 0)\<lparr> status := LIVE, classification := Some PUBLIC \<rparr>,
                   (new_document ''q'' ''q.pdf'' 1 0)\<lparr> status := LIVE, classification := Some RESTRICTED, owner_id := Some ''o'' \<rparr>],
     chunks := [sample_passage ''p'' ''air'' [1], sample_passage ''q'' secret [2]] \<rparr>"

definition sample_retrieval :: retrieval_env where
  "sample_retrieval =
     \<lparr> chunk_id_of = chunk_document_id, embed_query = (\<lambda>_. Inr [2]),
       cosine_distance = (\<lambda>u v. if u = v then 0 else 1 / 2), bm25 = (\<lambda>q c. if contains q (chunk_text c) then Some 1 else None),
       reranker = None, query_count_tokens = map length, query_window = 9, embedding_model_name = ''m'', RERANK_CANDIDATES = 3,
       RERANK_MAX_CHARS = 9, SEARCH_MIN_SIMILARITY = 1 / 2 \<rparr>"

definition sample_scope :: search_scope where
  "sample_scope = \<lparr> viewer = Some ''u'', viewer_is_admin = False, scope_ids = [] \<rparr>"

lemma sample_keyed: "keyed sample_retrieval (sample_corpus s)"
  by (simp add: keyed_def sample_retrieval_def sample_corpus_def sample_passage_def)

lemma sample_visible: "visible_rows sample_scope (sample_corpus s) =
  [(sample_passage ''p'' ''air'' [1], (new_document ''p'' ''p.pdf'' 1 0)\<lparr> status := LIVE, classification := Some PUBLIC \<rparr>)]"
  by (simp add: visible_rows_def passages_def sample_corpus_def sample_passage_def find_doc_def new_document_def
      passage_visible_def row_visible_iff can_view_def sample_scope_def List.map_filter_simps)


lemma sample_search:
  "\<exists>r usage. search sample_retrieval ''air'' sample_scope 5 HYBRID None (sample_corpus ''s'') = Inr ([r], usage)"
proof -
  have "case search sample_retrieval ''air'' sample_scope 5 HYBRID None (sample_corpus ''s'') of Inl e \<Rightarrow> False | Inr (rs, u) \<Rightarrow> length rs = 1"
    by code_simp
  then show ?thesis by (auto simp: length_Suc_conv split: sum.splits prod.splits)
qed

theorem results_are_permitted_witness:
  "\<exists>r usage. search sample_retrieval ''air'' sample_scope 5 HYBRID None (sample_corpus ''s'') = Inr ([r], usage)
     \<and> (\<exists>d. find_doc (rc_document_id r) (documents (sample_corpus ''s'')) = Some d \<and> deleted_at d = None)"
proof -
  obtain r usage where s: "search sample_retrieval ''air'' sample_scope 5 HYBRID None (sample_corpus ''s'') = Inr ([r], usage)"
    using sample_search by blast
  then show ?thesis using results_are_permitted [OF sample_keyed s, of r] by auto
qed


theorem fusion_returns_the_best_witness:
  "sorted (map (\<lambda>r. (- fr_score (sr_fused r), chunk_id_of sample_retrieval (sr_chunk r)))
     (search_rows sample_retrieval HYBRID [2] ''air'' 5 sample_scope (sample_corpus ''s'')))"
  using fusion_returns_the_best [OF sample_keyed] by blast

definition sample_row :: "string \<Rightarrow> search_row" where
  "sample_row t = \<lparr> sr_chunk = sample_passage ''p'' t [1], sr_document = new_document ''p'' ''p.pdf'' 1 0,
     sr_fused = \<lparr> fr_chunk = ''p'', fr_score = 1 / 61, fr_semantic_rank = Some 1, fr_lexical_rank = None,
                  fr_similarity = Some 1 \<rparr> \<rparr>"

theorem reranking_keeps_the_best_witness:
  "length (rerank (Some (\<lambda>q ps. Some (map (of_nat \<circ> length) ps))) 9 ''air'' [sample_row ''air'', sample_row ''clean air''] 1) = 1"
  using reranking_keeps_the_best [of "\<lambda>q ps. Some (map (of_nat \<circ> length) ps)" "''air''" 9
      "[sample_row ''air'', sample_row ''clean air'']" "[3, 9]" 1]
  by (simp add: Let_def sample_row_def sample_passage_def)

end
