(* ===== verification/Models.thy ===== *)
theory Models
  imports PdfPages StageHandlers Retrieval
begin

text \<open>The models behind the interfaces the stages use: \<open>embedding/provider.py\<close>, \<open>embedding/tokenizer_only.py\<close> and
\<open>retrieval/rerank.py\<close>. fastembed and the tokenizers library are parameters: what a loaded model answers, and what a
tokenizer with its policies counts. The last part is about the three resources a process loads at most once.\<close>

section \<open>Tokenizers\<close>

text \<open>The library on tokenizers \<open>'k\<close>; \<open>tk_encode_batch\<close> gives the number of ids of each text.\<close>

record 'k tokenizer_library =
  tk_encode_batch :: "'k \<Rightarrow> string list \<Rightarrow> nat list"
  tk_truncation :: "'k \<Rightarrow> nat option"
  tk_copy :: "'k \<Rightarrow> 'k"
  tk_no_truncation :: "'k \<Rightarrow> 'k"
  tk_no_padding :: "'k \<Rightarrow> 'k"

definition DEFAULT_MAX_TOKENS :: nat where "DEFAULT_MAX_TOKENS = 512"

definition untruncated :: "'k tokenizer_library \<Rightarrow> 'k \<Rightarrow> 'k" where
  "untruncated lib t = tk_no_padding lib (tk_no_truncation lib (tk_copy lib t))"

definition window_of :: "'k tokenizer_library \<Rightarrow> 'k \<Rightarrow> nat" where
  "window_of lib t = (case tk_truncation lib t of None \<Rightarrow> DEFAULT_MAX_TOKENS | Some n \<Rightarrow> n)"

definition count_all :: "'k tokenizer_library \<Rightarrow> 'k \<Rightarrow> string list \<Rightarrow> nat list" where
  "count_all lib t texts = (if texts = [] then [] else tk_encode_batch lib (untruncated lib t) texts)"

text \<open>The counter over a shipped tokenizer, as \<open>TokenBudget\<close> uses it: one text at a time.\<close>

definition tokenizer_only_counter :: "'k tokenizer_library \<Rightarrow> 'k \<Rightarrow> token_counter" where
  "tokenizer_only_counter lib shipped =
     \<lparr> count_tokens = (\<lambda>s. hd (count_all lib shipped [s])), max_sequence_tokens = window_of lib shipped \<rparr>"

section \<open>The embedding provider\<close>

record 'k fast_model =
  fm_embed :: "string list \<Rightarrow> (embed_error, rat list list) result"
  fm_tokenizer :: 'k

text \<open>\<open>fe_load\<close> is the library's constructor on the model's name, which the provider calls when it first needs the model.\<close>

record 'k fast_embed =
  fe_model_name :: string
  fe_dimensions :: nat
  fe_load :: "(embed_error, 'k fast_model) result"

definition fast_embed_provider ::
  "string option \<Rightarrow> nat option \<Rightarrow> string \<Rightarrow> nat \<Rightarrow> (string \<Rightarrow> (embed_error, 'k fast_model) result) \<Rightarrow> 'k fast_embed" where
  "fast_embed_provider name dims EMBEDDING_MODEL EMBEDDING_DIMENSIONS load =
     (let n = (case name of None \<Rightarrow> EMBEDDING_MODEL | Some s \<Rightarrow> if s = [] then EMBEDDING_MODEL else s)
      in \<lparr> fe_model_name = n, fe_dimensions = or_setting dims EMBEDDING_DIMENSIONS, fe_load = load n \<rparr>)"

definition loaded_model :: "'k fast_embed \<Rightarrow> (embed_error, 'k fast_model) result" where
  "loaded_model p =
     bind_result (fe_load p) (\<lambda>m. bind_result (fm_embed m [''dimension probe'']) (\<lambda>vs.
       case vs of
         [] \<Rightarrow> Inl (EmbedOtherError ''StopIteration'')
       | v # _ \<Rightarrow>
           if length v \<noteq> fe_dimensions p
           then Inl (EmbedValueError (''Model '' @ [CHR 0x27] @ fe_model_name p @ [CHR 0x27] @ '' emits '' @ nat_str (length v)
             @ ''-dim vectors but EMBEDDING_DIMENSIONS is '' @ nat_str (fe_dimensions p) @ ''. The database column is vector(''
             @ nat_str (fe_dimensions p) @ ''); changing model width needs a migration and a re-embed, not a config edit.''))
           else Inr m))"

definition BGE_QUERY_INSTRUCTION :: string where
  "BGE_QUERY_INSTRUCTION = ''Represent this sentence for searching relevant passages: ''"
definition E5_QUERY_PREFIX :: string where "E5_QUERY_PREFIX = ''query: ''"
definition E5_PASSAGE_PREFIX :: string where "E5_PASSAGE_PREFIX = ''passage: ''"

definition is_e5 :: "string \<Rightarrow> bool" where "is_e5 name = contains ''e5'' (lower name)"

definition is_bge :: "string \<Rightarrow> bool" where
  "is_bge name = (contains ''bge'' (lower name) \<and> \<not> contains ''m3'' (lower name))"

definition passage_input :: "string \<Rightarrow> string \<Rightarrow> string" where
  "passage_input name s = (if is_e5 name then E5_PASSAGE_PREFIX @ s else s)"

definition query_input :: "string \<Rightarrow> string \<Rightarrow> string" where
  "query_input name s =
     (if is_e5 name then E5_QUERY_PREFIX @ s else if is_bge name then BGE_QUERY_INSTRUCTION @ s else s)"

definition provider_embed_passages :: "'k fast_embed \<Rightarrow> string list \<Rightarrow> (embed_error, rat list list) result" where
  "provider_embed_passages p texts =
     (if texts = [] then Inr []
      else bind_result (loaded_model p) (\<lambda>m. fm_embed m (map (passage_input (fe_model_name p)) texts)))"

definition provider_embed_query :: "'k fast_embed \<Rightarrow> string \<Rightarrow> (embed_error, rat list) result" where
  "provider_embed_query p s =
     bind_result (loaded_model p) (\<lambda>m. bind_result (fm_embed m [query_input (fe_model_name p) s]) (\<lambda>vs.
       case vs of [] \<Rightarrow> Inl (EmbedOtherError ''StopIteration'') | v # _ \<Rightarrow> Inr v))"

definition provider_window :: "'k tokenizer_library \<Rightarrow> 'k fast_embed \<Rightarrow> (embed_error, nat) result" where
  "provider_window lib p = bind_result (loaded_model p) (\<lambda>m. Inr (window_of lib (fm_tokenizer m)))"

definition provider_count_tokens :: "'k tokenizer_library \<Rightarrow> 'k fast_embed \<Rightarrow> string list \<Rightarrow> (embed_error, nat list) result" where
  "provider_count_tokens lib p texts =
     (if texts = [] then Inr [] else bind_result (loaded_model p) (\<lambda>m. Inr (count_all lib (fm_tokenizer m) texts)))"

text \<open>The provider as the EMBED stage sees it. The stage counts a batch and reads the window only after a batch was embedded,
so the model is loaded then and neither can fail.\<close>

definition stage_provider :: "'k tokenizer_library \<Rightarrow> 'k fast_embed \<Rightarrow> embedding_provider" where
  "stage_provider lib p =
     \<lparr> ep_model_name = fe_model_name p, ep_dimensions = fe_dimensions p,
       ep_max_sequence_tokens = (case provider_window lib p of Inl e \<Rightarrow> 0 | Inr n \<Rightarrow> n),
       ep_embed_passages = provider_embed_passages p,
       ep_count_tokens = (\<lambda>ts. case provider_count_tokens lib p ts of Inl e \<Rightarrow> [] | Inr ns \<Rightarrow> ns) \<rparr>"

section \<open>The chunking worker's budget\<close>

text \<open>\<open>located\<close>: the tokenizer, if its files can be found and read without the model. Constructing the provider loads nothing,
so it does not raise.\<close>

definition provider_counter :: "'k tokenizer_library \<Rightarrow> 'k fast_embed \<Rightarrow> (embed_error, token_counter) result" where
  "provider_counter lib p =
     bind_result (provider_window lib p) (\<lambda>n.
       Inr \<lparr> count_tokens = (\<lambda>s. case provider_count_tokens lib p [s] of Inl e \<Rightarrow> 0 | Inr ns \<Rightarrow> hd ns), max_sequence_tokens = n \<rparr>)"

definition chunking_worker_budget ::
  "'k tokenizer_library \<Rightarrow> 'k option \<Rightarrow> 'k fast_embed \<Rightarrow> (embed_error, size_budget) result" where
  "chunking_worker_budget lib located p =
     with_model_tokenizer (map_option (tokenizer_only_counter lib) located) (Some (provider_counter lib p))"

section \<open>The reranker\<close>

text \<open>\<open>model\<close> is the loaded cross-encoder; \<open>None\<close> is \<open>RerankUnavailable\<close>.\<close>

definition cross_encoder_scores ::
  "(string \<Rightarrow> string list \<Rightarrow> (string, rat list) result) \<Rightarrow> string \<Rightarrow> string list \<Rightarrow> rat list option" where
  "cross_encoder_scores model query ps =
     (if ps = [] then Some [] else case model query ps of Inl e \<Rightarrow> None | Inr scores \<Rightarrow> Some scores)"

record reranker_cache =
  rk_reranker :: bool
  rk_failed :: bool

definition get_reranker :: "bool \<Rightarrow> bool \<Rightarrow> reranker_cache \<Rightarrow> bool \<times> reranker_cache" where
  "get_reranker rerank_enabled loads st =
     (if \<not> rerank_enabled \<or> rk_failed st then (False, st)
      else if rk_reranker st then (True, st)
      else if loads then (True, st\<lparr> rk_reranker := True \<rparr>)
      else (False, st\<lparr> rk_failed := True \<rparr>))"

definition reset_reranker :: reranker_cache where
  "reset_reranker = \<lparr> rk_reranker = False, rk_failed = False \<rparr>"

section \<open>Resources a process loads once\<close>

text \<open>\<open>get loads st\<close> answers whether the resource is there; \<open>loads\<close> is whether loading would succeed at this moment.\<close>

locale lazy_resource =
  fixes get :: "bool \<Rightarrow> 's \<Rightarrow> bool \<times> 's"
    and ready :: "'s \<Rightarrow> bool"
    and failed :: "'s \<Rightarrow> bool"
  assumes get_failed: "failed s \<Longrightarrow> get b s = (False, s)"
    and get_ready: "\<lbrakk> ready s; \<not> failed s \<rbrakk> \<Longrightarrow> get b s = (True, s)"
    and get_first: "\<lbrakk> \<not> ready s; \<not> failed s \<rbrakk> \<Longrightarrow>
      fst (get b s) = b \<and> ready (snd (get b s)) = b \<and> failed (snd (get b s)) = (\<not> b)"
begin

primrec answers :: "'s \<Rightarrow> bool list \<Rightarrow> bool list" where
  "answers s [] = []"
| "answers s (b # bs) = fst (get b s) # answers (snd (get b s)) bs"

lemma settled: "ready s \<or> failed s \<Longrightarrow> answers s bs = replicate (length bs) (\<not> failed s)"
proof (induction bs)
  case (Cons b bs)
  then have "get b s = (\<not> failed s, s)" using get_failed get_ready by (cases "failed s") auto
  then show ?case using Cons by simp
qed simp

lemma first_call_decides:
  assumes "\<not> ready s" "\<not> failed s"
  shows "answers s (b # bs) = replicate (Suc (length bs)) b"
  using get_first [OF assms, of b] settled [of "snd (get b s)" bs] by auto

end

interpretation ocr_engine: lazy_resource "get_ocr_engine True" ce_engine ce_failed
  by unfold_locales (auto simp: get_ocr_engine_def)

interpretation picture_reader: lazy_resource "get_picture_reader True True" rc_reader rc_failed
  by unfold_locales (auto simp: get_picture_reader_def)

interpretation reranker: lazy_resource "get_reranker True" rk_reranker rk_failed
  by unfold_locales (auto simp: get_reranker_def)

text \<open>The first search decides for the process: whether later ones rerank does not depend on whether the model could be loaded
by then.\<close>

lemma first_search_decides: "reranker.answers reset_reranker (b # bs) = replicate (Suc (length bs)) b"
  by (rule reranker.first_call_decides) (simp_all add: reset_reranker_def)

section \<open>What is embedded\<close>

lemma input_prefixes:
  "is_e5 name \<Longrightarrow> passage_input name s = E5_PASSAGE_PREFIX @ s \<and> query_input name s = E5_QUERY_PREFIX @ s"
  "\<lbrakk> \<not> is_e5 name; is_bge name \<rbrakk> \<Longrightarrow> passage_input name s = s \<and> query_input name s = BGE_QUERY_INSTRUCTION @ s"
  "\<lbrakk> \<not> is_e5 name; \<not> is_bge name \<rbrakk> \<Longrightarrow> passage_input name s = s \<and> query_input name s = s"
  by (simp_all add: passage_input_def query_input_def)

text \<open>What fastembed documents: one vector per text, all of one width.\<close>

definition uniform_model :: "'k fast_model \<Rightarrow> bool" where
  "uniform_model m =
     (\<exists>n. \<forall>ts vs. fm_embed m ts = Inr vs \<longrightarrow> length vs = length ts \<and> (\<forall>v\<in>set vs. length v = n))"

lemma loaded_width:
  assumes "loaded_model p = Inr m" "\<And>m. fe_load p = Inr m \<Longrightarrow> uniform_model m" "fm_embed m ts = Inr vs"
  shows "length vs = length ts \<and> (\<forall>v\<in>set vs. length v = fe_dimensions p)"
proof -
  obtain v rest where probe: "fe_load p = Inr m" "fm_embed m [''dimension probe''] = Inr (v # rest)" "length v = fe_dimensions p"
    using assms(1) by (auto simp: loaded_model_def bind_result_def split: sum.splits list.splits if_splits)
  obtain n where n: "\<And>ts vs. fm_embed m ts = Inr vs \<Longrightarrow> length vs = length ts \<and> (\<forall>v\<in>set vs. length v = n)"
    using assms(2) [OF probe(1)] by (auto simp: uniform_model_def)
  have "n = fe_dimensions p" using n [OF probe(2)] probe(3) by auto
  then show ?thesis using n [OF assms(3)] by simp
qed

lemma passages_width:
  assumes "provider_embed_passages p ts = Inr vs" "\<And>m. fe_load p = Inr m \<Longrightarrow> uniform_model m"
  shows "length vs = length ts \<and> (\<forall>v\<in>set vs. length v = fe_dimensions p)"
proof (cases "ts = []")
  case False
  then obtain m where "loaded_model p = Inr m" "fm_embed m (map (passage_input (fe_model_name p)) ts) = Inr vs"
    using assms(1) by (auto simp: provider_embed_passages_def bind_result_def split: sum.splits)
  from loaded_width [OF this(1) assms(2) this(2)] show ?thesis by simp
qed (use assms(1) in \<open>simp add: provider_embed_passages_def\<close>)

lemma batches_width:
  assumes "embed_batches (stage_provider lib p) bs = Inr (vs, ns)" "\<And>m. fe_load p = Inr m \<Longrightarrow> uniform_model m"
  shows "length vs = length (concat bs) \<and> (\<forall>v\<in>set vs. length v = fe_dimensions p)"
  using assms(1)
proof (induction bs arbitrary: vs ns)
  case (Cons b bs)
  obtain us where us: "provider_embed_passages p b = Inr us"
    using Cons.prems by (cases "provider_embed_passages p b") (simp_all add: stage_provider_def)
  obtain ws ms where ws: "embed_batches (stage_provider lib p) bs = Inr (ws, ms)" "vs = us @ ws"
    using Cons.prems us by (auto simp: stage_provider_def split: sum.splits)
  show ?case using Cons.IH [OF ws(1)] passages_width [OF us assms(2)] by (auto simp: ws(2))
qed simp

text \<open>C38: Embeddings fit the column. When the EMBED stage gets a result, it has one vector per passage, in batches of any
size, and every vector and the recorded dimension have the declared width, which the column was migrated to; the vector
of a query has the same width, so the two can be compared.\<close>

theorem vectors_have_the_declared_width:
  assumes "\<forall>m. fe_load p = Inr m \<longrightarrow> uniform_model m" "0 < batch_size"
  shows "(\<forall>r. embed_document (stage_provider lib p) batch_size i texts = Inr r \<longrightarrow>
      length (em_vectors r) = length texts \<and> em_dimensions r = fe_dimensions p
      \<and> (\<forall>v\<in>set (em_vectors r). length v = fe_dimensions p))
    \<and> (\<forall>v. provider_embed_query p q = Inr v \<longrightarrow> length v = fe_dimensions p)"
proof (rule conjI; intro allI impI)
  have uniform: "\<And>m. fe_load p = Inr m \<Longrightarrow> uniform_model m" using assms(1) by blast
  fix r
  assume "embed_document (stage_provider lib p) batch_size i texts = Inr r"
  then obtain ns where run: "embed_batches (stage_provider lib p) (batches batch_size texts) = Inr (em_vectors r, ns)"
    and dims: "em_dimensions r = fe_dimensions p"
    by (auto simp: embed_document_def stage_provider_def split: sum.splits)
  show "length (em_vectors r) = length texts \<and> em_dimensions r = fe_dimensions p
      \<and> (\<forall>v\<in>set (em_vectors r). length v = fe_dimensions p)"
    using batches_width [OF run uniform] dims by (simp add: concat_batches [OF assms(2)])
next
  fix v
  assume "provider_embed_query p q = Inr v"
  then obtain m rest where "loaded_model p = Inr m" "fm_embed m [query_input (fe_model_name p) q] = Inr (v # rest)"
    by (auto simp: provider_embed_query_def bind_result_def split: sum.splits list.splits)
  then show "length v = fe_dimensions p" using loaded_width assms(1) by fastforce
qed


section \<open>At concrete models\<close>

definition sample_fast_model :: "nat fast_model" where
  "sample_fast_model = \<lparr> fm_embed = (\<lambda>ts. Inr (map (\<lambda>t. [of_nat (length t), 1]) ts)), fm_tokenizer = 9 \<rparr>"

definition sample_fast_embed :: "nat fast_embed" where
  "sample_fast_embed = \<lparr> fe_model_name = ''bge-small'', fe_dimensions = 2, fe_load = Inr sample_fast_model \<rparr>"

definition sample_tokenizers :: "nat tokenizer_library" where
  "sample_tokenizers =
     \<lparr> tk_encode_batch = (\<lambda>t. map length), tk_truncation = Some, tk_copy = id, tk_no_truncation = id, tk_no_padding = id \<rparr>"

lemma sample_uniform: "uniform_model sample_fast_model"
  unfolding uniform_model_def by (rule exI [of _ 2]) (auto simp: sample_fast_model_def)

theorem vectors_have_the_declared_width_witness:
  "uniform_model sample_fast_model
   \<and> map_sum id em_vectors (embed_document (stage_provider sample_tokenizers sample_fast_embed) 2 [] [''a'', ''bc'', ''d''])
       = Inr [[1, 1], [2, 1], [1, 1]]
   \<and> (\<exists>v. provider_embed_query sample_fast_embed ''q'' = Inr v \<and> length v = 2)"
proof -
  have hyp: "\<forall>m. fe_load sample_fast_embed = Inr m \<longrightarrow> uniform_model m" using sample_uniform by (simp add: sample_fast_embed_def)
  have run: "map_sum id em_vectors (embed_document (stage_provider sample_tokenizers sample_fast_embed) 2 [] [''a'', ''bc'', ''d''])
       = Inr [[1, 1], [2, 1], [1, 1]]" by code_simp
  have "case provider_embed_query sample_fast_embed ''q'' of Inl e \<Rightarrow> False | Inr v \<Rightarrow> True" by code_simp
  then obtain v where v: "provider_embed_query sample_fast_embed ''q'' = Inr v" by (auto split: sum.splits)
  then have "length v = fe_dimensions sample_fast_embed"
    using vectors_have_the_declared_width [OF hyp zero_less_numeral] by blast
  then show ?thesis using sample_uniform run v by (simp add: sample_fast_embed_def)
qed

end
