(* ===== verification/Scripts.thy ===== *)
theory Scripts
  imports Upload Accounts
begin

text \<open>The two maintenance scripts that write to the pipeline's tables: \<open>backfill_jobs.py\<close>, which queues a stage for documents
that have no job for it, and \<open>bulk_ingest.py\<close>, which hands the files of a folder to \<open>receive\<close>. Command lines, log lines and
the printed report are left out.\<close>

section \<open>Backfill\<close>

definition STAGE_ENTRY_STATUS :: "JobStage \<Rightarrow> DocumentStatus" where
  "STAGE_ENTRY_STATUS st =
     (case st of SCAN \<Rightarrow> QUARANTINED | EXTRACT \<Rightarrow> VALIDATED | NORMALIZE \<Rightarrow> EXTRACTED | CHUNK \<Rightarrow> AWAITING_CLASSIFICATION
      | EMBED \<Rightarrow> CHUNKED)"

definition MIME_BY_NAME :: "(string \<times> string) list" where
  "MIME_BY_NAME = [(''pdf'', PDF_MIME), (''docx'', DOCX_MIME), (''xlsx'', XLSX_MIME), (''pptx'', PPTX_MIME)]"

text \<open>An empty list, an empty string or a limit of zero filters nothing.\<close>

record backfill_args =
  bf_stage :: JobStage
  bf_status :: DocumentStatus
  bf_dry_run :: bool
  bf_limit :: "nat option"
  bf_reset :: bool
  bf_mimes :: "string list"
  bf_document_ids :: "uuid list"
  bf_method :: "string option"

definition live_job :: "JobStage \<Rightarrow> uuid \<Rightarrow> job \<Rightarrow> bool" where
  "live_job st d j = (job_stage j = st \<and> job_document_id j = d \<and> job_status j \<in> {PENDING, RUNNING})"

definition wants_job :: "backfill_args \<Rightarrow> world \<Rightarrow> document \<Rightarrow> bool" where
  "wants_job a w d =
     (status d = bf_status a \<and> deleted_at d = None \<and> \<not> list_ex (live_job (bf_stage a) (doc_id d)) (jobs w)
      \<and> (bf_mimes a = [] \<or> mime_type d \<in> set (bf_mimes a))
      \<and> (bf_document_ids a = [] \<or> doc_id d \<in> set (bf_document_ids a))
      \<and> (case bf_method a of None \<Rightarrow> True | Some [] \<Rightarrow> True | Some m \<Rightarrow> extraction_method d = Some m))"

definition backfill_documents :: "backfill_args \<Rightarrow> world \<Rightarrow> document list" where
  "backfill_documents a w =
     (let found = sort_key created_at (filter (wants_job a w) (documents w)) in
      case bf_limit a of None \<Rightarrow> found | Some n \<Rightarrow> if n = 0 then found else take n found)"

definition moved_back :: "time \<Rightarrow> JobStage \<Rightarrow> document \<Rightarrow> document" where
  "moved_back t st d = touch t d (d\<lparr> status := STAGE_ENTRY_STATUS st, rejection_reason := None \<rparr>)"

text \<open>One transaction: the rows moved back and the jobs, with the fresh identifiers \<open>ids\<close>. The unique index can refuse it.\<close>

definition backfill :: "uuid list \<Rightarrow> time \<Rightarrow> backfill_args \<Rightarrow> world \<Rightarrow> (string, nat) result \<times> world" where
  "backfill ids t a w =
     (let docs = backfill_documents a w; chosen = map doc_id docs in
      if docs = [] \<or> bf_dry_run a then (Inr 0, w)
      else
        let rows = (if bf_reset a
               then map (\<lambda>d. if doc_id d \<in> set chosen then moved_back t (bf_stage a) d else d) (documents w) else documents w)
        in case commit_rows () rows of
             Inl e \<Rightarrow> (Inl ''IntegrityError'', w)
           | Inr (u, rows') \<Rightarrow>
               (Inr (length docs),
                w\<lparr> documents := rows', jobs := jobs w @ map (\<lambda>(j, i). new_job j i (bf_stage a) t) (zip ids chosen) \<rparr>))"

section \<open>Bulk ingest\<close>

definition CANDIDATE_SUFFIXES :: "string list" where
  "CANDIDATE_SUFFIXES = map (lower \<circ> extension) (map snd FORMATS)"

text \<open>A file below the folder: its path, name and suffix, and its bytes unless reading fails.\<close>

record archive_file =
  af_path :: string
  af_name :: string
  af_suffix :: string
  af_data :: "(string, bytes) result"

text \<open>\<open>tree\<close> is what \<open>rglob\<close> yields of regular files, already in the order of paths.\<close>

definition discover :: "archive_file option \<Rightarrow> archive_file list \<Rightarrow> archive_file list" where
  "discover single tree =
     (case single of
        Some f \<Rightarrow> [f]
      | None \<Rightarrow> filter (\<lambda>f. lower (af_suffix f) \<in> set CANDIDATE_SUFFIXES \<and> \<not> startswith (af_name f) ''~$'') tree)"

definition resolve_owner :: "string \<Rightarrow> user list \<Rightarrow> uuid option" where
  "resolve_owner email users = map_option u_id (find (\<lambda>u. u_email u = email) users)"

text \<open>\<open>raw_path.split("/", 1)[-1]\<close>: a stored path without its bucket.\<close>

definition raw_key :: "string \<Rightarrow> string" where
  "raw_key path = (if CHR ''/'' \<in> set path then tl (dropWhile (\<lambda>c. c \<noteq> CHR ''/'') path) else path)"

text \<open>The storage check: some promoted document's bytes can be read from here. Without one there is nothing to check.\<close>

definition preflight_storage :: "world \<Rightarrow> bool" where
  "preflight_storage w =
     (case find (\<lambda>d. status d = LIVE \<and> raw_path d \<noteq> None) (documents w) of
        None \<Rightarrow> True
      | Some d \<Rightarrow>
          fs_get RAW_BUCKET (raw_key (case raw_path d of None \<Rightarrow> [] | Some p \<Rightarrow> p)) (objects w) \<noteq> None)"

record tally =
  ta_queued :: "string list"
  ta_duplicates :: "string list"
  ta_unsupported :: "(string \<times> string) list"
  ta_failed :: "(string \<times> string) list"
  ta_skipped_empty :: "string list"

definition empty_tally :: tally where
  "empty_tally = \<lparr> ta_queued = [], ta_duplicates = [], ta_unsupported = [], ta_failed = [], ta_skipped_empty = [] \<rparr>"

definition ta_seen :: "tally \<Rightarrow> nat" where
  "ta_seen t = length (ta_queued t) + length (ta_duplicates t) + length (ta_unsupported t) + length (ta_failed t)
     + length (ta_skipped_empty t)"

definition ingest_one ::
  "toolkit \<Rightarrow> upload_env \<Rightarrow> upload_request \<Rightarrow> archive_file \<Rightarrow> tally \<times> world \<Rightarrow> tally \<times> world" where
  "ingest_one tk env m f st =
     (let (t, w) = st in
      case af_data f of
        Inl e \<Rightarrow> (t\<lparr> ta_failed := ta_failed t @ [(af_path f, ''unreadable: '' @ e)] \<rparr>, w)
      | Inr data \<Rightarrow>
          if data = [] then (t\<lparr> ta_skipped_empty := ta_skipped_empty t @ [af_path f] \<rparr>, w)
          else case detect_format tk data of
              None \<Rightarrow> (t\<lparr> ta_unsupported := ta_unsupported t @ [(af_path f, ''not a PDF/DOCX/XLSX/PPTX'')] \<rparr>, w)
            | Some spec \<Rightarrow>
                (case receive env (af_name f) data m (spec_mime spec) w of
                   (Inl e, w') \<Rightarrow> (t\<lparr> ta_failed := ta_failed t @ [(af_path f, e)] \<rparr>, w')
                 | (Inr r, w') \<Rightarrow>
                     if was_duplicate r then (t\<lparr> ta_duplicates := ta_duplicates t @ [af_path f] \<rparr>, w')
                     else (t\<lparr> ta_queued := ta_queued t @ [af_path f] \<rparr>, w')))"

text \<open>The run of \<open>main\<close>: \<open>Inl\<close> is a refusal to start, \<open>Inr\<close> the tally. Each file has its own environment.\<close>

definition run_request :: "Classification \<Rightarrow> uuid \<Rightarrow> uuid \<Rightarrow> upload_request" where
  "run_request tier user batch =
     \<lparr> rq_classification = tier, rq_supersedes_doc_id = None, rq_keep_previous_version = False, rq_owner_id = Some user,
       rq_title = None, rq_description = None, rq_document_date = None, rq_upload_batch_id = Some batch \<rparr>"

definition ingest_all :: "toolkit \<Rightarrow> upload_request \<Rightarrow> (upload_env \<times> archive_file) list \<Rightarrow> tally \<times> world \<Rightarrow> tally \<times> world" where
  "ingest_all tk m fs st = foldl (\<lambda>st (env, f). ingest_one tk env m f st) st fs"

definition bulk_ingest ::
  "toolkit \<Rightarrow> upload_env list \<Rightarrow> user list \<Rightarrow> string \<Rightarrow> Classification \<Rightarrow> bool \<Rightarrow> nat option \<Rightarrow> uuid \<Rightarrow> archive_file list \<Rightarrow> world
     \<Rightarrow> (string, tally) result \<times> world" where
  "bulk_ingest tk envs users email tier dry_run limit batch found w =
     (let files = (case limit of None \<Rightarrow> found | Some n \<Rightarrow> if n = 0 then found else take n found) in
      if files = [] then (Inr empty_tally, w)
      else case resolve_owner email users of
          None \<Rightarrow> (Inl ''No user with that email'', w)
        | Some user \<Rightarrow>
            if \<not> preflight_storage w then (Inl ''Storage mismatch'', w)
            else if dry_run then (Inr (empty_tally\<lparr> ta_queued := map af_path files \<rparr>), w)
            else (case ingest_all tk (run_request tier user batch) (zip envs files) (empty_tally, w) of (t, w') \<Rightarrow> (Inr t, w')))"

section \<open>A document gets one job\<close>

lemma moved_back_id [simp]: "doc_id (moved_back t st d) = doc_id d"
  by (simp add: moved_back_def touch_def)

lemma backfill_documents_set:
  "d \<in> set (backfill_documents a w) \<Longrightarrow> d \<in> set (documents w) \<and> wants_job a w d"
  "bf_limit a = None \<Longrightarrow> set (backfill_documents a w) = {d \<in> set (documents w). wants_job a w d}"
  by (auto simp: backfill_documents_def Let_def split: option.splits if_splits dest: in_set_takeD)

lemma backfill_documents_distinct:
  assumes "distinct (map doc_id (documents w))"
  shows "distinct (map doc_id (backfill_documents a w))"
proof -
  let ?found = "sort_key created_at (filter (wants_job a w) (documents w))"
  have "distinct (map doc_id (filter (wants_job a w) (documents w)))" using assms by (rule distinct_map_filter)
  then have inj: "inj_on doc_id (set (filter (wants_job a w) (documents w)))" "distinct (filter (wants_job a w) (documents w))"
    by (simp_all only: distinct_map)
  then have "distinct (map doc_id ?found)" by (simp only: distinct_map set_sort distinct_sort)
  then have "distinct (map doc_id (take n ?found))" for n by (simp add: take_map [symmetric] del: distinct_map)
  then show ?thesis using \<open>distinct (map doc_id ?found)\<close> by (auto simp: backfill_documents_def Let_def split: option.split)
qed

lemma live_new_job [simp]: "live_job st d (new_job j i s t) \<longleftrightarrow> st = s \<and> i = d"
  by (auto simp: live_job_def new_job_def)

text \<open>What a run that queues leaves behind.\<close>

lemma backfill_effect:
  assumes "backfill ids t a w = (r, w')"
  shows "jobs w' = jobs w
    \<or> jobs w' = jobs w @ map (\<lambda>(j, i). new_job j i (bf_stage a) t) (zip ids (map doc_id (backfill_documents a w)))"
    "d \<in> set (documents w') \<Longrightarrow> doc_id d \<notin> doc_id ` set (backfill_documents a w) \<Longrightarrow> d \<in> set (documents w)"
  using assms by (auto simp: backfill_def Let_def commit_rows_def split: if_splits)

text \<open>No run of the backfill gives a document a second live job for a stage: one that has a pending or running job for the
stage keeps what it has.\<close>

theorem backfill_never_double_queues:
  assumes "wf_docs (documents w)"
  shows "length (filter (live_job st d) (jobs (snd (backfill ids t a w)))) \<le> max 1 (length (filter (live_job st d) (jobs w)))"
proof -
  let ?chosen = "map doc_id (backfill_documents a w)"
  let ?new = "map (\<lambda>(j, i). new_job j i (bf_stage a) t) (zip ids ?chosen)"
  have distinct: "distinct ?chosen" by (rule backfill_documents_distinct) (use assms in \<open>simp add: wf_docs_def\<close>)
  have none: "filter (live_job st d) (map (\<lambda>(j, i). new_job j i (bf_stage a) t) (zip js ds)) = []"
    if "d \<notin> set ds \<or> st \<noteq> bf_stage a" for js ds
    using that by (induction js ds rule: list_induct2') auto
  have count: "length (filter (live_job st d) (map (\<lambda>(j, i). new_job j i (bf_stage a) t) (zip js ds))) \<le> 1"
    if "distinct ds" for js ds
    using that
  proof (induction js ds rule: list_induct2')
    case (4 j js i ds)
    show ?case
    proof (cases "st = bf_stage a \<and> i = d")
      case True
      then show ?thesis using none [of ds js] 4(2) by simp
    next
      case False
      then show ?thesis using 4 by auto
    qed
  qed simp_all
  have free: "filter (live_job (bf_stage a) d) (jobs w) = []" if "d \<in> set ?chosen"
    using that backfill_documents_set(1) [of _ a w] by (auto simp: wants_job_def list_ex_iff filter_empty_conv)
  show ?thesis
  proof (cases "jobs (snd (backfill ids t a w)) = jobs w")
    case False
    then have jobs: "jobs (snd (backfill ids t a w)) = jobs w @ ?new"
      using backfill_effect(1) [of ids t a w "fst (backfill ids t a w)" "snd (backfill ids t a w)"] by auto
    show ?thesis
    proof (cases "d \<in> set ?chosen \<and> st = bf_stage a")
      case True
      then show ?thesis using count [OF distinct, of ids] free by (simp add: jobs)
    next
      case False
      then have "filter (live_job st d) ?new = []" by (intro none) blast
      then show ?thesis by (simp add: jobs)
    qed
  qed simp
qed

text \<open>Running it again with the same arguments does nothing.\<close>

theorem backfill_is_idempotent:
  assumes "backfill ids t a w = (Inr n, w1)" "bf_limit a = None" "\<not> bf_dry_run a"
    and "length (backfill_documents a w) \<le> length ids"
  shows "backfill ids' t' a w1 = (Inr 0, w1)"
proof -
  let ?chosen = "map doc_id (backfill_documents a w)"
  have jobs: "jobs w1 = jobs w @ map (\<lambda>(j, i). new_job j i (bf_stage a) t) (zip ids ?chosen)"
    using assms by (auto simp: backfill_def Let_def commit_rows_def split: if_splits)
  have queued: "list_ex (live_job (bf_stage a) i) (jobs w1)" if "i \<in> set ?chosen" for i
  proof -
    obtain k where k: "k < length ?chosen" "?chosen ! k = i" using \<open>i \<in> set ?chosen\<close> by (auto simp: in_set_conv_nth)
    then have "(ids ! k, i) \<in> set (zip ids ?chosen)" using assms(4) by (auto simp: set_zip)
    then have "new_job (ids ! k) i (bf_stage a) t \<in> set (jobs w1)" unfolding jobs by force
    moreover have "live_job (bf_stage a) i (new_job (ids ! k) i (bf_stage a) t)" by simp
    ultimately show ?thesis unfolding list_ex_iff by blast
  qed
  have "\<not> wants_job a w1 d" if d: "d \<in> set (documents w1)" for d
  proof (cases "doc_id d \<in> set ?chosen")
    case True
    then show ?thesis using queued by (simp add: wants_job_def)
  next
    case False
    then have "d \<in> set (documents w)" using backfill_effect(2) [OF assms(1) d] by simp
    moreover have "d \<notin> set (backfill_documents a w)" using False by auto
    ultimately have "\<not> wants_job a w d" using backfill_documents_set(2) [OF assms(2)] by blast
    then show ?thesis using jobs by (auto simp: wants_job_def)
  qed
  then have "backfill_documents a w1 = []"
    using backfill_documents_set(1) by (metis in_set_conv_nth length_greater_0_conv nth_mem)
  then show ?thesis by (simp add: backfill_def)
qed

section \<open>Every file is accounted for\<close>

lemma receive_adds:
  "receive env name data m mime w = (Inr r, w') \<Longrightarrow>
     documents w' = documents w @ [received_row env name data m mime] \<and> \<not> was_duplicate r"
  "receive env name data m mime w = (Inl e, w') \<Longrightarrow> documents w' = documents w"
  by (auto simp: receive_def Let_def pg_create_def commit_rows_def enqueue_job_def upload_receipt_def received_row_def
      split: if_splits sum.splits)

definition from_run :: "upload_request \<Rightarrow> document \<Rightarrow> bool" where
  "from_run m d =
     (status d = QUARANTINED \<and> classification d = Some (rq_classification m) \<and> owner_id d = rq_owner_id m
      \<and> upload_batch_id d = rq_upload_batch_id m \<and> supersedes_id d = None)"

lemma ingest_one_accounts:
  assumes "ingest_one tk env m f (t, w) = (t', w')"
  shows "ta_seen t' = Suc (ta_seen t) \<and> ta_duplicates t' = ta_duplicates t
    \<and> (\<exists>new. documents w' = documents w @ new \<and> length (ta_queued t') = length (ta_queued t) + length new \<and> list_all (from_run m) new)"
proof (cases "\<exists>data spec. af_data f = Inr data \<and> data \<noteq> [] \<and> detect_format tk data = Some spec")
  case False
  then show ?thesis using assms by (auto simp: ingest_one_def ta_seen_def split: sum.splits option.splits if_splits)
next
  case True
  then obtain data spec where f: "af_data f = Inr data" "data \<noteq> []" "detect_format tk data = Some spec" by blast
  obtain r v where run: "receive env (af_name f) data m (spec_mime spec) w = (r, v)" by (rule prod.exhaust)
  show ?thesis
  proof (cases r)
    case (Inl e)
    then show ?thesis using assms f run receive_adds(2) by (auto simp: ingest_one_def ta_seen_def)
  next
    case (Inr rec)
    have "documents v = documents w @ [received_row env (af_name f) data m (spec_mime spec)]" "\<not> was_duplicate rec"
      using receive_adds(1) run Inr by blast+
    then show ?thesis using assms f run Inr
      by (auto simp: ingest_one_def ta_seen_def from_run_def)
  qed
qed

text \<open>A run accounts for every file exactly once, registers one document per file it reports as queued, all in the run's
tier, owner and batch, and leaves every other document as it was. It never reports a duplicate: whether bytes are
already held is only found out by the scan.\<close>

theorem bulk_run_accounts_for_every_file:
  "case ingest_all tk m fs (empty_tally, w) of (t, w') \<Rightarrow>
     ta_seen t = length fs \<and> ta_duplicates t = []
     \<and> (\<exists>new. documents w' = documents w @ new \<and> length new = length (ta_queued t) \<and> list_all (from_run m) new)"
proof (induction fs rule: rev_induct)
  case Nil
  show ?case by (simp add: ingest_all_def empty_tally_def ta_seen_def)
next
  case (snoc p fs)
  obtain env f where p: "p = (env, f)" by (cases p)
  obtain t1 w1 where mid: "ingest_all tk m fs (empty_tally, w) = (t1, w1)" by (rule prod.exhaust)
  obtain t2 w2 where step: "ingest_one tk env m f (t1, w1) = (t2, w2)" by (rule prod.exhaust)
  have "ingest_all tk m (fs @ [p]) (empty_tally, w) = (t2, w2)" using mid step by (simp add: ingest_all_def p)
  then show ?case using snoc ingest_one_accounts [OF step] by (auto simp: mid)
qed

end
