(* ===== verification/Recognizers.thy ===== *)
theory Recognizers
  imports PyRegex
begin

text \<open>\<open>gateway/recognizers.py\<close>: the patterns of what counts as sensitive, their checksum tests, and
\<open>find_all\<close>, which runs them in order and lets an earlier match keep its span.\<close>

section \<open>Second-stage tests\<close>

definition digits_of :: "string \<Rightarrow> string" where
  "digits_of s = filter is_decimal s"

definition digit_value :: "char \<Rightarrow> nat" where
  "digit_value c = code c - 48"

text \<open>\<open>for i, d in enumerate(digits)\<close>: the running total of the Luhn sum.\<close>

fun luhn_total :: "nat \<Rightarrow> nat \<Rightarrow> nat list \<Rightarrow> nat" where
  "luhn_total parity i [] = 0"
| "luhn_total parity i (d # ds) =
     (let d' = (if i mod 2 = parity then (if 9 < d * 2 then d * 2 - 9 else d * 2) else d)
      in d' + luhn_total parity (Suc i) ds)"

definition luhn :: "string \<Rightarrow> bool" where
  "luhn s = (let digits = map digit_value (digits_of s) in
     if length digits < 12 then False
     else luhn_total (length digits mod 2) 0 digits mod 10 = 0)"

definition VERHOEFF_D :: "nat list list" where
  "VERHOEFF_D =
    [[0, 1, 2, 3, 4, 5, 6, 7, 8, 9], [1, 2, 3, 4, 0, 6, 7, 8, 9, 5],
     [2, 3, 4, 0, 1, 7, 8, 9, 5, 6], [3, 4, 0, 1, 2, 8, 9, 5, 6, 7],
     [4, 0, 1, 2, 3, 9, 5, 6, 7, 8], [5, 9, 8, 7, 6, 0, 4, 3, 2, 1],
     [6, 5, 9, 8, 7, 1, 0, 4, 3, 2], [7, 6, 5, 9, 8, 2, 1, 0, 4, 3],
     [8, 7, 6, 5, 9, 3, 2, 1, 0, 4], [9, 8, 7, 6, 5, 4, 3, 2, 1, 0]]"

definition VERHOEFF_P :: "nat list list" where
  "VERHOEFF_P =
    [[0, 1, 2, 3, 4, 5, 6, 7, 8, 9], [1, 5, 7, 6, 2, 8, 3, 0, 9, 4],
     [5, 8, 0, 3, 7, 9, 6, 1, 4, 2], [8, 9, 1, 6, 0, 4, 3, 5, 2, 7],
     [9, 4, 5, 3, 1, 2, 6, 8, 7, 0], [4, 2, 8, 6, 5, 7, 3, 9, 0, 1],
     [2, 7, 9, 3, 8, 0, 6, 4, 1, 5], [7, 0, 4, 6, 9, 1, 3, 2, 5, 8]]"

text \<open>\<open>for i, d in enumerate(reversed(digits)): c = D[c][P[i % 8][d]]\<close>\<close>

fun verhoeff_fold :: "nat \<Rightarrow> nat \<Rightarrow> nat list \<Rightarrow> nat" where
  "verhoeff_fold i c [] = c"
| "verhoeff_fold i c (d # ds) =
     verhoeff_fold (Suc i) (VERHOEFF_D ! c ! (VERHOEFF_P ! (i mod 8) ! d)) ds"

definition verhoeff :: "string \<Rightarrow> bool" where
  "verhoeff s = (let digits = digits_of s in
     if length digits \<noteq> 12 then False
     else if hd digits \<in> {CHR ''0'', CHR ''1''} then False
     else verhoeff_fold 0 0 (map digit_value (rev digits)) = 0)"

definition plausible_landline :: "string \<Rightarrow> bool" where
  "plausible_landline s = (let d0 = digits_of s;
     digits = (if startswith d0 ''91'' \<and> length d0 = 12 then CHR ''0'' # drop 2 d0 else d0)
     in length digits = 11 \<and> digits ! 0 = CHR ''0'' \<and> digits ! 1 \<noteq> CHR ''0'')"

definition plausible_phone :: "string \<Rightarrow> bool" where
  "plausible_phone s = (let d0 = digits_of s;
     digits = (if startswith d0 ''91'' \<and> length d0 = 12 then drop 2 d0
               else if startswith d0 ''0'' \<and> length d0 = 11 then drop 1 d0 else d0)
     in length digits = 10 \<and> digits ! 0 \<in> set ''6789'')"

section \<open>The recognisers\<close>

record recognizer =
  rec_label :: string
  rec_pattern :: re
  rec_validate :: "(string \<Rightarrow> bool) option"
  rec_description :: string

text \<open>The classes the patterns are written with: \<open>\d\<close>, \<open>[A-Z]\<close>, \<open>[0-9A-Z]\<close>, \<open>[ -]\<close>, \<open>[\s-]\<close>, and those of
the e-mail pattern.\<close>

definition dig :: re where "dig = Cls is_decimal"
definition upper :: re where "upper = Cls is_upper_ascii"
definition alnum :: re where "alnum = Cls (\<lambda>c. is_decimal c \<or> is_upper_ascii c)"
definition space_or_dash :: re where "space_or_dash = Cls (\<lambda>c. c = CHR '' '' \<or> c = CHR ''-'')"
definition gap_or_dash :: re where "gap_or_dash = Cls (\<lambda>c. is_space c \<or> c = CHR ''-'')"
definition mail_local :: re where
  "mail_local = Cls (\<lambda>c. is_word c \<or> c \<in> set ''.%+-'')"
definition mail_label :: re where "mail_label = Cls (\<lambda>c. is_word c \<or> c = CHR ''-'')"
definition letter :: re where "letter = Cls (\<lambda>c. is_upper_ascii c \<or> is_lower_ascii c)"
definition plus91 :: re where "plus91 = cat [lit (CHR ''+''), lit (CHR ''9''), lit (CHR ''1'')]"

definition gstin_pattern :: re where
  "gstin_pattern = cat [WordBoundary, exactly 2 dig, exactly 5 upper, exactly 4 dig, upper, alnum,
     lit (CHR ''Z''), alnum, WordBoundary]"

definition pan_pattern :: re where
  "pan_pattern = cat [WordBoundary, exactly 5 upper, exactly 4 dig, upper, WordBoundary]"

definition aadhaar_pattern :: re where
  "aadhaar_pattern = cat [WordBoundary, exactly 4 dig, opt space_or_dash, exactly 4 dig,
     opt space_or_dash, exactly 4 dig, WordBoundary]"

definition card_pattern :: re where
  "card_pattern = cat [WordBoundary, between 12 18 (Cat dig (opt space_or_dash)), dig, WordBoundary]"

definition landline_pattern :: re where
  "landline_pattern = cat [opt (Cat plus91 (opt gap_or_dash)), opt (lit (CHR ''0'')), between 2 4 dig,
     opt gap_or_dash, between 3 4 dig, opt gap_or_dash, between 3 5 dig, WordBoundary]"

definition ifsc_pattern :: re where
  "ifsc_pattern = cat [WordBoundary, exactly 4 upper, lit (CHR ''0''), exactly 6 alnum, WordBoundary]"

definition email_pattern :: re where
  "email_pattern = cat [WordBoundary, plus mail_local, lit (CHR ''@''), plus mail_label,
     star (Cat (lit (CHR ''.'')) (plus mail_label)), lit (CHR ''.''), Rep 2 None letter, WordBoundary]"

definition mobile_pattern :: re where
  "mobile_pattern =
     Or (cat [opt (Or (Cat plus91 (opt gap_or_dash)) (Cat WordBoundary (lit (CHR ''0'')))),
              Cls (\<lambda>c. c \<in> set ''6789''), exactly 4 dig, opt gap_or_dash, exactly 5 dig, WordBoundary])
        (cat [plus91, opt gap_or_dash, exactly 10 dig, WordBoundary])"

definition RECOGNIZERS :: "recognizer list" where
  "RECOGNIZERS =
    [\<lparr> rec_label = ''GSTIN'', rec_pattern = gstin_pattern, rec_validate = None,
       rec_description = ''Goods and Services Tax identification number'' \<rparr>,
     \<lparr> rec_label = ''PAN'', rec_pattern = pan_pattern, rec_validate = None,
       rec_description = ''Permanent Account Number'' \<rparr>,
     \<lparr> rec_label = ''AADHAAR'', rec_pattern = aadhaar_pattern, rec_validate = Some verhoeff,
       rec_description = ''Aadhaar number (Verhoeff-checked)'' \<rparr>,
     \<lparr> rec_label = ''CREDIT_CARD'', rec_pattern = card_pattern, rec_validate = Some luhn,
       rec_description = ''Payment card number (Luhn-checked)'' \<rparr>,
     \<lparr> rec_label = ''PHONE'', rec_pattern = landline_pattern, rec_validate = Some plausible_landline,
       rec_description = ''Indian landline number'' \<rparr>,
     \<lparr> rec_label = ''IFSC'', rec_pattern = ifsc_pattern, rec_validate = None,
       rec_description = ''Bank branch code'' \<rparr>,
     \<lparr> rec_label = ''EMAIL'', rec_pattern = email_pattern, rec_validate = None,
       rec_description = ''Email address'' \<rparr>,
     \<lparr> rec_label = ''PHONE'', rec_pattern = mobile_pattern, rec_validate = Some plausible_phone,
       rec_description = ''Indian mobile number'' \<rparr>]"

section \<open>Finding\<close>

record finding =
  f_label :: string
  f_start :: nat
  f_end :: nat
  f_text :: string

definition overlaps :: "nat \<Rightarrow> nat \<Rightarrow> nat \<times> nat \<Rightarrow> bool" where
  "overlaps start stop c = (start < snd c \<and> fst c < stop)"

definition take_match ::
  "recognizer \<Rightarrow> nat \<times> string \<Rightarrow> finding list \<times> (nat \<times> nat) list \<Rightarrow> finding list \<times> (nat \<times> nat) list" where
  "take_match r m st =
     (let start = fst m; stop = fst m + length (snd m); value = snd m in
      if \<exists>c\<in>set (snd st). overlaps start stop c then st
      else case rec_validate r of
          Some ok \<Rightarrow>
            if \<not> ok value then st
            else (fst st @ [\<lparr> f_label = rec_label r, f_start = start, f_end = stop, f_text = value \<rparr>],
                  snd st @ [(start, stop)])
        | None \<Rightarrow>
            (fst st @ [\<lparr> f_label = rec_label r, f_start = start, f_end = stop, f_text = value \<rparr>],
             snd st @ [(start, stop)]))"

definition run_recognizer ::
  "string \<Rightarrow> recognizer \<Rightarrow> finding list \<times> (nat \<times> nat) list \<Rightarrow> finding list \<times> (nat \<times> nat) list" where
  "run_recognizer s r st = fold (take_match r) (finditer (rec_pattern r) s) st"

definition find_all :: "string \<Rightarrow> finding list" where
  "find_all s = (if s = [] then []
     else sort_key f_start (fst (fold (run_recognizer s) RECOGNIZERS ([], []))))"

section \<open>What the Aadhaar check digit detects\<close>

definition below10 :: "nat list" where "below10 = [0, 1, 2, 3, 4, 5, 6, 7, 8, 9]"
definition below8 :: "nat list" where "below8 = [0, 1, 2, 3, 4, 5, 6, 7]"

lemma below10: "c \<in> set below10 \<longleftrightarrow> c < 10"
  by (auto simp: below10_def)

lemma below8: "c \<in> set below8 \<longleftrightarrow> c < 8"
  by (auto simp: below8_def)

lemma verhoeff_tables_closed:
  "list_all (\<lambda>c. list_all (\<lambda>d. VERHOEFF_D ! c ! d < 10) below10) below10"
  "list_all (\<lambda>i. list_all (\<lambda>d. VERHOEFF_P ! i ! d < 10) below10) below8"
  by code_simp+

lemma verhoeff_rows_distinct:
  "list_all (\<lambda>c. distinct (map (\<lambda>d. VERHOEFF_D ! c ! d) below10)) below10"
  "list_all (\<lambda>d. distinct (map (\<lambda>c. VERHOEFF_D ! c ! d) below10)) below10"
  "list_all (\<lambda>i. distinct (map (\<lambda>d. VERHOEFF_P ! i ! d) below10)) below8"
  by code_simp+

lemma verhoeff_assoc:
  "list_all (\<lambda>a. list_all (\<lambda>b. list_all (\<lambda>c.
      VERHOEFF_D ! (VERHOEFF_D ! a ! b) ! c = VERHOEFF_D ! a ! (VERHOEFF_D ! b ! c)) below10) below10) below10"
  by code_simp

lemma verhoeff_swap:
  "list_all (\<lambda>i. list_all (\<lambda>a. list_all (\<lambda>b. a = b \<or>
      VERHOEFF_D ! (VERHOEFF_P ! i ! a) ! (VERHOEFF_P ! (Suc i mod 8) ! b)
        \<noteq> VERHOEFF_D ! (VERHOEFF_P ! i ! b) ! (VERHOEFF_P ! (Suc i mod 8) ! a)) below10) below10) below8"
  by code_simp

lemmas verhoeff_tables =
  verhoeff_tables_closed [unfolded list_all_iff below10 below8]
  verhoeff_rows_distinct [unfolded list_all_iff below10 below8 distinct_map inj_on_def Ball_def, simplified below10]

definition vstep :: "nat \<Rightarrow> nat \<Rightarrow> nat \<Rightarrow> nat" where
  "vstep i c d = VERHOEFF_D ! c ! (VERHOEFF_P ! (i mod 8) ! d)"

lemma vstep_closed: "\<lbrakk> c < 10; d < 10 \<rbrakk> \<Longrightarrow> vstep i c d < 10"
  using verhoeff_tables_closed by (simp add: vstep_def list_all_iff below10 below8)

lemma vstep_digit: "\<lbrakk> c < 10; d < 10; e < 10; vstep i c d = vstep i c e \<rbrakk> \<Longrightarrow> d = e"
proof -
  assume a: "c < 10" "d < 10" "e < 10" and eq: "vstep i c d = vstep i c e"
  have P: "VERHOEFF_P ! (i mod 8) ! d < 10" "VERHOEFF_P ! (i mod 8) ! e < 10"
    using verhoeff_tables_closed(2) a by (simp_all add: list_all_iff below10 below8)
  have "inj_on (\<lambda>d. VERHOEFF_D ! c ! d) (set below10)"
    using verhoeff_rows_distinct(1) a(1) by (simp add: list_all_iff below10 distinct_map)
  then have "VERHOEFF_P ! (i mod 8) ! d = VERHOEFF_P ! (i mod 8) ! e"
    using eq P by (simp add: vstep_def inj_on_def below10)
  moreover have "inj_on (\<lambda>d. VERHOEFF_P ! (i mod 8) ! d) (set below10)"
    using verhoeff_rows_distinct(3) by (simp add: list_all_iff below8 distinct_map)
  ultimately show "d = e" using a by (simp add: inj_on_def below10)
qed

lemma vstep_state: "\<lbrakk> c < 10; c' < 10; d < 10; vstep i c d = vstep i c' d \<rbrakk> \<Longrightarrow> c = c'"
proof -
  assume a: "c < 10" "c' < 10" "d < 10" and eq: "vstep i c d = vstep i c' d"
  have "VERHOEFF_P ! (i mod 8) ! d < 10"
    using verhoeff_tables_closed(2) a by (simp add: list_all_iff below10 below8)
  then have "inj_on (\<lambda>c. VERHOEFF_D ! c ! (VERHOEFF_P ! (i mod 8) ! d)) (set below10)"
    using verhoeff_rows_distinct(2) by (simp add: list_all_iff below10 distinct_map)
  then show "c = c'" using eq a by (simp add: vstep_def inj_on_def below10)
qed

lemma vstep_swap: "\<lbrakk> c < 10; a < 10; b < 10; a \<noteq> b \<rbrakk> \<Longrightarrow> vstep (Suc i) (vstep i c a) b \<noteq> vstep (Suc i) (vstep i c b) a"
proof
  assume a: "c < 10" "a < 10" "b < 10" "a \<noteq> b"
    and eq: "vstep (Suc i) (vstep i c a) b = vstep (Suc i) (vstep i c b) a"
  let ?j = "i mod 8"
  have suc: "Suc i mod 8 = Suc ?j mod 8" by (simp add: mod_Suc_eq)
  have P: "VERHOEFF_P ! k ! d < 10" if "k < 8" "d < 10" for k d
    using verhoeff_tables_closed(2) that by (simp add: list_all_iff below10 below8)
  have assoc: "VERHOEFF_D ! (VERHOEFF_D ! x ! y) ! z = VERHOEFF_D ! x ! (VERHOEFF_D ! y ! z)"
    if "x < 10" "y < 10" "z < 10" for x y z
    using verhoeff_assoc that by (simp add: list_all_iff below10)
  have closed: "VERHOEFF_D ! x ! y < 10" if "x < 10" "y < 10" for x y
    using verhoeff_tables_closed(1) that by (simp add: list_all_iff below10)
  have "inj_on (\<lambda>d. VERHOEFF_D ! c ! d) (set below10)"
    using verhoeff_rows_distinct(1) a(1) by (simp add: list_all_iff below10 distinct_map)
  moreover have "VERHOEFF_D ! c ! (VERHOEFF_D ! (VERHOEFF_P ! ?j ! a) ! (VERHOEFF_P ! (Suc ?j mod 8) ! b))
      = VERHOEFF_D ! c ! (VERHOEFF_D ! (VERHOEFF_P ! ?j ! b) ! (VERHOEFF_P ! (Suc ?j mod 8) ! a))"
    using eq a P assoc by (simp add: vstep_def suc)
  ultimately have "VERHOEFF_D ! (VERHOEFF_P ! ?j ! a) ! (VERHOEFF_P ! (Suc ?j mod 8) ! b)
      = VERHOEFF_D ! (VERHOEFF_P ! ?j ! b) ! (VERHOEFF_P ! (Suc ?j mod 8) ! a)"
    using a P closed by (simp add: inj_on_def below10)
  moreover have "?j \<in> set below8" "a \<in> set below10" "b \<in> set below10" using a by (simp_all add: below8 below10)
  ultimately show False using verhoeff_swap a(4) unfolding list_all_iff by blast
qed

lemma verhoeff_fold_step: "verhoeff_fold i c (d # ds) = verhoeff_fold (Suc i) (vstep i c d) ds"
  by (simp add: vstep_def)

lemma verhoeff_fold_append:
  "verhoeff_fold i c (ds @ es) = verhoeff_fold (i + length ds) (verhoeff_fold i c ds) es"
  by (induction ds arbitrary: i c) simp_all

lemma verhoeff_fold_closed: "\<lbrakk> c < 10; \<forall>d\<in>set ds. d < 10 \<rbrakk> \<Longrightarrow> verhoeff_fold i c ds < 10"
  by (induction ds arbitrary: i c) (simp_all add: verhoeff_fold_step vstep_closed del: verhoeff_fold.simps(2))

lemma verhoeff_fold_state:
  "\<lbrakk> c < 10; c' < 10; \<forall>d\<in>set ds. d < 10; verhoeff_fold i c ds = verhoeff_fold i c' ds \<rbrakk> \<Longrightarrow> c = c'"
proof (induction ds arbitrary: i c c')
  case (Cons d ds)
  then have "vstep i c d = vstep i c' d"
    using vstep_closed by (simp add: verhoeff_fold_step del: verhoeff_fold.simps(2))
  then show ?case using Cons.prems(1-3) vstep_state [of c c' d i] by simp
qed simp

lemma decimal_value: "is_decimal c \<Longrightarrow> digit_value c < 10"
  by (auto simp: is_decimal_def digit_value_def Let_def)

lemma digit_value_inj: "\<lbrakk> is_decimal c; is_decimal d; digit_value c = digit_value d \<rbrakk> \<Longrightarrow> c = d"
proof -
  assume "is_decimal c" "is_decimal d" "digit_value c = digit_value d"
  then have "code c = code d" by (auto simp: is_decimal_def digit_value_def Let_def)
  then show "c = d" by (simp add: code_def)
qed

lemma verhoeff_zero:
  "verhoeff s \<Longrightarrow> verhoeff_fold 0 0 (map digit_value (rev (digits_of s))) = 0"
  by (simp add: verhoeff_def Let_def split: if_splits)

lemma digits_decimal: "\<forall>c\<in>set (digits_of s). is_decimal c"
  by (simp add: digits_of_def)

lemma decimal_values: "\<forall>c\<in>set w. is_decimal c \<Longrightarrow> \<forall>d\<in>set (map digit_value (rev w)). d < 10"
  by (auto simp: decimal_value)

lemma verhoeff_replaced:
  assumes s: "digits_of s = a @ xs @ b" and t: "digits_of t = a @ ys @ b" and "length xs = length ys"
    and "verhoeff s" "verhoeff t"
  shows "\<exists>i c. c < 10 \<and> verhoeff_fold i c (map digit_value (rev xs)) = verhoeff_fold i c (map digit_value (rev ys))"
    and "\<forall>w\<in>set xs. is_decimal w" "\<forall>w\<in>set ys. is_decimal w"
proof -
  let ?v = "\<lambda>w. map digit_value (rev w)"
  let ?c = "verhoeff_fold 0 0 (?v b)"
  have dec: "\<forall>c\<in>set a. is_decimal c" "\<forall>c\<in>set b. is_decimal c"
    and dxs: "\<forall>c\<in>set xs. is_decimal c" and dys: "\<forall>c\<in>set ys. is_decimal c"
    using digits_decimal [of s] digits_decimal [of t] unfolding s t by simp_all
  have c: "?c < 10" using verhoeff_fold_closed [OF _ decimal_values [OF dec(2)]] by simp
  have "verhoeff_fold (length b + length xs) (verhoeff_fold (length b) ?c (?v xs)) (?v a)
      = verhoeff_fold (length b + length xs) (verhoeff_fold (length b) ?c (?v ys)) (?v a)"
    using verhoeff_zero [OF assms(4)] verhoeff_zero [OF assms(5)] assms(3)
    by (simp add: s t verhoeff_fold_append)
  then have "verhoeff_fold (length b) ?c (?v xs) = verhoeff_fold (length b) ?c (?v ys)"
    using verhoeff_fold_state verhoeff_fold_closed decimal_values dec(1) dxs dys c by blast
  then show "\<exists>i c. c < 10 \<and> verhoeff_fold i c (?v xs) = verhoeff_fold i c (?v ys)" using c by blast
  show "\<forall>w\<in>set xs. is_decimal w" "\<forall>w\<in>set ys. is_decimal w" by (fact dxs, fact dys)
qed

text \<open>The Aadhaar test detects every single wrong digit and every swap of two neighbouring digits: of
two twelve-digit numbers that differ in that way at most one passes.\<close>

theorem verhoeff_detects_typos:
  assumes "verhoeff s" "x \<noteq> y"
    and "digits_of s = a @ x # b \<and> digits_of t = a @ y # b
       \<or> digits_of s = a @ x # y # b \<and> digits_of t = a @ y # x # b"
  shows "\<not> verhoeff t"
proof
  assume "verhoeff t"
  note replaced = verhoeff_replaced [OF _ _ _ assms(1) this]
  from assms(3) show False
  proof (elim disjE conjE)
    assume "digits_of s = a @ x # b" "digits_of t = a @ y # b"
    then have "digits_of s = a @ [x] @ b" "digits_of t = a @ [y] @ b" by simp_all
    note r = replaced [OF this]
    from r(2,3) have "is_decimal x" "is_decimal y" by simp_all
    moreover from r(1) obtain i c where "c < 10" "vstep i c (digit_value x) = vstep i c (digit_value y)"
      by (auto simp: vstep_def)
    ultimately show False using vstep_digit decimal_value digit_value_inj assms(2) by blast
  next
    assume "digits_of s = a @ x # y # b" "digits_of t = a @ y # x # b"
    then have "digits_of s = a @ [x, y] @ b" "digits_of t = a @ [y, x] @ b" by simp_all
    note r = replaced [OF this]
    from r(2,3) have dec: "is_decimal x" "is_decimal y" by simp_all
    from r(1) obtain i c where "c < 10"
        "vstep (Suc i) (vstep i c (digit_value y)) (digit_value x) = vstep (Suc i) (vstep i c (digit_value x)) (digit_value y)"
      by (auto simp: vstep_def)
    then have "digit_value y = digit_value x" using vstep_swap decimal_value dec by blast
    then show False using digit_value_inj dec assms(2) by metis
  qed
qed

theorem verhoeff_detects_typos_witness:
  "\<not> verhoeff ''2341 2341 2356'' \<and> \<not> verhoeff ''2341 2341 3246''"
proof
  show "\<not> verhoeff ''2341 2341 2356''"
    by (rule verhoeff_detects_typos [of "''2341 2341 2346''" "CHR ''4''" "CHR ''5''" "''2341234123''" "''6''"];
        code_simp)
  show "\<not> verhoeff ''2341 2341 3246''"
    by (rule verhoeff_detects_typos [of "''2341 2341 2346''" "CHR ''2''" "CHR ''3''" "''23412341''" "''46''"];
        code_simp)
qed

section \<open>What is found\<close>

definition accepted :: "recognizer \<Rightarrow> string \<Rightarrow> bool" where
  "accepted r v = (case rec_validate r of None \<Rightarrow> True | Some ok \<Rightarrow> ok v)"

definition finding_of :: "recognizer \<Rightarrow> nat \<times> string \<Rightarrow> finding" where
  "finding_of r m = \<lparr> f_label = rec_label r, f_start = fst m, f_end = fst m + length (snd m), f_text = snd m \<rparr>"

definition found_by :: "string \<Rightarrow> recognizer \<Rightarrow> finding \<Rightarrow> bool" where
  "found_by s r f = (\<exists>m\<in>set (finditer (rec_pattern r) s). accepted r (snd m) \<and> f = finding_of r m)"

definition span :: "finding \<Rightarrow> nat \<times> nat" where "span f = (f_start f, f_end f)"

definition apart :: "finding \<Rightarrow> finding \<Rightarrow> bool" where
  "apart f g = (f_end f \<le> f_start g \<or> f_end g \<le> f_start f)"

lemma finding_of_simps [simp]:
  "f_label (finding_of r m) = rec_label r" "f_start (finding_of r m) = fst m"
  "f_end (finding_of r m) = fst m + length (snd m)" "f_text (finding_of r m) = snd m"
  "span (finding_of r m) = (fst m, fst m + length (snd m))"
  by (simp_all add: finding_of_def span_def)

lemma take_match_eq:
  "take_match r m st =
     (if (\<exists>c\<in>set (snd st). overlaps (fst m) (fst m + length (snd m)) c) \<or> \<not> accepted r (snd m) then st
      else (fst st @ [finding_of r m], snd st @ [span (finding_of r m)]))"
  by (auto simp: take_match_def accepted_def finding_of_def span_def Let_def split: option.splits)

text \<open>The state of the search after the recognisers \<open>rs\<close>.\<close>

definition search_ok :: "string \<Rightarrow> recognizer list \<Rightarrow> finding list \<times> (nat \<times> nat) list \<Rightarrow> bool" where
  "search_ok s rs st =
     (snd st = map span (fst st) \<and> distinct (fst st)
      \<and> (\<forall>f\<in>set (fst st). \<exists>r\<in>set rs. found_by s r f)
      \<and> (\<forall>f\<in>set (fst st). \<forall>g\<in>set (fst st). f \<noteq> g \<longrightarrow> apart f g))"

lemma found_by_in_text:
  assumes "found_by s r f"
  shows "f_start f < f_end f" "f_end f \<le> length s" "f_text f = take (f_end f - f_start f) (drop (f_start f) s)"
    "f_label f = rec_label r"
proof -
  obtain n m where m: "(n, m) \<in> set (finditer (rec_pattern r) s)" "f = finding_of r (n, m)"
    using assms by (auto simp: found_by_def)
  note sp = finditer_span [OF m(1)]
  show "f_start f < f_end f" "f_end f \<le> length s" "f_text f = take (f_end f - f_start f) (drop (f_start f) s)"
    "f_label f = rec_label r"
    using sp m(2) by simp_all
qed

lemma not_overlaps_apart: "\<not> overlaps (f_start f) (f_end f) (span g) \<longleftrightarrow> apart f g"
  by (auto simp: overlaps_def span_def apart_def)

lemma apart_sym: "apart f g \<Longrightarrow> apart g f"
  by (auto simp: apart_def)

lemma take_match_ok:
  assumes ok: "search_ok s rs st" and "r \<in> set rs" "m \<in> set (finditer (rec_pattern r) s)"
  shows "search_ok s rs (take_match r m st)"
proof (cases "(\<exists>c\<in>set (snd st). overlaps (fst m) (fst m + length (snd m)) c) \<or> \<not> accepted r (snd m)")
  case True
  then show ?thesis using ok by (simp add: take_match_eq)
next
  case False
  let ?f = "finding_of r m"
  have found: "found_by s r ?f" using False assms(3) by (auto simp: found_by_def)
  have ap: "\<forall>g\<in>set (fst st). apart ?f g"
  proof
    fix g assume "g \<in> set (fst st)"
    then have "span g \<in> set (snd st)" using ok by (simp add: search_ok_def)
    then have "\<not> overlaps (f_start ?f) (f_end ?f) (span g)" using False by auto
    then show "apart ?f g" using not_overlaps_apart by blast
  qed
  then have new: "?f \<notin> set (fst st)" using found_by_in_text(1) [OF found] by (auto simp: apart_def)
  have "take_match r m st = (fst st @ [?f], snd st @ [span ?f])" using False by (simp only: take_match_eq if_False)
  then show ?thesis
    using ok new ap found assms(2) apart_sym unfolding search_ok_def by (auto simp del: finding_of_simps)
qed

lemma fold_take_match:
  assumes "r \<in> set rs" "set ms \<subseteq> set (finditer (rec_pattern r) s)" "search_ok s rs st"
  shows "search_ok s rs (fold (take_match r) ms st)
    \<and> (\<exists>gs. fst (fold (take_match r) ms st) = fst st @ gs)
    \<and> (\<forall>m\<in>set ms. accepted r (snd m) \<longrightarrow>
         (\<exists>f\<in>set (fst (fold (take_match r) ms st)). overlaps (fst m) (fst m + length (snd m)) (span f)))"
  using assms(2,3)
proof (induction ms arbitrary: st)
  case (Cons m ms)
  let ?st = "take_match r m st"
  have ok: "search_ok s rs ?st" using take_match_ok [OF Cons.prems(2) assms(1)] Cons.prems(1) by simp
  have ih: "search_ok s rs (fold (take_match r) ms ?st)"
    "\<exists>gs. fst (fold (take_match r) ms ?st) = fst ?st @ gs"
    "\<forall>m\<in>set ms. accepted r (snd m) \<longrightarrow>
         (\<exists>f\<in>set (fst (fold (take_match r) ms ?st)). overlaps (fst m) (fst m + length (snd m)) (span f))"
    using Cons.IH [OF _ ok] Cons.prems(1) by auto
  have grow: "\<exists>gs. fst ?st = fst st @ gs" by (auto simp: take_match_eq)
  have hit: "\<exists>f\<in>set (fst ?st). overlaps (fst m) (fst m + length (snd m)) (span f)" if "accepted r (snd m)"
  proof (cases "\<exists>c\<in>set (snd st). overlaps (fst m) (fst m + length (snd m)) c")
    case True
    then have "\<exists>f\<in>set (fst st). overlaps (fst m) (fst m + length (snd m)) (span f)"
      using Cons.prems(2) by (auto simp: search_ok_def)
    then show ?thesis using grow by auto
  next
    case False
    have "m \<in> set (finditer (rec_pattern r) s)" using Cons.prems(1) by simp
    then have "snd m \<noteq> []" using finditer_span(3) [of "fst m" "snd m"] by simp
    with False that show ?thesis by (auto simp: take_match_eq overlaps_def)
  qed
  show ?case using ih grow hit by auto
qed simp

lemma search_ok_mono: "search_ok s rs st \<Longrightarrow> search_ok s (rs @ rs') st"
  by (auto simp: search_ok_def)

lemma fold_recognizers:
  "search_ok s rs st \<Longrightarrow>
     search_ok s (rs @ rs') (fold (run_recognizer s) rs' st)
     \<and> (\<exists>gs. fst (fold (run_recognizer s) rs' st) = fst st @ gs)"
proof (induction rs' arbitrary: rs st)
  case (Cons r rs')
  have "search_ok s (rs @ [r]) st" using Cons.prems search_ok_mono by blast
  then have run: "search_ok s (rs @ [r]) (run_recognizer s r st)" "\<exists>gs. fst (run_recognizer s r st) = fst st @ gs"
    using fold_take_match [of r "rs @ [r]" "finditer (rec_pattern r) s" s st] by (auto simp: run_recognizer_def)
  show ?case using Cons.IH [OF run(1)] run(2) by auto
qed simp

definition searched :: "string \<Rightarrow> finding list \<times> (nat \<times> nat) list" where
  "searched s = fold (run_recognizer s) RECOGNIZERS ([], [])"

lemma searched_ok: "search_ok s RECOGNIZERS (searched s)"
  using fold_recognizers [of s "[]" "([], [])" RECOGNIZERS] by (simp add: searched_def search_ok_def)

lemma find_all_eq: "find_all s = (if s = [] then [] else sort_key f_start (fst (searched s)))"
  by (simp add: find_all_def searched_def)

lemma findings_found:
  assumes "f \<in> set (find_all s)"
  shows "\<exists>r\<in>set RECOGNIZERS. found_by s r f"
  using assms searched_ok [of s] by (simp add: find_all_eq search_ok_def split: if_splits)

lemma findings_in_text: "f \<in> set (find_all s) \<Longrightarrow> f_start f < f_end f \<and> f_end f \<le> length s"
  using findings_found found_by_in_text(1,2) by blast

lemma findings_sorted: "sorted_wrt (\<lambda>f g. f_end f \<le> f_start g) (find_all s)"
proof (cases "s = []")
  case True
  then show ?thesis by (simp add: find_all_def)
next
  case False
  then have eq: "find_all s = sort_key f_start (fst (searched s))" by (simp add: find_all_eq)
  note ok = searched_ok [of s, unfolded search_ok_def]
  show ?thesis
    unfolding sorted_wrt_iff_nth_less
  proof (intro allI impI)
    fix i j assume ij: "i < j" "j < length (find_all s)"
    let ?f = "find_all s ! i" and ?g = "find_all s ! j"
    have mem: "?f \<in> set (find_all s)" "?g \<in> set (find_all s)" using ij by simp_all
    have "distinct (find_all s)" using ok by (simp add: eq)
    then have "?f \<noteq> ?g" using ij by (simp add: nth_eq_iff_index_eq)
    then have ap: "apart ?f ?g" using ok mem by (simp add: eq)
    have "sorted (map f_start (find_all s))" by (simp add: eq)
    then have "f_start ?f \<le> f_start ?g" using ij by (simp add: sorted_iff_nth_mono_less)
    then show "f_end ?f \<le> f_start ?g" using ap findings_in_text [OF mem(2)] by (auto simp: apart_def)
  qed
qed

text \<open>C12: Every finding is sound and findings never overlap. Each one carries the text that stands at its
span, was matched by a registered recogniser of that label and passed its second-stage test; the list runs
left to right, each finding ending before the next begins.\<close>

theorem findings_are_sound:
  "list_all (\<lambda>f. f_start f < f_end f \<and> f_end f \<le> length s
       \<and> f_text f = take (f_end f - f_start f) (drop (f_start f) s)
       \<and> list_ex (\<lambda>r. f_label f = rec_label r \<and> accepted r (f_text f)
            \<and> (f_start f, f_text f) \<in> set (finditer (rec_pattern r) s)) RECOGNIZERS) (find_all s)
   \<and> sorted_wrt (\<lambda>f g. f_end f \<le> f_start g) (find_all s)"
proof (intro conjI findings_sorted, unfold list_all_iff, intro ballI)
  fix f assume "f \<in> set (find_all s)"
  then obtain r where r: "r \<in> set RECOGNIZERS" "found_by s r f" using findings_found by blast
  then have "f_label f = rec_label r \<and> accepted r (f_text f)
      \<and> (f_start f, f_text f) \<in> set (finditer (rec_pattern r) s)"
    by (auto simp: found_by_def)
  then show "f_start f < f_end f \<and> f_end f \<le> length s
       \<and> f_text f = take (f_end f - f_start f) (drop (f_start f) s)
       \<and> list_ex (\<lambda>r. f_label f = rec_label r \<and> accepted r (f_text f)
            \<and> (f_start f, f_text f) \<in> set (finditer (rec_pattern r) s)) RECOGNIZERS"
    using r found_by_in_text(1-3) [OF r(2)] by (auto simp: list_ex_iff)
qed

text \<open>Nothing a recogniser accepts is missed. Every match of the \<open>k\<close>-th recogniser that passes its
test overlaps a finding of that recogniser or of an earlier one, so a value is left in the text only where
one listed before it has claimed part of it (a PAN inside a GSTIN).\<close>

theorem nothing_accepted_is_missed:
  assumes "k < length RECOGNIZERS" "(n, m) \<in> set (finditer (rec_pattern (RECOGNIZERS ! k)) s)"
    and "accepted (RECOGNIZERS ! k) m"
  shows "\<exists>f\<in>set (find_all s). f_start f < n + length m \<and> n < f_end f
    \<and> (\<exists>j\<le>k. found_by s (RECOGNIZERS ! j) f)"
proof -
  let ?r = "RECOGNIZERS ! k" and ?rs = "take (Suc k) RECOGNIZERS"
  let ?st = "fold (run_recognizer s) (take k RECOGNIZERS) ([], [])"
  let ?st' = "run_recognizer s ?r ?st"
  have rs: "?rs = take k RECOGNIZERS @ [?r]" using assms(1) by (simp add: take_Suc_conv_app_nth)
  have "search_ok s (take k RECOGNIZERS) ?st"
    using fold_recognizers [of s "[]" "([], [])" "take k RECOGNIZERS"] by (simp add: search_ok_def)
  then have "search_ok s ?rs ?st" using search_ok_mono rs by metis
  then have run: "search_ok s ?rs ?st'"
      "\<exists>f\<in>set (fst ?st'). overlaps n (n + length m) (span f)"
    using fold_take_match [of ?r ?rs "finditer (rec_pattern ?r) s" s ?st] assms rs
    by (fastforce simp: run_recognizer_def)+
  then obtain f where f: "f \<in> set (fst ?st')" "overlaps n (n + length m) (span f)" by blast
  then obtain r' where "r' \<in> set ?rs" "found_by s r' f" using run(1) by (auto simp: search_ok_def)
  then obtain j where "j < Suc k" "RECOGNIZERS ! j = r'" "found_by s r' f"
    using assms(1) by (auto simp: in_set_conv_nth)
  then have by_j: "\<exists>j\<le>k. found_by s (RECOGNIZERS ! j) f" using less_Suc_eq_le by blast
  have "RECOGNIZERS = ?rs @ drop (Suc k) RECOGNIZERS" by simp
  then have "searched s = fold (run_recognizer s) (drop (Suc k) RECOGNIZERS) ?st'"
    unfolding searched_def rs by (metis fold.simps(1,2) fold_append id_apply comp_apply)
  then have "f \<in> set (fst (searched s))"
    using fold_recognizers [OF run(1), of "drop (Suc k) RECOGNIZERS"] f(1) by auto
  moreover have "s \<noteq> []" using finditer_span [OF assms(2)] by auto
  ultimately have "f \<in> set (find_all s)" by (simp add: find_all_eq)
  then show ?thesis using f(2) by_j by (auto simp: overlaps_def span_def)
qed

theorem nothing_accepted_is_missed_witness:
  "\<exists>f\<in>set (find_all ''27ABCDE1234F1Z5''). f_start f < 15 \<and> 0 < f_end f
    \<and> (\<exists>j\<le>0. found_by ''27ABCDE1234F1Z5'' (RECOGNIZERS ! j) f)"
proof -
  have "(0, ''27ABCDE1234F1Z5'') \<in> set (finditer (rec_pattern (RECOGNIZERS ! 0)) ''27ABCDE1234F1Z5'')"
    by code_simp
  moreover have "accepted (RECOGNIZERS ! 0) ''27ABCDE1234F1Z5''" by code_simp
  moreover have "0 < length RECOGNIZERS" by code_simp
  ultimately show ?thesis using nothing_accepted_is_missed [of 0 0 "''27ABCDE1234F1Z5''" "''27ABCDE1234F1Z5''"]
    by (simp add: eval_nat_numeral)
qed

text \<open>A checksum test on an over-long match hides a real number. The card pattern takes up to nineteen
digits with single separators and the Aadhaar pattern the first twelve, so a number that follows other digits
after one space is tried only together with them; the test fails, the scan goes on after the match, and
the card or Aadhaar number that is found when it stands alone is not found there.\<close>

theorem number_after_digits_escapes:
  "map f_label (find_all ''4111 1111 1111 1111'') = [''CREDIT_CARD'']
   \<and> find_all ''12 4111 1111 1111 1111'' = []
   \<and> map f_label (find_all ''2341 2341 2346'') = [''AADHAAR'']
   \<and> find_all ''2023 2341 2341 2346'' = []"
proof (intro conjI)
  show "map f_label (find_all ''4111 1111 1111 1111'') = [''CREDIT_CARD'']" by code_simp
  show "find_all ''12 4111 1111 1111 1111'' = []" by code_simp
  show "map f_label (find_all ''2341 2341 2346'') = [''AADHAAR'']" by code_simp
  show "find_all ''2023 2341 2341 2346'' = []" by code_simp
qed

end
