(* ===== verification/Gateway.thy ===== *)
theory Gateway
  imports Recognizers DataModel "HOL-Library.List_Lexorder" "HOL-Library.Char_ord" "HOL-Library.Product_Lexorder"
begin

text \<open>\<open>gateway/service.py\<close> and \<open>gateway/models.py\<close>: classification, redaction and the record of one crossing.
The external provider's \<open>complete\<close> and the caller's \<open>build_user\<close> are parameters; a call that raises is
\<open>ProviderError\<close>. \<open>redact\<close> threads its two dictionaries through the passages as association lists in
insertion order.\<close>

section \<open>Records\<close>

record masked_value =
  mv_label :: string
  mv_count :: nat
  mv_previews :: "string list"
  mv_placeholders :: "string list"

record boundary_record =
  br_tier :: string
  br_destination :: string
  br_model :: string
  br_passages_considered :: nat
  br_passages_sent :: nat
  br_passages_withheld_restricted :: nat
  br_masked :: "masked_value list"

definition masked_total :: "boundary_record \<Rightarrow> nat" where
  "masked_total r = sum_list (map mv_count (br_masked r))"

definition anything_held_back :: "boundary_record \<Rightarrow> bool" where
  "anything_held_back r = (br_masked r \<noteq> [] \<or> 0 < br_passages_withheld_restricted r)"

section \<open>Previews\<close>

text \<open>\<open>value.partition("@")\<close> and \<open>body[-k:]\<close>.\<close>

definition before_at :: "string \<Rightarrow> string" where
  "before_at s = takeWhile (\<lambda>c. c \<noteq> CHR 0x40) s"

definition after_at :: "string \<Rightarrow> string" where
  "after_at s = drop 1 (dropWhile (\<lambda>c. c \<noteq> CHR 0x40) s)"

definition last_chars :: "nat \<Rightarrow> string \<Rightarrow> string" where
  "last_chars k s = (if k = 0 then s else drop (length s - k) s)"

definition preview_of :: "string \<Rightarrow> nat \<Rightarrow> nat \<Rightarrow> string" where
  "preview_of value keep_start keep_end =
     (if CHR 0x40 \<in> set value
      then (let local = before_at value; domain = after_at value;
                head = (if keep_start + 1 < length local then take keep_start local else '''')
            in head @ replicate (max 3 (length local - length head)) (CHR ''x'') @ [CHR 0x40] @ domain)
      else (let body = strip value in
            if length body \<le> keep_start + keep_end + 1 then replicate (length body) (CHR ''x'')
            else take keep_start body @ replicate (length body - keep_start - keep_end) (CHR ''x'')
                 @ last_chars keep_end body))"

section \<open>Classification\<close>

definition TIER_ORDER :: "string \<Rightarrow> nat option" where
  "TIER_ORDER t = (if t = ''PUBLIC'' then Some 0 else if t = ''RESTRICTED'' then Some 1 else None)"

fun classify_from :: "string \<Rightarrow> string option list \<Rightarrow> string" where
  "classify_from highest [] = highest"
| "classify_from highest (tier # tiers) =
     (case tier of
        None \<Rightarrow> ''RESTRICTED''
      | Some t \<Rightarrow>
          (case (TIER_ORDER t, TIER_ORDER highest) of
             (Some a, Some b) \<Rightarrow> classify_from (if b < a then t else highest) tiers
           | _ \<Rightarrow> ''RESTRICTED''))"

definition classify :: "string option list \<Rightarrow> string" where
  "classify tiers = classify_from ''PUBLIC'' tiers"

section \<open>Redaction\<close>

text \<open>\<open>assigned\<close>: label to (value to placeholder); \<open>order\<close>: label to placeholders.\<close>

record numbering =
  assigned :: "(string \<times> (string \<times> string) list) list"
  order :: "(string \<times> string list) list"

definition placeholder_name :: "string \<Rightarrow> nat \<Rightarrow> string" where
  "placeholder_name label n = ''<'' @ label @ ''_'' @ nat_str n @ ''>''"

definition seen_for :: "string \<Rightarrow> numbering \<Rightarrow> (string \<times> string) list" where
  "seen_for label st = (case map_of (assigned st) label of None \<Rightarrow> [] | Some seen \<Rightarrow> seen)"

text \<open>\<open>assigned.setdefault(label, {})\<close>, then a new number for a value not seen before.\<close>

definition assign_placeholder :: "finding \<Rightarrow> numbering \<Rightarrow> string \<times> numbering" where
  "assign_placeholder f st =
     (let seen = seen_for (f_label f) st in
      case map_of seen (f_text f) of
        Some p \<Rightarrow> (p, st)
      | None \<Rightarrow>
          let p = placeholder_name (f_label f) (length seen + 1);
              ps = (case map_of (order st) (f_label f) of None \<Rightarrow> [] | Some ps \<Rightarrow> ps)
          in (p, st\<lparr> assigned := AList.update (f_label f) (seen @ [(f_text f, p)]) (assigned st),
                     order := AList.update (f_label f) (ps @ [p]) (order st) \<rparr>))"

definition put_placeholder :: "string \<times> numbering \<Rightarrow> finding \<Rightarrow> string \<times> numbering" where
  "put_placeholder acc f =
     (let (p, st) = assign_placeholder f (snd acc)
      in (take (f_start f) (fst acc) @ p @ drop (f_end f) (fst acc), st))"

definition redact_text :: "string \<Rightarrow> numbering \<Rightarrow> string \<times> numbering" where
  "redact_text s st =
     (let findings = find_all s in
      if findings = [] then (s, st)
      else foldl put_placeholder (s, st) (sort_desc (\<lambda>f. int (f_start f)) findings))"

fun redact_texts :: "string list \<Rightarrow> numbering \<Rightarrow> string list \<times> numbering" where
  "redact_texts [] st = ([], st)"
| "redact_texts (s # ss) st =
     (let (r, st1) = redact_text s st; (rs, st2) = redact_texts ss st1 in (r # rs, st2))"

definition masked_values :: "numbering \<Rightarrow> masked_value list" where
  "masked_values st =
     sort_key (\<lambda>m. (- int (mv_count m), mv_label m))
       (map (\<lambda>(label, values).
          \<lparr> mv_label = label, mv_count = length values,
            mv_previews = map (\<lambda>v. preview_of (fst v) 3 3) values,
            mv_placeholders = (case map_of (order st) label of None \<Rightarrow> [] | Some ps \<Rightarrow> ps) \<rparr>) (assigned st))"

definition redact :: "string list \<Rightarrow> string list \<times> masked_value list" where
  "redact texts =
     (let (redacted, st) = redact_texts texts \<lparr> assigned = [], order = [] \<rparr> in (redacted, masked_values st))"

section \<open>The crossing\<close>

datatype boundary_error = BoundaryRefusal string | ProviderError string

record gateway_settings =
  GENERATION_INCLUDE_RESTRICTED :: bool
  GATEWAY_REDACT :: bool

record provider =
  model_name :: string
  endpoint :: "string option"
  complete :: "string \<Rightarrow> string \<Rightarrow> (string, string \<times> nat \<times> nat) result"

text \<open>\<open>for i, (text, tier) in enumerate(zip(passages, tiers))\<close>: the passages that may cross, with their
original positions.\<close>

fun keep_public :: "bool \<Rightarrow> nat \<Rightarrow> string list \<Rightarrow> string option list \<Rightarrow> (nat \<times> string \<times> string option) list" where
  "keep_public incl i (s # ss) (t # ts) =
     (if \<not> incl \<and> t \<noteq> Some ''PUBLIC'' then keep_public incl (Suc i) ss ts
      else (i, s, t) # keep_public incl (Suc i) ss ts)"
| "keep_public incl i _ _ = []"

definition withheld_restricted :: "bool \<Rightarrow> string option list \<Rightarrow> nat" where
  "withheld_restricted incl tiers = length (filter (\<lambda>t. \<not> incl \<and> t \<noteq> Some ''PUBLIC'') tiers)"

text \<open>What would be sent and what would be recorded.\<close>

definition prepare_crossing ::
  "gateway_settings \<Rightarrow> provider \<Rightarrow> string list \<Rightarrow> string option list
     \<Rightarrow> (boundary_error, (nat \<times> string) list \<times> boundary_record) result" where
  "prepare_crossing cfg prov passages tiers =
     (if length passages \<noteq> length tiers
      then Inl (BoundaryRefusal (nat_str (length passages) @ '' passages against '' @ nat_str (length tiers)
             @ '' classifications - refusing to guess which is which.''))
      else
        let kept = keep_public (GENERATION_INCLUDE_RESTRICTED cfg) 0 passages tiers in
        if kept = []
        then Inl (BoundaryRefusal ''Every passage was restricted; nothing may be sent to an external model.'')
        else
          let texts = map (\<lambda>k. fst (snd k)) kept;
              (sent, masked) = (if GATEWAY_REDACT cfg then redact texts else (texts, []))
          in Inr (zip (map fst kept) sent,
               \<lparr> br_tier = classify (map (\<lambda>k. snd (snd k)) kept),
                 br_destination = (case endpoint prov of None \<Rightarrow> model_name prov | Some e \<Rightarrow> e),
                 br_model = model_name prov,
                 br_passages_considered = length passages,
                 br_passages_sent = length sent,
                 br_passages_withheld_restricted = withheld_restricted (GENERATION_INCLUDE_RESTRICTED cfg) tiers,
                 br_masked = masked \<rparr>))"

definition send ::
  "gateway_settings \<Rightarrow> provider \<Rightarrow> ((nat \<times> string) list \<Rightarrow> string) \<Rightarrow> string \<Rightarrow> string list
     \<Rightarrow> string option list \<Rightarrow> (boundary_error, string \<times> nat \<times> nat \<times> boundary_record) result" where
  "send cfg prov build_user system passages tiers =
     (case prepare_crossing cfg prov passages tiers of
        Inl e \<Rightarrow> Inl e
      | Inr (pairs, rec) \<Rightarrow>
          (case complete prov system (build_user pairs) of
             Inl e \<Rightarrow> Inl (ProviderError e)
           | Inr (text, in_tokens, out_tokens) \<Rightarrow> Inr (text, in_tokens, out_tokens, rec)))"

section \<open>What crosses\<close>

lemma keep_public_positions:
  "length ss = length ts \<Longrightarrow>
     keep_public incl i ss ts =
       map (\<lambda>j. (i + j, ss ! j, ts ! j)) (filter (\<lambda>j. incl \<or> ts ! j = Some ''PUBLIC'') [0..<length ss])"
proof (induction incl i ss ts rule: keep_public.induct)
  case (1 incl i s ss t ts)
  have "keep_public incl (Suc i) ss ts =
      map (\<lambda>j. (Suc i + j, ss ! j, ts ! j)) (filter (\<lambda>j. incl \<or> ts ! j = Some ''PUBLIC'') [0..<length ss])"
    using 1 by (cases "\<not> incl \<and> t \<noteq> Some ''PUBLIC''") auto
  moreover have "[0..<Suc (length ss)] = 0 # map Suc [0..<length ss]"
    by (simp only: map_Suc_upt upt_conv_Cons zero_less_Suc)
  ultimately show ?case
    by (cases "\<not> incl \<and> t \<noteq> Some ''PUBLIC''")
      (auto simp: filter_map o_def simp del: upt_Suc)
qed simp_all

lemma withheld_complement:
  "length ss = length ts \<Longrightarrow> withheld_restricted incl ts + length (keep_public incl i ss ts) = length ss"
  by (induction incl i ss ts rule: keep_public.induct) (auto simp: withheld_restricted_def)

lemma redact_texts_length: "length (fst (redact_texts ss st)) = length ss"
  by (induction ss st rule: redact_texts.induct) (auto simp: Let_def split: prod.splits)

lemma redact_length: "length (fst (redact ss)) = length ss"
  using redact_texts_length [of ss "\<lparr> assigned = [], order = [] \<rparr>"] by (simp add: redact_def case_prod_beta)

lemma classify_public: "\<forall>t\<in>set ts. t = Some ''PUBLIC'' \<Longrightarrow> classify ts = ''PUBLIC''"
  unfolding classify_def by (induction ts) (auto simp: TIER_ORDER_def)

text \<open>C10: Only passages explicitly marked \<open>PUBLIC\<close> cross. With restricted content excluded, what is
handed to the provider is, in order and each with its original position, exactly the passages whose tier
is \<open>PUBLIC\<close> (a missing or unknown tier is withheld); the record states the true numbers considered, sent
and withheld and the tier \<open>PUBLIC\<close>; and the request is refused exactly when the tiers do not match the
passages or no passage is public.\<close>

theorem only_public_crosses:
  assumes "\<not> GENERATION_INCLUDE_RESTRICTED cfg"
  shows "case prepare_crossing cfg prov passages tiers of
      Inl e \<Rightarrow> (\<exists>m. e = BoundaryRefusal m)
        \<and> (length passages \<noteq> length tiers \<or> (\<forall>i<length passages. tiers ! i \<noteq> Some ''PUBLIC''))
    | Inr (pairs, rec) \<Rightarrow> pairs \<noteq> [] \<and> length passages = length tiers
        \<and> map fst pairs = filter (\<lambda>i. tiers ! i = Some ''PUBLIC'') [0..<length passages]
        \<and> map snd pairs = (let texts = map (\<lambda>i. passages ! i) (map fst pairs)
                           in if GATEWAY_REDACT cfg then fst (redact texts) else texts)
        \<and> br_tier rec = ''PUBLIC'' \<and> br_passages_considered rec = length passages
        \<and> br_passages_sent rec = length pairs
        \<and> br_passages_withheld_restricted rec + br_passages_sent rec = br_passages_considered rec"
proof (cases "length passages = length tiers")
  case False
  then show ?thesis by (simp add: prepare_crossing_def)
next
  case True
  let ?js = "filter (\<lambda>j. tiers ! j = Some ''PUBLIC'') [0..<length passages]"
  let ?kept = "keep_public False 0 passages tiers"
  have incl: "GENERATION_INCLUDE_RESTRICTED cfg = False" using assms by simp
  have kept: "?kept = map (\<lambda>j. (j, passages ! j, tiers ! j)) ?js"
    using keep_public_positions [OF True, of False 0] by simp
  show ?thesis
  proof (cases "?js = []")
    case True
    then have "?kept = []" by (simp add: kept)
    moreover have "\<forall>i<length passages. tiers ! i \<noteq> Some ''PUBLIC''"
      using True by (simp add: filter_empty_conv)
    ultimately show ?thesis by (simp add: prepare_crossing_def incl)
  next
    case False
    let ?texts = "map (\<lambda>i. passages ! i) ?js"
    let ?sent = "if GATEWAY_REDACT cfg then fst (redact ?texts) else ?texts"
    have len: "length ?sent = length ?js" by (simp add: redact_length)
    have tier: "classify (map (\<lambda>k. snd (snd k)) ?kept) = ''PUBLIC''"
      by (rule classify_public) (auto simp: kept)
    have texts: "map (\<lambda>k. fst (snd k)) ?kept = ?texts" by (simp add: kept)
    have fsts: "map fst ?kept = ?js" by (simp add: kept o_def)
    obtain sent masked where sm: "(if GATEWAY_REDACT cfg then redact ?texts else (?texts, [])) = (sent, masked)"
      by fastforce
    then have sent: "sent = ?sent" by (cases "GATEWAY_REDACT cfg") (auto simp: fst_def)
    have ne: "?kept \<noteq> []" using False unfolding kept by simp
    obtain rec where prep: "prepare_crossing cfg prov passages tiers = Inr (zip ?js ?sent, rec)"
        "br_tier rec = classify (map (\<lambda>k. snd (snd k)) ?kept)" "br_passages_considered rec = length passages"
        "br_passages_sent rec = length ?sent" "br_passages_withheld_restricted rec = withheld_restricted False tiers"
      using True ne unfolding prepare_crossing_def incl Let_def texts sm fsts sent [symmetric] by simp
    have "withheld_restricted False tiers + length ?js = length passages"
      using withheld_complement [OF \<open>length passages = length tiers\<close>, of False 0] by (simp add: kept)
    note count = this
    have pairs: "map fst (zip ?js ?sent) = ?js" "map snd (zip ?js ?sent) = ?sent" "length (zip ?js ?sent) = length ?js"
      using map_fst_zip [of ?js ?sent] map_snd_zip [of ?js ?sent] len by (simp_all only: length_zip min.idem)
    show ?thesis
      unfolding prep(1) sum.case prod.case Let_def pairs prep(2-5) tier len
    proof (intro conjI)
      show "zip ?js ?sent \<noteq> []" using pairs(3) False by (metis length_0_conv)
    qed (use True count in simp_all)
  qed
qed

theorem only_public_crosses_witness:
  "\<not> GENERATION_INCLUDE_RESTRICTED \<lparr> GENERATION_INCLUDE_RESTRICTED = False, GATEWAY_REDACT = True \<rparr>
   \<and> (case prepare_crossing \<lparr> GENERATION_INCLUDE_RESTRICTED = False, GATEWAY_REDACT = True \<rparr>
          \<lparr> model_name = ''m'', endpoint = None, complete = (\<lambda>s u. Inr (u, 1, 1)) \<rparr>
          [''a'', ''b'', ''c''] [Some ''PUBLIC'', None, Some ''RESTRICTED''] of
        Inl e \<Rightarrow> False | Inr (pairs, rec) \<Rightarrow> map fst pairs = [0] \<and> br_passages_withheld_restricted rec = 2)"
proof -
  let ?cfg = "\<lparr> GENERATION_INCLUDE_RESTRICTED = False, GATEWAY_REDACT = True \<rparr>"
  let ?prov = "\<lparr> model_name = ''m'', endpoint = None, complete = (\<lambda>s u. Inr (u, 1, 1)) \<rparr>"
  have "case prepare_crossing ?cfg ?prov [''a'', ''b'', ''c''] [Some ''PUBLIC'', None, Some ''RESTRICTED''] of
        Inl e \<Rightarrow> False | Inr _ \<Rightarrow> True" by code_simp
  then show ?thesis
    using only_public_crosses [where cfg = ?cfg and prov = ?prov and passages = "[''a'', ''b'', ''c'']" and tiers = "[Some ''PUBLIC'', None, Some ''RESTRICTED'']"]
    by (auto simp: upt_rec split: sum.splits prod.splits)
qed

lemma prepare_crossing_public_only:
  assumes "\<not> GENERATION_INCLUDE_RESTRICTED cfg" "length passages = length passages'"
    and "\<forall>i<length passages. i < length tiers \<longrightarrow> tiers ! i = Some ''PUBLIC'' \<longrightarrow> passages ! i = passages' ! i"
  shows "prepare_crossing cfg prov passages tiers = prepare_crossing cfg prov passages' tiers"
proof -
  have same: "keep_public False 0 passages tiers = keep_public False 0 passages' tiers" if "length passages = length tiers"
    using that assms(2,3) keep_public_positions [of passages tiers False 0] keep_public_positions [of passages' tiers False 0]
    by (auto simp: map_eq_conv)
  show ?thesis
  proof (cases "length passages = length tiers")
    case True
    have incl: "GENERATION_INCLUDE_RESTRICTED cfg = False" using assms(1) by simp
    show ?thesis unfolding prepare_crossing_def incl same [OF True]
      assms(2) by (rule refl)
  qed (use assms(2) in \<open>simp add: prepare_crossing_def\<close>)
qed

lemma prepare_crossing_pairs:
  assumes "prepare_crossing cfg prov passages tiers = Inr (pairs, rec)" "\<not> GENERATION_INCLUDE_RESTRICTED cfg"
    and "(i, s) \<in> set pairs"
  shows "i < length passages \<and> i < length tiers \<and> tiers ! i = Some ''PUBLIC''"
proof -
  have len: "length passages = length tiers" using assms(1) by (auto simp: prepare_crossing_def split: if_splits)
  have incl: "GENERATION_INCLUDE_RESTRICTED cfg = False" using assms(2) by simp
  obtain sent where "pairs = zip (map fst (keep_public False 0 passages tiers)) sent"
    using assms(1) unfolding prepare_crossing_def incl by (auto simp: Let_def split: if_splits prod.splits)
  then have "i \<in> set (map fst (keep_public False 0 passages tiers))" using assms(3) by (auto dest: set_zip_leftD)
  then show ?thesis using keep_public_positions [OF len, of False 0] len by auto
qed

text \<open>Restricted content cannot influence the crossing. Two requests with the same tiers whose public
passages agree send the same thing and end the same way, whatever their other passages say.\<close>

theorem restricted_content_has_no_influence:
  assumes "\<not> GENERATION_INCLUDE_RESTRICTED cfg" "length passages = length passages'"
    and "\<forall>i<length passages. i < length tiers \<longrightarrow> tiers ! i = Some ''PUBLIC'' \<longrightarrow> passages ! i = passages' ! i"
  shows "prepare_crossing cfg prov passages tiers = prepare_crossing cfg prov passages' tiers
    \<and> send cfg prov build_user system passages tiers = send cfg prov build_user system passages' tiers"
  using prepare_crossing_public_only [OF assms, of prov] by (simp add: send_def)

theorem restricted_content_has_no_influence_witness:
  "prepare_crossing \<lparr> GENERATION_INCLUDE_RESTRICTED = False, GATEWAY_REDACT = True \<rparr>
      \<lparr> model_name = ''m'', endpoint = None, complete = (\<lambda>s u. Inr (u, 1, 1)) \<rparr>
      [''a'', ''secret one''] [Some ''PUBLIC'', Some ''RESTRICTED'']
   = prepare_crossing \<lparr> GENERATION_INCLUDE_RESTRICTED = False, GATEWAY_REDACT = True \<rparr>
      \<lparr> model_name = ''m'', endpoint = None, complete = (\<lambda>s u. Inr (u, 1, 1)) \<rparr>
      [''a'', ''other''] [Some ''PUBLIC'', Some ''RESTRICTED'']"
proof -
  have "\<forall>i<length [''a'', ''secret one'']. i < length [Some ''PUBLIC'', Some ''RESTRICTED''] \<longrightarrow>
      [Some ''PUBLIC'', Some ''RESTRICTED''] ! i = Some ''PUBLIC'' \<longrightarrow> [''a'', ''secret one''] ! i = [''a'', ''other''] ! i"
    by (auto simp: less_Suc_eq)
  then show ?thesis
    using restricted_content_has_no_influence [of "\<lparr> GENERATION_INCLUDE_RESTRICTED = False, GATEWAY_REDACT = True \<rparr>"
        "[''a'', ''secret one'']" "[''a'', ''other'']" "[Some ''PUBLIC'', Some ''RESTRICTED'']"] by simp
qed

section \<open>Redaction as a renaming\<close>

text \<open>The specification: the text from position \<open>k\<close> on, read once from left to right, each finding replaced
by what \<open>ph\<close> gives for its label and value.\<close>

fun render :: "(string \<times> string \<Rightarrow> string) \<Rightarrow> nat \<Rightarrow> finding list \<Rightarrow> string \<Rightarrow> string" where
  "render ph k [] s = drop k s"
| "render ph k (f # fs) s =
     take (f_start f - k) (drop k s) @ ph (f_label f, f_text f) @ render ph (f_end f) fs s"

definition found_pairs :: "string list \<Rightarrow> (string \<times> string) set" where
  "found_pairs texts = (\<Union>s\<in>set texts. (\<lambda>f. (f_label f, f_text f)) ` set (find_all s))"

definition known :: "numbering \<Rightarrow> (string \<times> string) set" where
  "known st = {(l, v). map_of (seen_for l st) v \<noteq> None}"

definition ph_of :: "numbering \<Rightarrow> string \<times> string \<Rightarrow> string" where
  "ph_of st lv = the (map_of (seen_for (fst lv) st) (snd lv))"

definition extends :: "numbering \<Rightarrow> numbering \<Rightarrow> bool" where
  "extends st st' = (\<forall>l v p. map_of (seen_for l st) v = Some p \<longrightarrow> map_of (seen_for l st') v = Some p)"

text \<open>Under each label the values are distinct and numbered from 1 in the order they were met.\<close>

definition numbered :: "numbering \<Rightarrow> bool" where
  "numbered st = (distinct (map fst (assigned st)) \<and>
     (\<forall>l vs. map_of (assigned st) l = Some vs \<longrightarrow> distinct (map fst vs)
        \<and> map snd vs = map (placeholder_name l) [1..<Suc (length vs)]))"

lemma extends_refl [simp]: "extends st st"
  by (simp add: extends_def)

lemma extends_trans: "\<lbrakk> extends a b; extends b c \<rbrakk> \<Longrightarrow> extends a c"
  by (simp add: extends_def)

lemma extends_ph: "\<lbrakk> extends st st'; lv \<in> known st \<rbrakk> \<Longrightarrow> ph_of st' lv = ph_of st lv"
  by (auto simp: extends_def known_def ph_of_def)

lemma numbered_seen:
  assumes "numbered st"
  shows "distinct (map fst (seen_for l st))
    \<and> map snd (seen_for l st) = map (placeholder_name l) [1..<Suc (length (seen_for l st))]"
proof (cases "map_of (assigned st) l")
  case None
  then show ?thesis by (simp add: seen_for_def)
next
  case (Some vs)
  then show ?thesis using assms unfolding numbered_def seen_for_def by simp
qed

lemma map_of_nth_key:
  assumes "map_of xs v = Some p" shows "\<exists>i<length xs. xs ! i = (v, p)"
  using map_of_SomeD [OF assms] by (simp add: in_set_conv_nth)

lemma known_placeholder:
  assumes "numbered st" "(l, v) \<in> known st"
  shows "\<exists>i<length (seen_for l st). fst (seen_for l st ! i) = v \<and> ph_of st (l, v) = placeholder_name l (Suc i)"
proof -
  let ?xs = "seen_for l st"
  obtain p where p: "map_of ?xs v = Some p" using assms(2) unfolding known_def mem_Collect_eq prod.case by blast
  obtain i where i: "i < length ?xs" "?xs ! i = (v, p)" using map_of_nth_key [OF p] by blast
  have "map snd ?xs = map (placeholder_name l) [1..<Suc (length ?xs)]"
    using numbered_seen [OF assms(1), of l] by blast
  then have "map snd ?xs ! i = map (placeholder_name l) [1..<Suc (length ?xs)] ! i" by (rule arg_cong)
  then have "p = placeholder_name l (Suc i)" using i by (simp del: upt_Suc)
  then show ?thesis using i p unfolding ph_of_def by (intro exI [of _ i]) simp
qed

lemma of_char_digit: "d < 10 \<Longrightarrow> of_char (digit_char d) = (48 + d :: nat)"
  by (simp add: digit_char_def)

lemma digit_char_not_underscore: "d < 10 \<Longrightarrow> digit_char d \<noteq> CHR ''_''"
proof
  assume "d < 10" "digit_char d = CHR ''_''"
  then have "(of_char CHR ''_'' :: nat) = 48 + d" using of_char_digit by metis
  then show False using \<open>d < 10\<close> by simp
qed

lemma nat_str_no_underscore: "CHR ''_'' \<notin> set (nat_str n)"
proof (induction n rule: nat_str.induct)
  case (1 n)
  then show ?case using digit_char_not_underscore
    by (cases "n < 10") (auto simp: nat_str.simps [of n] dest: sym)
qed

lemma nat_str_nonempty [simp]: "nat_str n \<noteq> []"
  by (simp add: nat_str.simps [of n])

lemma digit_char_inj: "\<lbrakk> d < 10; e < 10; digit_char d = digit_char e \<rbrakk> \<Longrightarrow> d = e"
  using of_char_digit [of d] of_char_digit [of e] by (metis add_left_cancel)

lemma nat_str_inj: "nat_str m = nat_str n \<Longrightarrow> m = n"
proof (induction m arbitrary: n rule: nat_str.induct)
  case (1 m)
  note one = nat_str.simps [of m] nat_str.simps [of n]
  consider "m < 10" "n < 10" | "m < 10" "\<not> n < 10" | "\<not> m < 10" "n < 10" | "\<not> m < 10" "\<not> n < 10" by blast
  then show ?case
  proof cases
    case 1
    then show ?thesis using "1.prems" digit_char_inj unfolding one by simp
  next
    case 2
    then have "length (nat_str (n div 10)) = 0" using "1.prems" unfolding one by (metis One_nat_def add_cancel_left_left length_append length_Cons list.size(3) add.commute plus_1_eq_Suc)
    then show ?thesis by simp
  next
    case 3
    then have "length (nat_str (m div 10)) = 0" using "1.prems" unfolding one by (metis One_nat_def add_cancel_left_left length_append length_Cons list.size(3) add.commute plus_1_eq_Suc)
    then show ?thesis by simp
  next
    case 4
    then have "nat_str (m div 10) = nat_str (n div 10)" "digit_char (m mod 10) = digit_char (n mod 10)"
      using "1.prems" unfolding one by simp_all
    then have "m div 10 = n div 10" "m mod 10 = n mod 10" using "1.IH" [OF 4(1)] digit_char_inj by simp_all
    then show ?thesis by (metis div_mult_mod_eq)
  qed
qed

lemma placeholder_inj: "placeholder_name l m = placeholder_name l' n \<Longrightarrow> l = l' \<and> m = n"
proof -
  assume "placeholder_name l m = placeholder_name l' n"
  then have eq: "l @ CHR ''_'' # nat_str m = l' @ CHR ''_'' # nat_str n" by (simp add: placeholder_name_def)
  then have "after_last (CHR ''_'') (l @ CHR ''_'' # nat_str m) = after_last (CHR ''_'') (l' @ CHR ''_'' # nat_str n)"
    by (rule arg_cong)
  then have "m = n" using nat_str_no_underscore nat_str_inj by simp
  then show ?thesis using eq by simp
qed

lemma ph_inj: "numbered st \<Longrightarrow> inj_on (ph_of st) (known st)"
proof (intro inj_onI, clarify)
  fix l v l' v' assume n: "numbered st" and a: "(l, v) \<in> known st" "(l', v') \<in> known st"
    and eq: "ph_of st (l, v) = ph_of st (l', v')"
  obtain i where i: "fst (seen_for l st ! i) = v" "ph_of st (l, v) = placeholder_name l (Suc i)"
    using known_placeholder [OF n a(1)] by blast
  obtain j where j: "fst (seen_for l' st ! j) = v'" "ph_of st (l', v') = placeholder_name l' (Suc j)"
    using known_placeholder [OF n a(2)] by blast
  have "placeholder_name l (Suc i) = placeholder_name l' (Suc j)" using eq i(2) j(2) by simp
  then have "l = l' \<and> Suc i = Suc j" by (rule placeholder_inj)
  then show "l = l' \<and> v = v'" using i(1) j(1) by simp
qed

lemma map_of_snoc: "map_of (xs @ [(v, p)]) w = (case map_of xs w of None \<Rightarrow> if w = v then Some p else None | Some q \<Rightarrow> Some q)"
  by (simp add: map_add_def split: option.split)

lemma assign_placeholder_ok:
  assumes "numbered st" "assign_placeholder f st = (p, st')"
  shows "numbered st' \<and> extends st st' \<and> known st' = insert (f_label f, f_text f) (known st)
    \<and> p = ph_of st' (f_label f, f_text f)"
proof (cases "map_of (seen_for (f_label f) st) (f_text f)")
  case (Some q)
  then have "p = q" "st' = st" using assms(2) by (simp_all add: assign_placeholder_def Let_def)
  then show ?thesis using assms(1) Some by (auto simp: known_def ph_of_def)
next
  case None
  let ?l = "f_label f" and ?v = "f_text f"
  let ?seen = "seen_for ?l st"
  have p: "p = placeholder_name ?l (Suc (length ?seen))"
    and as: "assigned st' = AList.update ?l (?seen @ [(?v, p)]) (assigned st)"
    using assms(2) None by (auto simp: assign_placeholder_def Let_def)
  have seen': "seen_for k st' = (if k = ?l then ?seen @ [(?v, p)] else seen_for k st)" for k
    unfolding seen_for_def [of k] as by (simp add: update_conv)
  have new: "?v \<notin> set (map fst ?seen)" using None by (simp add: map_of_eq_None_iff)
  have "numbered st'"
    unfolding numbered_def
  proof (intro conjI allI impI)
    show "distinct (map fst (assigned st'))" using assms(1) unfolding as numbered_def by (simp add: distinct_update)
    fix k vs assume k: "map_of (assigned st') k = Some vs"
    have vs: "vs = seen_for k st'" using k by (simp add: seen_for_def)
    show "distinct (map fst vs)"
      unfolding vs seen' using numbered_seen [OF assms(1)] new by simp
    show "map snd vs = map (placeholder_name k) [1..<Suc (length vs)]"
    proof (cases "k = ?l")
      case True
      have "[1..<Suc (Suc (length ?seen))] = [1..<Suc (length ?seen)] @ [Suc (length ?seen)]" by simp
      then show ?thesis
        unfolding vs seen' using numbered_seen [OF assms(1), of k] p True by (simp del: upt_Suc)
    next
      case False
      then show ?thesis
        unfolding vs seen' using numbered_seen [OF assms(1), of k] by (simp del: upt_Suc)
    qed
  qed
  moreover have "extends st st'"
    unfolding extends_def seen' by (simp add: map_of_snoc)
  moreover have "known st' = insert (?l, ?v) (known st)"
  proof (intro set_eqI, clarify)
    fix k v
    show "(k, v) \<in> known st' \<longleftrightarrow> (k, v) \<in> insert (?l, ?v) (known st)"
      unfolding known_def mem_Collect_eq prod.case seen' insert_iff
      by (cases "k = ?l"; cases "map_of (seen_for ?l st) v") (auto simp: map_of_snoc simp del: map_of_append)
  qed
  moreover have "p = ph_of st' (?l, ?v)"
    unfolding ph_of_def seen' using None by (simp add: map_of_snoc del: map_of_append)
  ultimately show ?thesis by blast
qed

lemma put_placeholders:
  assumes "sorted_wrt (\<lambda>f g. f_end f \<le> f_start g) fs" "\<forall>f\<in>set fs. f_start f < f_end f \<and> f_end f \<le> length s"
    and "\<forall>f\<in>set fs. k \<le> f_start f" "k \<le> length s" "numbered st"
    and "foldl put_placeholder (s, st) (rev fs) = (out, st')"
  shows "numbered st' \<and> extends st st' \<and> known st' = (\<lambda>f. (f_label f, f_text f)) ` set fs \<union> known st
    \<and> (\<forall>stf. extends st' stf \<longrightarrow> out = take k s @ render (ph_of stf) k fs s)"
  using assms(1-4,6)
proof (induction fs arbitrary: k out st')
  case Nil
  then show ?case using assms(5) by simp
next
  case (Cons f fs)
  obtain t st1 where t: "foldl put_placeholder (s, st) (rev fs) = (t, st1)" by fastforce
  have "f_end f \<le> length s" "\<forall>g\<in>set fs. f_end f \<le> f_start g" using Cons.prems(1,2) by simp_all
  then have ih: "numbered st1" "extends st st1" "known st1 = (\<lambda>f. (f_label f, f_text f)) ` set fs \<union> known st"
      and out1: "\<And>stf. extends st1 stf \<Longrightarrow> t = take (f_end f) s @ render (ph_of stf) (f_end f) fs s"
    using Cons.IH [OF _ _ _ _ t, of "f_end f"] Cons.prems(1,2) by auto
  have "put_placeholder (t, st1) f = (out, st')" using Cons.prems(5) t by simp
  then obtain p where p: "assign_placeholder f st1 = (p, st')"
      and out: "out = take (f_start f) t @ p @ drop (f_end f) t"
    by (auto simp: put_placeholder_def split: prod.splits)
  note as = assign_placeholder_ok [OF ih(1) p]
  have ext: "extends st st'" using ih(2) as extends_trans by blast
  have "out = take k s @ render (ph_of stf) k (f # fs) s" if stf: "extends st' stf" for stf
  proof -
    have "extends st1 stf" using as stf extends_trans by blast
    from out1 [OF this] have t_eq: "t = take (f_end f) s @ render (ph_of stf) (f_end f) fs s" .
    have bounds: "k \<le> f_start f" "f_start f < f_end f" "f_end f \<le> length s" using Cons.prems(2,3) by simp_all
    have "p = ph_of stf (f_label f, f_text f)" using as extends_ph [OF stf] by simp
    moreover have "take (f_start f) t = take (f_start f) s" unfolding t_eq using bounds by simp
    moreover have "drop (f_end f) t = render (ph_of stf) (f_end f) fs s" unfolding t_eq using bounds by simp
    moreover have "take (f_start f) s = take k s @ take (f_start f - k) (drop k s)"
      using bounds take_add [of k "f_start f - k" s] by simp
    ultimately show ?thesis unfolding out by simp
  qed
  then show ?case using as ih ext by auto
qed

lemma rev_sort_desc:
  assumes "sorted_wrt (\<lambda>x y. key x < key y) xs"
  shows "sort_desc key xs = rev xs"
proof -
  have d: "distinct (map key xs)" and s: "sorted (map (\<lambda>x. - key x) (rev xs))"
    using assms by (induction xs) (auto simp: sorted_append)
  have "filter (\<lambda>x. - key k = - key x) (rev xs) = filter (\<lambda>x. - key k = - key x) xs" if "k \<in> set (rev xs)" for k
  proof -
    obtain a b where xs: "xs = a @ k # b" using \<open>k \<in> set (rev xs)\<close> by (auto dest: split_list)
    have "key k \<notin> key ` set a" "key k \<notin> key ` set b" using d unfolding xs by auto
    then have "filter (\<lambda>x. key k = key x) a = []" "filter (\<lambda>x. key k = key x) b = []"
      by (auto simp: filter_empty_conv)
    then show ?thesis unfolding xs by (simp add: rev_filter [symmetric])
  qed
  then show ?thesis unfolding sort_desc_def by (intro properties_for_sort_key s) simp_all
qed

lemma sort_desc_of_find_all: "sort_desc (\<lambda>f. int (f_start f)) (find_all s) = rev (find_all s)"
proof (rule rev_sort_desc, rule sorted_wrt_mono_rel [OF _ findings_sorted])
  fix f g assume "f \<in> set (find_all s)" "f_end f \<le> f_start g"
  then show "int (f_start f) < int (f_start g)" using findings_in_text [of f s] by simp
qed

lemma redact_text_ok:
  assumes "numbered st" "redact_text s st = (out, st')"
  shows "numbered st' \<and> extends st st' \<and> known st' = (\<lambda>f. (f_label f, f_text f)) ` set (find_all s) \<union> known st
    \<and> (\<forall>stf. extends st' stf \<longrightarrow> out = render (ph_of stf) 0 (find_all s) s)"
proof (cases "find_all s = []")
  case True
  then show ?thesis using assms by (simp add: redact_text_def)
next
  case False
  then have "foldl put_placeholder (s, st) (rev (find_all s)) = (out, st')"
    using assms(2) by (simp add: redact_text_def Let_def sort_desc_of_find_all)
  from put_placeholders [OF findings_sorted _ _ _ assms(1) this, of 0]
  show ?thesis using findings_in_text by simp
qed

lemma redact_texts_ok:
  assumes "numbered st" "redact_texts ss st = (outs, st')"
  shows "numbered st' \<and> extends st st' \<and> known st' = found_pairs ss \<union> known st
    \<and> (\<forall>stf. extends st' stf \<longrightarrow> outs = map (\<lambda>s. render (ph_of stf) 0 (find_all s) s) ss)"
  using assms
proof (induction ss arbitrary: st outs)
  case Nil
  then show ?case by (simp add: found_pairs_def)
next
  case (Cons s ss)
  obtain r st1 where r: "redact_text s st = (r, st1)" by fastforce
  obtain rs where rs: "redact_texts ss st1 = (rs, st')" "outs = r # rs"
    using Cons.prems(2) r by (auto simp: Let_def split: prod.splits)
  have one: "numbered st1" "extends st st1" "known st1 = (\<lambda>f. (f_label f, f_text f)) ` set (find_all s) \<union> known st"
    and out: "\<And>stf. extends st1 stf \<Longrightarrow> r = render (ph_of stf) 0 (find_all s) s"
    using redact_text_ok [OF Cons.prems(1) r] by blast+
  have rest: "numbered st'" "extends st1 st'" "known st' = found_pairs ss \<union> known st1"
    and outs: "\<And>stf. extends st' stf \<Longrightarrow> rs = map (\<lambda>s. render (ph_of stf) 0 (find_all s) s) ss"
    using Cons.IH [OF one(1) rs(1)] by blast+
  have "outs = map (\<lambda>s. render (ph_of stf) 0 (find_all s) s) (s # ss)" if "extends st' stf" for stf
    unfolding rs(2) list.map using out [OF extends_trans [OF rest(2) that]] outs [OF that] by (rule arg_cong2)
  moreover have "known st' = found_pairs (s # ss) \<union> known st"
    unfolding rest(3) one(3) found_pairs_def by auto
  ultimately show ?case using rest(1) extends_trans [OF one(2) rest(2)] by blast
qed

text \<open>The counts of the record are the numbers of distinct values.\<close>

lemma known_alt:
  assumes "numbered st"
  shows "known st = (SIGMA l : set (map fst (assigned st)). set (map fst (seen_for l st)))"
proof -
  have "(l, v) \<in> known st \<longleftrightarrow> l \<in> set (map fst (assigned st)) \<and> v \<in> set (map fst (seen_for l st))" for l v
    by (auto simp: known_def seen_for_def map_of_eq_None_iff split: option.splits)
      (metis map_of_eq_None_iff option.distinct(1) image_iff fst_conv)+
  then show ?thesis by auto
qed

lemma card_known:
  assumes "numbered st"
  shows "card (known st) = sum_list (map (\<lambda>lvs. length (snd lvs)) (assigned st))"
proof -
  have d: "distinct (map fst (assigned st))" using assms by (simp add: numbered_def)
  have "card (known st) = (\<Sum>l\<in>set (map fst (assigned st)). card (set (map fst (seen_for l st))))"
    unfolding known_alt [OF assms] by (rule card_SigmaI) simp_all
  also have "\<dots> = (\<Sum>l\<in>set (map fst (assigned st)). length (seen_for l st))"
    using numbered_seen [OF assms] by (metis (no_types, lifting) distinct_card length_map)
  also have "\<dots> = sum_list (map (\<lambda>l. length (seen_for l st)) (map fst (assigned st)))"
    using d by (simp only: sum_list_distinct_conv_sum_set)
  also have "\<dots> = sum_list (map (\<lambda>lvs. length (snd lvs)) (assigned st))"
    using d by (auto simp: seen_for_def o_def intro!: arg_cong [of _ _ sum_list] map_cong split: option.split)
  finally show ?thesis .
qed

lemma masked_counts: "sum_list (map mv_count (masked_values st)) = sum_list (map (\<lambda>lvs. length (snd lvs)) (assigned st))"
proof -
  have "mset (map mv_count (masked_values st)) = mset (map (\<lambda>lvs. length (snd lvs)) (assigned st))"
    unfolding masked_values_def by (simp add: mset_map image_mset.compositionality o_def case_prod_beta)
  then show ?thesis by (metis sum_mset_sum_list)
qed

text \<open>C11: Redaction is one consistent, reversible renaming. Across a whole request there is a single
assignment of placeholders to (kind, value) pairs, two different pairs never share a placeholder, each
placeholder is its kind's name with a number from 1; every passage comes out as its text with exactly the found spans replaced
and everything else, character by character, in place; and the counts shown to the reader add up to the
number of distinct values found.\<close>

theorem redaction_renames_consistently:
  assumes "redact texts = (redacted, masked)"
  shows "\<exists>ph. inj_on ph (found_pairs texts)
    \<and> (\<forall>(label, value)\<in>found_pairs texts. \<exists>n\<ge>1. ph (label, value) = placeholder_name label n)
    \<and> redacted = map (\<lambda>s. render ph 0 (find_all s) s) texts
    \<and> sum_list (map mv_count masked) = card (found_pairs texts)"
proof -
  let ?st0 = "\<lparr> assigned = [], order = [] \<rparr>"
  obtain st where st: "redact_texts texts ?st0 = (redacted, st)" "masked = masked_values st"
    using assms by (auto simp: redact_def split: prod.splits)
  have "numbered ?st0" "known ?st0 = {}" by (simp_all add: numbered_def known_def seen_for_def)
  then have ok: "numbered st" "known st = found_pairs texts"
      "redacted = map (\<lambda>s. render (ph_of st) 0 (find_all s) s) texts"
    using redact_texts_ok [OF _ st(1)] by auto
  have "\<forall>(label, value)\<in>found_pairs texts. \<exists>n\<ge>1. ph_of st (label, value) = placeholder_name label n"
  proof clarify
    fix l v assume "(l, v) \<in> found_pairs texts"
    then obtain i where "ph_of st (l, v) = placeholder_name l (Suc i)"
      using known_placeholder [OF ok(1), of l v] ok(2) by auto
    then show "\<exists>n\<ge>1. ph_of st (l, v) = placeholder_name l n" by (intro exI [of _ "Suc i"]) simp
  qed
  then show ?thesis
    using ph_inj [OF ok(1)] ok card_known [OF ok(1)] masked_counts [of st] st(2) by (intro exI [of _ "ph_of st"]) simp
qed

theorem redaction_renames_consistently_witness:
  "\<exists>redacted masked ph. redact [''PAN ABCDE1234F.'', ''no''] = (redacted, masked)
     \<and> redacted = map (\<lambda>s. render ph 0 (find_all s) s) [''PAN ABCDE1234F.'', ''no'']
     \<and> fst (redact [''PAN ABCDE1234F.'', ''no'']) = [''PAN <PAN_1>.'', ''no'']"
proof -
  obtain redacted masked where r: "redact [''PAN ABCDE1234F.'', ''no''] = (redacted, masked)" by fastforce
  from redaction_renames_consistently [OF r] obtain ph where
    "redacted = map (\<lambda>s. render ph 0 (find_all s) s) [''PAN ABCDE1234F.'', ''no'']" by blast
  moreover have "fst (redact [''PAN ABCDE1234F.'', ''no'']) = [''PAN <PAN_1>.'', ''no'']" by code_simp
  ultimately show ?thesis using r by blast
qed

text \<open>A request has the highest tier among its passages, and what is not known to be public counts as
restricted: it is \<open>PUBLIC\<close> only when every tier is.\<close>

theorem classify_takes_the_highest:
  "classify tiers = (if list_all (\<lambda>t. t = Some ''PUBLIC'') tiers then ''PUBLIC'' else ''RESTRICTED'')"
proof -
  have restricted: "classify_from ''RESTRICTED'' ts = ''RESTRICTED''" for ts
    by (induction ts) (auto simp: TIER_ORDER_def split: option.split)
  have "classify_from ''PUBLIC'' tiers = (if list_all (\<lambda>t. t = Some ''PUBLIC'') tiers then ''PUBLIC'' else ''RESTRICTED'')"
    by (induction tiers) (auto simp: TIER_ORDER_def restricted split: option.split)
  then show ?thesis by (simp add: classify_def)
qed

end
