(* ===== verification/Generation.thy ===== *)
theory Generation
  imports Retrieval Gateway
begin

text \<open>\<open>modules/generation\<close> and \<open>api/v1/ask.py\<close>: the prompt, the call through the gateway, the check of the
model's citations, follow-up expansion and the endpoint. The HTTP call to the model is a parameter; what the code
makes of its reply is modelled.\<close>

section \<open>The provider's reply\<close>

record sarvam_body =
  sb_content :: "string option"
  sb_finish_reason :: "string option"
  sb_prompt_tokens :: nat
  sb_completion_tokens :: nat

text \<open>A response has a status, its text, and its parsed body or the parse error.\<close>

datatype sarvam_reply = RequestError string | Response nat string "(string, sarvam_body) result"

record sarvam =
  api_key :: string
  sarvam_model :: string
  http_post :: "string \<Rightarrow> string \<Rightarrow> sarvam_reply"
  GENERATION_MAX_TOKENS :: nat

definition sarvam_complete :: "sarvam \<Rightarrow> string \<Rightarrow> string \<Rightarrow> (string, string \<times> nat \<times> nat) result" where
  "sarvam_complete p system user =
     (if api_key p = []
      then Inl (''SARVAM_API_KEY is not set. Answer generation is disabled without it; ''
             @ ''retrieval still works and returns passages.'')
      else case http_post p system user of
        RequestError e \<Rightarrow> Inl (''Could not reach Sarvam: '' @ e)
      | Response st body parsed \<Rightarrow>
          if st = 401 then Inl ''Sarvam rejected the API key.''
          else if st = 429 then Inl ''Sarvam rate limit reached. Try again shortly.''
          else if 400 \<le> st then Inl (''Sarvam returned '' @ nat_str st @ '': '' @ take 200 body)
          else case parsed of
            Inl e \<Rightarrow> Inl (''Unexpected response shape from Sarvam: '' @ e)
          | Inr b \<Rightarrow>
              (case sb_content b of
                 Some (c # cs) \<Rightarrow> Inr (c # cs, sb_prompt_tokens b, sb_completion_tokens b)
               | _ \<Rightarrow>
                   if sb_finish_reason b = Some ''length''
                   then Inl (''The model used its entire '' @ nat_str (GENERATION_MAX_TOKENS p)
                          @ ''-token budget reasoning and never wrote an answer. Raise GENERATION_MAX_TOKENS or lower ''
                          @ ''GENERATION_REASONING_EFFORT.'')
                   else Inl (''Sarvam returned no answer text (finish_reason=''
                          @ (case sb_finish_reason b of None \<Rightarrow> ''None'' | Some r \<Rightarrow> py_repr r) @ '').'')))"

definition sarvam_provider :: "sarvam \<Rightarrow> provider" where
  "sarvam_provider p =
     \<lparr> model_name = sarvam_model p, endpoint = Some ''https://api.sarvam.ai/v1/chat/completions'',
       complete = sarvam_complete p \<rparr>"

section \<open>Answers\<close>

record citation =
  ct_marker :: nat
  ct_chunk_id :: uuid
  ct_document_id :: uuid
  ct_filename :: string
  ct_page_number :: "nat option"
  ct_section_heading :: "string option"
  ct_text :: string

record generated_answer =
  ga_question :: string
  ga_answer :: string
  ga_grounded :: bool
  ga_citations :: "citation list"
  ga_invalid_markers :: "nat list"
  ga_excluded_restricted :: nat
  ga_searched_for :: "string option"
  ga_model :: string
  ga_input_tokens :: nat
  ga_output_tokens :: nat
  ga_boundary :: "boundary_record option"

definition cost_inr :: "generated_answer \<Rightarrow> rat" where
  "cost_inr a = of_nat (ga_input_tokens a) / 1000000 * (2928 / 100) + of_nat (ga_output_tokens a) / 1000000 * (732 / 10)"

definition SYSTEM_PROMPT :: string where
  "SYSTEM_PROMPT = join [NL]
     [''You answer questions for A-PAG, an Indian air quality policy organisation, using only the numbered passages supplied with each question.'',
      '''', ''Rules:'',
      ''- Use only the passages. Do not use anything you know from outside them.'',
      ''- Mark every factual claim with the passage it came from, like [2]. A sentence drawing on two passages carries both, like [1][3].'',
      ''- If the passages do not answer the question, say exactly what is missing. Do not fill the gap.'',
      ''- Quote figures, dates and section numbers exactly as the passages give them.'',
      ''- Be brief and plain. No preamble, no restating the question, no closing summary.'',
      ''- Write in the language the question was asked in.'']"

text \<open>The source line joins file, page and heading with a middle dot.\<close>

definition source_label :: "retrieved_chunk \<Rightarrow> string" where
  "source_label c =
     join [CHR '' '', CHR 0xB7, CHR '' '']
       ([rc_filename c]
        @ (case rc_page_number c of None \<Rightarrow> [] | Some n \<Rightarrow> [''p.'' @ nat_str n])
        @ (case rc_section_heading c of None \<Rightarrow> [] | Some h \<Rightarrow> if h = [] then [] else [h]))"

definition build_context :: "retrieved_chunk list \<Rightarrow> string list \<Rightarrow> string" where
  "build_context cs bodies =
     join [NL, NL] (map (\<lambda>(i, c, body). ''['' @ nat_str i @ ''] ('' @ source_label c @ '')'' @ [NL] @ body)
       (Retrieval.numbered (zip cs bodies)))"

section \<open>Citations\<close>

definition MARKER :: re where
  "MARKER = cat [lit (CHR 0x5B), plus (Cls is_decimal), lit (CHR 0x5D)]"

definition parse_nat :: "string \<Rightarrow> nat" where
  "parse_nat s = foldl (\<lambda>n c. 10 * n + (code c - 48)) 0 s"

text \<open>\<open>int(match.group(1))\<close> for every match of \<open>\[(\d+)\]\<close>.\<close>

definition marker_numbers :: "string \<Rightarrow> nat list" where
  "marker_numbers s = map (\<lambda>(n, m). parse_nat (butlast (tl m))) (finditer MARKER s)"

text \<open>Each number once, in order of first appearance.\<close>

definition first_seen :: "nat list \<Rightarrow> nat list" where
  "first_seen ns = foldl (\<lambda>acc n. if n \<in> set acc then acc else acc @ [n]) [] ns"

definition SPACES :: re where "SPACES = Rep 2 None (lit (CHR '' ''))"
definition SPACE_BEFORE_PUNCT :: re where
  "SPACE_BEFORE_PUNCT = Cat (plus (lit (CHR '' ''))) (Cls (\<lambda>c. c \<in> set ''.,;:''))"

definition strip_markers :: "nat list \<Rightarrow> string \<Rightarrow> string" where
  "strip_markers ns s = foldl (\<lambda>t n. replace_all (''['' @ nat_str n @ '']'') [] t) s ns"

definition citation_of :: "retrieved_chunk list \<Rightarrow> nat \<Rightarrow> citation" where
  "citation_of cs n =
     (let c = cs ! (n - 1) in
      \<lparr> ct_marker = n, ct_chunk_id = rc_chunk_id c, ct_document_id = rc_document_id c, ct_filename = rc_filename c,
        ct_page_number = rc_page_number c, ct_section_heading = rc_section_heading c, ct_text = rc_text c \<rparr>)"

definition verify_citations :: "string \<Rightarrow> retrieved_chunk list \<Rightarrow> string \<times> citation list \<times> nat list" where
  "verify_citations s cs =
     (let ns = marker_numbers s;
          seen = first_seen (filter (\<lambda>n. 1 \<le> n \<and> n \<le> length cs) ns);
          invalid = first_seen (filter (\<lambda>n. \<not> (1 \<le> n \<and> n \<le> length cs)) ns);
          cleaned = strip (sub SPACE_BEFORE_PUNCT (\<lambda>m. [last m])
                      (sub SPACES (\<lambda>_. '' '') (strip_markers invalid s)))
      in (cleaned, map (citation_of cs) (sort seen), sort invalid))"

section \<open>Answering\<close>

record answer_settings =
  boundary :: gateway_settings
  GENERATION_MAX_PASSAGES :: nat

definition ungrounded_answer :: "string \<Rightarrow> string \<Rightarrow> nat \<Rightarrow> generated_answer" where
  "ungrounded_answer question model excluded =
     \<lparr> ga_question = question, ga_answer = '''', ga_grounded = False, ga_citations = [], ga_invalid_markers = [],
       ga_excluded_restricted = excluded, ga_searched_for = None, ga_model = model, ga_input_tokens = 0,
       ga_output_tokens = 0, ga_boundary = None \<rparr>"

text \<open>\<open>list(tiers or [None] * len(chunks))[: len(usable)]\<close>\<close>

definition supplied_tiers :: "string option list option \<Rightarrow> nat \<Rightarrow> nat \<Rightarrow> string option list" where
  "supplied_tiers tiers n_chunks n_usable =
     take n_usable (case tiers of None \<Rightarrow> replicate n_chunks None
       | Some ts \<Rightarrow> if ts = [] then replicate n_chunks None else ts)"

text \<open>\<open>compose\<close>: the passages the gateway kept, and the user message built from them.\<close>

definition kept_passages :: "retrieved_chunk list \<Rightarrow> (nat \<times> string) list \<Rightarrow> retrieved_chunk list" where
  "kept_passages usable kept = map (\<lambda>(i, _). usable ! i) kept"

definition compose :: "string \<Rightarrow> retrieved_chunk list \<Rightarrow> (nat \<times> string) list \<Rightarrow> string" where
  "compose question usable kept =
     build_context (kept_passages usable kept) (map snd kept)
     @ [NL, NL] @ ''---'' @ [NL, NL] @ ''Question: '' @ question"

definition answer ::
  "answer_settings \<Rightarrow> provider \<Rightarrow> string \<Rightarrow> retrieved_chunk list \<Rightarrow> bool \<Rightarrow> string option list option
     \<Rightarrow> (string, generated_answer) result" where
  "answer cfg prov question cs grounded tiers =
     (if \<not> grounded \<or> cs = [] then Inr (ungrounded_answer question (model_name prov) 0)
      else
        let usable = take (GENERATION_MAX_PASSAGES cfg) cs;
            texts = map rc_text usable;
            supplied = supplied_tiers tiers (length cs) (length usable)
        in case send (boundary cfg) prov (compose question usable) SYSTEM_PROMPT texts supplied of
             Inl (BoundaryRefusal e) \<Rightarrow> Inr (ungrounded_answer question (model_name prov) (length usable))
           | Inl (ProviderError e) \<Rightarrow> Inl e
           | Inr (reply, in_tokens, out_tokens, rec) \<Rightarrow>
               let sent = (case prepare_crossing (boundary cfg) prov texts supplied of
                             Inl e \<Rightarrow> [] | Inr (kept, r) \<Rightarrow> kept_passages usable kept);
                   (cleaned, citations, invalid) = verify_citations reply sent
               in Inr \<lparr> ga_question = question, ga_answer = cleaned, ga_grounded = True, ga_citations = citations,
                        ga_invalid_markers = invalid,
                        ga_excluded_restricted = br_passages_withheld_restricted rec, ga_searched_for = None,
                        ga_model = model_name prov, ga_input_tokens = in_tokens, ga_output_tokens = out_tokens,
                        ga_boundary = Some rec \<rparr>)"

section \<open>Follow-up questions\<close>

definition REFERRING_OPENERS :: "string list" where
  "REFERRING_OPENERS =
     [''what about'', ''and what'', ''and the'', ''what of'', ''how about'', ''and how'',
      ''is it'', ''are they'', ''are these'', ''does it'', ''do they'', ''did it'', ''was it'',
      ''why is'', ''why are'', ''why did'', ''when is'', ''when did'', ''who is'', ''who are'',
      ''and'', ''but'', ''also'', ''then'', ''so'']"

definition DANGLING :: re where
  "DANGLING =
     cat [WordBoundary,
          foldr (\<lambda>w r. Or (word_nocase w) r)
            [''it'', ''its'', ''they'', ''them'', ''their'', ''this'', ''that'', ''these'', ''those'', ''the same'', ''above'']
            (word_nocase ''there''),
          WordBoundary]"

definition SELF_CONTAINED_WORDS :: nat where "SELF_CONTAINED_WORDS = 8"

definition looks_like_followup :: "string \<Rightarrow> bool" where
  "looks_like_followup question =
     (let q = lower (strip question); words = split_ws q in
      q \<noteq> [] \<and>
      (length words \<le> 3
       \<or> list_ex (\<lambda>opener. startswith q (opener @ '' '')) REFERRING_OPENERS
       \<or> (length words < SELF_CONTAINED_WORDS \<and> finditer DANGLING q \<noteq> [])))"

definition expand :: "string \<Rightarrow> string option \<Rightarrow> string \<times> bool" where
  "expand question previous =
     (let p = strip (case previous of None \<Rightarrow> '''' | Some s \<Rightarrow> s); q = strip question in
      if p = [] \<or> q = [] \<or> \<not> looks_like_followup q then (q, False) else (p @ '' '' @ q, True))"

section \<open>The endpoint\<close>

definition tiers_for :: "world \<Rightarrow> retrieved_chunk list \<Rightarrow> string option list" where
  "tiers_for w results =
     map (\<lambda>r. Option.bind (find_doc (rc_document_id r) (documents w)) (\<lambda>d. map_option classification_value (classification d)))
       results"

text \<open>\<open>busy\<close>: the search statement, which runs once the question is embedded, raises a database error. A scoped question supplies its own grounding.\<close>

definition ask ::
  "retrieval_env \<Rightarrow> answer_settings \<Rightarrow> provider \<Rightarrow> bool \<Rightarrow> string \<Rightarrow> nat \<Rightarrow> string option \<Rightarrow> uuid list
     \<Rightarrow> uuid \<Rightarrow> string option \<Rightarrow> world \<Rightarrow> (http_error, generated_answer) result" where
  "ask env cfg prov busy q n previous ids user role w =
     (let question = strip q in
      if question = [] then Inl (HttpError 422 ''EMPTY_QUERY: q is required.'')
      else
        let (search_query, expanded) = expand question previous in
        if busy \<and> \<not> isl (embed_query env search_query) then Inl (HttpError 503 ''SEARCH_UNAVAILABLE: The search index was busy. Please ask again.'')
        else case search env search_query \<lparr> viewer = Some user, viewer_is_admin = is_admin role, scope_ids = ids \<rparr>
                    n HYBRID None w of
          Inl e \<Rightarrow> Inl (Unhandled e)
        | Inr (results, usage) \<Rightarrow>
            let grounded = (fst (assess env results question) \<or> ids \<noteq> [] \<and> results \<noteq> []) in
            (case answer cfg prov question results grounded (Some (tiers_for w results)) of
               Inl e \<Rightarrow> Inl (HttpError 503 (''ANSWER_UNAVAILABLE: '' @ e @ '' Retrieval still works - try /search.''))
             | Inr a \<Rightarrow> Inr (if expanded then a\<lparr> ga_searched_for := Some search_query \<rparr> else a)))"

section \<open>Checking an answer without a judge\<close>

definition GROUPED_NUMBER :: re where
  "GROUPED_NUMBER =
     cat [between 1 3 (Cls is_decimal), plus (Cat (lit (CHR '','')) (between 2 3 (Cls is_decimal))),
          opt (Cat (lit (CHR ''.'')) (plus (Cls is_decimal)))]"

definition NUMBER :: re where
  "NUMBER =
     cat [Behind (\<lambda>p. \<not> prev_is (\<lambda>c. is_word c \<or> c = CHR ''.'') p),
          Or GROUPED_NUMBER
            (Or (cat [plus (Cls is_decimal), lit (CHR ''.''), plus (Cls is_decimal)])
              (Or (Rep 4 None (Cls is_decimal))
                (Cat (between 1 3 (Cls is_decimal))
                   (opt (Or (cat [lit (CHR ''s''), lit (CHR ''t'')])
                     (Or (cat [lit (CHR ''n''), lit (CHR ''d'')])
                       (Or (cat [lit (CHR ''r''), lit (CHR ''d'')]) (cat [lit (CHR ''t''), lit (CHR ''h'')])))))))),
          Ahead (\<lambda>s. \<not> prev_is is_word s)]"

text \<open>On Latin-1 text the only double quotation mark is the straight one.\<close>

definition DQ :: char where "DQ = CHR 0x22"

definition QUOTED :: re where
  "QUOTED = cat [lit DQ, star (Cls (\<lambda>c. c \<noteq> DQ)), lit DQ]"

definition MIN_QUOTE_CHARS :: nat where "MIN_QUOTE_CHARS = 25"

definition TRIVIAL :: "string list" where
  "TRIVIAL = [''0'', ''1'', ''2'', ''3'', ''4'', ''5'', ''6'', ''7'', ''8'', ''9'', ''10'']"

text \<open>\<open>re.sub(r"(\d)(st|nd|rd|th)\b", r"\1", t)\<close>: the digit is the first character of the match.\<close>

definition ORDINAL :: re where
  "ORDINAL =
     cat [Cls is_decimal,
          Or (cat [lit (CHR ''s''), lit (CHR ''t'')])
            (Or (cat [lit (CHR ''n''), lit (CHR ''d'')])
              (Or (cat [lit (CHR ''r''), lit (CHR ''d'')]) (cat [lit (CHR ''t''), lit (CHR ''h'')]))),
          WordBoundary]"

definition normalise :: "string \<Rightarrow> string" where
  "normalise s =
     sub (plus (Cls is_space)) (\<lambda>_. '' '')
       (sub ORDINAL (\<lambda>m. [hd m]) (filter (\<lambda>c. c \<noteq> CHR '','') (lower s)))"

record fidelity_report =
  numbers_checked :: nat
  numbers_supported :: nat
  unsupported_numbers :: "string list"
  sentences :: nat
  sentences_cited :: nat
  quotes_checked :: nat
  quotes_verbatim :: nat
  bad_quotes :: "string list"

definition empty_report :: fidelity_report where
  "empty_report =
     \<lparr> numbers_checked = 0, numbers_supported = 0, unsupported_numbers = [], sentences = 0, sentences_cited = 0,
       quotes_checked = 0, quotes_verbatim = 0, bad_quotes = [] \<rparr>"

definition ratio :: "nat \<Rightarrow> nat \<Rightarrow> rat option" where
  "ratio part whole = (if whole = 0 then None else Some (of_nat part / of_nat whole))"

definition numeric_fidelity :: "fidelity_report \<Rightarrow> rat option" where
  "numeric_fidelity r = ratio (numbers_supported r) (numbers_checked r)"
definition citation_coverage :: "fidelity_report \<Rightarrow> rat option" where
  "citation_coverage r = ratio (sentences_cited r) (sentences r)"
definition quote_fidelity :: "fidelity_report \<Rightarrow> rat option" where
  "quote_fidelity r = ratio (quotes_verbatim r) (quotes_checked r)"

fun check_numbers :: "string \<Rightarrow> string list \<Rightarrow> string list \<Rightarrow> fidelity_report \<Rightarrow> fidelity_report" where
  "check_numbers haystack seen [] r = r"
| "check_numbers haystack seen (raw # raws) r =
     (let key = normalise raw in
      if key \<in> set TRIVIAL \<or> key \<in> set seen then check_numbers haystack seen raws r
      else
        let r1 = r\<lparr> numbers_checked := numbers_checked r + 1 \<rparr> in
        check_numbers haystack (key # seen) raws
          (if contains key haystack then r1\<lparr> numbers_supported := numbers_supported r1 + 1 \<rparr>
           else r1\<lparr> unsupported_numbers := unsupported_numbers r1 @ [raw] \<rparr>))"

definition check_sentence :: "fidelity_report \<Rightarrow> string \<Rightarrow> fidelity_report" where
  "check_sentence r sentence =
     (let s = strip sentence in
      if length s < 25 then r
      else
        let r1 = r\<lparr> sentences := sentences r + 1 \<rparr> in
        if finditer MARKER s \<noteq> [] then r1\<lparr> sentences_cited := sentences_cited r1 + 1 \<rparr> else r1)"

definition check_quote :: "string \<Rightarrow> fidelity_report \<Rightarrow> string \<Rightarrow> fidelity_report" where
  "check_quote haystack r m =
     (let quoted = strip (sub MARKER (\<lambda>_. '' '') (butlast (tl m))) in
      if length quoted < MIN_QUOTE_CHARS then r
      else
        let r1 = r\<lparr> quotes_checked := quotes_checked r + 1 \<rparr> in
        if contains (normalise quoted) haystack then r1\<lparr> quotes_verbatim := quotes_verbatim r1 + 1 \<rparr>
        else r1\<lparr> bad_quotes := bad_quotes r1 @ [take 90 quoted] \<rparr>)"

definition SENTENCE :: re where
  "SENTENCE = Cat (After (\<lambda>c. c \<in> set ''.!?'')) (plus (Cls is_space))"

definition check_answer :: "string \<Rightarrow> string list \<Rightarrow> fidelity_report" where
  "check_answer ans contexts =
     (if ans = [] then empty_report
      else
        let haystack = normalise (join [CHR '' '', NL, CHR '' ''] contexts);
            stripped = sub MARKER (\<lambda>_. '' '') ans;
            r1 = check_numbers haystack [] (map snd (finditer NUMBER stripped)) empty_report;
            r2 = foldl check_sentence r1 (split_re SENTENCE ans)
        in foldl (check_quote haystack) r2 (map snd (finditer QUOTED ans)))"

section \<open>What reaches the model\<close>

text \<open>C22: Restricted sources stay inside. With restricted content excluded, two lists of passages that agree on
the passages marked \<open>PUBLIC\<close> give the same answer, citations, counts and record for the same question and tiers:
neither the text of a withheld passage nor the name, page or heading of its document reaches the model or comes back.\<close>

theorem restricted_sources_stay_inside:
  fixes cs cs' :: "retrieved_chunk list"
  assumes "\<not> GENERATION_INCLUDE_RESTRICTED (boundary cfg)" "length cs = length cs'"
    and "\<forall>i<length cs. i < length ts \<longrightarrow> ts ! i = Some ''PUBLIC'' \<longrightarrow> cs ! i = cs' ! i" "ts \<noteq> []"
  shows "answer cfg prov question cs grounded (Some ts) = answer cfg prov question cs' grounded (Some ts)"
proof (cases "grounded \<and> cs \<noteq> []")
  case False
  then show ?thesis using assms(2) by (auto simp: answer_def)
next
  case True
  let ?n = "GENERATION_MAX_PASSAGES cfg"
  let ?us = "take ?n cs" and ?us' = "take ?n cs'" and ?t = "take (length (take ?n cs)) ts"
  have cs': "cs' \<noteq> []" "length ?us = length ?us'" using True assms(2) by auto
  have sup: "supplied_tiers (Some ts) k (length ?us) = ?t" for k using assms(4) by (simp add: supplied_tiers_def)
  have agree: "?us ! i = ?us' ! i" if "i < length ?us" "i < length ?t" "?t ! i = Some ''PUBLIC''" for i
    using assms(3) that by simp
  have cross: "prepare_crossing (boundary cfg) prov (map rc_text ?us) ?t = prepare_crossing (boundary cfg) prov (map rc_text ?us') ?t"
    by (rule prepare_crossing_public_only [OF assms(1)]) (use cs'(2) agree in auto)
  have kept: "kept_passages ?us pairs = kept_passages ?us' pairs \<and> compose question ?us pairs = compose question ?us' pairs"
    if cr: "prepare_crossing (boundary cfg) prov (map rc_text ?us) ?t = Inr (pairs, rec)" for pairs rec
  proof -
    have "?us ! fst x = ?us' ! fst x" if "x \<in> set pairs" for x
      using prepare_crossing_pairs [OF cr assms(1), of "fst x" "snd x"] that agree [of "fst x"] by simp
    then have "kept_passages ?us pairs = kept_passages ?us' pairs" by (simp add: kept_passages_def case_prod_unfold)
    then show ?thesis by (simp add: compose_def)
  qed
  have sup': "supplied_tiers (Some ts) k (length ?us') = ?t" for k using sup cs'(2) by simp
  have ne: "\<not> (\<not> grounded \<or> cs = [])" "\<not> (\<not> grounded \<or> cs' = [])" using True cs'(1) by simp_all
  show ?thesis
  proof (cases "prepare_crossing (boundary cfg) prov (map rc_text ?us) ?t")
    case (Inl e)
    show ?thesis
      unfolding answer_def Let_def sup sup' send_def if_not_P [OF ne(1)] if_not_P [OF ne(2)] cross [symmetric] Inl sum.case
      unfolding cs'(2) by (rule refl)
  next
    case (Inr x)
    obtain pairs rec where x: "x = (pairs, rec)" by (cases x)
    note k = kept [OF Inr [unfolded x]]
    show ?thesis
      unfolding answer_def Let_def sup sup' send_def if_not_P [OF ne(1)] if_not_P [OF ne(2)] cross [symmetric] Inr x
        sum.case prod.case conjunct1 [OF k] conjunct2 [OF k]
      using cs'(2) by (simp split: sum.split boundary_error.split)
  qed
qed

section \<open>Citations\<close>

lemma first_seen_ok: "distinct (first_seen ns) \<and> set (first_seen ns) = set ns"
proof -
  have "distinct acc \<Longrightarrow> distinct (foldl (\<lambda>acc n. if n \<in> set acc then acc else acc @ [n]) acc ns)
      \<and> set (foldl (\<lambda>acc n. if n \<in> set acc then acc else acc @ [n]) acc ns) = set acc \<union> set ns" for acc
    by (induction ns arbitrary: acc) auto
  then show ?thesis by (simp add: first_seen_def)
qed

lemma verified:
  assumes "verify_citations reply cs = (cleaned, citations, invalid)"
  shows "citations = map (citation_of cs) (map ct_marker citations)"
    "sorted_wrt (<) (map ct_marker citations)" "sorted_wrt (<) invalid"
    "set (map ct_marker citations) = {n \<in> set (marker_numbers reply). 1 \<le> n \<and> n \<le> length cs}"
    "set invalid = {n \<in> set (marker_numbers reply). n = 0 \<or> length cs < n}"
proof -
  let ?seen = "first_seen (filter (\<lambda>n. 1 \<le> n \<and> n \<le> length cs) (marker_numbers reply))"
  let ?bad = "first_seen (filter (\<lambda>n. \<not> (1 \<le> n \<and> n \<le> length cs)) (marker_numbers reply))"
  have c: "citations = map (citation_of cs) (sort ?seen)" and i: "invalid = sort ?bad"
    using assms by (auto simp: verify_citations_def Let_def)
  have m: "map ct_marker citations = sort ?seen" unfolding c by (simp add: comp_def citation_of_def Let_def)
  show "citations = map (citation_of cs) (map ct_marker citations)" unfolding m by (rule c)
  show "sorted_wrt (<) (map ct_marker citations)" unfolding m
    using first_seen_ok by (simp add: strict_sorted_iff)
  show "sorted_wrt (<) invalid" unfolding i using first_seen_ok by (simp add: strict_sorted_iff)
  show "set (map ct_marker citations) = {n \<in> set (marker_numbers reply). 1 \<le> n \<and> n \<le> length cs}"
    unfolding m using first_seen_ok by auto
  show "set invalid = {n \<in> set (marker_numbers reply). n = 0 \<or> length cs < n}"
    unfolding i using first_seen_ok by auto
qed


text \<open>A marker with a leading zero survives. The answer's text keeps a fabricated \<open>[07]\<close> although the number
is reported as invalid: the marker removed from the text is the number printed without the zero.\<close>

theorem leading_zero_marker_survives:
  "verify_citations ''See [07].'' (take 6 cs) = (''See [07].'', [], [7])"
proof -
  have "marker_numbers ''See [07].'' = [7]" by code_simp
  moreover have "strip (sub SPACE_BEFORE_PUNCT (\<lambda>m. [last m]) (sub SPACES (\<lambda>_. '' '') (strip_markers [7] ''See [07].''))) = ''See [07].''"
    by code_simp
  ultimately show ?thesis by (simp add: verify_citations_def first_seen_def)
qed

section \<open>The fidelity report\<close>

lemma check_numbers_counts:
  "numbers_checked r = numbers_supported r + length (unsupported_numbers r) \<Longrightarrow>
     numbers_checked (check_numbers h seen raws r) =
       numbers_supported (check_numbers h seen raws r) + length (unsupported_numbers (check_numbers h seen raws r))
     \<and> sentences (check_numbers h seen raws r) = sentences r \<and> sentences_cited (check_numbers h seen raws r) = sentences_cited r
     \<and> quotes_checked (check_numbers h seen raws r) = quotes_checked r
     \<and> quotes_verbatim (check_numbers h seen raws r) = quotes_verbatim r \<and> bad_quotes (check_numbers h seen raws r) = bad_quotes r"
  by (induction h seen raws r rule: check_numbers.induct) (auto simp: Let_def)

definition consistent_report :: "fidelity_report \<Rightarrow> bool" where
  "consistent_report r =
     (numbers_checked r = numbers_supported r + length (unsupported_numbers r) \<and> sentences_cited r \<le> sentences r
      \<and> quotes_checked r = quotes_verbatim r + length (bad_quotes r))"

lemma sentences_consistent: "consistent_report r \<Longrightarrow> consistent_report (foldl check_sentence r ss)"
  by (induction ss arbitrary: r) (auto simp: consistent_report_def check_sentence_def Let_def)

lemma quotes_consistent: "consistent_report r \<Longrightarrow> consistent_report (foldl (check_quote h) r ms)"
  by (induction ms arbitrary: r) (auto simp: consistent_report_def check_quote_def Let_def)

lemma ratio_range: "part \<le> whole \<Longrightarrow> case ratio part whole of None \<Rightarrow> whole = 0 | Some q \<Rightarrow> 0 \<le> q \<and> q \<le> 1"
  by (simp add: ratio_def divide_le_eq_1)

text \<open>A fidelity report adds up. Every checked figure is supported or listed as unsupported, every checked
quotation is verbatim or listed, no more sentences are cited than there are, and each score is absent exactly when
nothing was checked and otherwise between 0 and 1.\<close>

theorem fidelity_report_adds_up:
  "consistent_report (check_answer ans contexts)
   \<and> (case numeric_fidelity (check_answer ans contexts) of
        None \<Rightarrow> numbers_checked (check_answer ans contexts) = 0 | Some q \<Rightarrow> 0 \<le> q \<and> q \<le> 1)
   \<and> (case citation_coverage (check_answer ans contexts) of
        None \<Rightarrow> sentences (check_answer ans contexts) = 0 | Some q \<Rightarrow> 0 \<le> q \<and> q \<le> 1)
   \<and> (case quote_fidelity (check_answer ans contexts) of
        None \<Rightarrow> quotes_checked (check_answer ans contexts) = 0 | Some q \<Rightarrow> 0 \<le> q \<and> q \<le> 1)"
proof -
  have "consistent_report (check_answer ans contexts)"
  proof (cases "ans = []")
    case True
    then show ?thesis by (simp add: check_answer_def empty_report_def consistent_report_def)
  next
    case False
    have "consistent_report (check_numbers h [] raws empty_report)" for h raws
      using check_numbers_counts [of empty_report h "[]" raws] by (simp add: empty_report_def consistent_report_def)
    then show ?thesis
      unfolding check_answer_def Let_def using False by (simp add: sentences_consistent quotes_consistent)
  qed
  then show ?thesis
    unfolding numeric_fidelity_def citation_coverage_def quote_fidelity_def consistent_report_def
    by (intro conjI ratio_range) simp_all
qed

text \<open>A figure counts as supported when it is only part of another: the invented \<open>24\<close> of an answer is
supported by a passage whose only figure is \<open>2024\<close>.\<close>

theorem substring_counts_as_support:
  "numbers_supported (check_answer ''It was 24.'' [''In 2024'']) = 1
   \<and> unsupported_numbers (check_answer ''It was 24.'' [''In 2024'']) = []"
  by code_simp

section \<open>Witnesses\<close>

definition sample_result :: "uuid \<Rightarrow> string \<Rightarrow> retrieved_chunk" where
  "sample_result i t =
     \<lparr> rc_chunk_id = i, rc_document_id = i, rc_filename = i @ ''.pdf'', rc_text = t, rc_page_number = Some 1,
       rc_section_heading = None, rc_is_table = False, rc_score = 1 / 61, rc_token_count = 3, rc_truncated = False,
       rc_semantic_rank = Some 1, rc_lexical_rank = None, rc_similarity = Some 1, rc_rerank_score = None,
       rc_fusion_rank = None \<rparr>"

definition sample_settings :: answer_settings where
  "sample_settings = \<lparr> boundary = \<lparr> GENERATION_INCLUDE_RESTRICTED = False, GATEWAY_REDACT = True \<rparr>, GENERATION_MAX_PASSAGES = 8 \<rparr>"

definition sample_model :: provider where
  "sample_model = \<lparr> model_name = ''m'', endpoint = None, complete = (\<lambda>s u. Inr (''Clean [1] [7].'', 5, 4)) \<rparr>"

theorem restricted_sources_stay_inside_witness:
  "answer sample_settings sample_model ''Is it?'' [sample_result ''a'' ''air'', sample_result ''b'' ''secret''] True
      (Some [Some ''PUBLIC'', Some ''RESTRICTED''])
   = answer sample_settings sample_model ''Is it?'' [sample_result ''a'' ''air'', sample_result ''c'' ''other''] True
      (Some [Some ''PUBLIC'', Some ''RESTRICTED''])"
  by (rule restricted_sources_stay_inside) (auto simp: sample_settings_def less_Suc_eq)


end
