(* ===== verification/Evaluation.thy ===== *)
theory Evaluation
  imports Generation StageHandlers PyNumber Scripts
begin

text \<open>The evaluation scripts: \<open>build_eval_set.py\<close> drafts questions from stored passages, \<open>run_eval.py\<close> scores retrieval on them,
\<open>run_ragas.py\<close> collects what a second model judges, \<open>run_quality_suite.py\<close> checks the system's own output, and \<open>compare_extraction.py\<close> compares what is
stored with what the present code would make of it. Command lines,
printing, latencies and the judge are left out; the order \<open>random.Random\<close> gives a list and the model that phrases a question
are parameters. The rupee sign is outside the modelled alphabet.\<close>

section \<open>Scoring retrieval\<close>

fun rank_from :: "nat \<Rightarrow> string \<Rightarrow> retrieved_chunk list \<Rightarrow> nat option" where
  "rank_from i expected [] = None"
| "rank_from i expected (h # hs) =
     (if after_last (CHR ''/'') (rc_filename h) = expected then Some i else rank_from (Suc i) expected hs)"

definition rank_of :: "string \<Rightarrow> retrieved_chunk list \<Rightarrow> nat option" where
  "rank_of expected hits = rank_from 1 expected hits"

record eval_question =
  eq_question :: string
  eq_expect_document :: string

record eval_result =
  ev_label :: string
  ev_n :: nat
  ev_hit_1 :: rat
  ev_hit_5 :: rat
  ev_hit_k :: rat
  ev_mrr :: rat
  ev_misses :: "eval_question list"

text \<open>\<open>viewer\<close> is the throwaway administrator; a search that raises ends the run.\<close>

definition admin_search ::
  "retrieval_env \<Rightarrow> uuid \<Rightarrow> nat \<Rightarrow> SearchMode \<Rightarrow> bool option \<Rightarrow> world \<Rightarrow> string \<Rightarrow> (string, retrieved_chunk list) result" where
  "admin_search env who limit mode wanted w question =
     bind_result (search env question \<lparr> viewer = Some who, viewer_is_admin = True, scope_ids = [] \<rparr> limit mode wanted w)
       (\<lambda>(hits, usage). Inr hits)"

definition share :: "nat \<Rightarrow> rat \<Rightarrow> rat" where
  "share n x = (if n = 0 then 0 else x / of_nat n)"

definition score :: "string \<Rightarrow> eval_question list \<Rightarrow> nat option list \<Rightarrow> eval_result" where
  "score name qs ranks =
     (let found = List.map_filter id ranks; n = length ranks in
      \<lparr> ev_label = name, ev_n = n,
        ev_hit_1 = share n (of_nat (length (filter (\<lambda>r. r = 1) found))),
        ev_hit_5 = share n (of_nat (length (filter (\<lambda>r. r \<le> 5) found))),
        ev_hit_k = share n (of_nat (length found)),
        ev_mrr = share n (sum_list (map (\<lambda>r. 1 / of_nat r) found)),
        ev_misses = map fst (filter (\<lambda>(q, r). r = None) (zip qs ranks)) \<rparr>)"

definition evaluate ::
  "retrieval_env \<Rightarrow> uuid \<Rightarrow> eval_question list \<Rightarrow> SearchMode \<Rightarrow> bool \<Rightarrow> nat \<Rightarrow> string \<Rightarrow> world \<Rightarrow> (string, eval_result) result" where
  "evaluate env who qs mode reranking limit name w =
     bind_result
       (map_result (\<lambda>q. bind_result (admin_search env who limit mode (Some reranking) w (eq_question q))
          (\<lambda>hits. Inr (rank_of (eq_expect_document q) hits))) qs)
       (\<lambda>ranks. Inr (score name qs ranks))"

definition compared_runs :: "(SearchMode \<times> bool \<times> string) list" where
  "compared_runs =
     [(HYBRID, True, ''hybrid + rerank  (shipped)''), (HYBRID, False, ''hybrid, no rerank''), (SEMANTIC, False, ''semantic only''),
      (LEXICAL, False, ''lexical only (BM25)'')]"

definition compare_configurations ::
  "retrieval_env \<Rightarrow> uuid \<Rightarrow> eval_question list \<Rightarrow> nat \<Rightarrow> world \<Rightarrow> (string, eval_result list) result" where
  "compare_configurations env who qs limit w =
     map_result (\<lambda>(mode, reranking, name). evaluate env who qs mode reranking limit name w) compared_runs"

section \<open>Drafting questions\<close>

definition MIN_CHARS :: nat where "MIN_CHARS = 320"
definition MAX_CHARS :: nat where "MAX_CHARS = 2400"

definition eligible_rows :: "world \<Rightarrow> (chunk \<times> document) list" where
  "eligible_rows w =
     sort_key (\<lambda>(c, d). (chunk_document_id c, chunk_index c))
       (filter (\<lambda>(c, d). status d = LIVE \<and> deleted_at d = None \<and> MIN_CHARS \<le> length (chunk_text c)
          \<and> length (chunk_text c) \<le> MAX_CHARS \<and> \<not> is_table c) (passages w))"

text \<open>The groups of \<open>by_doc\<close>, in the order of their first rows. The rows of a document are adjacent.\<close>

definition by_document :: "(chunk \<times> document) list \<Rightarrow> (chunk \<times> document) list list" where
  "by_document rows =
     map (\<lambda>i. filter (\<lambda>(c, d). chunk_document_id c = i) rows) (remdups (map (\<lambda>(c, d). chunk_document_id c) rows))"

text \<open>\<open>shuffle n\<close> is the effect of the \<open>n\<close>-th call of the seeded generator's \<open>shuffle\<close>.\<close>

definition candidates ::
  "(nat \<Rightarrow> (chunk \<times> document) list \<Rightarrow> (chunk \<times> document) list) \<Rightarrow> nat \<Rightarrow> world \<Rightarrow> (chunk \<times> document) list" where
  "candidates shuffle per_document w =
     (let groups = by_document (filter (\<lambda>(c, d). \<not> prose_ratio_below (9, 20) (chunk_text c)) (eligible_rows w));
          picked = concat (map (\<lambda>(n, g). take per_document (shuffle n g)) (zip [0..<length groups] groups))
      in shuffle (length groups) picked)"

definition literal :: "string \<Rightarrow> re" where "literal w = cat (map lit w)"

definition one_of :: "re list \<Rightarrow> re" where "one_of rs = foldr Or (butlast rs) (last rs)"

definition dotted :: "char \<Rightarrow> re" where
  "dotted c = Cat (Cls (\<lambda>x. lower_char x = c)) (opt (lit (CHR ''.'')))"

definition spaces :: re where "spaces = plus (Cls is_space)"
definition space_opt :: re where "space_opt = opt (Cls is_space)"

definition DEADLINE :: re where
  "DEADLINE =
     cat [WordBoundary, one_of (map word_nocase [''by'', ''before'', ''upto'', ''up to'']), spaces,
          Or (cat [between 1 2 (Cls is_decimal), opt (one_of (map word_nocase [''st'', ''nd'', ''rd'', ''th''])), spaces,
                   plus (Cls is_word), spaces, exactly 4 (Cls is_decimal)])
             (cat [plus (Cls is_word), spaces, exactly 4 (Cls is_decimal)])]"

definition CATEGORY_RE :: re where
  "CATEGORY_RE = cat [WordBoundary, literal ''Category'', spaces, Cls (\<lambda>c. c \<in> set ''ABC''), WordBoundary]"

definition AMOUNT :: re where
  "AMOUNT =
     cat [WordBoundary, word_nocase ''rs'', opt (lit (CHR ''.'')), space_opt, plus (Cls (\<lambda>c. is_decimal c \<or> c = CHR ''.'')),
          opt (Cat space_opt (one_of (map word_nocase [''per unit'', ''paise'', ''crore'', ''lakh''])))]"

definition SECTION_RE :: re where
  "SECTION_RE = cat [WordBoundary, literal ''Section'', spaces, plus (Cls is_decimal), opt (Cls is_upper_ascii), WordBoundary]"

definition NOTIFICATION :: re where
  "NOTIFICATION =
     cat [WordBoundary, Or (Cat (dotted (CHR ''s'')) (dotted (CHR ''o''))) (cat (map dotted ''gsr'')), space_opt,
          plus (Cls is_decimal), space_opt, word_nocase ''(e)'']"

definition CAPACITY :: re where
  "CAPACITY =
     cat [WordBoundary, between 1 3 (Cls is_decimal), star (Cat (lit (CHR '','')) (between 2 3 (Cls is_decimal))), space_opt,
          literal ''MW'', WordBoundary]"

definition ABBREVIATION :: re where
  "ABBREVIATION =
     cat [WordBoundary, one_of (map literal [''FGD'', ''CEMS'', ''SO2'', ''NOx'', ''ESP'', ''SNCR'', ''SCR'']), WordBoundary]"

text \<open>A pattern, what its group 1 is of the match, the template before and after the group, and what it tests. Only the first
pattern's group leaves something out: the preposition.\<close>

definition after_preposition :: "string \<Rightarrow> string" where
  "after_preposition m =
     (case filter (\<lambda>p. startswith (lower m) p) [''before'', ''upto'', ''up to'', ''by''] of
        [] \<Rightarrow> m
      | p # _ \<Rightarrow> lstrip (drop (length p) m))"

definition question_patterns :: "(re \<times> (string \<Rightarrow> string) \<times> string \<times> string \<times> string) list" where
  "question_patterns =
     [(DEADLINE, after_preposition, ''What is the deadline of '', '' for?'', ''a date''),
      (CATEGORY_RE, id, ''What applies to '', '' thermal power plants?'', ''a category''),
      (AMOUNT, id, ''What is '', '' charged for?'', ''an amount''),
      (SECTION_RE, id, ''What does '', '' provide for?'', ''a section reference''),
      (NOTIFICATION, id, ''What does notification '', '' cover?'', ''a notification number''),
      (CAPACITY, id, ''What does the figure '', '' refer to?'', ''a capacity figure''),
      (ABBREVIATION, id, ''What does this corpus say about '', ''?'', ''an abbreviation'')]"

definition ask_pattern :: "string \<Rightarrow> re \<times> (string \<Rightarrow> string) \<times> string \<times> string \<times> string \<Rightarrow> (string \<times> string) list" where
  "ask_pattern body p =
     (case p of (pattern, group1, before, after, tests) \<Rightarrow>
        case finditer pattern body of [] \<Rightarrow> [] | (i, m) # _ \<Rightarrow> [(before @ strip (group1 m) @ after, tests)])"

definition derive :: "chunk \<Rightarrow> (string \<times> string) list" where
  "derive c =
     (let heading = strip (case section_heading c of None \<Rightarrow> [] | Some h \<Rightarrow> h) in
      concat (map (ask_pattern (chunk_text c)) question_patterns)
      @ (if heading \<noteq> [] \<and> 8 < length heading \<and> length heading < 90 \<and> \<not> is_digit (hd heading)
         then [(''What does the corpus say about '' @ heading @ ''?'', ''a section heading'')] else []))"

text \<open>The reply of the phrasing model: \<open>None\<close> without a key, on a fault or an error status, else its content.\<close>

definition strip_char :: "char \<Rightarrow> string \<Rightarrow> string" where
  "strip_char c s = rev (dropWhile (\<lambda>x. x = c) (rev (dropWhile (\<lambda>x. x = c) s)))"

definition with_model :: "string option option \<Rightarrow> string option" where
  "with_model reply =
     (case reply of
        None \<Rightarrow> None
      | Some content \<Rightarrow>
          (let q = hd (split_on NL (strip_char DQ (strip (case content of None \<Rightarrow> [] | Some t \<Rightarrow> t)))) in if q = [] then None else Some q))"

record eval_item =
  ei_id :: nat
  ei_question :: string
  ei_tests :: string
  ei_expect_document :: string
  ei_expect_page :: "nat option"
  ei_expect_section :: "string option"
  ei_source :: chunk
  ei_read_by :: string

definition question_key :: "string \<Rightarrow> string" where "question_key q = strip (lower q)"

definition add_question ::
  "nat \<Rightarrow> chunk \<times> document \<Rightarrow> eval_item list \<times> string list \<Rightarrow> string \<times> string \<Rightarrow> eval_item list \<times> string list" where
  "add_question wanted row st q =
     (case row of (c, d) \<Rightarrow> case st of (items, seen) \<Rightarrow> case q of (question, tests) \<Rightarrow>
        if question_key question \<in> set seen \<or> wanted \<le> length items then (items, seen)
        else
          (items @ [\<lparr> ei_id = length items + 1, ei_question = question, ei_tests = tests,
               ei_expect_document = after_last (CHR ''/'') (filename d), ei_expect_page = page_number c,
               ei_expect_section = section_heading c, ei_source = c,
               ei_read_by = (case extraction_method d of None \<Rightarrow> ''NATIVE'' | Some m \<Rightarrow> if m = [] then ''NATIVE'' else m) \<rparr>],
           question_key question # seen))"

definition questions_of :: "(chunk \<Rightarrow> string option option) option \<Rightarrow> chunk \<Rightarrow> (string \<times> string) list" where
  "questions_of phrasing c =
     (case Option.bind phrasing (\<lambda>ask. with_model (ask c)) of
        Some q \<Rightarrow> [(q, ''model-phrased'')]
      | None \<Rightarrow> derive c)"

definition build_eval_set ::
  "(chunk \<Rightarrow> string option option) option \<Rightarrow> nat \<Rightarrow> (chunk \<times> document) list \<Rightarrow> eval_item list" where
  "build_eval_set phrasing wanted pool =
     fst (foldl (\<lambda>st row. if wanted \<le> length (fst st) then st
                 else foldl (add_question wanted row) st (questions_of phrasing (fst row))) ([], []) pool)"

section \<open>Collecting samples for a judge\<close>

definition public_only :: "world \<Rightarrow> retrieved_chunk list \<Rightarrow> retrieved_chunk list" where
  "public_only w results =
     filter (\<lambda>r. Option.bind (find_doc (rc_document_id r) (documents w)) classification = Some PUBLIC) results"

record judged_sample =
  js_user_input :: string
  js_response :: string
  js_retrieved_contexts :: "string list"

record collected =
  co_samples :: "judged_sample list"
  co_skipped :: "string list"
  co_masked :: "(string \<times> nat) list"

definition add_masked :: "(string \<times> nat) list \<Rightarrow> masked_value \<Rightarrow> (string \<times> nat) list" where
  "add_masked counts m =
     AList.update (mv_label m) ((case map_of counts (mv_label m) of None \<Rightarrow> 0 | Some n \<Rightarrow> n) + mv_count m) counts"

definition add_sample ::
  "retrieval_env \<Rightarrow> answer_settings \<Rightarrow> provider \<Rightarrow> uuid \<Rightarrow> nat \<Rightarrow> world \<Rightarrow> string \<Rightarrow> collected \<Rightarrow> (string, collected) result" where
  "add_sample env cfg prov who limit w question st =
     bind_result (admin_search env who limit HYBRID None w question) (\<lambda>found.
       let hits = public_only w found; skip = st\<lparr> co_skipped := co_skipped st @ [question] \<rparr> in
       if \<not> fst (assess env hits question) \<or> hits = [] then Inr skip
       else bind_result (answer cfg prov question hits True (Some (replicate (length hits) (Some ''PUBLIC'')))) (\<lambda>a.
         if ga_answer a = [] then Inr skip
         else
           let (contexts, masked) = redact (map rc_text (take (GENERATION_MAX_PASSAGES cfg) hits)) in
           Inr (st\<lparr> co_samples := co_samples st @ [\<lparr> js_user_input = question, js_response = ga_answer a,
                                                      js_retrieved_contexts = contexts \<rparr>],
                    co_masked := foldl add_masked (co_masked st) masked \<rparr>)))"

fun build_samples_from ::
  "retrieval_env \<Rightarrow> answer_settings \<Rightarrow> provider \<Rightarrow> uuid \<Rightarrow> nat \<Rightarrow> world \<Rightarrow> string list \<Rightarrow> collected \<Rightarrow> (string, collected) result" where
  "build_samples_from env cfg prov who limit w [] st = Inr st"
| "build_samples_from env cfg prov who limit w (q # qs) st =
     bind_result (add_sample env cfg prov who limit w q st) (build_samples_from env cfg prov who limit w qs)"

definition build_samples ::
  "retrieval_env \<Rightarrow> answer_settings \<Rightarrow> provider \<Rightarrow> uuid \<Rightarrow> string list \<Rightarrow> nat \<Rightarrow> nat \<Rightarrow> world \<Rightarrow> (string, collected) result" where
  "build_samples env cfg prov who questions limit n_passages w =
     build_samples_from env cfg prov who n_passages w (take limit questions) \<lparr> co_samples = [], co_skipped = [], co_masked = [] \<rparr>"

section \<open>Checks without a judge\<close>

record suite_result =
  su_name :: string
  su_total :: nat
  su_failures :: nat

text \<open>\<open>ask\<close> of the suite: an answer unless nothing was grounded, the passages, and the best similarity.\<close>

definition suite_ask ::
  "retrieval_env \<Rightarrow> answer_settings \<Rightarrow> provider \<Rightarrow> uuid \<Rightarrow> nat \<Rightarrow> world \<Rightarrow> string
     \<Rightarrow> (string, generated_answer option \<times> retrieved_chunk list \<times> rat option) result" where
  "suite_ask env cfg prov who limit w question =
     bind_result (admin_search env who limit HYBRID None w question) (\<lambda>hits.
       case assess env hits question of (grounded, best) \<Rightarrow>
         if \<not> grounded \<or> hits = [] then Inr (None, hits, best)
         else bind_result (answer cfg prov question hits True (Some (replicate (length hits) (Some ''PUBLIC'')))) (\<lambda>a.
           Inr (Some a, hits, best)))"

definition HEDGES :: "string list" where
  "HEDGES = [''do not'', ''does not'', ''no mention'', ''not mention'', ''not specify'', ''cannot'', ''no information'']"

definition hedged :: "generated_answer \<Rightarrow> bool" where
  "hedged a = list_ex (\<lambda>p. contains p (lower (ga_answer a))) HEDGES"

definition suite_refusal ::
  "(string \<Rightarrow> (string, generated_answer option \<times> retrieved_chunk list \<times> rat option) result) \<Rightarrow> string list
     \<Rightarrow> (string, suite_result) result" where
  "suite_refusal asks cases =
     bind_result (map_result asks cases) (\<lambda>outcomes.
       Inr \<lparr> su_name = ''refusal'', su_total = length cases,
             su_failures = length (filter (\<lambda>(a, hits, best). case a of None \<Rightarrow> False | Some a \<Rightarrow> \<not> hedged a) outcomes) \<rparr>)"

definition unsound_citations :: "generated_answer \<Rightarrow> nat" where
  "unsound_citations a =
     (if ga_invalid_markers a \<noteq> [] then 1 else 0) + (if list_ex (\<lambda>c. ct_filename c = []) (ga_citations a) then 1 else 0)"

definition suite_citations ::
  "(string \<Rightarrow> (string, generated_answer option \<times> retrieved_chunk list \<times> rat option) result) \<Rightarrow> string list
     \<Rightarrow> (string, suite_result) result" where
  "suite_citations asks cases =
     bind_result (map_result asks cases) (\<lambda>outcomes.
       let answered = List.map_filter fst outcomes in
       Inr \<lparr> su_name = ''citations'', su_total = length answered, su_failures = sum_list (map unsound_citations answered) \<rparr>)"

definition MASKING_CASES :: "(string \<times> string) list" where
  "MASKING_CASES =
     [(''Call the nodal officer on +91 98765 43210 for the schedule.'', ''98765''),
      (''Reach him at 9876543210 regarding compliance.'', ''9876543210''),
      (''Tel:011-23063746 is the direct line.'', ''23063746''),
      (''Contact 011 2306 3746 during office hours.'', ''2306''),
      (''Write to rajesh.kumar@cpcb.nic.in about the notice.'', ''rajesh.kumar''),
      (''The PAN on record is ABCDE1234F.'', ''ABCDE1234F''),
      (''Registered under GSTIN 27ABCDE1234F1Z5.'', ''27ABCDE1234F1Z5''),
      (''Transfer to branch SBIN0001234.'', ''SBIN0001234''),
      (''Call +91 98765 43210 or email ops@a-pag.org, PAN ABCDE1234F.'', ''ops@a-pag.org'')]"

definition MASKING_NEGATIVES :: "string list" where
  "MASKING_NEGATIVES =
     [''environmental compensation of Rs. 0.20, 0.30, or 0.40 per unit electricity generated'',
      ''non-compliant operation beyond 0-180 days attracts the lower rate'',
      ''MoEF&CC Notification dated 05.09.2022 and 31.03.2021'',
      ''bids awarded in 233 units (1,02,040 MW) of a total 537 units (2,04,160 MW)'',
      ''the average time taken for FGD installation after award is around 36-40 months'',
      ''No 10/1/2024-St.Th. (C. No. 273912)'',
      ''Section 5 of the Environment (Protection) Act, 1986 (29 of 1986)'',
      ''current annual installation capacity is around 16-20 GW per annum (33-39 units)'']"

definition leaks :: "string \<times> string \<Rightarrow> bool" where
  "leaks c = contains (snd c) (hd (fst (redact [fst c])))"

definition suite_masking :: suite_result where
  "suite_masking =
     \<lparr> su_name = ''masking'', su_total = length MASKING_CASES + length MASKING_NEGATIVES,
       su_failures = length (filter leaks MASKING_CASES) + length (filter (\<lambda>s. snd (redact [s]) \<noteq> []) MASKING_NEGATIVES) \<rparr>"

text \<open>What the spy of the isolation suite was given, if it was called.\<close>

definition spy :: provider where
  "spy = \<lparr> model_name = ''spy'', endpoint = None, complete = (\<lambda>system user. Inr (''answer'', 10, 5)) \<rparr>"

definition spy_saw :: "gateway_settings \<Rightarrow> ((nat \<times> string) list \<Rightarrow> string) \<Rightarrow> string list \<Rightarrow> string option list \<Rightarrow> string option" where
  "spy_saw cfg build_user bodies tiers =
     (case prepare_crossing cfg spy bodies tiers of Inl e \<Rightarrow> None | Inr (pairs, rec) \<Rightarrow> Some (build_user pairs))"

definition isolation_cases :: "string option list list" where
  "isolation_cases =
     [[Some ''PUBLIC'', Some ''RESTRICTED''], [Some ''PUBLIC'', None], [Some ''PUBLIC'', Some ''INTERNAL'']]"

definition isolation_leaks :: "gateway_settings \<Rightarrow> string option list \<Rightarrow> bool" where
  "isolation_leaks cfg tiers =
     (case send cfg spy (\<lambda>kept. join [NL] (map snd kept)) ''sys'' [''public one'', ''SECRET BODY''] tiers of
        Inl e \<Rightarrow> False
      | Inr x \<Rightarrow> contains ''SECRET BODY''
          (case spy_saw cfg (\<lambda>kept. join [NL] (map snd kept)) [''public one'', ''SECRET BODY''] tiers of None \<Rightarrow> [] | Some s \<Rightarrow> s))"

definition restricted_is_sent :: "gateway_settings \<Rightarrow> bool" where
  "restricted_is_sent cfg =
     (\<not> isl (send cfg spy (\<lambda>kept. ''x'') ''sys'' [''a'', ''b''] [Some ''RESTRICTED'', Some ''RESTRICTED'']))"

definition suite_isolation :: "gateway_settings \<Rightarrow> suite_result" where
  "suite_isolation cfg =
     \<lparr> su_name = ''isolation'', su_total = length isolation_cases + 1,
       su_failures = length (filter (isolation_leaks cfg) isolation_cases) + (if restricted_is_sent cfg then 1 else 0) \<rparr>"

definition suite_fidelity ::
  "(string \<Rightarrow> (string, generated_answer option \<times> retrieved_chunk list \<times> rat option) result) \<Rightarrow> nat \<Rightarrow> string list \<Rightarrow> nat
     \<Rightarrow> (string, suite_result) result" where
  "suite_fidelity asks max_passages questions n =
     bind_result (map_result asks (take n questions)) (\<lambda>outcomes.
       let reports = List.map_filter (\<lambda>(a, hits, best). case a of
               None \<Rightarrow> None
             | Some a \<Rightarrow> if ga_answer a = [] then None
                         else Some (check_answer (ga_answer a) (map rc_text (take max_passages hits)))) outcomes;
           checked = sum_list (map numbers_checked reports)
       in Inr \<lparr> su_name = ''fidelity'', su_total = checked,
                su_failures = checked - sum_list (map numbers_supported reports) \<rparr>)"

definition suite_consistency ::
  "(string \<Rightarrow> (string, retrieved_chunk list) result) \<Rightarrow> (string \<Rightarrow> (string, retrieved_chunk list) result) \<Rightarrow> string list
     \<Rightarrow> (string, suite_result) result" where
  "suite_consistency first_time second_time questions =
     bind_result (map_result (\<lambda>q. bind_result (first_time q) (\<lambda>a. bind_result (second_time q) (\<lambda>b.
         Inr (map rc_chunk_id a = map rc_chunk_id b)))) (take 4 questions))
       (\<lambda>sames. Inr \<lparr> su_name = ''consistency'', su_total = 4, su_failures = length (filter Not sames) \<rparr>)"

section \<open>Comparing an extraction with what is stored\<close>

definition effective_language :: "stage_env \<Rightarrow> normalization_result \<Rightarrow> string option" where
  "effective_language env r =
     (if prose_ratio_below (EMBEDDING_MIN_PROSE_RATIO env) (nr_full_text r) then Some ''en'' else nr_language r)"

text \<open>The filters of the command line; an empty list or string, or a limit of zero, filters nothing.\<close>

record compare_args =
  ca_mimes :: "string list"
  ca_method :: "string option"
  ca_document_ids :: "uuid list"
  ca_skip_larger_than :: "nat option"

definition compared_documents :: "compare_args \<Rightarrow> world \<Rightarrow> document list" where
  "compared_documents a w =
     sort_key (\<lambda>d. (mime_type d, filename d))
       (filter (\<lambda>d. deleted_at d = None \<and> status d = LIVE
          \<and> (ca_mimes a = [] \<or> mime_type d \<in> set (ca_mimes a))
          \<and> (case ca_method a of None \<Rightarrow> True | Some [] \<Rightarrow> True | Some m \<Rightarrow> extraction_method d = Some m)
          \<and> (ca_document_ids a = [] \<or> doc_id d \<in> set (ca_document_ids a))) (documents w))"

definition too_large :: "compare_args \<Rightarrow> document \<Rightarrow> bool" where
  "too_large a d =
     (case ca_skip_larger_than a of
        None \<Rightarrow> False
      | Some n \<Rightarrow> n \<noteq> 0 \<and> n < (case page_count d of None \<Rightarrow> 0 | Some k \<Rightarrow> k))"

record comparison =
  cp_document_id :: uuid
  cp_old_language :: "string option"
  cp_new_language :: "string option"
  cp_old_passed :: bool
  cp_new_passed :: bool
  cp_old_passages :: nat
  cp_new_passages :: nat

text \<open>One document, with \<open>Chunker()\<close> as it is constructed there; an artifact, object or extraction that raises ends the run.\<close>

definition compare_document :: "stage_env \<Rightarrow> world \<Rightarrow> document \<Rightarrow> (string, comparison) result" where
  "compare_document env w d =
     (case load_normalized_result env (doc_id d) w of
        None \<Rightarrow> Inl ''unreadable artifact''
      | Some old \<Rightarrow>
          (case Option.bind (raw_path d) (\<lambda>path. read_object env RAW_BUCKET (raw_key path) w) of
             None \<Rightarrow> Inl ''unreadable object''
           | Some data \<Rightarrow>
               (case extract_content (extraction env) (doc_id d) data (mime_type d) of
                  Inl e \<Rightarrow> Inl ''extraction failed''
                | Inr extracted \<Rightarrow>
                    let new = normalize (text_tools env) extracted in
                    Inr \<lparr> cp_document_id = doc_id d, cp_old_language = effective_language env old,
                          cp_new_language = effective_language env new,
                          cp_old_passed = qc_passed (nr_quality old), cp_new_passed = qc_passed (nr_quality new),
                          cp_old_passages = length (load_chunks (doc_id d) w),
                          cp_new_passages = length (chunk_document (character_budget None None) new) \<rparr>)))"

definition flips :: "comparison \<Rightarrow> bool" where
  "flips c = (cp_old_language c \<noteq> cp_new_language c \<or> cp_old_passed c \<noteq> cp_new_passed c)"

text \<open>The exit code: whether a document would flip.\<close>

definition compare_extraction :: "stage_env \<Rightarrow> compare_args \<Rightarrow> world \<Rightarrow> (string, nat) result" where
  "compare_extraction env a w =
     bind_result (map_result (compare_document env w) (filter (\<lambda>d. \<not> too_large a d) (compared_documents a w)))
       (\<lambda>cs. Inr (if list_ex flips cs then 1 else 0))"

text \<open>The comparison judges a language as the EMBED stage does, and a document that the present code reads and cleans to what is
stored does not flip.\<close>

lemma effective_language_is_detected:
  "load_normalized_result env i w = Some r \<Longrightarrow> effective_language env r = detected_language env i w"
  by (simp add: load_normalized_result_def detected_language_def effective_language_def DEFAULT_LANGUAGE_def)

theorem unchanged_code_does_not_flip:
  assumes "compare_document env w d = Inr c" "load_normalized_result env (doc_id d) w = Some old"
    and "\<And>path data ex. \<lbrakk> raw_path d = Some path; read_object env RAW_BUCKET (raw_key path) w = Some data;
        extract_content (extraction env) (doc_id d) data (mime_type d) = Inr ex \<rbrakk> \<Longrightarrow> normalize (text_tools env) ex = old"
  shows "\<not> flips c \<and> cp_old_language c = detected_language env (doc_id d) w"
proof -
  obtain path data ex where raw: "raw_path d = Some path" "read_object env RAW_BUCKET (raw_key path) w = Some data"
    "extract_content (extraction env) (doc_id d) data (mime_type d) = Inr ex"
    using assms(1,2) by (auto simp: compare_document_def bind_eq_Some_conv split: option.splits sum.splits)
  then show ?thesis
    using assms(1,2) assms(3) [OF raw] effective_language_is_detected [OF assms(2)]
    by (auto simp: compare_document_def flips_def Let_def)
qed

section \<open>Scores\<close>

lemma rank_from_bounds: "rank_from i e hs = Some r \<Longrightarrow> i \<le> r \<and> r < i + length hs"
  by (induction i e hs rule: rank_from.induct) (auto split: if_splits)

lemma rank_of_pos: "case rank_of e hs of None \<Rightarrow> True | Some k \<Rightarrow> 1 \<le> k"
  using rank_from_bounds [of 1 e hs] by (simp add: rank_of_def split: option.split)

lemma share_mono: "x \<le> y \<Longrightarrow> share n x \<le> share n y"
  by (simp add: share_def divide_right_mono)

lemma share_le_1: "share n (of_nat n) \<le> 1"
  by (simp add: share_def)

lemma length_filter_mono: "(\<And>x. P x \<Longrightarrow> Q x) \<Longrightarrow> length (filter P xs) \<le> length (filter Q xs)"
  by (induction xs) auto

lemma reciprocal_sum:
  fixes rs :: "nat list"
  assumes "\<forall>r\<in>set rs. 1 \<le> r"
  shows "of_nat (length (filter (\<lambda>r. r = 1) rs)) \<le> sum_list (map (\<lambda>r. 1 / of_nat r) rs :: rat list)
    \<and> sum_list (map (\<lambda>r. 1 / of_nat r) rs :: rat list) \<le> of_nat (length rs)"
  using assms
proof (induction rs)
  case (Cons r rs)
  then have "0 \<le> 1 / (of_nat r :: rat)" "1 / (of_nat r :: rat) \<le> 1" by (simp_all add: divide_le_eq)
  moreover have "of_nat (length (filter (\<lambda>r. r = 1) rs)) \<le> sum_list (map (\<lambda>r. 1 / of_nat r) rs :: rat list)"
    "sum_list (map (\<lambda>r. 1 / of_nat r) rs :: rat list) \<le> of_nat (length rs)" using Cons by simp_all
  ultimately show ?case by (cases "r = 1") (auto intro: add_increasing add_mono)
qed simp

lemma found_or_missed: "length (List.map_filter id ranks) + length (filter (\<lambda>r. r = None) ranks) = length ranks"
  by (induction ranks) (auto simp: List.map_filter_def)

lemma missed_pairs: "length qs = length ranks \<Longrightarrow> length (filter (\<lambda>(q, r). r = None) (zip qs ranks)) = length (filter (\<lambda>r. r = None) ranks)"
  by (induction qs ranks rule: list_induct2) auto

definition ordered_scores :: "nat \<Rightarrow> eval_result \<Rightarrow> bool" where
  "ordered_scores n r =
     (ev_n r = n \<and> 0 \<le> ev_hit_1 r \<and> ev_hit_1 r \<le> ev_hit_5 r \<and> ev_hit_5 r \<le> ev_hit_k r \<and> ev_hit_k r \<le> 1
      \<and> ev_hit_1 r \<le> ev_mrr r \<and> ev_mrr r \<le> ev_hit_k r
      \<and> ev_hit_k r * of_nat n + of_nat (length (ev_misses r)) = of_nat n)"

lemma score_ordered:
  assumes "length ranks = length qs" "\<forall>r\<in>set ranks. case r of None \<Rightarrow> True | Some k \<Rightarrow> 1 \<le> k"
  shows "ordered_scores (length qs) (score name qs ranks)"
proof -
  let ?found = "List.map_filter id ranks"
  have pos: "\<forall>r\<in>set ?found. 1 \<le> r" using assms(2) by (auto simp: List.map_filter_def)
  have count: "length ?found + length (ev_misses (score name qs ranks)) = length qs"
    using found_or_missed [of ranks] missed_pairs [of qs ranks] assms(1) by (simp add: score_def Let_def)
  then have "length ?found \<le> length ranks" using assms(1) by simp
  then have upper: "share (length ranks) (of_nat (length ?found)) \<le> 1"
    using share_mono [of "of_nat (length ?found)" "of_nat (length ranks)" "length ranks"] share_le_1 [of "length ranks"] by simp
  have five: "length (filter (\<lambda>r. r = 1) ?found) \<le> length (filter (\<lambda>r. r \<le> 5) ?found)" by (rule length_filter_mono) simp
  have exact: "share (length ranks) (of_nat (length ?found)) * of_nat (length ranks) = of_nat (length ?found)"
    using \<open>length ?found \<le> length ranks\<close> by (simp add: share_def)
  have "0 \<le> share (length ranks) (of_nat (length (filter (\<lambda>r. r = 1) ?found)))" by (simp add: share_def)
  then show ?thesis
    using assms(1) five upper exact reciprocal_sum [OF pos] count
    by (auto simp: ordered_scores_def score_def Let_def of_nat_add [symmetric] intro!: share_mono)
qed

text \<open>The scores of a run mean what they say: every question is counted, hit@1, hit@5 and the share found at all are ordered shares,
the reciprocal rank lies between the first and the last of them, and the misses are exactly the rest.\<close>

theorem evaluation_scores_are_ordered:
  "case evaluate env who qs mode reranking limit name w of Inl e \<Rightarrow> True | Inr r \<Rightarrow> ordered_scores (length qs) r"
proof (cases "evaluate env who qs mode reranking limit name w")
  case (Inr r)
  then obtain ranks where "r = score name qs ranks"
      "list_all2 (\<lambda>q x. \<exists>hits. admin_search env who limit mode (Some reranking) w (eq_question q) = Inr hits
         \<and> rank_of (eq_expect_document q) hits = x) qs ranks"
    by (auto simp: evaluate_def map_result_Inr)
  then have ranks: "r = score name qs ranks" "list_all2 (\<lambda>q x. \<exists>hits. x = rank_of (eq_expect_document q) hits) qs ranks"
    by (auto elim!: list_all2_mono)
  then have "length ranks = length qs" by (simp add: list_all2_lengthD)
  moreover have "\<forall>x\<in>set ranks. case x of None \<Rightarrow> True | Some k \<Rightarrow> 1 \<le> k"
  proof
    fix x assume "x \<in> set ranks"
    then obtain e hits where "x = rank_of e hits" using ranks(2) by (auto simp: list_all2_conv_all_nth in_set_conv_nth)
    then show "case x of None \<Rightarrow> True | Some k \<Rightarrow> 1 \<le> k" using rank_of_pos [of e hits] by simp
  qed
  ultimately show ?thesis using score_ordered by (simp add: Inr ranks(1))
qed simp

section \<open>The drafted questions\<close>

definition drawn_from :: "(chunk \<times> document) list \<Rightarrow> eval_item \<Rightarrow> bool" where
  "drawn_from pool it =
     (\<exists>(c, d)\<in>set pool. ei_source it = c \<and> ei_expect_document it = after_last (CHR ''/'') (filename d)
        \<and> ei_expect_page it = page_number c)"

definition drafting :: "nat \<Rightarrow> (chunk \<times> document) list \<Rightarrow> eval_item list \<times> string list \<Rightarrow> bool" where
  "drafting wanted pool st =
     (length (fst st) \<le> wanted \<and> map ei_id (fst st) = [1..<length (fst st) + 1]
      \<and> set (snd st) = (\<lambda>it. question_key (ei_question it)) ` set (fst st)
      \<and> distinct (map (\<lambda>it. question_key (ei_question it)) (fst st)) \<and> list_all (drawn_from pool) (fst st))"

lemma add_question_drafting:
  assumes "drafting wanted pool st" "row \<in> set pool"
  shows "drafting wanted pool (add_question wanted row st q)"
proof -
  obtain c d where row: "row = (c, d)" by (cases row)
  obtain items seen where st: "st = (items, seen)" by (cases st)
  obtain question tests where q: "q = (question, tests)" by (cases q)
  show ?thesis
  proof (cases "question_key question \<in> set seen \<or> wanted \<le> length items")
    case True
    then show ?thesis using assms(1) by (auto simp: add_question_def row st q)
  next
    case False
    have ids: "[1..<length items + 2] = [1..<length items + 1] @ [length items + 1]" by (simp add: numeral_2_eq_2)
    show ?thesis using assms False by (auto simp: add_question_def row st q drafting_def drawn_from_def ids)
  qed
qed

lemma build_drafting:
  assumes "set rows \<subseteq> set pool" "drafting wanted pool st"
  shows "drafting wanted pool (foldl (\<lambda>st row. if wanted \<le> length (fst st) then st
                 else foldl (add_question wanted row) st (questions_of phrasing (fst row))) st rows)"
  using assms
proof (induction rows arbitrary: st)
  case (Cons row rows)
  have "drafting wanted pool (foldl (add_question wanted row) st qs)" for qs
    using Cons.prems by (induction qs rule: rev_induct) (simp_all add: add_question_drafting)
  then show ?case using Cons by simp
qed simp

definition of_document :: "uuid \<Rightarrow> chunk \<times> document \<Rightarrow> bool" where
  "of_document i = (\<lambda>(c, d). chunk_document_id c = i)"

lemma capped_groups:
  assumes "\<And>n xs. mset (shuffle n xs) = mset xs" "distinct ds"
  shows "length (filter (of_document i) (concat (map (\<lambda>(n, j). take k (shuffle n (filter (of_document j) rows))) (zip ns ds)))) \<le> k
    \<and> (i \<notin> set ds \<longrightarrow> filter (of_document i) (concat (map (\<lambda>(n, j). take k (shuffle n (filter (of_document j) rows))) (zip ns ds))) = [])"
  using assms(2)
proof (induction ns ds rule: list_induct2')
  case (4 n ns j ds)
  let ?g = "take k (shuffle n (filter (of_document j) rows))"
  have inside: "of_document j x" if "x \<in> set ?g" for x
    using in_set_takeD [OF that] mset_eq_setD [OF assms(1) [of n "filter (of_document j) rows"]] by simp
  let ?rest = "filter (of_document i) (concat (map (\<lambda>(n, j). take k (shuffle n (filter (of_document j) rows))) (zip ns ds)))"
  have parts: "filter (of_document i) (concat (map (\<lambda>(n, j). take k (shuffle n (filter (of_document j) rows))) (zip (n # ns) (j # ds))))
      = filter (of_document i) ?g @ ?rest"
    by (simp only: zip_Cons_Cons list.map prod.case concat.simps filter_append)
  have small: "length (filter (of_document i) ?g) \<le> k" by (rule order_trans [OF length_filter_le]) simp
  have foreign: "filter (of_document i) ?g = []" if "i \<noteq> j"
    unfolding filter_empty_conv using inside that by (auto simp only: of_document_def split: prod.splits)
  have "length ?rest \<le> k" "i \<notin> set ds \<Longrightarrow> ?rest = []" "j \<notin> set ds" using 4 by (simp_all only: distinct.simps) auto
  with small foreign show ?case unfolding parts by (cases "i = j") (simp_all only: append_Nil append_Nil2 list.set insert_iff, auto)
qed simp_all

lemma candidates_capped:
  assumes "\<And>n xs. mset (shuffle n xs) = mset xs"
  shows "length (filter (of_document i) (candidates shuffle k w)) \<le> k"
proof -
  let ?rows = "filter (\<lambda>(c, d). \<not> prose_ratio_below (9, 20) (chunk_text c)) (eligible_rows w)"
  let ?ds = "remdups (map (\<lambda>(c, d). chunk_document_id c) ?rows)"
  let ?n = "length (by_document ?rows)"
  let ?picked = "concat (map (\<lambda>(n, j). take k (shuffle n (filter (of_document j) ?rows))) (zip [0..<?n] ?ds))"
  have groups: "by_document ?rows = map (\<lambda>j. filter (of_document j) ?rows) ?ds" by (simp add: by_document_def of_document_def)
  have "candidates shuffle k w = shuffle ?n ?picked"
    unfolding candidates_def Let_def groups zip_map2 by (simp add: comp_def case_prod_unfold)
  moreover have "length (filter P (shuffle m xs)) = length (filter P xs)" for P m xs
    by (metis assms mset_filter size_mset)
  ultimately show ?thesis using capped_groups [where shuffle = shuffle and ds = ?ds and i = i and k = k and rows = ?rows and ns = "[0..<?n]", OF assms] by simp
qed

lemma candidates_eligible:
  assumes "\<And>n xs. mset (shuffle n xs) = mset xs" "(c, d) \<in> set (candidates shuffle k w)"
  shows "(c, d) \<in> set (eligible_rows w)"
proof -
  have shuffled: "set (shuffle n xs) = set xs" for n xs by (rule mset_eq_setD [OF assms(1)])
  show ?thesis
    using assms(2) by (auto simp: candidates_def Let_def shuffled by_document_def dest!: in_set_takeD set_zip_rightD)
qed

text \<open>The drafted set is what it says: at most the number asked for, numbered from one, no question twice up to case and outer
spaces, each with the document and page of the passage it was written from; and no document gives more passages than the cap, all
of them from live documents that were not deleted.\<close>

theorem drafted_set_is_sound:
  assumes "\<And>n xs. mset (shuffle n xs) = mset xs"
  shows "let pool = candidates shuffle k w; items = build_eval_set phrasing wanted pool in
      length items \<le> wanted \<and> map ei_id items = [1..<length items + 1]
      \<and> distinct (map (\<lambda>it. question_key (ei_question it)) items) \<and> list_all (drawn_from pool) items
      \<and> length (filter (of_document i) pool) \<le> k
      \<and> (\<forall>(c, d)\<in>set pool. status d = LIVE \<and> deleted_at d = None \<and> find_doc (chunk_document_id c) (documents w) = Some d)"
proof -
  let ?pool = "candidates shuffle k w"
  have "drafting wanted ?pool ([], [])" by (simp add: drafting_def)
  from build_drafting [OF subset_refl this, of phrasing]
  have "drafting wanted ?pool (foldl (\<lambda>st row. if wanted \<le> length (fst st) then st
      else foldl (add_question wanted row) st (questions_of phrasing (fst row))) ([], []) ?pool)" .
  moreover have "\<forall>(c, d)\<in>set ?pool. status d = LIVE \<and> deleted_at d = None \<and> find_doc (chunk_document_id c) (documents w) = Some d"
    using candidates_eligible [OF assms] by (auto simp: eligible_rows_def passages_iff)
  ultimately show ?thesis using candidates_capped [OF assms] by (simp add: drafting_def build_eval_set_def Let_def)
qed

text \<open>The tier plays no part in what is drawn: the text of a \<open>RESTRICTED\<close> passage is offered to the phrasing model like any other.\<close>

lemma drafting_ignores_the_tier:
  "(c, d) \<in> set (eligible_rows w) \<longleftrightarrow>
     (c, d) \<in> set (passages w) \<and> status d = LIVE \<and> deleted_at d = None \<and> length (chunk_text c) \<in> {MIN_CHARS..MAX_CHARS} \<and> \<not> is_table c"
  by (auto simp: eligible_rows_def)

section \<open>The suites on the model\<close>

lemma masking_cases_masked: "filter leaks MASKING_CASES = []"
  by code_simp

lemma negatives_untouched: "filter (\<lambda>s. snd (redact [s]) \<noteq> []) MASKING_NEGATIVES = []"
  by code_simp

lemma spy_body_untouched: "redact [''public one''] = ([''public one''], [])"
  by code_simp

lemma only_the_public_body_crosses:
  assumes "\<not> GENERATION_INCLUDE_RESTRICTED cfg" "t \<noteq> Some ''PUBLIC''"
  shows "\<exists>rec. prepare_crossing cfg spy [''public one'', ''SECRET BODY''] [Some ''PUBLIC'', t] = Inr ([(0, ''public one'')], rec)"
  using assms by (cases "GATEWAY_REDACT cfg") (simp_all add: prepare_crossing_def spy_body_untouched Let_def)

lemma isolation_holds:
  assumes "\<not> GENERATION_INCLUDE_RESTRICTED cfg"
  shows "su_failures (suite_isolation cfg) = 0"
proof -
  have secret: "\<not> contains ''SECRET BODY'' ''public one''" by code_simp
  have cases: "\<not> isolation_leaks cfg [Some ''PUBLIC'', t]" if t: "t \<noteq> Some ''PUBLIC''" for t
  proof -
    obtain rec where "prepare_crossing cfg spy [''public one'', ''SECRET BODY''] [Some ''PUBLIC'', t] = Inr ([(0, ''public one'')], rec)"
      using only_the_public_body_crosses [OF assms t] by blast
    then show ?thesis using secret by (simp add: isolation_leaks_def spy_saw_def send_def split: sum.split)
  qed
  have "\<not> restricted_is_sent cfg" using assms by (simp add: restricted_is_sent_def send_def prepare_crossing_def)
  then show ?thesis using cases by (simp add: suite_isolation_def isolation_cases_def)
qed

text \<open>The repository's own masking and isolation suites pass on the model of the gateway.\<close>

theorem suites_pass:
  "su_failures suite_masking = 0 \<and> su_total suite_masking = 17
   \<and> su_failures (suite_isolation \<lparr> GENERATION_INCLUDE_RESTRICTED = False, GATEWAY_REDACT = r \<rparr>) = 0"
proof (intro conjI)
  have "length MASKING_CASES = 9" "length MASKING_NEGATIVES = 8" by (simp_all add: MASKING_CASES_def MASKING_NEGATIVES_def)
  then show "su_total suite_masking = 17" by (simp add: suite_masking_def)
  show "su_failures suite_masking = 0" by (simp only: suite_masking_def masking_cases_masked negatives_untouched) simp
qed (simp add: isolation_holds)

section \<open>What a judge is shown\<close>

definition from_public :: "world \<Rightarrow> retrieved_chunk \<Rightarrow> bool" where
  "from_public w r = (\<exists>d. find_doc (rc_document_id r) (documents w) = Some d \<and> classification d = Some PUBLIC)"

definition shows_public :: "world \<Rightarrow> judged_sample \<Rightarrow> bool" where
  "shows_public w s = (\<exists>us. js_retrieved_contexts s = fst (redact (map rc_text us)) \<and> list_all (from_public w) us)"

lemma public_only_public: "list_all (from_public w) (public_only w rs)"
  by (auto simp: public_only_def from_public_def list_all_iff bind_eq_Some_conv)

lemma add_sample_public:
  assumes "add_sample env cfg prov who limit w q st = Inr st'"
  shows "length (co_samples st') + length (co_skipped st') = Suc (length (co_samples st) + length (co_skipped st))
    \<and> (list_all (shows_public w) (co_samples st) \<longrightarrow> list_all (shows_public w) (co_samples st'))"
proof -
  obtain found where found: "admin_search env who limit HYBRID None w q = Inr found"
    using assms by (auto simp: add_sample_def)
  let ?hits = "public_only w found"
  let ?used = "take (GENERATION_MAX_PASSAGES cfg) ?hits"
  have used: "list_all (from_public w) ?used" using public_only_public [of w found] by (auto simp: list_all_iff dest: in_set_takeD)
  then have shown: "shows_public w \<lparr> js_user_input = q, js_response = a, js_retrieved_contexts = fst (redact (map rc_text ?used)) \<rparr>" for a
    by (auto simp: shows_public_def)
  show ?thesis
  proof (cases "\<not> fst (assess env ?hits q) \<or> ?hits = []")
    case True
    then show ?thesis using assms found by (auto simp: add_sample_def Let_def)
  next
    case False
    then obtain a where "answer cfg prov q ?hits True (Some (replicate (length ?hits) (Some ''PUBLIC''))) = Inr a"
      using assms found by (auto simp: add_sample_def Let_def)
    then show ?thesis using assms found False shown by (auto simp: add_sample_def Let_def case_prod_beta split: if_splits)
  qed
qed

lemma build_samples_public:
  "\<lbrakk> build_samples_from env cfg prov who limit w qs st = Inr st'; list_all (shows_public w) (co_samples st) \<rbrakk> \<Longrightarrow>
     length (co_samples st') + length (co_skipped st') = length (co_samples st) + length (co_skipped st) + length qs
     \<and> list_all (shows_public w) (co_samples st')"
proof (induction qs arbitrary: st)
  case (Cons q qs)
  then obtain mid where "add_sample env cfg prov who limit w q st = Inr mid"
    "build_samples_from env cfg prov who limit w qs mid = Inr st'" by auto
  then show ?case using Cons.IH [of mid] add_sample_public [of env cfg prov who limit w q st mid] Cons.prems(2) by simp
qed simp

text \<open>The samples for a judge: every question asked is counted, as a sample or as skipped, and what a sample shows the judge is the
redacted text of passages whose documents are marked \<open>PUBLIC\<close>.\<close>

theorem judges_see_only_public:
  "case build_samples env cfg prov who questions limit n w of
     Inl e \<Rightarrow> True
   | Inr st \<Rightarrow> length (co_samples st) + length (co_skipped st) = min limit (length questions)
       \<and> list_all (shows_public w) (co_samples st)"
proof (cases "build_samples env cfg prov who questions limit n w")
  case (Inr st)
  then show ?thesis using build_samples_public [of env cfg prov who n w "take limit questions"] by (simp add: build_samples_def min.commute)
qed simp

section \<open>What the quality suite sends\<close>

lemma all_public_crosses:
  assumes "ss \<noteq> []"
  shows "\<exists>sent rec. prepare_crossing cfg prov ss (replicate (length ss) (Some ''PUBLIC'')) = Inr (zip [0..<length ss] sent, rec)
    \<and> sent = (if GATEWAY_REDACT cfg then fst (redact ss) else ss) \<and> br_tier rec = ''PUBLIC''
    \<and> br_passages_sent rec = length ss \<and> br_passages_withheld_restricted rec = 0"
proof -
  let ?kept = "keep_public (GENERATION_INCLUDE_RESTRICTED cfg) 0 ss (replicate (length ss) (Some ''PUBLIC''))"
  have kept: "?kept = map (\<lambda>j. (j, ss ! j, Some ''PUBLIC'')) [0..<length ss]"
    using keep_public_positions [of ss "replicate (length ss) (Some ''PUBLIC'')" "GENERATION_INCLUDE_RESTRICTED cfg" 0]
    by (simp cong: map_cong filter_cong)
  have "?kept \<noteq> []" using assms by (simp add: kept)
  moreover have "map (\<lambda>k. fst (snd k)) ?kept = ss" "map fst ?kept = [0..<length ss]" by (simp_all add: kept o_def map_nth)
  moreover have "classify (map (\<lambda>k. snd (snd k)) ?kept) = ''PUBLIC''" by (rule classify_public) (auto simp: kept)
  ultimately show ?thesis
    by (cases "GATEWAY_REDACT cfg")
      (auto simp: prepare_crossing_def Let_def withheld_restricted_def redact_length case_prod_beta)
qed


definition echo :: provider where
  "echo = \<lparr> model_name = ''m'', endpoint = None, complete = (\<lambda>system user. Inr (user, 1, 1)) \<rparr>"


end
