(* ===== verification/Spec2Isabelle.thy ===== *)
theory Spec2Isabelle
  imports Pipeline Deletion DriveFiles DriveWorker Models Scripts Evaluation
begin

text \<open>
A verification library of the A-PAG knowledge base: a service that takes in Word, PowerPoint, Excel and PDF files by upload
or from Google Drive, checks them, extracts, cleans, chunks and embeds their text in a job pipeline, and answers questions
over them, showing every caller only what he may see and sending outside only what is public. The program is under
\<open>src/src/\<close>; the paths below are relative to it.

\<^bold>\<open>How the parts interact.\<close> An upload (\<open>api/v1/ingestion.py\<close>, \<open>document_pipeline/upload_service.py\<close>) or the Drive connector
(\<open>connectors/drive\<close>) writes a row of \<open>documents\<close>, an object in storage and a SCAN job. Workers (\<open>workers/base_worker.py\<close>)
claim jobs from the \<open>jobs\<close> table, run the handler of the stage (\<open>scan\<close>, \<open>extraction\<close>, \<open>normalization\<close>, \<open>chunking\<close>,
\<open>embedding\<close>\<open>_job_handler.py\<close>) and queue the next stage; each handler reads the artifact of the stage before it from
storage and writes its own, and changes the document's status and its \<open>document_chunks\<close>. Retrieval reads the chunks of
live documents through the visibility rule (\<open>modules/auth/access.py\<close>), and generation sends what the gateway
(\<open>modules/gateway\<close>) lets across to an external model. Every change appends to the audit log.

\<^bold>\<open>Theories and the code they model.\<close>

\<^item> \<open>Prelude\<close>, \<open>PyText\<close>, \<open>PyRegex\<close>, \<open>PyNumber\<close>: byte strings, results, Python's string methods, the part of \<open>re\<close> the program
  uses (a backtracking matcher), and \<open>int\<close>, \<open>float\<close>, number formats and ISO dates.
\<^item> \<open>DataModel\<close> (\<open>db/enums.py\<close>, \<open>db/models.py\<close>, \<open>audit/service.py\<close>): the rows as records, the enumerations as datatypes, the
  shared \<open>world\<close> of documents, chunks, jobs, storage and audit log.
\<^item> \<open>Access\<close> (\<open>modules/auth/access.py\<close>), \<open>Accounts\<close> (\<open>modules/auth\<close>, \<open>api/v1/auth.py\<close>).
\<^item> \<open>Validation\<close> (\<open>formats.py\<close>, \<open>validation.py\<close>), \<open>Storage\<close> (\<open>storage_keys.py\<close>, \<open>storage/\<close>), \<open>Repository\<close> (\<open>repository.py\<close>, both the
  PostgreSQL and the in-memory one), \<open>JobQueue\<close> (\<open>workers/base_worker.py\<close>, as statements and as an inductive step relation),
  \<open>ScanHandler\<close> (\<open>scan_job_handler.py\<close>), \<open>Upload\<close> (\<open>upload_service.py\<close>), \<open>Erasure\<close> (\<open>erasure.py\<close>), \<open>Ingestion\<close> and \<open>Deletion\<close>
  (\<open>api/v1/ingestion.py\<close>).
\<^item> \<open>Artifacts\<close> (\<open>extraction/models.py\<close>, \<open>extraction/service.py\<close>, \<open>extraction/grid.py\<close>, \<open>normalization/models.py\<close>, \<open>chunking/models.py\<close>),
  \<open>Charts\<close> (\<open>extraction/charts.py\<close>), \<open>Slides\<close>, \<open>Sheets\<close>, \<open>WordDocs\<close>, \<open>PdfPages\<close> (\<open>extraction/extractors.py\<close>, \<open>extraction/ocr.py\<close>),
  \<open>PictureTables\<close> (\<open>extraction/picture_tables.py\<close>), \<open>Pictures\<close> (\<open>extraction/picture_source.py\<close>, \<open>extraction/pictures.py\<close>). \<open>PdfPages\<close>
  ties the extractors and the picture reader into the extraction service of \<open>Artifacts\<close>, which the stages take as a
  parameter.
\<^item> \<open>Normalize\<close> (\<open>normalization/\<close>), \<open>Chunker\<close> (\<open>chunking/\<close>), \<open>StageHandlers\<close> (the four handlers after SCAN and their workers),
  \<open>Pipeline\<close> (the stages composed).
\<^item> \<open>Recognizers\<close> and \<open>Gateway\<close> (\<open>modules/gateway\<close>), \<open>Retrieval\<close> (\<open>modules/retrieval\<close>, \<open>api/v1/retrieval.py\<close>), \<open>Generation\<close>
  (\<open>modules/generation\<close>, \<open>api/v1/ask.py\<close>).
\<^item> \<open>DriveListing\<close> (\<open>drive/client.py\<close>, \<open>models.py\<close>, \<open>export_map.py\<close>), \<open>DriveSync\<close> (\<open>drive/service.py\<close>), \<open>DriveReconcile\<close>, \<open>DrivePass\<close> and
  \<open>DriveFiles\<close> (its invariants and histories of one file), \<open>DriveWorker\<close> (\<open>workers/drive_sync_worker.py\<close>).
\<^item> \<open>Models\<close> (\<open>embedding/provider.py\<close>, \<open>embedding/tokenizer_only.py\<close>, \<open>retrieval/rerank.py\<close>), \<open>Scripts\<close> (\<open>backfill_jobs.py\<close>,
  \<open>bulk_ingest.py\<close>, beside \<open>src/\<close>), \<open>Evaluation\<close> (\<open>run_eval.py\<close>, \<open>build_eval_set.py\<close>, \<open>run_ragas.py\<close>, \<open>run_quality_suite.py\<close>,
  \<open>compare_extraction.py\<close>).

\<^bold>\<open>State and operations.\<close> A class or table row is a record with the source's fields, an enumeration a datatype, a handler a
function from the state before it to the state after it with its result; a raise is \<open>Inl\<close> or \<open>None\<close>. Where another process
can run between two commits the handler is split there, and the claims about interleavings are about sequences of those
steps. The job queue is also an inductive relation, with its invariants by rule induction.

\<^bold>\<open>Interfaces.\<close> \<open>document_repository\<close> (interpreted on both repositories), \<open>object_storage\<close> (on the file store) and
\<open>deletion_record\<close> (on the audit entry of a deletion) and \<open>lazy_resource\<close> (on the OCR engine, the picture reader and the reranker)
are locales; their clients' lemmas are proved once inside them.

\<^bold>\<open>What the lemmas show.\<close> \<open>Access\<close>: the SQL clause and the Python rule agree. \<open>Validation\<close>: exactly what the ladder accepts,
and that an accepted archive stays inside its directory. \<open>Repository\<close>: constraints survive every operation, write-backs
never change a tier, and the in-memory repository simulates the SQL one. \<open>JobQueue\<close>: the order of claims, leases, and the
bound on attempts. \<open>ScanHandler\<close>, \<open>StageHandlers\<close>, \<open>Pipeline\<close>: lifecycles, duplicates, faults and redelivery, and that a valid
document becomes live. \<open>Gateway\<close>, \<open>Recognizers\<close>, \<open>Generation\<close>: only public passages cross, redaction is consistent, citations
point to what was sent. \<open>Retrieval\<close>: hidden passages have no influence on a result and take no slot of a page. \<open>Slides\<close>,
\<open>Sheets\<close>, \<open>WordDocs\<close>, \<open>PdfPages\<close>, \<open>Pictures\<close>, \<open>PictureTables\<close>, \<open>Normalize\<close>, \<open>Chunker\<close>: no text is lost, tables stay under their
heading, OCR keeps to its budget and its output is marked, cleaned text is clean. \<open>Ingestion\<close>, \<open>Deletion\<close>, \<open>Accounts\<close>: who may
change what, and that a deletion is complete. The Drive theories: folders set tiers, walks end, versions of a file settle
and vanished files leave search, and when the next pass runs. \<open>Models\<close>: vectors have the width of the column, and passages are
measured in the model's tokens. \<open>Scripts\<close>: a backfill never queues twice and a bulk run accounts for every file. \<open>Evaluation\<close>: scores
add up, drafted sets are sound, the judge sees only public passages, and the quality suite goes past the boundary.

\<^bold>\<open>Fuel and termination.\<close> Loops over lists are recursion on the list. \<open>skip_titles\<close> has one unit of fuel per row and spends one
per row it passes; the folder walk of \<open>DriveListing\<close> is bounded by the depth limit of the code; the worker loop of \<open>DriveWorker\<close> by
the number of looks it is given. Everything else terminates by a size measure.

\<^bold>\<open>Abstractions.\<close> Text is Latin-1, so case and character classes are those of 256 characters; dashes and arrows outside it
that the program writes appear as \<open>-\<close>, \<open>->\<close>, \<open><->\<close> and \<open>--\<close>. Floats are exact rationals. Times are whole seconds, and the clock
stands still within one pass or request. Where SQL leaves the order of equal keys open, the model keeps the stored order.
Storage and database faults are flags of the environment. Parameters stand for code outside the repository: NFKC and
language detection, pypdf, pdfplumber, pypdfium2, python-docx, python-pptx, openpyxl, lxml and zipfile (as what they hand
back), OpenCV, img2table and RapidOCR, emf2svg and rsvg-convert, embedding, BM25 and cross-encoder models, bcrypt and JWT,
the model provider's and Drive's HTTP replies, and time zone data.

\<^bold>\<open>Not modelled.\<close> Database migrations, the engine, the settings class (its values are parameters) and the router hold no logic of their own; the worker
and server entry points, signal handlers, heartbeat files and log messages only talk to the operating system; Drive
credentials wrap Google's library. Of the scripts beside \<open>src/\<close>, \<open>drive_sync.py\<close> runs one modelled pass and
prints its report.
\<close>

end
